(* ===== verification/Prelude.thy ===== *)
theory Prelude
  imports Main "HOL-Library.Word"
begin

text \<open>
  Shared vocabulary of the development: the C integer types of \<^verbatim>\<open>src/include/types.h\<close>
  as words, the error codes of \<^verbatim>\<open>src/include/error.h\<close>, the outcome of code that may
  panic through \<^verbatim>\<open>BUG\<close> (\<^verbatim>\<open>src/include/bug.h\<close>), and the generic lemmas on
  lists and words that the component theories share.
\<close>

unbundle bit_operations_syntax

section \<open>Machine types\<close>

type_synonym u8 = "8 word"
type_synonym u16 = "16 word"
type_synonym u32 = "32 word"
type_synonym u64 = "64 word"

text \<open>
  Addresses are natural numbers; \<open>0\<close> is \<^verbatim>\<open>NULL\<close>. C objects do not wrap around the
  end of the address space, so pointer arithmetic inside an object is arithmetic on \<^typ>\<open>nat\<close>.
\<close>

type_synonym ptr = nat

abbreviation (input) NULL :: ptr where "NULL \<equiv> 0"

section \<open>Error codes\<close>

definition ERR_OK :: int where "ERR_OK = 0"
definition ERR_INVAL_ARG :: int where "ERR_INVAL_ARG = -1"
definition ERR_NOT_INIT :: int where "ERR_NOT_INIT = -2"
definition ERR_NOT_IMPLEMENTED :: int where "ERR_NOT_IMPLEMENTED = -3"
definition ERR_FATAL :: int where "ERR_FATAL = -4"
definition ERR_MEMALLOC :: int where "ERR_MEMALLOC = -5"
definition ERR_NO_RESOURCE :: int where "ERR_NO_RESOURCE = -6"
definition ERR_NOT_FOUND :: int where "ERR_NOT_FOUND = -7"
definition ERR_BUSY :: int where "ERR_BUSY = -8"
definition ERR_GENERIC :: int where "ERR_GENERIC = -9"
definition ERR_ALIGN :: int where "ERR_ALIGN = -10"
definition ERR_TIMEOUT :: int where "ERR_TIMEOUT = -11"
definition ERR_RETRY :: int where "ERR_RETRY = -12"

named_theorems err_defs \<open>the values of the error codes\<close>

lemmas err_code_defs [err_defs] =
  ERR_OK_def ERR_INVAL_ARG_def ERR_NOT_INIT_def ERR_NOT_IMPLEMENTED_def ERR_FATAL_def
  ERR_MEMALLOC_def ERR_NO_RESOURCE_def ERR_NOT_FOUND_def ERR_BUSY_def ERR_GENERIC_def
  ERR_ALIGN_def ERR_TIMEOUT_def ERR_RETRY_def

section \<open>Panics\<close>

text \<open>
  \<^verbatim>\<open>BUG(expr, msg)\<close> calls \<^verbatim>\<open>kernel_panic(msg)\<close> when \<^verbatim>\<open>expr\<close> holds, and a
  panic never returns. Code with a \<^verbatim>\<open>BUG\<close> returns \<open>Inl\<close> of the message or
  \<open>Inr\<close> of its result. Memory accesses that leave the object they index are undefined in C;
  where the code can reach one, the model returns \<open>Inl\<close> as well, with a message that says so.
\<close>

type_synonym panic = string
type_synonym 'a kres = "panic + 'a"

definition kbind :: "'a kres \<Rightarrow> ('a \<Rightarrow> 'b kres) \<Rightarrow> 'b kres" where
  "kbind m f = (case m of Inl e \<Rightarrow> Inl e | Inr x \<Rightarrow> f x)"

lemma kbind_simps [simp]:
  "kbind (Inl e) f = Inl e"
  "kbind (Inr x) f = f x"
  by (simp_all add: kbind_def)

lemma kbind_eq_Inr: "kbind m f = Inr y \<longleftrightarrow> (\<exists>x. m = Inr x \<and> f x = Inr y)"
  by (cases m) auto

lemma kbindE:
  assumes "kbind m f = Inr y"
  obtains x where "m = Inr x" "f x = Inr y"
  using assms by (cases m) auto

text \<open>
  Code that may also loop forever returns \<open>None\<close> for that (\<^theory_text>\<open>partial_function (option)\<close>), and
  \<open>Some\<close> of a \<open>kres\<close> when it comes back or panics.
\<close>

type_synonym 'a run = "'a kres option"

definition run_bind :: "'a run \<Rightarrow> ('a \<Rightarrow> 'b run) \<Rightarrow> 'b run" where
  "run_bind m f = Option.bind m (\<lambda>r. case r of Inl e \<Rightarrow> Some (Inl e) | Inr x \<Rightarrow> f x)"

lemma run_bind_simps [simp]:
  "run_bind None f = None"
  "run_bind (Some (Inl e)) f = Some (Inl e)"
  "run_bind (Some (Inr x)) f = f x"
  by (simp_all add: run_bind_def)

lemma run_bind_mono [partial_function_mono]:
  fixes m :: "('a \<Rightarrow> 'b option) \<Rightarrow> 'c run" and f :: "'c \<Rightarrow> ('a \<Rightarrow> 'b option) \<Rightarrow> 'd run"
  assumes "mono_option m" "\<And>y. mono_option (f y)"
  shows "mono_option (\<lambda>g. run_bind (m g) (\<lambda>y. f y g))"
  unfolding run_bind_def
proof (rule bind_mono [OF assms(1)])
  fix r :: "string + 'c"
  show "mono_option (\<lambda>g. case r of Inl e \<Rightarrow> Some (Inl e) | Inr x \<Rightarrow> f x g)"
    by (cases r) (simp_all add: assms(2) option.const_mono)
qed

lemma run_bind_eq_Some: "run_bind m f = Some (Inr y) \<longleftrightarrow> (\<exists>x. m = Some (Inr x) \<and> f x = Some (Inr y))"
  by (cases m; simp add: run_bind_def split: sum.splits)

section \<open>Lists\<close>

lemma remove1_split: "x \<notin> set ys \<Longrightarrow> remove1 x (ys @ x # zs) = ys @ zs"
  by (simp add: remove1_append)

lemma in_set_split_distinct:
  assumes "x \<in> set xs" and "distinct xs"
  obtains ys zs where "xs = ys @ x # zs" "x \<notin> set ys" "x \<notin> set zs"
  using assms by (metis distinct.simps(2) distinct_append in_set_conv_decomp_first)

lemma nth_upt_map [simp]: "i < n \<Longrightarrow> map f [0..<n] ! i = f i"
  by simp

lemma list_update_numeral [simp]: "(x # xs)[numeral k := y] = x # xs[pred_numeral k := y]"
  by (simp add: numeral_eq_Suc)

section \<open>Words\<close>

lemma unat_u8_less: "unat (c :: u8) < 256"
proof -
  have "unat c < 2 ^ LENGTH(8)" by (rule unsigned_less)
  then show ?thesis by simp
qed

lemma sint_u64_small:
  assumes "unat (w :: u64) < 2 ^ 63"
  shows "sint w = int (unat w)"
proof -
  have "int (unat w) < 2 ^ 63" using assms by (metis of_nat_less_iff of_nat_numeral of_nat_power)
  then have u: "uint w < 2 ^ 63" by simp
  have "sint w = signed_take_bit 63 (uint w)" by (simp add: sint_uint)
  also have "\<dots> = uint w" using u order_trans [OF _ uint_ge_0 [of w], of "- (2 ^ 63)"]
    by (intro signed_take_bit_int_eq_self) simp_all
  finally show ?thesis by simp
qed

text \<open>The magnitude of a two's complement number.\<close>

lemma unat_magnitude:
  fixes a :: "'a :: len word"
  shows "int (unat (if sint a < 0 then - a else a)) = \<bar>sint a\<bar>"
proof -
  have lt: "\<bar>sint a\<bar> < 2 ^ LENGTH('a)"
  proof -
    have "\<bar>sint a\<bar> \<le> 2 ^ (LENGTH('a) - 1)" using sint_ge [of a] sint_lt [of a] by (auto simp: abs_le_iff)
    also have "\<dots> < (2 :: int) ^ LENGTH('a)" by (intro power_strict_increasing) auto
    finally show ?thesis .
  qed
  have "(of_int \<bar>sint a\<bar> :: 'a word) = (if sint a < 0 then - a else a)" by simp
  then have "uint (if sint a < 0 then - a else a) = \<bar>sint a\<bar> mod 2 ^ LENGTH('a)"
    by (metis uint_word_of_int)
  also have "\<dots> = \<bar>sint a\<bar>" using lt by (intro mod_pos_pos_trivial) auto
  finally show ?thesis by simp
qed

lemma unat_Suc_less:
  fixes s :: "'a :: len word"
  assumes "s < e"
  shows "unat (s + 1) = unat s + 1"
proof -
  have "unat s < unat e" using assms by (simp add: word_less_nat_alt)
  moreover have "unat e < 2 ^ LENGTH('a)" by (rule unsigned_less)
  ultimately have "unat s + 1 < 2 ^ LENGTH('a)" by linarith
  then show ?thesis by (simp add: unat_word_ariths)
qed

end
