(* ===== verification/Linked_List.thy ===== *)
theory Linked_List
  imports Prelude
begin

text \<open>
  The intrusive circular doubly-linked lists of \<^verbatim>\<open>src/include/list.h\<close>, on which the
  scheduler, the DMA allocator, the semaphores and the USB transfer queue are built. The heap
  holds the two fields of \<^verbatim>\<open>struct list_head\<close>; a container and its embedded node are
  identified (\<^verbatim>\<open>container_of\<close> subtracts a constant offset).
\<close>

section \<open>The operations of list.h\<close>

record list_heap =
  nxt :: "ptr \<Rightarrow> ptr"
  prv :: "ptr \<Rightarrow> ptr"

definition set_next :: "ptr \<Rightarrow> ptr \<Rightarrow> list_heap \<Rightarrow> list_heap" where
  "set_next p v h = h\<lparr>nxt := (nxt h)(p := v)\<rparr>"

definition set_prev :: "ptr \<Rightarrow> ptr \<Rightarrow> list_heap \<Rightarrow> list_heap" where
  "set_prev p v h = h\<lparr>prv := (prv h)(p := v)\<rparr>"

definition INIT_LIST_HEAD :: "ptr \<Rightarrow> list_heap \<Rightarrow> list_heap" where
  "INIT_LIST_HEAD l h = set_prev l l (set_next l l h)"

definition list_empty :: "ptr \<Rightarrow> list_heap \<Rightarrow> bool" where
  "list_empty hd0 h \<longleftrightarrow> nxt h hd0 = hd0"

definition list_add_between :: "ptr \<Rightarrow> ptr \<Rightarrow> ptr \<Rightarrow> list_heap \<Rightarrow> list_heap" where
  "list_add_between new prev next h =
     (let h = set_prev next new h;
          h = set_next new next h;
          h = set_prev new prev h
      in set_next prev new h)"

definition list_add :: "ptr \<Rightarrow> ptr \<Rightarrow> list_heap \<Rightarrow> list_heap" where
  "list_add new hd0 h = list_add_between new hd0 (nxt h hd0) h"

definition list_add_tail :: "ptr \<Rightarrow> ptr \<Rightarrow> list_heap \<Rightarrow> list_heap" where
  "list_add_tail new hd0 h = list_add_between new (prv h hd0) hd0 h"

definition list_first_entry :: "ptr \<Rightarrow> list_heap \<Rightarrow> ptr" where
  "list_first_entry hd0 h = nxt h hd0"

definition list_next_entry :: "ptr \<Rightarrow> list_heap \<Rightarrow> ptr" where
  "list_next_entry pos h = nxt h pos"

definition list_next_entry_or_null :: "ptr \<Rightarrow> list_heap \<Rightarrow> ptr" where
  "list_next_entry_or_null hd0 h = (let pos = nxt h hd0 in if pos \<noteq> hd0 then pos else NULL)"

definition unlink_entry :: "ptr \<Rightarrow> list_heap \<Rightarrow> list_heap" where
  "unlink_entry e h =
     (let h = set_next (prv h e) (nxt h e) h;
          h = set_prev (nxt h e) (prv h e) h;
          h = set_next e NULL h
      in set_prev e NULL h)"

definition list_del :: "ptr \<Rightarrow> list_heap \<Rightarrow> list_heap" where
  "list_del e h = unlink_entry e h"

definition list_del_init :: "ptr \<Rightarrow> list_heap \<Rightarrow> list_heap" where
  "list_del_init e h =
     (let h = unlink_entry e h;
          h = set_prev e e h
      in set_next e e h)"

definition list_move :: "ptr \<Rightarrow> ptr \<Rightarrow> list_heap \<Rightarrow> list_heap" where
  "list_move e hd0 h = list_add e hd0 (unlink_entry e h)"

definition list_move_tail :: "ptr \<Rightarrow> ptr \<Rightarrow> list_heap \<Rightarrow> list_heap" where
  "list_move_tail e hd0 h = list_add_tail e hd0 (unlink_entry e h)"

text \<open>
  \<^verbatim>\<open>list_for_each_entry\<close> visits the nodes from \<^verbatim>\<open>head->next\<close> until it is back
  at the head. Here the visited nodes are collected; a ring that never returns to the head makes
  the loop run forever, which is \<open>None\<close>.
\<close>

partial_function (option) list_walk :: "list_heap \<Rightarrow> ptr \<Rightarrow> ptr \<Rightarrow> ptr list option" where
  "list_walk h hd0 pos =
     (if pos = hd0 then Some []
      else Option.bind (list_walk h hd0 (list_next_entry pos h)) (\<lambda>xs. Some (pos # xs)))"

definition list_for_each_entry :: "ptr \<Rightarrow> list_heap \<Rightarrow> ptr list option" where
  "list_for_each_entry hd0 h = list_walk h hd0 (list_first_entry hd0 h)"

section \<open>Rings as lists\<close>

named_theorems list_h \<open>unfolding the list operations to field updates\<close>

lemmas list_heap_defs [list_h] =
  set_next_def set_prev_def INIT_LIST_HEAD_def list_empty_def list_add_between_def list_add_def
  list_add_tail_def list_first_entry_def list_next_entry_def list_next_entry_or_null_def
  unlink_entry_def list_del_def list_del_init_def list_move_def list_move_tail_def

text \<open>\<open>seg h p xs q\<close>: following \<open>next\<close> from \<open>p\<close> visits \<open>xs\<close> and then
  reaches \<open>q\<close>, and the \<open>prev\<close> pointers lead back the same way.\<close>

fun seg :: "list_heap \<Rightarrow> ptr \<Rightarrow> ptr list \<Rightarrow> ptr \<Rightarrow> bool" where
  "seg h p [] q \<longleftrightarrow> nxt h p = q \<and> prv h q = p"
| "seg h p (x # xs) q \<longleftrightarrow> nxt h p = x \<and> prv h x = p \<and> seg h x xs q"

definition ring :: "list_heap \<Rightarrow> ptr \<Rightarrow> ptr list \<Rightarrow> bool" where
  "ring h hd0 xs \<longleftrightarrow> distinct (hd0 # xs) \<and> seg h hd0 xs hd0"

lemma seg_append: "seg h p (xs @ y # ys) q \<longleftrightarrow> seg h p xs y \<and> seg h y ys q"
  by (induction xs arbitrary: p) auto

lemma seg_cong:
  assumes "\<And>a. a = p \<or> a \<in> set xs \<Longrightarrow> nxt h' a = nxt h a"
    and "\<And>a. a = q \<or> a \<in> set xs \<Longrightarrow> prv h' a = prv h a"
  shows "seg h' p xs q = seg h p xs q"
  using assms by (induction xs arbitrary: p) auto

lemma seg_first: "seg h p xs q \<Longrightarrow> nxt h p = (case xs of [] \<Rightarrow> q | x # _ \<Rightarrow> x)"
  by (cases xs) auto

lemma seg_last: "seg h p xs q \<Longrightarrow> prv h q = (if xs = [] then p else last xs)"
  by (induction xs arbitrary: p) auto

lemma seg_set_next_other:
  "a \<noteq> p \<Longrightarrow> a \<notin> set xs \<Longrightarrow> seg (set_next a v h) p xs q = seg h p xs q"
  by (rule seg_cong) (auto simp: set_next_def)

lemma seg_set_prev_other:
  "a \<noteq> q \<Longrightarrow> a \<notin> set xs \<Longrightarrow> seg (set_prev a v h) p xs q = seg h p xs q"
  by (rule seg_cong) (auto simp: set_prev_def)

lemma field_updates [simp]:
  "nxt (set_next p v h) = (nxt h)(p := v)" "prv (set_next p v h) = prv h"
  "prv (set_prev p v h) = (prv h)(p := v)" "nxt (set_prev p v h) = nxt h"
  by (simp_all add: set_next_def set_prev_def)

subsection \<open>Insertion and removal on one ring\<close>

lemma ring_INIT_LIST_HEAD: "ring (INIT_LIST_HEAD l h) l []"
  by (simp add: ring_def INIT_LIST_HEAD_def)

lemma seg_insert_last:
  assumes "seg h p xs q" and "distinct (p # xs)" and "q \<notin> set xs" and "n \<notin> set (p # q # xs)"
  shows "seg (list_add_between n (prv h q) q h) p (xs @ [n]) q"
proof (cases xs rule: rev_cases)
  case Nil
  with assms show ?thesis by (auto simp: list_add_between_def Let_def)
next
  case (snoc ys z)
  let ?h = "list_add_between n z q h"
  from assms snoc have sg: "seg h p ys z" "nxt h z = q" "prv h q = z" by (auto simp: seg_append)
  have "seg ?h p ys z = seg h p ys z"
    using assms snoc by (intro seg_cong) (auto simp: list_add_between_def Let_def)
  with sg assms snoc show ?thesis
    by (auto simp: seg_append list_add_between_def Let_def)
qed

lemma seg_insert_first:
  assumes "seg h p xs q" and "distinct (p # xs)" and "q \<notin> set xs" and "n \<notin> set (p # q # xs)"
  shows "seg (list_add_between n p (nxt h p) h) p (n # xs) q"
proof (cases xs)
  case Nil
  with assms show ?thesis by (auto simp: list_add_between_def Let_def)
next
  case (Cons x ys)
  let ?h = "list_add_between n p x h"
  from assms Cons have sg: "seg h x ys q" "nxt h p = x" "prv h x = p" by auto
  have "seg ?h x ys q = seg h x ys q"
    using assms Cons by (intro seg_cong) (auto simp: list_add_between_def Let_def)
  with sg assms Cons show ?thesis
    by (auto simp: list_add_between_def Let_def)
qed

lemma seg_unlink:
  assumes "seg h p (xs @ x # ys) q" and "distinct (p # xs @ x # ys)" and "q \<notin> set (xs @ x # ys)"
  shows "seg (unlink_entry x h) p (xs @ ys) q"
proof -
  let ?h = "unlink_entry x h"
  from assms have s: "seg h p xs x" "seg h x ys q" by (simp_all add: seg_append)
  define a where "a = (if xs = [] then p else last xs)"
  define b where "b = (case ys of [] \<Rightarrow> q | y # _ \<Rightarrow> y)"
  have ab: "prv h x = a" "nxt h x = b"
    using seg_last [OF s(1)] seg_first [OF s(2)] by (simp_all add: a_def b_def)
  have neq: "a \<noteq> x" "b \<noteq> x" using assms by (auto simp: a_def b_def split: if_splits list.splits)
  have hn: "nxt ?h = (nxt h)(a := b, x := NULL)" "prv ?h = (prv h)(b := a, x := NULL)"
    using ab neq by (simp_all add: unlink_entry_def Let_def)
  show ?thesis
  proof (cases xs rule: rev_cases)
    case Nil
    show ?thesis
    proof (cases ys)
      case Nil
      with \<open>xs = []\<close> show ?thesis using hn neq by (auto simp: a_def b_def)
    next
      case (Cons y zs)
      have "seg ?h y zs q = seg h y zs q"
        using assms Nil Cons hn a_def b_def by (intro seg_cong) auto
      with s Nil Cons hn neq show ?thesis by (auto simp: a_def b_def)
    qed
  next
    case (snoc us a')
    have 1: "seg ?h p us a' = seg h p us a'"
      using assms snoc hn a_def b_def by (intro seg_cong) (auto split: list.splits)
    show ?thesis
    proof (cases ys)
      case Nil
      with 1 s snoc hn neq show ?thesis by (auto simp: seg_append a_def b_def)
    next
      case (Cons y zs)
      have "seg ?h y zs q = seg h y zs q"
        using assms snoc Cons hn a_def b_def by (intro seg_cong) auto
      with 1 s snoc Cons hn neq show ?thesis by (auto simp: seg_append a_def b_def)
    qed
  qed
qed

section \<open>Families of rings\<close>

text \<open>
  \<open>rings h H Q\<close>: the heap holds, for every head in \<open>H\<close>, a ring whose nodes are
  \<open>Q\<close> of the head, and no node is on two rings. A node that is linked to itself
  (\<^verbatim>\<open>INIT_LIST_HEAD\<close>) is a head with an empty ring.
\<close>

definition nodes :: "ptr set \<Rightarrow> (ptr \<Rightarrow> ptr list) \<Rightarrow> ptr set" where
  "nodes H Q = (\<Union>a\<in>H. set (a # Q a))"

definition rings :: "list_heap \<Rightarrow> ptr set \<Rightarrow> (ptr \<Rightarrow> ptr list) \<Rightarrow> bool" where
  "rings h H Q \<longleftrightarrow> (\<forall>a\<in>H. ring h a (Q a)) \<and>
     (\<forall>a\<in>H. \<forall>b\<in>H. a \<noteq> b \<longrightarrow> set (a # Q a) \<inter> set (b # Q b) = {})"

lemma rings_ring: "rings h H Q \<Longrightarrow> a \<in> H \<Longrightarrow> ring h a (Q a)"
  by (simp add: rings_def)

lemma rings_disjoint: "rings h H Q \<Longrightarrow> a \<in> H \<Longrightarrow> b \<in> H \<Longrightarrow> a \<noteq> b \<Longrightarrow>
    set (a # Q a) \<inter> set (b # Q b) = {}"
  by (simp add: rings_def)

lemma ring_cong:
  assumes "\<And>a. a \<in> set (hd0 # xs) \<Longrightarrow> nxt h' a = nxt h a \<and> prv h' a = prv h a"
  shows "ring h' hd0 xs = ring h hd0 xs"
  using assms by (auto simp: ring_def intro: seg_cong [THEN iffD1] seg_cong [THEN iffD2])

lemma ring_add_tail:
  "ring h a xs \<Longrightarrow> n \<notin> set (a # xs) \<Longrightarrow> ring (list_add_tail n a h) a (xs @ [n])"
  unfolding ring_def list_add_tail_def by (auto intro: seg_insert_last)

lemma ring_add: "ring h a xs \<Longrightarrow> n \<notin> set (a # xs) \<Longrightarrow> ring (list_add n a h) a (n # xs)"
  unfolding ring_def list_add_def using seg_insert_first [of h a xs a n] by simp

lemma ring_unlink: "ring h a xs \<Longrightarrow> x \<in> set xs \<Longrightarrow> ring (unlink_entry x h) a (remove1 x xs)"
proof -
  assume r: "ring h a xs" and x: "x \<in> set xs"
  from r have "distinct xs" by (simp add: ring_def)
  with x obtain ys zs where xs: "xs = ys @ x # zs" "x \<notin> set ys" "x \<notin> set zs"
    by (rule in_set_split_distinct)
  with r show ?thesis
    using seg_unlink [of h a ys x zs a] by (auto simp: ring_def remove1_split)
qed

lemma ring_prv_mem: "ring h a xs \<Longrightarrow> x \<in> set (a # xs) \<Longrightarrow> prv h x \<in> set (a # xs)"
proof -
  assume r: "ring h a xs" and x: "x \<in> set (a # xs)"
  show ?thesis
  proof (cases "x = a")
    case True
    then show ?thesis using r seg_last [of h a xs a] by (auto simp: ring_def)
  next
    case False
    with x obtain ys zs where xs: "xs = ys @ x # zs" by (auto simp: in_set_conv_decomp)
    with r have "seg h a ys x" by (simp add: ring_def seg_append)
    from seg_last [OF this] show ?thesis by (auto simp: xs)
  qed
qed

lemma ring_nxt_mem: "ring h a xs \<Longrightarrow> x \<in> set (a # xs) \<Longrightarrow> nxt h x \<in> set (a # xs)"
proof -
  assume r: "ring h a xs" and x: "x \<in> set (a # xs)"
  show ?thesis
  proof (cases "x = a")
    case True
    then show ?thesis using r seg_first [of h a xs a] by (auto simp: ring_def split: list.splits)
  next
    case False
    with x obtain ys zs where xs: "xs = ys @ x # zs" by (auto simp: in_set_conv_decomp)
    with r have "seg h x zs a" by (simp add: ring_def seg_append)
    from seg_first [OF this] show ?thesis by (auto simp: xs split: list.splits)
  qed
qed

text \<open>What an operation leaves alone: the nodes it does not name and that are not neighbours of
  the nodes it names.\<close>

lemma list_add_between_frame:
  assumes "y \<noteq> n" "y \<noteq> p" "y \<noteq> q"
  shows "nxt (list_add_between n p q h) y = nxt h y \<and> prv (list_add_between n p q h) y = prv h y"
  using assms by (simp add: list_add_between_def Let_def)

lemma unlink_entry_frame:
  assumes "y \<noteq> x" "y \<noteq> prv h x" "y \<noteq> nxt h x"
  shows "nxt (unlink_entry x h) y = nxt h y \<and> prv (unlink_entry x h) y = prv h y"
  using assms by (auto simp: unlink_entry_def Let_def)

lemma rings_update_one:
  assumes rs: "rings h H Q" and a: "a \<in> H" and r: "ring h' a xs"
    and frame: "\<And>y. y \<notin> set (a # Q a) \<Longrightarrow> y \<notin> N \<Longrightarrow> nxt h' y = nxt h y \<and> prv h' y = prv h y"
    and sub: "set xs \<subseteq> set (Q a) \<union> N" and N: "N \<inter> nodes H Q = {}"
  shows "rings h' H (Q(a := xs))"
  unfolding rings_def
proof (intro conjI ballI impI)
  fix b assume b: "b \<in> H"
  show "ring h' b ((Q(a := xs)) b)"
  proof (cases "b = a")
    case True with r show ?thesis by simp
  next
    case False
    have "ring h' b (Q b) = ring h b (Q b)"
    proof (rule ring_cong)
      fix y assume y: "y \<in> set (b # Q b)"
      moreover from y b N have "y \<notin> N" by (auto simp: nodes_def)
      moreover from y rings_disjoint [OF rs a b] False have "y \<notin> set (a # Q a)" by blast
      ultimately show "nxt h' y = nxt h y \<and> prv h' y = prv h y" by (intro frame)
    qed
    with rings_ring [OF rs b] False show ?thesis by simp
  qed
next
  have key: "set (a # xs) \<inter> set (b # Q b) = {}" if "b \<in> H" "b \<noteq> a" for b
  proof -
    have "N \<inter> set (b # Q b) = {}" using N that by (auto simp: nodes_def)
    moreover have "set (a # Q a) \<inter> set (b # Q b) = {}"
      using rings_disjoint [OF rs a] that by blast
    ultimately show ?thesis using sub by auto
  qed
  fix b c assume bc: "b \<in> H" "c \<in> H" "b \<noteq> c"
  show "set (b # (Q(a := xs)) b) \<inter> set (c # (Q(a := xs)) c) = {}"
    using key [of b] key [of c] rings_disjoint [OF rs bc] bc by (auto simp: Int_commute)
qed

lemma rings_add_tail:
  assumes rs: "rings h H Q" and a: "a \<in> H" and n: "n \<notin> nodes H Q"
  shows "rings (list_add_tail n a h) H (Q(a := Q a @ [n]))"
proof (rule rings_update_one [OF rs a, where N = "{n}"])
  have n': "n \<notin> set (a # Q a)" using n a by (auto simp: nodes_def)
  show "ring (list_add_tail n a h) a (Q a @ [n])"
    by (rule ring_add_tail [OF rings_ring [OF rs a] n'])
  fix y assume "y \<notin> set (a # Q a)" "y \<notin> {n}"
  with ring_prv_mem [OF rings_ring [OF rs a], of a]
  show "nxt (list_add_tail n a h) y = nxt h y \<and> prv (list_add_tail n a h) y = prv h y"
    unfolding list_add_tail_def by (intro list_add_between_frame) auto
qed (use n in auto)

lemma rings_add:
  assumes rs: "rings h H Q" and a: "a \<in> H" and n: "n \<notin> nodes H Q"
  shows "rings (list_add n a h) H (Q(a := n # Q a))"
proof (rule rings_update_one [OF rs a, where N = "{n}"])
  have n': "n \<notin> set (a # Q a)" using n a by (auto simp: nodes_def)
  show "ring (list_add n a h) a (n # Q a)"
    by (rule ring_add [OF rings_ring [OF rs a] n'])
  fix y assume "y \<notin> set (a # Q a)" "y \<notin> {n}"
  with ring_nxt_mem [OF rings_ring [OF rs a], of a]
  show "nxt (list_add n a h) y = nxt h y \<and> prv (list_add n a h) y = prv h y"
    unfolding list_add_def by (intro list_add_between_frame) auto
qed (use n in auto)

lemma rings_unlink:
  assumes rs: "rings h H Q" and a: "a \<in> H" and x: "x \<in> set (Q a)"
  shows "rings (unlink_entry x h) H (Q(a := remove1 x (Q a)))"
proof (rule rings_update_one [OF rs a, where N = "{}"])
  show "ring (unlink_entry x h) a (remove1 x (Q a))"
    by (rule ring_unlink [OF rings_ring [OF rs a] x])
  fix y assume "y \<notin> set (a # Q a)" "y \<notin> {}"
  with ring_nxt_mem [OF rings_ring [OF rs a], of x] ring_prv_mem [OF rings_ring [OF rs a], of x] x
  show "nxt (unlink_entry x h) y = nxt h y \<and> prv (unlink_entry x h) y = prv h y"
    by (intro unlink_entry_frame) auto
qed (use set_remove1_subset in fastforce)+

lemma rings_init:
  assumes rs: "rings h H Q" and l: "l \<notin> nodes H Q"
  shows "rings (INIT_LIST_HEAD l h) (insert l H) (Q(l := []))"
proof -
  have "ring (INIT_LIST_HEAD l h) b (Q b)" if "b \<in> H" for b
  proof -
    have "ring (INIT_LIST_HEAD l h) b (Q b) = ring h b (Q b)"
      using that l by (intro ring_cong) (auto simp: INIT_LIST_HEAD_def nodes_def)
    with rings_ring [OF rs that] show ?thesis by simp
  qed
  moreover have "l \<notin> H" using l by (auto simp: nodes_def)
  ultimately show ?thesis
    using rs l ring_INIT_LIST_HEAD [of l h] unfolding rings_def nodes_def by auto
qed

lemma rings_drop: "rings h H Q \<Longrightarrow> rings h (H - {x}) Q"
  by (simp add: rings_def)

lemma rings_first: "rings h H Q \<Longrightarrow> a \<in> H \<Longrightarrow> Q a \<noteq> [] \<Longrightarrow> list_first_entry a h = hd (Q a)"
  using seg_first [of h a "Q a" a]
  by (auto simp: rings_def ring_def list_first_entry_def split: list.splits)

lemma rings_empty: "rings h H Q \<Longrightarrow> a \<in> H \<Longrightarrow> list_empty a h \<longleftrightarrow> Q a = []"
  using seg_first [of h a "Q a" a]
  by (auto simp: rings_def ring_def list_empty_def split: list.splits)

section \<open>The interface the clients rely on\<close>

text \<open>
  What the clients of \<^verbatim>\<open>list.h\<close> use: a store of rings with the operations that link
  and unlink nodes. The lemmas proved here hold for every implementation of the laws.
\<close>

locale ring_store =
  fixes wf :: "'h \<Rightarrow> ptr set \<Rightarrow> (ptr \<Rightarrow> ptr list) \<Rightarrow> bool"
    and unlink :: "ptr \<Rightarrow> 'h \<Rightarrow> 'h"
    and init_node :: "ptr \<Rightarrow> 'h \<Rightarrow> 'h"
    and link_tail :: "ptr \<Rightarrow> ptr \<Rightarrow> 'h \<Rightarrow> 'h"
    and link_head :: "ptr \<Rightarrow> ptr \<Rightarrow> 'h \<Rightarrow> 'h"
    and first :: "ptr \<Rightarrow> 'h \<Rightarrow> ptr"
    and is_empty :: "ptr \<Rightarrow> 'h \<Rightarrow> bool"
  assumes wf_distinct: "wf h H Q \<Longrightarrow> a \<in> H \<Longrightarrow> distinct (a # Q a)"
    and wf_disjoint: "wf h H Q \<Longrightarrow> a \<in> H \<Longrightarrow> b \<in> H \<Longrightarrow> a \<noteq> b \<Longrightarrow>
      set (a # Q a) \<inter> set (b # Q b) = {}"
    and wf_drop: "wf h H Q \<Longrightarrow> wf h (H - {x}) Q"
    and wf_cong: "wf h H Q \<Longrightarrow> (\<And>a. a \<in> H \<Longrightarrow> Q' a = Q a) \<Longrightarrow> wf h H Q'"
    and wf_unlink: "wf h H Q \<Longrightarrow> a \<in> H \<Longrightarrow> x \<in> set (Q a) \<Longrightarrow>
      wf (unlink x h) H (Q(a := remove1 x (Q a)))"
    and wf_unlink_self: "wf h H Q \<Longrightarrow> x \<in> H \<Longrightarrow> Q x = [] \<Longrightarrow> wf (unlink x h) (H - {x}) Q"
    and wf_init: "wf h H Q \<Longrightarrow> x \<notin> nodes H Q \<Longrightarrow> wf (init_node x h) (insert x H) (Q(x := []))"
    and wf_link_tail: "wf h H Q \<Longrightarrow> a \<in> H \<Longrightarrow> x \<notin> nodes H Q \<Longrightarrow>
      wf (link_tail x a h) H (Q(a := Q a @ [x]))"
    and wf_link_head: "wf h H Q \<Longrightarrow> a \<in> H \<Longrightarrow> x \<notin> nodes H Q \<Longrightarrow>
      wf (link_head x a h) H (Q(a := x # Q a))"
    and wf_first: "wf h H Q \<Longrightarrow> a \<in> H \<Longrightarrow> Q a \<noteq> [] \<Longrightarrow> first a h = hd (Q a)"
    and wf_is_empty: "wf h H Q \<Longrightarrow> a \<in> H \<Longrightarrow> is_empty a h \<longleftrightarrow> Q a = []"
begin

lemma unlinked_fresh:
  assumes "wf h H Q" "a \<in> H" "x \<in> set (Q a)"
  shows "x \<notin> nodes H (Q(a := remove1 x (Q a)))"
proof -
  have "x \<noteq> a" "x \<notin> set (remove1 x (Q a))"
    using wf_distinct [OF assms(1,2)] assms(3) by auto
  moreover have "x \<notin> set (b # Q b)" if "b \<in> H" "b \<noteq> a" for b
    using wf_disjoint [OF assms(1,2) that(1)] that(2) assms(3) by auto
  ultimately show ?thesis by (auto simp: nodes_def)
qed

lemma head_not_member: "wf h H Q \<Longrightarrow> a \<in> H \<Longrightarrow> b \<in> H \<Longrightarrow> a \<notin> set (Q b)"
  using wf_disjoint [of h H Q a b] wf_distinct [of h H Q a] by (cases "a = b") auto

lemma self_fresh:
  assumes "wf h H Q" "x \<in> H" "Q x = []"
  shows "x \<notin> nodes (H - {x}) Q"
  using wf_disjoint [OF assms(1,2)] assms(3) by (auto simp: nodes_def)

lemma wf_fun_upd_outside:
  assumes "wf h (insert x H) (Q(x := ys))" and "x \<notin> H"
  shows "wf h H (Q(x := ys))"
  using wf_drop [OF assms(1), of x] assms(2) by simp

text \<open>Unlinking and re-initialising a node makes it a ring of its own.\<close>

lemma detach:
  assumes "wf h H Q" "a \<in> H" "x \<in> set (Q a)"
  shows "wf (init_node x (unlink x h)) (insert x H) (Q(a := remove1 x (Q a), x := []))"
  using wf_init [OF wf_unlink [OF assms] unlinked_fresh [OF assms]] .

lemma detach_self:
  assumes "wf h H Q" "x \<in> H" "Q x = []"
  shows "wf (init_node x (unlink x h)) H Q"
proof -
  have "wf (init_node x (unlink x h)) (insert x (H - {x})) (Q(x := []))"
    by (rule wf_init [OF wf_unlink_self [OF assms] self_fresh [OF assms]])
  moreover have "insert x (H - {x}) = H" using assms(2) by auto
  moreover have "Q(x := []) = Q" using assms(3) by auto
  ultimately show ?thesis by simp
qed

text \<open>Queueing a detached node at the tail of a ring.\<close>

lemma attach_tail:
  assumes "wf h H Q" "x \<in> H" "Q x = []" "b \<in> H" "b \<noteq> x"
  shows "wf (link_tail x b h) (H - {x}) (Q(b := Q b @ [x]))"
  using wf_link_tail [OF wf_drop [OF assms(1), of x] _ self_fresh [OF assms(1,2,3)]] assms(4,5)
  by simp

text \<open>The requeue idiom: take a node off its ring, wherever it is, and append it to ring \<open>b\<close>.\<close>

lemma requeue:
  assumes "wf h H Q" "a \<in> H" "x \<in> set (Q a)" "b \<in> H" and x: "x \<notin> H"
  defines "Q' \<equiv> Q(a := remove1 x (Q a), x := [])"
  shows "wf (link_tail x b (init_node x (unlink x h))) H (Q'(b := Q' b @ [x]))"
proof -
  have bx: "b \<noteq> x" using assms(4) x by auto
  have "wf (init_node x (unlink x h)) (insert x H) Q'"
    unfolding Q'_def by (rule detach [OF assms(1,2,3)])
  then have "wf (link_tail x b (init_node x (unlink x h))) (insert x H - {x}) (Q'(b := Q' b @ [x]))"
    using assms(4) bx by (intro attach_tail) (auto simp: Q'_def)
  moreover have "insert x H - {x} = H" using x by simp
  ultimately show ?thesis by simp
qed

lemma requeue_detached:
  assumes "wf h H Q" "x \<in> H" "Q x = []" "b \<in> H" "b \<noteq> x"
  shows "wf (link_tail x b (init_node x (unlink x h))) (H - {x}) (Q(b := Q b @ [x]))"
  using attach_tail [OF detach_self [OF assms(1,2,3)] assms(2,3,4,5)] .

text \<open>The same for a node that may be on any ring or detached.\<close>

lemma requeue_any:
  assumes wf: "wf h H Q" and x: "x \<in> nodes H Q" and self: "x \<in> H \<Longrightarrow> Q x = []"
    and b: "b \<in> H" "b \<noteq> x"
  shows "wf (link_tail x b (init_node x (unlink x h))) (H - {x})
    ((\<lambda>a. remove1 x (Q a))(b := remove1 x (Q b) @ [x]))"
proof (cases "x \<in> H")
  case True
  have no: "remove1 x (Q a) = Q a" if "a \<in> H" for a
    using head_not_member [OF wf True that] by (simp add: remove1_idem)
  from requeue_detached [OF wf True self [OF True] b] show ?thesis
    by (rule wf_cong) (use no b in auto)
next
  case False
  with x obtain a where a: "a \<in> H" "x \<in> set (Q a)" by (auto simp: nodes_def)
  have no: "remove1 x (Q c) = Q c" if "c \<in> H" "c \<noteq> a" for c
    using wf_disjoint [OF wf a(1) that(1)] that(2) a(2) by (auto intro: remove1_idem)
  have "wf (link_tail x b (init_node x (unlink x h))) (H - {x})
      ((Q(a := remove1 x (Q a), x := []))(b := (Q(a := remove1 x (Q a), x := [])) b @ [x]))"
    using requeue [OF wf a b(1) False] False by simp
  then show ?thesis
    by (rule wf_cong) (use no b in \<open>auto simp: False\<close>)
qed

text \<open>Moving the first node of ring \<open>a\<close> to ring \<open>b\<close>, as an allocator does.\<close>

lemma pop_push_tail:
  assumes "wf h H Q" "a \<in> H" "b \<in> H" "a \<noteq> b" "Q a = x # xs"
  shows "first a h = x"
    and "wf (link_tail x b (unlink x h)) H (Q(a := xs, b := Q b @ [x]))"
proof -
  show "first a h = x" using wf_first [OF assms(1,2)] assms(5) by simp
  have mem: "x \<in> set (Q a)" using assms(5) by simp
  have "wf (link_tail x b (unlink x h)) H
      ((Q(a := remove1 x (Q a)))(b := (Q(a := remove1 x (Q a))) b @ [x]))"
    by (rule wf_link_tail [OF wf_unlink [OF assms(1,2) mem] assms(3)
          unlinked_fresh [OF assms(1,2) mem]])
  then show "wf (link_tail x b (unlink x h)) H (Q(a := xs, b := Q b @ [x]))"
    using assms(4,5) by simp
qed

lemma move_tail:
  assumes "wf h H Q" "a \<in> H" "b \<in> H" "a \<noteq> b" "x \<in> set (Q a)"
  shows "wf (link_tail x b (unlink x h)) H (Q(a := remove1 x (Q a), b := Q b @ [x]))"
  using wf_link_tail [OF wf_unlink [OF assms(1,2,5)] assms(3) unlinked_fresh [OF assms(1,2,5)]]
    assms(4) by simp

lemma move_head:
  assumes "wf h H Q" "a \<in> H" "b \<in> H" "a \<noteq> b" "x \<in> set (Q a)"
  shows "wf (link_head x b (unlink x h)) H (Q(a := remove1 x (Q a), b := x # Q b))"
  using wf_link_head [OF wf_unlink [OF assms(1,2,5)] assms(3) unlinked_fresh [OF assms(1,2,5)]]
    assms(4) by simp

end

lemma rings_unlink_self:
  assumes "rings h H Q" "x \<in> H" "Q x = []"
  shows "rings (unlink_entry x h) (H - {x}) Q"
proof -
  have x: "nxt h x = x" "prv h x = x" using rings_ring [OF assms(1,2)] assms(3)
    by (auto simp: ring_def)
  have "ring (unlink_entry x h) b (Q b) = ring h b (Q b)" if "b \<in> H - {x}" for b
    using that x rings_disjoint [OF assms(1,2), of b] by (intro ring_cong unlink_entry_frame) auto
  with assms(1) show ?thesis by (simp add: rings_def)
qed

interpretation ll: ring_store rings unlink_entry INIT_LIST_HEAD list_add_tail list_add
  list_first_entry list_empty
proof unfold_locales
  show "distinct (a # Q a)" if "rings h H Q" "a \<in> H" for h H Q a
    using rings_ring [OF that] by (simp add: ring_def)
  show "rings h H Q'" if "rings h H Q" "\<And>a. a \<in> H \<Longrightarrow> Q' a = Q a" for h H Q Q'
    using that by (simp add: rings_def)
qed (rule rings_disjoint rings_drop rings_unlink rings_unlink_self rings_init rings_add_tail
    rings_add rings_first rings_empty; assumption)+

lemma list_del_init_eq: "list_del_init e h = INIT_LIST_HEAD e (unlink_entry e h)"
  by (simp add: list_del_init_def INIT_LIST_HEAD_def Let_def set_next_def set_prev_def)

section \<open>Iteration\<close>

text \<open>The successor of a node in the middle of a ring.\<close>

lemma rings_next:
  assumes "rings h H Q" "a \<in> H" "Q a = xs @ x # ys"
  shows "list_next_entry x h = (case ys of [] \<Rightarrow> a | y # _ \<Rightarrow> y)"
proof -
  have "seg h a (xs @ x # ys) a" using rings_ring [OF assms(1,2)] assms(3) by (simp add: ring_def)
  then have "seg h x ys a" by (simp add: seg_append)
  then show ?thesis using seg_first by (simp add: list_next_entry_def)
qed

lemma list_walk_seg:
  assumes "seg h p xs hd0" and "hd0 \<notin> set xs"
  shows "list_walk h hd0 (nxt h p) = Some xs"
  using assms
proof (induction xs arbitrary: p)
  case Nil
  then show ?case by (simp add: list_walk.simps)
next
  case (Cons x xs)
  then have "list_walk h hd0 (nxt h x) = Some xs" by simp
  with Cons.prems show ?case by (simp add: list_walk.simps [of h hd0 x] list_next_entry_def)
qed

lemma list_for_each_entry_ring: "ring h a xs \<Longrightarrow> list_for_each_entry a h = Some xs"
  by (simp add: ring_def list_for_each_entry_def list_first_entry_def list_walk_seg)

text \<open>
  \<^verbatim>\<open>list_for_each_entry_safe(pos, tmp, head, member) body\<close>: the successor is read before
  the body runs, so the body may take \<^verbatim>\<open>pos\<close> off the list. \<open>lh\<close> reads the list
  heap of the state the body works on; \<open>None\<close> is a loop that never ends.
\<close>

partial_function (option) for_each_safe_loop ::
  "('s \<Rightarrow> list_heap) \<Rightarrow> (ptr \<Rightarrow> 's \<Rightarrow> 's kres) \<Rightarrow> ptr \<Rightarrow> ptr \<Rightarrow> ptr \<Rightarrow> 's \<Rightarrow> 's kres option" where
  "for_each_safe_loop lh body hd0 pos tmp s =
     (if pos = hd0 then Some (Inr s)
      else (case body pos s of
              Inl e \<Rightarrow> Some (Inl e)
            | Inr s' \<Rightarrow> for_each_safe_loop lh body hd0 tmp (list_next_entry tmp (lh s')) s'))"

definition list_for_each_entry_safe ::
  "('s \<Rightarrow> list_heap) \<Rightarrow> (ptr \<Rightarrow> 's \<Rightarrow> 's kres) \<Rightarrow> ptr \<Rightarrow> 's \<Rightarrow> 's kres option" where
  "list_for_each_entry_safe lh body hd0 s =
     (let pos = list_first_entry hd0 (lh s)
      in for_each_safe_loop lh body hd0 pos (list_next_entry pos (lh s)) s)"

text \<open>
  The loop is a fold over the nodes that were on the list when it began, provided the body keeps
  the successor links of the nodes still to be visited (\<open>R\<close> of the remaining nodes).
\<close>

lemma for_each_safe_loop_fold:
  assumes step: "\<And>x ys s. R (x # ys) s \<Longrightarrow> body x s = Inr (f x s) \<and> R ys (f x s)"
    and link: "\<And>x ys s. R (x # ys) s \<Longrightarrow>
      x \<noteq> hd0 \<and> nxt (lh s) x = (case ys of [] \<Rightarrow> hd0 | y # _ \<Rightarrow> y)"
    and R: "R xs s"
    and pos: "pos = (case xs of [] \<Rightarrow> hd0 | x # _ \<Rightarrow> x)"
    and tmp: "tmp = nxt (lh s) pos"
  shows "for_each_safe_loop lh body hd0 pos tmp s = Some (Inr (fold f xs s)) \<and> R [] (fold f xs s)"
  using R pos tmp
proof (induction xs arbitrary: s pos tmp)
  case Nil
  then show ?case by (simp add: for_each_safe_loop.simps)
next
  case (Cons x xs)
  from step [OF Cons.prems(1)] have b: "body x s = Inr (f x s)" and R': "R xs (f x s)" by auto
  from link [OF Cons.prems(1)] Cons.prems(2,3)
  have x: "pos = x" "x \<noteq> hd0" "tmp = (case xs of [] \<Rightarrow> hd0 | y # _ \<Rightarrow> y)" by auto
  from Cons.IH [OF R' x(3) refl] show ?case
    using b x by (simp add: for_each_safe_loop.simps [of lh body hd0 x] list_next_entry_def)
qed

lemma list_for_each_entry_safe_fold:
  assumes step: "\<And>x ys s. R (x # ys) s \<Longrightarrow> body x s = Inr (f x s) \<and> R ys (f x s)"
    and link: "\<And>x ys s. R (x # ys) s \<Longrightarrow>
      x \<noteq> hd0 \<and> nxt (lh s) x = (case ys of [] \<Rightarrow> hd0 | y # _ \<Rightarrow> y)"
    and R: "R xs s" and ring: "ring (lh s) hd0 xs"
  shows "list_for_each_entry_safe lh body hd0 s = Some (Inr (fold f xs s))"
    and "R [] (fold f xs s)"
proof -
  have first: "list_first_entry hd0 (lh s) = (case xs of [] \<Rightarrow> hd0 | x # _ \<Rightarrow> x)"
    using ring seg_first [of "lh s" hd0 xs hd0] by (simp add: ring_def list_first_entry_def)
  from for_each_safe_loop_fold [of R body f hd0 lh, OF step link R refl refl]
  show "list_for_each_entry_safe lh body hd0 s = Some (Inr (fold f xs s))" "R [] (fold f xs s)"
    by (simp_all add: list_for_each_entry_safe_def Let_def first list_next_entry_def)
qed

end
