(* ===== verification/Sched.thy ===== *)
theory Sched
  imports Linked_List
begin

text \<open>
  The scheduler of \<^verbatim>\<open>src/sched.c\<close> and \<^verbatim>\<open>src/include/sched.h\<close>, on the list heap
  of theory \<open>Linked_List\<close>. The state is the part of the kernel that one CPU's scheduler
  touches. What the code reads from the hardware (the generic timer's counter and frequency)
  is an argument of the operations; debug output is left out.
\<close>

section \<open>Data\<close>

datatype task_state_t = STOPPED | SCHEDULED | RUNNING | TIMEWAITING | FLAGWAITING

record cpuctx =
  ctx_link :: u64
  ctx_sp :: nat
  ctx_flags :: u64

record task =
  pid :: u64
  tname :: string
  cpuctx :: cpuctx
  stack_base :: nat
  ticks_left :: int
  ticks_total :: int
  task_state :: task_state_t
  timer_wait_until :: u64
  waitflag :: ptr

text \<open>
  The scheduler of the running CPU (\<^verbatim>\<open>struct scheduler\<close>: the addresses of its three list
  heads, its counter and its timer interval), the task table, the cells of type
  \<^verbatim>\<open>atomic_t\<close> that tasks wait on, and the file's static variables. The timer driver is
  seen through \<open>sched_timer_irq\<close>: what its \<^verbatim>\<open>interrupt_enable\<close> returns, or \<open>None\<close> when
  the callback is null.
\<close>

record sys =
  lh :: list_heap
  tasks :: "ptr \<Rightarrow> task"
  cells :: "ptr \<Rightarrow> u64"
  running :: ptr
  timer_waiting :: ptr
  flag_waiting :: ptr
  waitflag_is_set :: u64
  current :: ptr
  idle_task :: ptr
  pid_counter :: u64
  task_idx :: nat
  stack_idx :: u8
  tasks_base :: ptr
  stacks_base :: ptr
  irq_masked :: bool
  sched_num_switches :: nat
  preemption_by_timer :: bool
  timer_rearms :: nat
  timer_interval_ms :: u64
  sched_timer_irq :: "int option"

definition PREEMPT_TICKS :: int where "PREEMPT_TICKS = 10"
definition STACK_SIZE :: nat where "STACK_SIZE = 1024 * 1024 * 1"
definition NUM_STACKS :: nat where "NUM_STACKS = 10"
definition NUM_TASKS :: nat where "NUM_TASKS = 40"
definition sizeof_task :: nat where "sizeof_task = 448"

definition upd_task :: "ptr \<Rightarrow> (task \<Rightarrow> task) \<Rightarrow> sys \<Rightarrow> sys" where
  "upd_task t f s = s\<lparr>tasks := (tasks s)(t := f (tasks s t))\<rparr>"

section \<open>Queueing\<close>

text \<open>The alignment that \<^verbatim>\<open>BUG\<close> tests is the one the array is declared with; the lock of the
  scheduler is never taken.\<close>

definition pcpu_scheduler_init :: "sys \<Rightarrow> sys" where
  "pcpu_scheduler_init s =
     s\<lparr>lh := INIT_LIST_HEAD (flag_waiting s)
               (INIT_LIST_HEAD (timer_waiting s) (INIT_LIST_HEAD (running s) (lh s))),
       waitflag_is_set := 0, timer_interval_ms := 1000\<rparr>"

definition sched_queue_runnable_task_noirq :: "ptr \<Rightarrow> sys \<Rightarrow> sys" where
  "sched_queue_runnable_task_noirq t s =
     (let s = s\<lparr>lh := list_del_init t (lh s)\<rparr>;
          s = s\<lparr>lh := list_add_tail t (running s) (lh s)\<rparr>
      in upd_task t (task_state_update (\<lambda>_. SCHEDULED)) s)"

definition sched_queue_timewait_task_noirq :: "ptr \<Rightarrow> sys \<Rightarrow> sys" where
  "sched_queue_timewait_task_noirq t s =
     (let s = s\<lparr>lh := list_del_init t (lh s)\<rparr>;
          s = s\<lparr>lh := list_add_tail t (timer_waiting s) (lh s)\<rparr>
      in upd_task t (task_state_update (\<lambda>_. TIMEWAITING)) s)"

definition sched_queue_flagwait_task_noirq :: "ptr \<Rightarrow> sys \<Rightarrow> sys" where
  "sched_queue_flagwait_task_noirq t s =
     (let s = s\<lparr>lh := list_del_init t (lh s)\<rparr>;
          s = s\<lparr>lh := list_add_tail t (flag_waiting s) (lh s)\<rparr>
      in upd_task t (task_state_update (\<lambda>_. FLAGWAITING)) s)"

text \<open>\<^verbatim>\<open>disable_irq_save_flags\<close> / \<^verbatim>\<open>restore_irq_flags\<close> around an operation.\<close>

definition with_irq_disabled :: "(sys \<Rightarrow> sys) \<Rightarrow> sys \<Rightarrow> sys" where
  "with_irq_disabled f s = (let flags = irq_masked s in (f (s\<lparr>irq_masked := True\<rparr>))\<lparr>irq_masked := flags\<rparr>)"

definition sched_queue_runnable_task :: "ptr \<Rightarrow> sys \<Rightarrow> sys" where
  "sched_queue_runnable_task t s = with_irq_disabled (sched_queue_runnable_task_noirq t) s"

definition sched_queue_timewait_task :: "ptr \<Rightarrow> sys \<Rightarrow> sys" where
  "sched_queue_timewait_task t s = with_irq_disabled (sched_queue_timewait_task_noirq t) s"

definition sched_queue_flagwait_task :: "ptr \<Rightarrow> sys \<Rightarrow> sys" where
  "sched_queue_flagwait_task t s = with_irq_disabled (sched_queue_flagwait_task_noirq t) s"

section \<open>Task creation\<close>

text \<open>The address \<^verbatim>\<open>&tasks[task_idx++]\<close>; there are 40 slots and no check, so the use of a
  slot past the end is an access out of bounds.\<close>

definition alloc_task :: "sys \<Rightarrow> (ptr \<times> sys) kres" where
  "alloc_task s =
     (if task_idx s < NUM_TASKS
      then Inr (tasks_base s + task_idx s * sizeof_task, s\<lparr>task_idx := task_idx s + 1\<rparr>)
      else Inl ''tasks[] out of bounds'')"

definition alloc_stack :: "sys \<Rightarrow> ptr \<times> sys" where
  "alloc_stack s =
     (let s = s\<lparr>stack_idx := stack_idx s + 1\<rparr>
      in (stacks_base s + unat (stack_idx s) * STACK_SIZE, s))"

definition prep_task_ctx :: "ptr \<Rightarrow> u64 \<Rightarrow> u64 \<Rightarrow> cpuctx" where
  "prep_task_ctx sp fn flags = \<lparr>ctx_link = fn, ctx_sp = sp, ctx_flags = flags\<rparr>"

text \<open>\<open>None\<close> is \<^verbatim>\<open>ERR_PTR(ERR_GENERIC)\<close>. The allocators never return \<^verbatim>\<open>NULL\<close>, so
  the two null checks never fire.\<close>

definition task_create :: "u64 \<Rightarrow> string \<Rightarrow> sys \<Rightarrow> (ptr option \<times> sys) kres" where
  "task_create fn name s =
     kbind (alloc_task s) (\<lambda>(t, s).
       let s = upd_task t (\<lambda>k. k\<lparr>pid := pid_counter s, ticks_left := PREEMPT_TICKS\<rparr>) s;
           s = s\<lparr>pid_counter := pid_counter s + 1\<rparr>
       in if length name > 64 then Inr (None, s)
          else let s = upd_task t (\<lambda>k. k\<lparr>tname := name\<rparr>) s;
                   (stack, s) = alloc_stack s;
                   s = s\<lparr>lh := INIT_LIST_HEAD t (lh s)\<rparr>;
                   s = upd_task t (\<lambda>k. k\<lparr>cpuctx := prep_task_ctx stack fn 0,
                         stack_base := stack, task_state := STOPPED\<rparr>) s
               in Inr (Some t, s))"

section \<open>Choosing the next task\<close>

definition scheduler_pick_next_task :: "sys \<Rightarrow> ptr \<times> sys" where
  "scheduler_pick_next_task s =
     (if \<not> list_empty (running s) (lh s)
      then let next_task = list_first_entry (running s) (lh s)
           in (next_task, upd_task next_task (ticks_left_update (\<lambda>_. PREEMPT_TICKS)) s)
      else (NULL, s))"

definition schedule_debug :: "sys \<Rightarrow> sys" where
  "schedule_debug s = s\<lparr>sched_num_switches := sched_num_switches s + 1\<rparr>"

definition timer_waiting_body :: "u64 \<Rightarrow> ptr \<Rightarrow> sys \<Rightarrow> sys kres" where
  "timer_waiting_body now t s =
     (if timer_wait_until (tasks s t) \<le> now then Inr (sched_queue_runnable_task_noirq t s) else Inr s)"

definition schedule_handle_timer_waiting :: "u64 \<Rightarrow> sys \<Rightarrow> sys kres option" where
  "schedule_handle_timer_waiting now s =
     list_for_each_entry_safe lh (timer_waiting_body now) (timer_waiting s) s"

definition flag_waiting_body :: "ptr \<Rightarrow> sys \<Rightarrow> sys kres" where
  "flag_waiting_body t s =
     (let f = waitflag (tasks s t)
      in if f = NULL then Inl ''flagwait queue contains task with no waitflag''
         else if cells s f \<noteq> 0
         then let s = s\<lparr>cells := (cells s)(f := 0)\<rparr>;
                  s = upd_task t (waitflag_update (\<lambda>_. NULL)) s;
                  s = sched_queue_runnable_task_noirq t s
              in Inr (s\<lparr>waitflag_is_set := waitflag_is_set s - 1\<rparr>)
         else Inr s)"

definition schedule_handle_flag_waiting :: "sys \<Rightarrow> sys kres option" where
  "schedule_handle_flag_waiting s =
     (if waitflag_is_set s > 0xffffffffffff0000 then Some (Inl ''waitflag_is_set value below 0'')
      else if waitflag_is_set s \<noteq> 0
      then list_for_each_entry_safe lh flag_waiting_body (flag_waiting s) s
      else Some (Inr s))"

text \<open>Sequencing of steps that may panic (\<open>Inl\<close>) or not return (\<open>None\<close>).\<close>

definition obind :: "'a kres option \<Rightarrow> ('a \<Rightarrow> 'b kres option) \<Rightarrow> 'b kres option" where
  "obind m f = (case m of None \<Rightarrow> None | Some (Inl e) \<Rightarrow> Some (Inl e) | Some (Inr x) \<Rightarrow> f x)"

definition schedule_prev_task :: "sys \<Rightarrow> sys" where
  "schedule_prev_task s =
     (let prev_task = current s
      in if task_state (tasks s prev_task) = TIMEWAITING then s
         else if task_state (tasks s prev_task) = FLAGWAITING then s
         else let s = upd_task prev_task
                        (\<lambda>k. k\<lparr>ticks_total := ticks_total k + (PREEMPT_TICKS - ticks_left k)\<rparr>) s
              in sched_queue_runnable_task_noirq prev_task s)"

text \<open>\<open>now\<close> is the value \<^verbatim>\<open>read_cpu_counter_64\<close> returns to
  \<^verbatim>\<open>schedule_handle_timer_waiting\<close>.\<close>

definition schedule :: "u64 \<Rightarrow> sys \<Rightarrow> sys kres option" where
  "schedule now s =
     obind (schedule_handle_timer_waiting now (schedule_prev_task (schedule_debug s))) (\<lambda>s.
     obind (schedule_handle_flag_waiting s) (\<lambda>s.
       let (next_task, s) = scheduler_pick_next_task s;
           next_task = (if next_task = NULL then idle_task s else next_task);
           s = upd_task next_task (task_state_update (\<lambda>_. RUNNING)) s
       in if next_task = NULL then Some (Inl ''scheduler logic failed.'')
          else Some (Inr (s\<lparr>current := next_task\<rparr>))))"

section \<open>Waiting, waking and ticking\<close>

text \<open>\<^verbatim>\<open>yield\<close> traps into \<^verbatim>\<open>__handle_svc_64\<close>, which calls \<^verbatim>\<open>schedule\<close>.\<close>

definition wait_on_timer_ms :: "u64 \<Rightarrow> u64 \<Rightarrow> u64 \<Rightarrow> u64 \<Rightarrow> sys \<Rightarrow> sys kres option" where
  "wait_on_timer_ms now cnt_per_sec now' msec s =
     (let cnt_per_msec = cnt_per_sec div 1000;
          until = now + cnt_per_msec * msec;
          s = upd_task (current s) (timer_wait_until_update (\<lambda>_. until)) s;
          s = sched_queue_timewait_task (current s) s
      in schedule now' s)"

definition wait_on_waitflag :: "u64 \<Rightarrow> ptr \<Rightarrow> sys \<Rightarrow> sys kres option" where
  "wait_on_waitflag now' f s =
     (if cells s f = 1 then Some (Inr (s\<lparr>cells := (cells s)(f := 0)\<rparr>))
      else let t = current s;
               s = upd_task t (waitflag_update (\<lambda>_. f)) s;
               s = sched_queue_flagwait_task t s
           in schedule now' s)"

definition wakeup_waitflag :: "ptr \<Rightarrow> sys \<Rightarrow> sys" where
  "wakeup_waitflag f s =
     with_irq_disabled (\<lambda>s. s\<lparr>cells := (cells s)(f := 1), waitflag_is_set := waitflag_is_set s + 1\<rparr>) s"

definition needs_resched :: "sys \<Rightarrow> ptr \<Rightarrow> bool" where
  "needs_resched s t \<longleftrightarrow>
     (if waitflag_is_set s \<noteq> 0 then True else if ticks_left (tasks s t) \<noteq> 0 then False else True)"

definition schedule_from_irq :: "u64 \<Rightarrow> sys \<Rightarrow> sys kres option" where
  "schedule_from_irq now s =
     (let s = upd_task (current s) (\<lambda>k. k\<lparr>ticks_left := ticks_left k - 1\<rparr>) s
      in if needs_resched s (current s) then schedule now s else Some (Inr s))"

definition sched_timer_cb :: "u64 \<Rightarrow> sys \<Rightarrow> sys kres option" where
  "sched_timer_cb now s =
     (let s = (if preemption_by_timer s then s\<lparr>timer_rearms := timer_rearms s + 1\<rparr> else s)
      in schedule_from_irq now s)"

text \<open>
  \<^verbatim>\<open>scheduler_init\<close>: the lists of the scheduler, the zeroed task table, the idle and the
  init task. It ends by restoring the init task's context, which makes it the current task.
\<close>

definition zero_task :: task where
  "zero_task = \<lparr>pid = 0, tname = [], cpuctx = \<lparr>ctx_link = 0, ctx_sp = 0, ctx_flags = 0\<rparr>,
     stack_base = 0, ticks_left = 0, ticks_total = 0, task_state = STOPPED,
     timer_wait_until = 0, waitflag = NULL\<rparr>"

definition scheduler_init :: "u64 \<Rightarrow> u64 \<Rightarrow> sys \<Rightarrow> sys kres" where
  "scheduler_init idle_func init_func s0 =
     (let s = pcpu_scheduler_init s0;
          s = s\<lparr>task_idx := 0, stack_idx := 0, tasks := (\<lambda>_. zero_task)\<rparr>
      in kbind (task_create idle_func ''idle'' s) (\<lambda>(t0, s).
         case t0 of None \<Rightarrow> Inl ''idle task is an error pointer'' | Some t0 \<Rightarrow>
         let s = sched_queue_runnable_task t0 (s\<lparr>idle_task := t0\<rparr>)
         in kbind (task_create init_func ''init'' s) (\<lambda>(t1, s).
            case t1 of None \<Rightarrow> Inl ''init task is an error pointer'' | Some t1 \<Rightarrow>
            let s = sched_queue_runnable_task t1 s
            in if sched_timer_irq s0 \<notin> {None, Some ERR_OK} then Inl ''Failed to init scheduler timer''
               else Inr (s\<lparr>irq_masked := False, current := t1\<rparr>))))"

end
