(* ===== verification/Sched_Spec.thy ===== *)
theory Sched_Spec
  imports Sched
begin

text \<open>
  What the scheduler promises: an abstract scheduler whose queues are HOL lists, and the proof
  that the pointer-level code of theory \<open>Sched\<close> implements it. The invariants, the
  fairness and the wake-up properties are proved on top of the refinement.
\<close>

section \<open>Abstraction of the scheduler's rings\<close>

definition heads :: "sys \<Rightarrow> ptr set" where
  "heads s = {running s, timer_waiting s, flag_waiting s}"

definition qmap :: "sys \<Rightarrow> ptr list \<Rightarrow> ptr list \<Rightarrow> ptr list \<Rightarrow> ptr \<Rightarrow> ptr list" where
  "qmap s R T F = (\<lambda>_. [])(running s := R, timer_waiting s := T, flag_waiting s := F)"

text \<open>The three queues hold \<open>R\<close>, \<open>T\<close>, \<open>F\<close>, and the tasks in \<open>D\<close> are on no
  queue.\<close>

definition sched_wf :: "sys \<Rightarrow> ptr list \<Rightarrow> ptr list \<Rightarrow> ptr list \<Rightarrow> ptr set \<Rightarrow> bool" where
  "sched_wf s R T F D \<longleftrightarrow>
     distinct [running s, timer_waiting s, flag_waiting s] \<and> D \<inter> heads s = {} \<and>
     rings (lh s) (heads s \<union> D) (qmap s R T F)"

lemma qmap_simps:
  assumes "distinct [running s, timer_waiting s, flag_waiting s]"
  shows "qmap s R T F (running s) = R" "qmap s R T F (timer_waiting s) = T"
    "qmap s R T F (flag_waiting s) = F" "x \<notin> heads s \<Longrightarrow> qmap s R T F x = []"
  using assms by (auto simp: qmap_def heads_def)

lemma sched_wf_rings:
  assumes "sched_wf s R T F D"
  shows "ring (lh s) (running s) R" "ring (lh s) (timer_waiting s) T"
    "ring (lh s) (flag_waiting s) F"
proof -
  from assms have rs: "rings (lh s) (heads s \<union> D) (qmap s R T F)"
    and d: "distinct [running s, timer_waiting s, flag_waiting s]" by (auto simp: sched_wf_def)
  show "ring (lh s) (running s) R"
    using rings_ring [OF rs, of "running s"] d by (simp add: heads_def qmap_simps)
  show "ring (lh s) (timer_waiting s) T"
    using rings_ring [OF rs, of "timer_waiting s"] d by (simp add: heads_def qmap_simps)
  show "ring (lh s) (flag_waiting s) F"
    using rings_ring [OF rs, of "flag_waiting s"] d by (simp add: heads_def qmap_simps)
qed

lemma sched_wf_disjoint:
  assumes wf: "sched_wf s R T F D"
  shows "set R \<inter> set T = {}" "set R \<inter> set F = {}" "set T \<inter> set F = {}"
    "D \<inter> set R = {}" "D \<inter> set T = {}" "D \<inter> set F = {}"
    "heads s \<inter> set R = {}" "heads s \<inter> set T = {}" "heads s \<inter> set F = {}"
proof -
  from wf have rs: "rings (lh s) (heads s \<union> D) (qmap s R T F)"
    and d: "distinct [running s, timer_waiting s, flag_waiting s]" by (auto simp: sched_wf_def)
  note dj = rings_disjoint [OF rs]
  have h: "running s \<in> heads s \<union> D" "timer_waiting s \<in> heads s \<union> D" "flag_waiting s \<in> heads s \<union> D"
    by (auto simp: heads_def)
  show "set R \<inter> set T = {}" using dj [OF h(1,2)] d by (auto simp: qmap_simps)
  show "set R \<inter> set F = {}" using dj [OF h(1,3)] d by (auto simp: qmap_simps)
  show "set T \<inter> set F = {}" using dj [OF h(2,3)] d by (auto simp: qmap_simps)
  have out: "x \<notin> set (qmap s R T F a)" if "x \<in> heads s \<union> D" "a \<in> heads s" for x a
    using ll.head_not_member [OF rs that(1), of a] that(2) by simp
  show "D \<inter> set R = {}" "heads s \<inter> set R = {}"
    using out [of _ "running s"] d by (auto simp: heads_def qmap_simps)
  show "D \<inter> set T = {}" "heads s \<inter> set T = {}"
    using out [of _ "timer_waiting s"] d by (auto simp: heads_def qmap_simps)
  show "D \<inter> set F = {}" "heads s \<inter> set F = {}"
    using out [of _ "flag_waiting s"] d by (auto simp: heads_def qmap_simps)
qed

lemma sched_wf_distinct:
  assumes "sched_wf s R T F D"
  shows "distinct (R @ T @ F)"
  using sched_wf_rings [OF assms] sched_wf_disjoint [OF assms] by (auto simp: ring_def)

text \<open>The scheduler's shape depends on its list heap and its list heads only.\<close>

lemma sched_wf_cong:
  assumes "lh s' = lh s" "running s' = running s" "timer_waiting s' = timer_waiting s"
    "flag_waiting s' = flag_waiting s"
  shows "sched_wf s' R T F D = sched_wf s R T F D"
  using assms by (simp add: sched_wf_def heads_def qmap_def)

lemma sched_wf_requeue:
  assumes wf: "sched_wf s R T F D" and t: "t \<in> set R \<union> set T \<union> set F \<union> D" and b: "b \<in> heads s"
  shows "sched_wf (s\<lparr>lh := list_add_tail t b (list_del_init t (lh s))\<rparr>)
    (remove1 t R @ (if b = running s then [t] else []))
    (remove1 t T @ (if b = timer_waiting s then [t] else []))
    (remove1 t F @ (if b = flag_waiting s then [t] else [])) (D - {t})"
proof -
  from wf have rs: "rings (lh s) (heads s \<union> D) (qmap s R T F)"
    and d: "distinct [running s, timer_waiting s, flag_waiting s]"
    and D: "D \<inter> heads s = {}" by (auto simp: sched_wf_def)
  have th: "t \<notin> heads s" using sched_wf_disjoint(7-9) [OF wf] D t by (auto simp: disjoint_iff)
  have self: "qmap s R T F t = []" using th d by (simp add: qmap_simps)
  have mem: "t \<in> nodes (heads s \<union> D) (qmap s R T F)"
    using t d by (auto simp: nodes_def heads_def qmap_simps)
  have "b \<noteq> t" "b \<in> heads s \<union> D" using b th by auto
  from ll.requeue_any [OF rs mem self this(2,1)]
  have "rings (list_add_tail t b (list_del_init t (lh s))) (heads s \<union> D - {t})
      ((\<lambda>a. remove1 t (qmap s R T F a))(b := remove1 t (qmap s R T F b) @ [t]))"
    by (simp add: list_del_init_eq)
  moreover have "heads s \<union> D - {t} = heads s \<union> (D - {t})" using th by auto
  ultimately have "rings (list_add_tail t b (list_del_init t (lh s))) (heads s \<union> (D - {t}))
      ((\<lambda>a. remove1 t (qmap s R T F a))(b := remove1 t (qmap s R T F b) @ [t]))" by simp
  then have "rings (list_add_tail t b (list_del_init t (lh s))) (heads s \<union> (D - {t}))
     (qmap s (remove1 t R @ (if b = running s then [t] else []))
       (remove1 t T @ (if b = timer_waiting s then [t] else []))
       (remove1 t F @ (if b = flag_waiting s then [t] else [])))"
  proof (rule ll.wf_cong)
    fix a assume "a \<in> heads s \<union> (D - {t})"
    then consider "a = running s" | "a = timer_waiting s" | "a = flag_waiting s"
      | "a \<in> D" "a \<notin> heads s" using D by (auto simp: heads_def)
    then show "qmap s (remove1 t R @ (if b = running s then [t] else []))
       (remove1 t T @ (if b = timer_waiting s then [t] else []))
       (remove1 t F @ (if b = flag_waiting s then [t] else [])) a =
      ((\<lambda>a. remove1 t (qmap s R T F a))(b := remove1 t (qmap s R T F b) @ [t])) a"
      by cases (use b d in \<open>auto simp: qmap_simps [OF d]\<close>)
  qed
  with d D show ?thesis by (auto simp: sched_wf_def heads_def qmap_def)
qed

lemma sched_wf_queue:
  assumes wf: "sched_wf s R T F D" and t: "t \<in> set R \<union> set T \<union> set F \<union> D"
  shows "sched_wf (sched_queue_runnable_task_noirq t s)
      (remove1 t R @ [t]) (remove1 t T) (remove1 t F) (D - {t})"
    and "sched_wf (sched_queue_timewait_task_noirq t s)
      (remove1 t R) (remove1 t T @ [t]) (remove1 t F) (D - {t})"
    and "sched_wf (sched_queue_flagwait_task_noirq t s)
      (remove1 t R) (remove1 t T) (remove1 t F @ [t]) (D - {t})"
proof -
  have d: "distinct [running s, timer_waiting s, flag_waiting s]"
    using wf by (simp add: sched_wf_def)
  note q = sched_wf_requeue [OF wf t]
  show "sched_wf (sched_queue_runnable_task_noirq t s)
      (remove1 t R @ [t]) (remove1 t T) (remove1 t F) (D - {t})"
    using q [of "running s"] d
    by (simp add: heads_def sched_queue_runnable_task_noirq_def upd_task_def Let_def)
      (simp add: sched_wf_def heads_def qmap_def)
  show "sched_wf (sched_queue_timewait_task_noirq t s)
      (remove1 t R) (remove1 t T @ [t]) (remove1 t F) (D - {t})"
    using q [of "timer_waiting s"] d
    by (simp add: heads_def sched_queue_timewait_task_noirq_def upd_task_def Let_def)
      (simp add: sched_wf_def heads_def qmap_def)
  show "sched_wf (sched_queue_flagwait_task_noirq t s)
      (remove1 t R) (remove1 t T) (remove1 t F @ [t]) (D - {t})"
    using q [of "flag_waiting s"] d
    by (simp add: heads_def sched_queue_flagwait_task_noirq_def upd_task_def Let_def)
      (simp add: sched_wf_def heads_def qmap_def)
qed

section \<open>The abstract scheduler\<close>

record asched =
  arun :: "ptr list"
  atmr :: "ptr list"
  aflg :: "ptr list"
  adet :: "ptr set"
  atasks :: "ptr \<Rightarrow> task"
  acells :: "ptr \<Rightarrow> u64"
  acnt :: u64
  acur :: ptr
  aidle :: ptr

definition all_tasks :: "asched \<Rightarrow> ptr set" where
  "all_tasks a = set (arun a) \<union> set (atmr a) \<union> set (aflg a) \<union> adet a"

definition aset :: "ptr \<Rightarrow> (task \<Rightarrow> task) \<Rightarrow> asched \<Rightarrow> asched" where
  "aset t f a = a\<lparr>atasks := (atasks a)(t := f (atasks a t))\<rparr>"

definition aqueue_run :: "ptr \<Rightarrow> asched \<Rightarrow> asched" where
  "aqueue_run t a = aset t (task_state_update (\<lambda>_. SCHEDULED))
     (a\<lparr>arun := remove1 t (arun a) @ [t], atmr := remove1 t (atmr a), aflg := remove1 t (aflg a),
        adet := adet a - {t}\<rparr>)"

definition aqueue_timer :: "ptr \<Rightarrow> asched \<Rightarrow> asched" where
  "aqueue_timer t a = aset t (task_state_update (\<lambda>_. TIMEWAITING))
     (a\<lparr>arun := remove1 t (arun a), atmr := remove1 t (atmr a) @ [t], aflg := remove1 t (aflg a),
        adet := adet a - {t}\<rparr>)"

definition aqueue_flag :: "ptr \<Rightarrow> asched \<Rightarrow> asched" where
  "aqueue_flag t a = aset t (task_state_update (\<lambda>_. FLAGWAITING))
     (a\<lparr>arun := remove1 t (arun a), atmr := remove1 t (atmr a), aflg := remove1 t (aflg a) @ [t],
        adet := adet a - {t}\<rparr>)"

definition aprev :: "asched \<Rightarrow> asched" where
  "aprev a =
     (if task_state (atasks a (acur a)) \<in> {TIMEWAITING, FLAGWAITING} then a
      else aqueue_run (acur a)
        (aset (acur a) (\<lambda>k. k\<lparr>ticks_total := ticks_total k + (PREEMPT_TICKS - ticks_left k)\<rparr>) a))"

definition expired :: "u64 \<Rightarrow> asched \<Rightarrow> ptr \<Rightarrow> bool" where
  "expired now a t \<longleftrightarrow> timer_wait_until (atasks a t) \<le> now"

text \<open>All tasks whose time has come become runnable, in the order they wait in.\<close>

definition atimer :: "u64 \<Rightarrow> asched \<Rightarrow> asched" where
  "atimer now a =
     a\<lparr>arun := arun a @ filter (expired now a) (atmr a),
       atmr := filter (\<lambda>t. \<not> expired now a t) (atmr a),
       atasks := (\<lambda>t. if t \<in> set (atmr a) \<and> expired now a t
                      then (atasks a t)\<lparr>task_state := SCHEDULED\<rparr> else atasks a t)\<rparr>"

text \<open>A waiting task whose flag is set consumes the flag and becomes runnable.\<close>

definition aflag_one :: "ptr \<Rightarrow> asched \<Rightarrow> asched" where
  "aflag_one t a =
     (let f = waitflag (atasks a t)
      in if acells a f \<noteq> 0
         then (aqueue_run t (aset t (waitflag_update (\<lambda>_. NULL)) (a\<lparr>acells := (acells a)(f := 0)\<rparr>)))
                \<lparr>acnt := acnt a - 1\<rparr>
         else a)"

definition aflags :: "asched \<Rightarrow> asched" where
  "aflags a = (if acnt a = 0 then a else fold aflag_one (aflg a) a)"

definition apick :: "asched \<Rightarrow> asched" where
  "apick a =
     (case arun a of
        [] \<Rightarrow> (aset (aidle a) (task_state_update (\<lambda>_. RUNNING)) a)\<lparr>acur := aidle a\<rparr>
      | t # _ \<Rightarrow> (aset t (\<lambda>k. k\<lparr>ticks_left := PREEMPT_TICKS, task_state := RUNNING\<rparr>) a)\<lparr>acur := t\<rparr>)"

definition aschedule :: "u64 \<Rightarrow> asched \<Rightarrow> asched" where
  "aschedule now a = apick (aflags (atimer now (aprev a)))"

section \<open>Refinement\<close>

definition sched_abs :: "sys \<Rightarrow> asched \<Rightarrow> bool" where
  "sched_abs s a \<longleftrightarrow> sched_wf s (arun a) (atmr a) (aflg a) (adet a) \<and>
     atasks a = tasks s \<and> acells a = cells s \<and> acnt a = waitflag_is_set s \<and>
     acur a = current s \<and> aidle a = idle_task s"

named_theorems sched_ops \<open>unfolding the queueing operations\<close>

lemmas sched_queue_defs [sched_ops] =
  sched_queue_runnable_task_noirq_def sched_queue_timewait_task_noirq_def
  sched_queue_flagwait_task_noirq_def upd_task_def Let_def

lemma sched_abs_cong:
  assumes "sched_abs s a" "lh s' = lh s" "running s' = running s"
    "timer_waiting s' = timer_waiting s" "flag_waiting s' = flag_waiting s"
    "arun a' = arun a" "atmr a' = atmr a" "aflg a' = aflg a" "adet a' = adet a"
    "atasks a' = tasks s'" "acells a' = cells s'" "acnt a' = waitflag_is_set s'"
    "acur a' = current s'" "aidle a' = idle_task s'"
  shows "sched_abs s' a'"
  using assms sched_wf_cong [of s' s] by (simp add: sched_abs_def)

lemma sched_abs_upd_task: "sched_abs s a \<Longrightarrow> sched_abs (upd_task t f s) (aset t f a)"
  using sched_wf_cong [of "upd_task t f s" s] by (simp add: upd_task_def aset_def sched_abs_def)

lemma sched_abs_queue_run:
  assumes "sched_abs s a" and "t \<in> all_tasks a"
  shows "sched_abs (sched_queue_runnable_task_noirq t s) (aqueue_run t a)"
  using assms sched_wf_queue(1) [of s "arun a" "atmr a" "aflg a" "adet a" t]
  by (simp add: sched_abs_def all_tasks_def aqueue_run_def aset_def)
    (simp add: sched_ops)

lemma sched_abs_queue_timer:
  assumes "sched_abs s a" and "t \<in> all_tasks a"
  shows "sched_abs (sched_queue_timewait_task_noirq t s) (aqueue_timer t a)"
  using assms sched_wf_queue(2) [of s "arun a" "atmr a" "aflg a" "adet a" t]
  by (simp add: sched_abs_def all_tasks_def aqueue_timer_def aset_def)
    (simp add: sched_ops)

lemma sched_abs_queue_flag:
  assumes "sched_abs s a" and "t \<in> all_tasks a"
  shows "sched_abs (sched_queue_flagwait_task_noirq t s) (aqueue_flag t a)"
  using assms sched_wf_queue(3) [of s "arun a" "atmr a" "aflg a" "adet a" t]
  by (simp add: sched_abs_def all_tasks_def aqueue_flag_def aset_def)
    (simp add: sched_ops)

lemma sched_abs_distinct: "sched_abs s a \<Longrightarrow> distinct (arun a @ atmr a @ aflg a)"
  unfolding sched_abs_def using sched_wf_distinct by blast

lemma sched_abs_prev:
  assumes "sched_abs s a" and "acur a \<in> all_tasks a"
  shows "sched_abs (schedule_prev_task (schedule_debug s)) (aprev a)"
proof -
  have s1: "sched_abs (schedule_debug s) a"
    using assms(1) by (rule sched_abs_cong) (use assms(1) in \<open>auto simp: schedule_debug_def sched_abs_def\<close>)
  have "acur a = current (schedule_debug s)" "atasks a = tasks (schedule_debug s)"
    using s1 by (simp_all add: sched_abs_def)
  then show ?thesis
    using s1 sched_abs_queue_run [OF sched_abs_upd_task [OF s1], of "acur a"] assms(2)
    by (auto simp: schedule_prev_task_def aprev_def Let_def all_tasks_def aset_def)
qed

subsection \<open>The timer loop\<close>

definition timer_part :: "u64 \<Rightarrow> asched \<Rightarrow> ptr list \<Rightarrow> ptr list \<Rightarrow> asched" where
  "timer_part now a zs ys =
     a\<lparr>arun := arun a @ filter (expired now a) zs,
       atmr := filter (\<lambda>t. \<not> expired now a t) zs @ ys,
       atasks := (\<lambda>t. if t \<in> set zs \<and> expired now a t
                      then (atasks a t)\<lparr>task_state := SCHEDULED\<rparr> else atasks a t)\<rparr>"

lemma timer_part_step:
  assumes d: "distinct (arun a @ (zs @ x # ys) @ aflg a)" and D: "x \<notin> adet a"
  shows "(if expired now a x then aqueue_run x (timer_part now a zs (x # ys))
          else timer_part now a zs (x # ys)) = timer_part now a (zs @ [x]) ys"
  using d D
  by (auto simp: timer_part_def aqueue_run_def aset_def remove1_append remove1_idem fun_eq_iff)

lemma ring_nxt_member:
  assumes "ring h hd0 (us @ x # ys)"
  shows "x \<noteq> hd0 \<and> nxt h x = (case ys of [] \<Rightarrow> hd0 | y # _ \<Rightarrow> y)"
  using assms seg_first [of h x ys hd0] by (auto simp: ring_def seg_append)

lemma sched_abs_timer:
  assumes abs: "sched_abs s a"
  obtains s' where "schedule_handle_timer_waiting now s = Some (Inr s')" "sched_abs s' (atimer now a)"
proof -
  define f where "f = (\<lambda>t s. if timer_wait_until (tasks s t) \<le> now
    then sched_queue_runnable_task_noirq t s else s)"
  define R where "R = (\<lambda>ys s'. \<exists>zs. atmr a = zs @ ys \<and> timer_waiting s' = timer_waiting s \<and>
    sched_abs s' (timer_part now a zs ys))"
  have wf0: "sched_wf s (arun a) (atmr a) (aflg a) (adet a)" using abs by (simp add: sched_abs_def)
  have link: "x \<noteq> timer_waiting s \<and> nxt (lh s') x = (case ys of [] \<Rightarrow> timer_waiting s | y # _ \<Rightarrow> y)"
    if "R (x # ys) s'" for x ys s'
  proof -
    from that obtain zs where "timer_waiting s' = timer_waiting s"
      "sched_abs s' (timer_part now a zs (x # ys))" by (auto simp: R_def)
    then have "ring (lh s') (timer_waiting s) (filter (\<lambda>t. \<not> expired now a t) zs @ x # ys)"
      using sched_wf_rings(2) [of s'] by (fastforce simp: sched_abs_def timer_part_def)
    then show ?thesis by (rule ring_nxt_member)
  qed
  have step: "timer_waiting_body now x s' = Inr (f x s') \<and> R ys (f x s')" if "R (x # ys) s'" for x ys s'
  proof -
    from that obtain zs where zs: "atmr a = zs @ x # ys" "timer_waiting s' = timer_waiting s"
      and sa: "sched_abs s' (timer_part now a zs (x # ys))" by (auto simp: R_def)
    have d: "distinct (arun a @ (zs @ x # ys) @ aflg a)" using sched_wf_distinct [OF wf0] zs by simp
    have D: "x \<notin> adet a" using sched_wf_disjoint(5) [OF wf0] zs by auto
    have e: "timer_wait_until (tasks s' x) \<le> now \<longleftrightarrow> expired now a x"
    proof -
      have "tasks s' = atasks (timer_part now a zs (x # ys))" using sa by (simp add: sched_abs_def)
      then show ?thesis by (simp add: timer_part_def expired_def)
    qed
    have "x \<in> all_tasks (timer_part now a zs (x # ys))" by (simp add: all_tasks_def timer_part_def)
    from sched_abs_queue_run [OF sa this] sa
    have "sched_abs (f x s') (if expired now a x then aqueue_run x (timer_part now a zs (x # ys))
        else timer_part now a zs (x # ys))"
      by (simp add: f_def e)
    moreover have "timer_waiting (f x s') = timer_waiting s"
      using zs(2) by (simp add: f_def sched_ops)
    ultimately have "R ys (f x s')"
      using zs unfolding R_def timer_part_step [OF d D] by (intro exI [of _ "zs @ [x]"]) simp
    then show ?thesis by (simp add: f_def timer_waiting_body_def)
  qed
  have R0: "R (atmr a) s" using abs by (auto simp: R_def timer_part_def intro!: exI [of _ "[]"])
  have rg: "ring (lh s) (timer_waiting s) (atmr a)" by (rule sched_wf_rings(2) [OF wf0])
  note loop = list_for_each_entry_safe_fold [of R "timer_waiting_body now" f "timer_waiting s" lh,
      OF step link R0 rg]
  have "timer_part now a (atmr a) [] = atimer now a" by (simp add: timer_part_def atimer_def)
  with loop(2) have "sched_abs (fold f (atmr a) s) (atimer now a)" by (auto simp: R_def)
  with loop(1) that show ?thesis by (simp add: schedule_handle_timer_waiting_def)
qed

subsection \<open>The flag loop\<close>

text \<open>Every task in the flag queue waits for some flag.\<close>

definition flags_ok :: "asched \<Rightarrow> bool" where
  "flags_ok a \<longleftrightarrow> (\<forall>t\<in>set (aflg a). waitflag (atasks a t) \<noteq> NULL)"

lemma aflag_one_queue:
  assumes "distinct (arun a @ atmr a @ aflg a)" "aflg a = us @ x # ys"
  shows "aflg (aflag_one x a) = us @ ys \<or> aflg (aflag_one x a) = us @ [x] @ ys"
    and "y \<in> set ys \<Longrightarrow> atasks (aflag_one x a) y = atasks a y"
  using assms by (auto simp: aflag_one_def aqueue_run_def aset_def Let_def remove1_append)

lemma sched_abs_flag_one:
  assumes sa: "sched_abs s a" and x: "x \<in> set (aflg a)" and nn: "waitflag (atasks a x) \<noteq> NULL"
  shows "\<exists>s'. flag_waiting_body x s = Inr s' \<and> sched_abs s' (aflag_one x a) \<and>
    flag_waiting s' = flag_waiting s"
proof (cases "cells s (waitflag (tasks s x)) \<noteq> 0")
  case False
  with assms show ?thesis by (auto simp: flag_waiting_body_def aflag_one_def sched_abs_def Let_def)
next
  case True
  let ?f = "waitflag (tasks s x)"
  have eqs: "atasks a = tasks s" "acells a = cells s" "acnt a = waitflag_is_set s"
    using sa by (simp_all add: sched_abs_def)
  define s1 where "s1 = s\<lparr>cells := (cells s)(?f := 0)\<rparr>"
  define a1 where "a1 = a\<lparr>acells := (acells a)(?f := 0)\<rparr>"
  have "sched_abs s1 a1"
    using sa by (rule sched_abs_cong) (use sa in \<open>auto simp: s1_def a1_def sched_abs_def\<close>)
  from sched_abs_upd_task [OF this]
  have sa2: "sched_abs (upd_task x (waitflag_update (\<lambda>_. NULL)) s1)
      (aset x (waitflag_update (\<lambda>_. NULL)) a1)" (is "sched_abs ?s2 ?a2") .
  have "x \<in> all_tasks ?a2" using x by (simp add: all_tasks_def aset_def a1_def)
  from sched_abs_queue_run [OF sa2 this]
  have sa3: "sched_abs (sched_queue_runnable_task_noirq x ?s2) (aqueue_run x ?a2)"
    (is "sched_abs ?s3 ?a3") .
  have cnt: "waitflag_is_set ?s3 = acnt a"
    using eqs by (simp add: sched_ops s1_def)
  have "sched_abs (?s3\<lparr>waitflag_is_set := waitflag_is_set ?s3 - 1\<rparr>) (?a3\<lparr>acnt := acnt a - 1\<rparr>)"
    using sa3 by (rule sched_abs_cong) (use sa3 cnt in \<open>auto simp: sched_abs_def\<close>)
  moreover have "flag_waiting_body x s = Inr (?s3\<lparr>waitflag_is_set := waitflag_is_set ?s3 - 1\<rparr>)"
    using True nn eqs by (simp add: flag_waiting_body_def s1_def Let_def)
  moreover have "aflag_one x a = ?a3\<lparr>acnt := acnt a - 1\<rparr>"
    using True eqs by (simp add: aflag_one_def a1_def Let_def)
  moreover have "flag_waiting (?s3\<lparr>waitflag_is_set := waitflag_is_set ?s3 - 1\<rparr>) = flag_waiting s"
    by (simp add: sched_ops s1_def)
  ultimately show ?thesis by auto
qed

lemma sched_abs_flags:
  assumes sa: "sched_abs s a" and ok: "flags_ok a" and bound: "acnt a \<le> 0xffffffffffff0000"
  obtains s' where "schedule_handle_flag_waiting s = Some (Inr s')" "sched_abs s' (aflags a)"
proof (cases "acnt a = 0")
  case True
  with sa bound that [of s] show ?thesis
    by (auto simp: schedule_handle_flag_waiting_def aflags_def sched_abs_def)
next
  case False
  define f where "f = (\<lambda>t s. case flag_waiting_body t s of Inr s' \<Rightarrow> s' | Inl _ \<Rightarrow> s)"
  define R where "R = (\<lambda>ys s'. \<exists>us a'. aflg a' = us @ ys \<and> flag_waiting s' = flag_waiting s \<and>
    sched_abs s' a' \<and> flags_ok a' \<and> fold aflag_one (aflg a) a = fold aflag_one ys a')"
  have link: "x \<noteq> flag_waiting s \<and> nxt (lh s') x = (case ys of [] \<Rightarrow> flag_waiting s | y # _ \<Rightarrow> y)"
    if "R (x # ys) s'" for x ys s'
  proof -
    from that obtain us where "ring (lh s') (flag_waiting s) (us @ x # ys)"
      using sched_wf_rings(3) [of s'] by (fastforce simp: R_def sched_abs_def)
    then show ?thesis by (rule ring_nxt_member)
  qed
  have step: "flag_waiting_body x s' = Inr (f x s') \<and> R ys (f x s')" if r: "R (x # ys) s'" for x ys s'
  proof -
    from r obtain us a' where a': "aflg a' = us @ x # ys" "flag_waiting s' = flag_waiting s"
      "sched_abs s' a'" "flags_ok a'" "fold aflag_one (aflg a) a = fold aflag_one (x # ys) a'"
      by (auto simp: R_def)
    then obtain s'' where s'': "flag_waiting_body x s' = Inr s''" "sched_abs s'' (aflag_one x a')"
      "flag_waiting s'' = flag_waiting s'"
      using sched_abs_flag_one [of s' a' x] by (auto simp: flags_ok_def)
    note q = aflag_one_queue [OF sched_abs_distinct [OF a'(3)] a'(1)]
    have d: "x \<notin> set us" "distinct us" using sched_abs_distinct [OF a'(3)] a'(1) by auto
    have ok': "flags_ok (aflag_one x a')"
      using a'(1,4) sched_abs_distinct [OF a'(3)]
      by (auto simp: flags_ok_def aflag_one_def aqueue_run_def aset_def Let_def remove1_append)
    from q(1) have "\<exists>vs. aflg (aflag_one x a') = vs @ ys" by (metis append_assoc)
    then have "R ys s''"
      using a'(2,5) s'' ok' by (auto simp: R_def intro!: exI [of _ "aflag_one x a'"])
    with s'' show ?thesis by (simp add: f_def)
  qed
  have R0: "R (aflg a) s" using sa ok by (auto simp: R_def intro!: exI [of _ "[]"] exI [of _ a])
  have rg: "ring (lh s) (flag_waiting s) (aflg a)"
    using sched_wf_rings(3) sa by (auto simp: sched_abs_def)
  note loop = list_for_each_entry_safe_fold [of R flag_waiting_body f "flag_waiting s" lh,
      OF step link R0 rg]
  from loop(2) have "sched_abs (fold f (aflg a) s) (aflags a)"
    using False by (auto simp: R_def aflags_def)
  moreover have "schedule_handle_flag_waiting s = Some (Inr (fold f (aflg a) s))"
    using loop(1) False bound sa by (auto simp: schedule_handle_flag_waiting_def sched_abs_def)
  ultimately show ?thesis using that by blast
qed

subsection \<open>Picking and scheduling\<close>

lemma sched_abs_empty: "sched_abs s a \<Longrightarrow> list_empty (running s) (lh s) \<longleftrightarrow> arun a = []"
  using ll.wf_is_empty [of "lh s" "heads s \<union> adet a" "qmap s (arun a) (atmr a) (aflg a)" "running s"]
  by (simp add: sched_abs_def sched_wf_def heads_def qmap_def)

lemma sched_abs_first: "sched_abs s a \<Longrightarrow> arun a \<noteq> [] \<Longrightarrow>
    list_first_entry (running s) (lh s) = hd (arun a)"
  using ll.wf_first [of "lh s" "heads s \<union> adet a" "qmap s (arun a) (atmr a) (aflg a)" "running s"]
  by (simp add: sched_abs_def sched_wf_def heads_def qmap_def)

lemma sched_abs_set_current: "sched_abs s a \<Longrightarrow> sched_abs (s\<lparr>current := t\<rparr>) (a\<lparr>acur := t\<rparr>)"
  using sched_wf_cong [of "s\<lparr>current := t\<rparr>" s] by (simp add: sched_abs_def)

lemma aset_compose: "aset t g (aset t f a) = aset t (\<lambda>k. g (f k)) a"
  by (simp add: aset_def)

lemma sched_abs_pick:
  assumes sa: "sched_abs s a" and ok: "0 \<notin> set (arun a)" "aidle a \<noteq> 0"
  shows "\<exists>s'. (let (next_task, s) = scheduler_pick_next_task s;
           next_task = (if next_task = NULL then idle_task s else next_task);
           s = upd_task next_task (task_state_update (\<lambda>_. RUNNING)) s
       in if next_task = NULL then Some (Inl ''scheduler logic failed.'')
          else Some (Inr (s\<lparr>current := next_task\<rparr>))) = Some (Inr s') \<and> sched_abs s' (apick a)"
proof (cases "arun a")
  case Nil
  have idle: "idle_task s = aidle a" using sa by (simp add: sched_abs_def)
  from sched_abs_set_current [OF sched_abs_upd_task [OF sa]] show ?thesis
    using Nil ok idle sched_abs_empty [OF sa]
    by (simp add: scheduler_pick_next_task_def apick_def Let_def)
next
  case (Cons t ts)
  from sched_abs_set_current [OF sched_abs_upd_task [OF sched_abs_upd_task [OF sa]],
      of t t "task_state_update (\<lambda>_. RUNNING)" t "ticks_left_update (\<lambda>_. PREEMPT_TICKS)"]
  show ?thesis
    using Cons ok sched_abs_empty [OF sa] sched_abs_first [OF sa]
    by (simp add: scheduler_pick_next_task_def apick_def aset_compose Let_def)
qed

section \<open>The invariant\<close>

text \<open>Every task is on exactly one queue or on none, the queue it is on agrees with its state,
  a task on the flag queue waits for some flag, and the idle task is always runnable.\<close>

definition sched_ok :: "asched \<Rightarrow> bool" where
  "sched_ok a \<longleftrightarrow> distinct (arun a @ atmr a @ aflg a) \<and>
     adet a \<inter> (set (arun a) \<union> set (atmr a) \<union> set (aflg a)) = {} \<and>
     0 \<notin> all_tasks a \<and> acur a \<in> all_tasks a \<and> aidle a \<in> set (arun a) \<and> flags_ok a \<and>
     (\<forall>t\<in>set (arun a). task_state (atasks a t) \<in> {SCHEDULED, RUNNING}) \<and>
     (\<forall>t\<in>set (atmr a). task_state (atasks a t) = TIMEWAITING) \<and>
     (\<forall>t\<in>set (aflg a). task_state (atasks a t) = FLAGWAITING)"

lemma all_tasks_queue:
  assumes "distinct (arun a @ atmr a @ aflg a)" "t \<in> all_tasks a"
  shows "all_tasks (aqueue_run t a) = all_tasks a" "all_tasks (aqueue_timer t a) = all_tasks a"
    "all_tasks (aqueue_flag t a) = all_tasks a"
  using assms
  by (auto simp: all_tasks_def aqueue_run_def aqueue_timer_def aqueue_flag_def aset_def)

lemma sched_ok_aset:
  assumes "sched_ok a"
    and "task_state (f (atasks a t)) = task_state (atasks a t)"
    and "t \<in> set (aflg a) \<Longrightarrow> waitflag (f (atasks a t)) \<noteq> NULL"
  shows "sched_ok (aset t f a)"
  using assms by (auto simp: sched_ok_def aset_def flags_ok_def all_tasks_def)

lemma sched_ok_queue_run: "sched_ok a \<Longrightarrow> t \<in> all_tasks a \<Longrightarrow> sched_ok (aqueue_run t a)"
  by (auto simp: sched_ok_def all_tasks_def aqueue_run_def aset_def flags_ok_def
      dest: notin_set_remove1)

lemma sched_ok_queue_timer:
  "sched_ok a \<Longrightarrow> t \<in> all_tasks a \<Longrightarrow> t \<noteq> aidle a \<Longrightarrow> sched_ok (aqueue_timer t a)"
  by (auto simp: sched_ok_def all_tasks_def aqueue_timer_def aset_def flags_ok_def
      dest: notin_set_remove1)

lemma sched_ok_queue_flag:
  "sched_ok a \<Longrightarrow> t \<in> all_tasks a \<Longrightarrow> t \<noteq> aidle a \<Longrightarrow> waitflag (atasks a t) \<noteq> NULL \<Longrightarrow>
    sched_ok (aqueue_flag t a)"
  by (auto simp: sched_ok_def all_tasks_def aqueue_flag_def aset_def flags_ok_def
      dest: notin_set_remove1)

lemma sched_ok_prev: "sched_ok a \<Longrightarrow> sched_ok (aprev a)"
  unfolding aprev_def
  by (auto intro!: sched_ok_queue_run sched_ok_aset)
    (auto simp: sched_ok_def flags_ok_def all_tasks_def aset_def)

lemma sched_ok_timer: "sched_ok a \<Longrightarrow> sched_ok (atimer now a)"
  by (auto simp: sched_ok_def atimer_def all_tasks_def flags_ok_def)

lemma sched_ok_flag_one: "sched_ok a \<Longrightarrow> sched_ok (aflag_one t a)" if "t \<in> set (aflg a)"
proof -
  assume ok: "sched_ok a"
  show ?thesis
  proof (cases "acells a (waitflag (atasks a t)) = 0")
    case True
    with ok show ?thesis by (simp add: aflag_one_def)
  next
    case False
    then show ?thesis using ok that
      by (auto simp: aflag_one_def aqueue_run_def aset_def sched_ok_def all_tasks_def flags_ok_def
          Let_def dest: notin_set_remove1)
  qed
qed

lemma aflg_flag_one:
  "distinct (aflg a) \<Longrightarrow> set (aflg a) - {t} \<subseteq> set (aflg (aflag_one t a))"
  by (auto simp: aflag_one_def aqueue_run_def aset_def Let_def)

lemma sched_ok_fold_flags:
  "sched_ok a \<Longrightarrow> set ts \<subseteq> set (aflg a) \<Longrightarrow> distinct ts \<Longrightarrow> sched_ok (fold aflag_one ts a)"
proof (induction ts arbitrary: a)
  case Nil
  then show ?case by simp
next
  case (Cons t ts)
  have "sched_ok (aflag_one t a)" using Cons.prems by (intro sched_ok_flag_one) auto
  moreover have "set ts \<subseteq> set (aflg (aflag_one t a))"
    using Cons.prems aflg_flag_one [of a t] by (auto simp: sched_ok_def)
  ultimately show ?case using Cons by simp
qed

lemma sched_ok_flags: "sched_ok a \<Longrightarrow> sched_ok (aflags a)"
  unfolding aflags_def using sched_ok_fold_flags [of a "aflg a"] by (auto simp: sched_ok_def)

lemma sched_ok_pick: "sched_ok a \<Longrightarrow> sched_ok (apick a)"
  by (auto simp: apick_def aset_def sched_ok_def all_tasks_def flags_ok_def split: list.splits)

lemma sched_ok_schedule: "sched_ok a \<Longrightarrow> sched_ok (aschedule now a)"
  unfolding aschedule_def by (intro sched_ok_pick sched_ok_flags sched_ok_timer sched_ok_prev)

lemma acnt_stages [simp]: "acnt (aprev a) = acnt a" "acnt (atimer now a) = acnt a"
  by (simp_all add: aprev_def aqueue_run_def aset_def atimer_def)

lemma obind_Inr [simp]: "obind (Some (Inr x)) f = f x"
  by (simp add: obind_def)

theorem schedule_simulates:
  assumes sa: "sched_abs s a" and ok: "sched_ok a" and bound: "acnt a \<le> 0xffffffffffff0000"
  obtains s' where "schedule now s = Some (Inr s')" "sched_abs s' (aschedule now a)"
proof -
  have "acur a \<in> all_tasks a" using ok by (simp add: sched_ok_def)
  note sa1 = sched_abs_prev [OF sa this]
  obtain s2 where s2: "schedule_handle_timer_waiting now (schedule_prev_task (schedule_debug s))
      = Some (Inr s2)" "sched_abs s2 (atimer now (aprev a))"
    by (rule sched_abs_timer [OF sa1])
  have ok2: "sched_ok (atimer now (aprev a))" by (intro sched_ok_timer sched_ok_prev ok)
  have "acnt (atimer now (aprev a)) \<le> 0xffffffffffff0000" using bound by simp
  then obtain s3 where s3: "schedule_handle_flag_waiting s2 = Some (Inr s3)"
    "sched_abs s3 (aflags (atimer now (aprev a)))"
    using sched_abs_flags [OF s2(2)] ok2 by (auto simp: sched_ok_def)
  have ok3: "sched_ok (aflags (atimer now (aprev a)))" by (intro sched_ok_flags ok2)
  then have "0 \<notin> set (arun (aflags (atimer now (aprev a))))" "aidle (aflags (atimer now (aprev a))) \<noteq> 0"
    by (auto simp: sched_ok_def all_tasks_def)
  from sched_abs_pick [OF s3(2) this] s2 s3 show ?thesis
    using that by (auto simp: schedule_def aschedule_def)
qed

end
