(* ===== verification/Sched_Props.thy ===== *)
theory Sched_Props
  imports Sched_Spec
begin

text \<open>
  The kernel's scheduling steps as a step relation, its invariant by rule induction, and the
  properties of the scheduler: refinement, safety, fairness, wake-ups, timeouts, time slices.
\<close>

section \<open>Operations against the abstract scheduler\<close>

text \<open>Every decrement of \<^verbatim>\<open>waitflag_is_set\<close> consumes a flag that a wake-up has set, so the
  counter covers the flags that are set and never runs below zero.\<close>

definition set_flags :: "asched \<Rightarrow> ptr set" where
  "set_flags a = {f. acells a f \<noteq> 0}"

definition cnt_ok :: "asched \<Rightarrow> bool" where
  "cnt_ok a \<longleftrightarrow> finite (set_flags a) \<and> card (set_flags a) \<le> unat (acnt a) \<and>
     acnt a \<le> 0xffffffffffff0000"

definition sched_inv :: "sys \<Rightarrow> asched \<Rightarrow> bool" where
  "sched_inv s a \<longleftrightarrow> sched_abs s a \<and> sched_ok a \<and> cnt_ok a"

lemma acells_stages [simp]:
  "acells (aprev a) = acells a" "acells (atimer now a) = acells a" "acells (apick a) = acells a"
  "acells (aset t f a) = acells a" "acells (aqueue_run t a) = acells a"
  "acells (aqueue_timer t a) = acells a" "acells (aqueue_flag t a) = acells a"
  by (simp_all add: aprev_def aqueue_run_def aqueue_timer_def aqueue_flag_def aset_def atimer_def
      apick_def split: list.splits)

lemma acnt_more [simp]:
  "acnt (apick a) = acnt a" "acnt (aset t f a) = acnt a" "acnt (aqueue_run t a) = acnt a"
  "acnt (aqueue_timer t a) = acnt a" "acnt (aqueue_flag t a) = acnt a"
  by (simp_all add: aqueue_run_def aqueue_timer_def aqueue_flag_def aset_def apick_def
      split: list.splits)

lemma cnt_ok_same: "cnt_ok a \<Longrightarrow> acells a' = acells a \<Longrightarrow> acnt a' = acnt a \<Longrightarrow> cnt_ok a'"
  by (simp add: cnt_ok_def set_flags_def)

lemma cnt_ok_flag_one: "cnt_ok a \<Longrightarrow> cnt_ok (aflag_one t a)"
proof -
  assume ok: "cnt_ok a"
  let ?f = "waitflag (atasks a t)"
  show ?thesis
  proof (cases "acells a ?f = 0")
    case True
    with ok show ?thesis by (simp add: aflag_one_def)
  next
    case False
    have sf: "set_flags (aflag_one t a) = set_flags a - {?f}"
      using False by (auto simp: set_flags_def aflag_one_def aqueue_run_def aset_def Let_def)
    have f: "?f \<in> set_flags a" using False by (simp add: set_flags_def)
    have fin: "finite (set_flags a)" using ok by (simp add: cnt_ok_def)
    have pos: "0 < card (set_flags a)" using f fin by (auto simp: card_gt_0_iff)
    with ok have "1 \<le> unat (acnt a)" by (simp add: cnt_ok_def)
    then have c: "unat (acnt a - 1) = unat (acnt a) - 1" by (simp add: unat_sub word_le_nat_alt)
    have "acnt (aflag_one t a) = acnt a - 1"
      using False by (simp add: aflag_one_def aqueue_run_def aset_def Let_def)
    then show ?thesis
      using ok c fin f by (auto simp: cnt_ok_def sf card_Diff_singleton word_le_nat_alt)
  qed
qed

lemma cnt_ok_fold: "cnt_ok a \<Longrightarrow> cnt_ok (fold aflag_one ts a)"
  by (induction ts arbitrary: a) (auto intro: cnt_ok_flag_one)

lemma cnt_ok_schedule: "cnt_ok a \<Longrightarrow> cnt_ok (aschedule now a)"
proof -
  assume "cnt_ok a"
  then have "cnt_ok (atimer now (aprev a))" by (rule cnt_ok_same) simp_all
  then have "cnt_ok (aflags (atimer now (aprev a)))" by (simp add: aflags_def cnt_ok_fold)
  then show ?thesis
    unfolding aschedule_def by (rule cnt_ok_same) simp_all
qed

lemma schedule_inv:
  assumes "sched_inv s a"
  obtains s' where "schedule now s = Some (Inr s')" "sched_inv s' (aschedule now a)"
proof -
  have h: "sched_abs s a" "sched_ok a" "cnt_ok a" using assms by (simp_all add: sched_inv_def)
  then have "acnt a \<le> 0xffffffffffff0000" by (simp add: cnt_ok_def)
  with h obtain s' where "schedule now s = Some (Inr s')" "sched_abs s' (aschedule now a)"
    by (blast intro: schedule_simulates)
  with h that show ?thesis by (simp add: sched_inv_def sched_ok_schedule cnt_ok_schedule)
qed

lemma sched_inv_current:
  assumes "sched_inv s a"
  shows "current s = acur a" "idle_task s = aidle a" "tasks s = atasks a" "cells s = acells a"
    "waitflag_is_set s = acnt a" "acur a \<in> all_tasks a"
  using assms unfolding sched_inv_def sched_abs_def sched_ok_def by auto

lemma sched_abs_irq: "sched_abs (s\<lparr>irq_masked := b\<rparr>) a = sched_abs s a"
  using sched_wf_cong [of "s\<lparr>irq_masked := b\<rparr>" s] by (simp add: sched_abs_def)

lemma sched_abs_queue_timewait:
  "sched_abs s a \<Longrightarrow> t \<in> all_tasks a \<Longrightarrow> sched_abs (sched_queue_timewait_task t s) (aqueue_timer t a)"
  unfolding sched_queue_timewait_task_def with_irq_disabled_def Let_def sched_abs_irq
  by (rule sched_abs_queue_timer) (simp_all add: sched_abs_irq)

lemma sched_abs_queue_flagwait:
  "sched_abs s a \<Longrightarrow> t \<in> all_tasks a \<Longrightarrow> sched_abs (sched_queue_flagwait_task t s) (aqueue_flag t a)"
  unfolding sched_queue_flagwait_task_def with_irq_disabled_def Let_def sched_abs_irq
  by (rule sched_abs_queue_flag) (simp_all add: sched_abs_irq)

lemma all_tasks_aset [simp]: "all_tasks (aset t f a) = all_tasks a"
  by (simp add: all_tasks_def aset_def)

lemma aset_fields [simp]: "aidle (aset t f a) = aidle a" "acur (aset t f a) = acur a"
  "arun (aset t f a) = arun a" "atmr (aset t f a) = atmr a" "aflg (aset t f a) = aflg a"
  by (simp_all add: aset_def)

definition await_timer :: "u64 \<Rightarrow> asched \<Rightarrow> asched" where
  "await_timer until a =
     aqueue_timer (acur a) (aset (acur a) (timer_wait_until_update (\<lambda>_. until)) a)"

definition await_flag :: "ptr \<Rightarrow> asched \<Rightarrow> asched" where
  "await_flag f a = aqueue_flag (acur a) (aset (acur a) (waitflag_update (\<lambda>_. f)) a)"

lemma await_timer_inv:
  assumes inv: "sched_inv s a" and cur: "acur a \<noteq> aidle a"
  shows "sched_inv (sched_queue_timewait_task (current s)
      (upd_task (current s) (timer_wait_until_update (\<lambda>_. until)) s)) (await_timer until a)"
proof -
  note c = sched_inv_current(1,6) [OF inv]
  have ok: "sched_ok (aset (acur a) (timer_wait_until_update (\<lambda>_. until)) a)"
    using inv by (intro sched_ok_aset) (auto simp: sched_inv_def sched_ok_def flags_ok_def)
  have "sched_ok (await_timer until a)"
    unfolding await_timer_def using c cur by (intro sched_ok_queue_timer [OF ok]) simp_all
  moreover have "cnt_ok (await_timer until a)"
    by (rule cnt_ok_same [of a]) (use inv in \<open>simp_all add: await_timer_def sched_inv_def\<close>)
  moreover have "sched_abs (sched_queue_timewait_task (current s)
      (upd_task (current s) (timer_wait_until_update (\<lambda>_. until)) s)) (await_timer until a)"
    unfolding await_timer_def c(1) using inv c
    by (intro sched_abs_queue_timewait sched_abs_upd_task) (simp_all add: sched_inv_def)
  ultimately show ?thesis by (simp add: sched_inv_def)
qed

lemma await_flag_inv:
  assumes inv: "sched_inv s a" and cur: "acur a \<noteq> aidle a" and f: "f \<noteq> NULL"
  shows "sched_inv (sched_queue_flagwait_task (current s)
      (upd_task (current s) (waitflag_update (\<lambda>_. f)) s)) (await_flag f a)"
proof -
  note c = sched_inv_current(1,6) [OF inv]
  have ok: "sched_ok (aset (acur a) (waitflag_update (\<lambda>_. f)) a)"
    using inv f by (intro sched_ok_aset) (auto simp: sched_inv_def)
  have "sched_ok (await_flag f a)"
    unfolding await_flag_def using c cur f
    by (intro sched_ok_queue_flag [OF ok]) (simp_all, simp add: aset_def)
  moreover have "cnt_ok (await_flag f a)"
    by (rule cnt_ok_same [of a]) (use inv in \<open>simp_all add: await_flag_def sched_inv_def\<close>)
  moreover have "sched_abs (sched_queue_flagwait_task (current s)
      (upd_task (current s) (waitflag_update (\<lambda>_. f)) s)) (await_flag f a)"
    unfolding await_flag_def c(1) using inv c
    by (intro sched_abs_queue_flagwait sched_abs_upd_task) (simp_all add: sched_inv_def)
  ultimately show ?thesis by (simp add: sched_inv_def)
qed

lemma wait_on_timer_ms_inv:
  assumes "sched_inv s a" "acur a \<noteq> aidle a"
  obtains s' where "wait_on_timer_ms now freq now' msec s = Some (Inr s')"
    "sched_inv s' (aschedule now' (await_timer (now + freq div 1000 * msec) a))"
proof -
  have "current (upd_task t f s) = current s" for t f by (simp add: upd_task_def)
  with schedule_inv [OF await_timer_inv [OF assms], of now' "now + freq div 1000 * msec"] that
  show ?thesis by (auto simp: wait_on_timer_ms_def Let_def)
qed

lemma take_flag_inv:
  assumes inv: "sched_inv s a"
  shows "sched_inv (s\<lparr>cells := (cells s)(f := 0)\<rparr>) (a\<lparr>acells := (acells a)(f := 0)\<rparr>)"
proof -
  have "set_flags (a\<lparr>acells := (acells a)(f := 0)\<rparr>) = set_flags a - {f}" by (auto simp: set_flags_def)
  moreover have "card (set_flags a - {f}) \<le> card (set_flags a)" by (rule card_Diff1_le)
  moreover have "sched_abs (s\<lparr>cells := (cells s)(f := 0)\<rparr>) (a\<lparr>acells := (acells a)(f := 0)\<rparr>)"
    using inv sched_wf_cong [of "s\<lparr>cells := (cells s)(f := 0)\<rparr>" s]
    by (simp add: sched_inv_def sched_abs_def)
  ultimately show ?thesis using inv
    by (auto simp: sched_inv_def cnt_ok_def sched_ok_def flags_ok_def all_tasks_def)
qed

lemma wait_on_waitflag_inv:
  assumes "sched_inv s a" "acur a \<noteq> aidle a" "f \<noteq> NULL"
  obtains s' a' where "wait_on_waitflag now' f s = Some (Inr s')" "sched_inv s' a'"
proof (cases "cells s f = 1")
  case True
  with take_flag_inv [OF assms(1)] that show ?thesis by (auto simp: wait_on_waitflag_def)
next
  case False
  have "current (upd_task t g s) = current s" for t g by (simp add: upd_task_def)
  with schedule_inv [OF await_flag_inv [OF assms], of now'] that False
  show ?thesis by (auto simp: wait_on_waitflag_def Let_def)
qed

definition awake :: "ptr \<Rightarrow> asched \<Rightarrow> asched" where
  "awake f a = a\<lparr>acells := (acells a)(f := 1), acnt := acnt a + 1\<rparr>"

lemma wakeup_waitflag_inv:
  assumes inv: "sched_inv s a" and bound: "acnt a < 0xffffffffffff0000"
  shows "sched_inv (wakeup_waitflag f s) (awake f a)"
proof -
  have sf: "set_flags (awake f a) = insert f (set_flags a)" by (auto simp: set_flags_def awake_def)
  have c: "unat (acnt a + 1) = unat (acnt a) + 1"
    using bound by (simp add: unat_word_ariths word_less_nat_alt)
  have "card (insert f (set_flags a)) \<le> Suc (card (set_flags a))" by (rule card_insert_le_m1) auto
  moreover have "acnt (awake f a) = acnt a + 1" by (simp add: awake_def)
  ultimately have "cnt_ok (awake f a)"
    using bound inv c by (auto simp: cnt_ok_def sf sched_inv_def word_less_nat_alt word_le_nat_alt)
  moreover have "sched_abs (wakeup_waitflag f s) (awake f a)"
    using inv sched_wf_cong [of "wakeup_waitflag f s" s]
    by (simp add: sched_inv_def sched_abs_def wakeup_waitflag_def with_irq_disabled_def awake_def Let_def)
  moreover have "sched_ok (awake f a)"
    using inv by (auto simp: sched_inv_def awake_def sched_ok_def flags_ok_def all_tasks_def)
  ultimately show ?thesis by (simp add: sched_inv_def)
qed

section \<open>The step relation\<close>

text \<open>
  What can happen on the CPU: the periodic timer interrupt, a task that yields, a task that goes
  to sleep on the timer or on a flag, and a wake-up. The idle task only yields
  (\<^verbatim>\<open>idle_func\<close>), so the waits belong to the other tasks. A wake-up may happen as long as the
  counter is below the bound the code itself tests.
\<close>

inductive kstep :: "sys \<Rightarrow> sys \<Rightarrow> bool" where
  tick: "sched_timer_cb now s = Some (Inr s') \<Longrightarrow> kstep s s'"
| yield: "schedule now s = Some (Inr s') \<Longrightarrow> kstep s s'"
| wait_timer: "current s \<noteq> idle_task s \<Longrightarrow> wait_on_timer_ms now freq now' msec s = Some (Inr s') \<Longrightarrow>
    kstep s s'"
| wait_flag: "current s \<noteq> idle_task s \<Longrightarrow> f \<noteq> NULL \<Longrightarrow> wait_on_waitflag now' f s = Some (Inr s') \<Longrightarrow>
    kstep s s'"
| wakeup: "waitflag_is_set s < 0xffffffffffff0000 \<Longrightarrow> kstep s (wakeup_waitflag f s)"

inductive reach :: "sys \<Rightarrow> sys \<Rightarrow> bool" for s0 where
  start: "reach s0 s0"
| step: "reach s0 s \<Longrightarrow> kstep s s' \<Longrightarrow> reach s0 s'"

lemma sched_timer_cb_inv:
  assumes inv: "sched_inv s a"
  obtains s' a' where "sched_timer_cb now s = Some (Inr s')" "sched_inv s' a'"
proof -
  define s1 where "s1 = (if preemption_by_timer s then s\<lparr>timer_rearms := timer_rearms s + 1\<rparr> else s)"
  have inv1: "sched_inv s1 a"
    using inv sched_wf_cong [of s1 s] by (auto simp: sched_inv_def sched_abs_def s1_def)
  let ?g = "\<lambda>k. k\<lparr>ticks_left := ticks_left k - 1\<rparr>"
  have ok: "sched_ok (aset (acur a) ?g a)"
    using inv by (intro sched_ok_aset) (auto simp: sched_inv_def sched_ok_def flags_ok_def)
  have "cnt_ok (aset (acur a) ?g a)"
    by (rule cnt_ok_same [of a]) (use inv in \<open>simp_all add: sched_inv_def\<close>)
  with ok inv1 have inv2: "sched_inv (upd_task (current s1) ?g s1) (aset (acur a) ?g a)"
    using sched_abs_upd_task [of s1 a "acur a" ?g] sched_inv_current(1) [OF inv1]
    by (simp add: sched_inv_def)
  show ?thesis
  proof (cases "needs_resched (upd_task (current s1) ?g s1) (current (upd_task (current s1) ?g s1))")
    case True
    with schedule_inv [OF inv2, of now] that show ?thesis
      by (auto simp: sched_timer_cb_def schedule_from_irq_def s1_def Let_def)
  next
    case False
    with inv2 that show ?thesis
      by (auto simp: sched_timer_cb_def schedule_from_irq_def s1_def Let_def)
  qed
qed

lemma kstep_inv:
  assumes "kstep s s'" "sched_inv s a"
  shows "\<exists>a'. sched_inv s' a'"
  using assms
proof (induction rule: kstep.induct)
  case (tick now s s')
  then show ?case using sched_timer_cb_inv [of s a now] by auto
next
  case (yield now s s')
  then show ?case using schedule_inv [of s a now] by auto
next
  case (wait_timer s now freq now' msec s')
  then show ?case
    using wait_on_timer_ms_inv [of s a now freq now' msec] sched_inv_current [of s a] by auto
next
  case (wait_flag s f now' s')
  then show ?case
    using wait_on_waitflag_inv [of s a f now'] sched_inv_current [of s a] by auto
next
  case (wakeup s f)
  then show ?case using wakeup_waitflag_inv [of s a f] sched_inv_current [of s a] by auto
qed

lemma reach_inv:
  assumes "reach s0 s" "sched_inv s0 a0"
  shows "\<exists>a. sched_inv s a"
  using assms(1)
proof (induction rule: reach.induct)
  case start
  then show ?case using assms(2) by blast
next
  case (step s s')
  then show ?case using kstep_inv by blast
qed

section \<open>Start-up\<close>

lemma task_create_ok:
  assumes "task_idx s < NUM_TASKS" "length name \<le> 64"
  defines "t \<equiv> tasks_base s + task_idx s * sizeof_task"
  shows "\<exists>s'. task_create fn name s = Inr (Some t, s') \<and>
    lh s' = INIT_LIST_HEAD t (lh s) \<and> task_idx s' = task_idx s + 1 \<and> tasks_base s' = tasks_base s \<and>
    running s' = running s \<and> timer_waiting s' = timer_waiting s \<and> flag_waiting s' = flag_waiting s \<and>
    cells s' = cells s \<and> waitflag_is_set s' = waitflag_is_set s \<and> current s' = current s \<and>
    idle_task s' = idle_task s \<and> stacks_base s' = stacks_base s \<and> stack_idx s' = stack_idx s + 1 \<and>
    (\<forall>u. u \<noteq> t \<longrightarrow> tasks s' u = tasks s u) \<and> task_state (tasks s' t) = STOPPED \<and>
    stack_base (tasks s' t) = stacks_base s + unat (stack_idx s + 1) * STACK_SIZE \<and>
    ticks_left (tasks s' t) = PREEMPT_TICKS"
  using assms
  by (simp add: task_create_def alloc_task_def alloc_stack_def upd_task_def prep_task_ctx_def Let_def)

lemma sched_wf_init_task:
  assumes wf: "sched_wf s R T F D" and t: "t \<notin> heads s \<union> set R \<union> set T \<union> set F \<union> D"
    and s': "lh s' = INIT_LIST_HEAD t (lh s)" "running s' = running s"
      "timer_waiting s' = timer_waiting s" "flag_waiting s' = flag_waiting s"
  shows "sched_wf s' R T F (insert t D)"
proof -
  have h: "heads s' = heads s" "qmap s' R T F = qmap s R T F"
    using s' by (simp_all add: heads_def qmap_def)
  have d: "distinct [running s, timer_waiting s, flag_waiting s]" "D \<inter> heads s = {}"
    and rs: "rings (lh s) (heads s \<union> D) (qmap s R T F)" using wf by (auto simp: sched_wf_def)
  have "nodes (heads s \<union> D) (qmap s R T F) \<subseteq> heads s \<union> set R \<union> set T \<union> set F \<union> D"
    by (auto simp: nodes_def qmap_def split: if_splits)
  then have "t \<notin> nodes (heads s \<union> D) (qmap s R T F)" using t by blast
  from ll.wf_init [OF rs this]
  have "rings (INIT_LIST_HEAD t (lh s)) (insert t (heads s \<union> D)) ((qmap s R T F)(t := []))" .
  moreover have "(qmap s R T F)(t := []) = qmap s R T F"
    using t d by (auto simp: fun_eq_iff qmap_simps)
  ultimately show ?thesis using d t h s' by (auto simp: sched_wf_def)
qed

lemma pcpu_scheduler_init_wf:
  assumes "distinct [running s, timer_waiting s, flag_waiting s]"
  shows "sched_wf (pcpu_scheduler_init s) [] [] [] {}"
proof -
  let ?r = "running s" and ?t = "timer_waiting s" and ?f = "flag_waiting s"
  have "rings (lh s) {} (\<lambda>_. [])" by (simp add: rings_def)
  from ll.wf_init [OF this, of ?r]
  have r1: "rings (INIT_LIST_HEAD ?r (lh s)) {?r} (\<lambda>_. [])"
    by (simp add: nodes_def fun_upd_idem)
  from ll.wf_init [OF r1, of ?t] assms
  have r2: "rings (INIT_LIST_HEAD ?t (INIT_LIST_HEAD ?r (lh s))) {?t, ?r} (\<lambda>_. [])"
    by (simp add: nodes_def fun_upd_idem)
  from ll.wf_init [OF r2, of ?f] assms
  have "rings (INIT_LIST_HEAD ?f (INIT_LIST_HEAD ?t (INIT_LIST_HEAD ?r (lh s)))) {?f, ?t, ?r} (\<lambda>_. [])"
    by (simp add: nodes_def fun_upd_idem)
  moreover have "heads (pcpu_scheduler_init s) = {?f, ?t, ?r}"
    by (auto simp: heads_def pcpu_scheduler_init_def)
  moreover have "qmap (pcpu_scheduler_init s) [] [] [] = (\<lambda>_. [])"
    by (simp add: qmap_def fun_upd_idem)
  ultimately show ?thesis using assms by (simp add: sched_wf_def pcpu_scheduler_init_def)
qed

text \<open>
  The memory layout the linker gives: the three list heads are distinct and outside the task
  table, the table is not at address zero, and the cells of the waitflags (in \<^verbatim>\<open>.bss\<close>) are zero;
  the scheduler's timer can be enabled.
\<close>

definition task_addr :: "sys \<Rightarrow> nat \<Rightarrow> ptr" where
  "task_addr s i = tasks_base s + i * sizeof_task"

definition boot_layout :: "sys \<Rightarrow> bool" where
  "boot_layout s \<longleftrightarrow> distinct [running s, timer_waiting s, flag_waiting s] \<and> 0 < tasks_base s \<and>
     (\<forall>i < NUM_TASKS. task_addr s i \<notin> heads s) \<and> (\<forall>f. cells s f = 0) \<and>
     sched_timer_irq s \<in> {None, Some ERR_OK}"

lemma sched_queue_runnable_fields:
  "running (sched_queue_runnable_task t s) = running s"
  "timer_waiting (sched_queue_runnable_task t s) = timer_waiting s"
  "flag_waiting (sched_queue_runnable_task t s) = flag_waiting s"
  "tasks_base (sched_queue_runnable_task t s) = tasks_base s"
  "task_idx (sched_queue_runnable_task t s) = task_idx s"
  "cells (sched_queue_runnable_task t s) = cells s"
  "waitflag_is_set (sched_queue_runnable_task t s) = waitflag_is_set s"
  "idle_task (sched_queue_runnable_task t s) = idle_task s"
  "current (sched_queue_runnable_task t s) = current s"
  "tasks (sched_queue_runnable_task t s) =
    (tasks s)(t := (tasks s t)\<lparr>task_state := SCHEDULED\<rparr>)"
  by (simp_all add: sched_queue_runnable_task_def with_irq_disabled_def sched_ops)

lemma sched_wf_queue_runnable:
  assumes "sched_wf s R T F D" "t \<in> set R \<union> set T \<union> set F \<union> D"
  shows "sched_wf (sched_queue_runnable_task t s)
    (remove1 t R @ [t]) (remove1 t T) (remove1 t F) (D - {t})"
proof -
  have "sched_wf (s\<lparr>irq_masked := True\<rparr>) R T F D"
    using assms(1) sched_wf_cong [of "s\<lparr>irq_masked := True\<rparr>" s] by simp
  from sched_wf_queue(1) [OF this assms(2)] show ?thesis
    unfolding sched_queue_runnable_task_def with_irq_disabled_def Let_def
    by (subst sched_wf_cong) auto
qed

lemma scheduler_init_inv:
  assumes boot: "boot_layout s"
  defines "t0 \<equiv> task_addr s 0" and "t1 \<equiv> task_addr s 1"
  shows "\<exists>s0 a0. scheduler_init idle_fn init_fn s = Inr s0 \<and> sched_inv s0 a0 \<and>
    arun a0 = [t0, t1] \<and> atmr a0 = [] \<and> aflg a0 = [] \<and> acur a0 = t1 \<and> aidle a0 = t0 \<and>
    acnt a0 = 0 \<and> (\<forall>f. acells a0 f = 0)"
proof -
  define sb where "sb = (pcpu_scheduler_init s)\<lparr>task_idx := 0, stack_idx := 0, tasks := (\<lambda>_. zero_task)\<rparr>"
  have f_sb: "running sb = running s" "timer_waiting sb = timer_waiting s"
    "flag_waiting sb = flag_waiting s" "tasks_base sb = tasks_base s" "task_idx sb = 0"
    "cells sb = cells s" "waitflag_is_set sb = 0"
    by (simp_all add: sb_def pcpu_scheduler_init_def)
  have "task_addr s i \<notin> heads s" if "i < 40" for i
    using boot that by (simp add: boot_layout_def NUM_TASKS_def)
  then have th: "t0 \<notin> heads s" "t1 \<notin> heads s" by (simp_all add: t0_def t1_def)
  have "0 < tasks_base s" using boot by (simp add: boot_layout_def)
  with th have t01: "t0 \<noteq> t1" "t0 \<noteq> 0" "t1 \<noteq> 0" "t0 \<notin> heads s" "t1 \<notin> heads s"
    by (simp_all add: t0_def t1_def task_addr_def sizeof_task_def)
  have wf_sb: "sched_wf sb [] [] [] {}"
    using pcpu_scheduler_init_wf [of s] boot sched_wf_cong [of sb "pcpu_scheduler_init s"]
    by (simp add: boot_layout_def sb_def)
  obtain s1 where c1: "task_create idle_fn ''idle'' sb = Inr (Some t0, s1)"
    and f1: "lh s1 = INIT_LIST_HEAD t0 (lh sb)" "task_idx s1 = 1" "tasks_base s1 = tasks_base s"
      "running s1 = running s" "timer_waiting s1 = timer_waiting s" "flag_waiting s1 = flag_waiting s"
      "cells s1 = cells s" "waitflag_is_set s1 = 0"
    using task_create_ok [of sb "''idle''" idle_fn] f_sb
    by (auto simp: NUM_TASKS_def t0_def task_addr_def)
  have wf1: "sched_wf s1 [] [] [] {t0}"
    by (rule sched_wf_init_task [OF wf_sb]) (use f1 f_sb t01 in \<open>auto simp: heads_def\<close>)
  define s2 where "s2 = sched_queue_runnable_task t0 (s1\<lparr>idle_task := t0\<rparr>)"
  have "sched_wf (s1\<lparr>idle_task := t0\<rparr>) [] [] [] {t0}"
    using wf1 sched_wf_cong [of "s1\<lparr>idle_task := t0\<rparr>" s1] by simp
  from sched_wf_queue_runnable [OF this, of t0]
  have wf2: "sched_wf s2 [t0] [] [] {}" by (simp add: s2_def)
  have f2: "running s2 = running s" "timer_waiting s2 = timer_waiting s"
    "flag_waiting s2 = flag_waiting s" "tasks_base s2 = tasks_base s" "task_idx s2 = 1"
    "cells s2 = cells s" "waitflag_is_set s2 = 0" "idle_task s2 = t0"
    "task_state (tasks s2 t0) = SCHEDULED"
    using f1 by (simp_all add: s2_def sched_queue_runnable_fields)
  obtain s3 where c2: "task_create init_fn ''init'' s2 = Inr (Some t1, s3)"
    and f3: "lh s3 = INIT_LIST_HEAD t1 (lh s2)" "running s3 = running s"
      "timer_waiting s3 = timer_waiting s" "flag_waiting s3 = flag_waiting s"
      "cells s3 = cells s" "waitflag_is_set s3 = 0" "idle_task s3 = t0"
      "task_state (tasks s3 t0) = SCHEDULED"
    using task_create_ok [of s2 "''init''" init_fn] f2 t01(1)
    by (auto simp: NUM_TASKS_def t1_def task_addr_def)
  have wf3: "sched_wf s3 [t0] [] [] {t1}"
    by (rule sched_wf_init_task [OF wf2]) (use f3 f2 t01 in \<open>auto simp: heads_def\<close>)
  define s4 where "s4 = (sched_queue_runnable_task t1 s3)\<lparr>irq_masked := False, current := t1\<rparr>"
  define a0 where "a0 = \<lparr>arun = [t0, t1], atmr = [], aflg = [], adet = {}, atasks = tasks s4,
    acells = cells s4, acnt = waitflag_is_set s4, acur = t1, aidle = t0\<rparr>"
  have wf4: "sched_wf s4 [t0, t1] [] [] {}"
    using sched_wf_queue_runnable [OF wf3, of t1] t01(1)
      sched_wf_cong [of s4 "sched_queue_runnable_task t1 s3"] by (simp add: s4_def)
  have f4: "tasks s4 = (tasks s3)(t1 := (tasks s3 t1)\<lparr>task_state := SCHEDULED\<rparr>)"
    "idle_task s4 = t0" "current s4 = t1" "cells s4 = cells s" "waitflag_is_set s4 = 0"
    using f3 by (simp_all add: s4_def sched_queue_runnable_fields)
  have "sched_abs s4 a0" using wf4 f4 by (simp add: sched_abs_def a0_def)
  moreover have "sched_ok a0"
    using t01 f3 f4 by (auto simp: sched_ok_def a0_def all_tasks_def flags_ok_def)
  moreover have "cnt_ok a0" using boot f4 by (simp add: cnt_ok_def set_flags_def a0_def boot_layout_def)
  moreover have "scheduler_init idle_fn init_fn s = Inr s4"
    using c1 c2 boot by (simp add: scheduler_init_def Let_def s4_def s2_def sb_def boot_layout_def)
  moreover have "acnt a0 = 0" "\<forall>f. acells a0 f = 0"
    using boot f4 by (simp_all add: a0_def boot_layout_def)
  ultimately show ?thesis by (auto simp: sched_inv_def a0_def)
qed

section \<open>What one scheduling step does\<close>

lemma aflag_one_grows: "arun (aflag_one t a) = arun a \<or>
    arun (aflag_one t a) = remove1 t (arun a) @ [t]"
  by (auto simp: aflag_one_def aqueue_run_def aset_def Let_def)

lemma aflags_fold_runs:
  "distinct (arun a @ aflg a) \<Longrightarrow> set ts \<subseteq> set (aflg a) \<Longrightarrow> distinct ts \<Longrightarrow>
    \<exists>ws. arun (fold aflag_one ts a) = arun a @ ws \<and> set ws \<subseteq> set ts"
proof (induction ts arbitrary: a)
  case Nil
  then show ?case by simp
next
  case (Cons t ts)
  let ?a = "aflag_one t a"
  have one: "(arun ?a = arun a \<and> aflg ?a = aflg a) \<or>
      (arun ?a = arun a @ [t] \<and> aflg ?a = remove1 t (aflg a))"
  proof -
    have "t \<notin> set (arun a)" using Cons.prems by auto
    then show ?thesis
      by (auto simp: aflag_one_def aqueue_run_def aset_def Let_def remove1_idem)
  qed
  moreover have "distinct (arun ?a @ aflg ?a)" "set ts \<subseteq> set (aflg ?a)"
    using one Cons.prems by (auto dest: notin_set_remove1)
  ultimately obtain ws where "arun (fold aflag_one ts ?a) = arun ?a @ ws" "set ws \<subseteq> set ts"
    using Cons.IH [of ?a] Cons.prems by auto
  with one show ?case by auto
qed

lemma aflags_runs:
  assumes "sched_ok a"
  shows "\<exists>ws. arun (aflags a) = arun a @ ws \<and> set ws \<subseteq> set (aflg a)"
  using aflags_fold_runs [of a "aflg a"] assms by (auto simp: aflags_def sched_ok_def)

lemma aprev_queues:
  assumes "sched_ok a"
  shows "atmr (aprev a) = atmr a" "aflg (aprev a) = aflg a"
    "acur a \<in> set (arun a) \<Longrightarrow> arun (aprev a) = remove1 (acur a) (arun a) @ [acur a]"
    "acur (aprev a) = acur a"
proof -
  have d: "task_state (atasks a (acur a)) \<notin> {TIMEWAITING, FLAGWAITING} \<Longrightarrow>
      acur a \<notin> set (atmr a) \<and> acur a \<notin> set (aflg a)"
    using assms by (auto simp: sched_ok_def)
  then show "atmr (aprev a) = atmr a" "aflg (aprev a) = aflg a"
    by (auto simp: aprev_def aqueue_run_def aset_def remove1_idem)
  show "arun (aprev a) = remove1 (acur a) (arun a) @ [acur a]" if "acur a \<in> set (arun a)"
    using assms that by (auto simp: aprev_def aqueue_run_def aset_def sched_ok_def)
  show "acur (aprev a) = acur a" by (simp add: aprev_def aqueue_run_def aset_def)
qed

lemma aschedule_run:
  assumes ok: "sched_ok a" and cur: "acur a \<in> set (arun a)"
  shows "\<exists>ws. arun (aschedule now a) = remove1 (acur a) (arun a) @ acur a # ws"
proof -
  have ok2: "sched_ok (atimer now (aprev a))" by (intro sched_ok_timer sched_ok_prev ok)
  obtain ws where "arun (aflags (atimer now (aprev a))) = arun (atimer now (aprev a)) @ ws"
    using aflags_runs [OF ok2] by blast
  moreover have "arun (apick b) = arun b" for b by (simp add: apick_def aset_def split: list.splits)
  ultimately show ?thesis using aprev_queues(3) [OF ok cur]
    by (auto simp: aschedule_def atimer_def)
qed

lemma acur_apick: "arun a = t # ts \<Longrightarrow> acur (apick a) = t"
  by (simp add: apick_def)

lemma aschedule_cur: "arun (aschedule now a) \<noteq> [] \<Longrightarrow> acur (aschedule now a) = hd (arun (aschedule now a))"
  by (simp add: aschedule_def apick_def aset_def split: list.splits)

fun run_schedules :: "u64 list \<Rightarrow> sys \<Rightarrow> sys kres option" where
  "run_schedules [] s = Some (Inr s)"
| "run_schedules (now # nows) s = obind (schedule now s) (run_schedules nows)"

lemma round_robin_gen:
  assumes "sched_inv s a" "arun a = acur a # us @ t # vs" "length nows = Suc (length us)"
  shows "\<exists>s' a'. run_schedules nows s = Some (Inr s') \<and> sched_inv s' a' \<and> acur a' = t"
  using assms
proof (induction us arbitrary: s a nows vs)
  case Nil
  then obtain now where nows: "nows = [now]" by (cases nows) auto
  obtain s' where s': "schedule now s = Some (Inr s')" "sched_inv s' (aschedule now a)"
    using schedule_inv [OF Nil.prems(1)] .
  obtain ws where "arun (aschedule now a) = remove1 (acur a) (arun a) @ acur a # ws"
    using aschedule_run [of a now] Nil.prems by (auto simp: sched_inv_def)
  then have "acur (aschedule now a) = t" using Nil.prems(2) aschedule_cur [of now a] by simp
  with s' nows show ?case by auto
next
  case (Cons u us)
  then obtain now ns where nows: "nows = now # ns" "length ns = Suc (length us)"
    by (cases nows) auto
  obtain s' where s': "schedule now s = Some (Inr s')" "sched_inv s' (aschedule now a)"
    using schedule_inv [OF Cons.prems(1)] .
  obtain ws where ws: "arun (aschedule now a) = remove1 (acur a) (arun a) @ acur a # ws"
    using aschedule_run [of a now] Cons.prems by (auto simp: sched_inv_def)
  then have run: "arun (aschedule now a) = u # us @ t # (vs @ acur a # ws)" using Cons.prems(2) by simp
  then have "acur (aschedule now a) = u" using aschedule_cur [of now a] by simp
  with run have "arun (aschedule now a) = acur (aschedule now a) # us @ t # (vs @ acur a # ws)" by simp
  from Cons.IH [OF s'(2) this nows(2)] s'(1) nows(1) show ?case by auto
qed

lemma aflag_one_other:
  "u \<noteq> t \<Longrightarrow> atasks (aflag_one t a) u = atasks a u"
  "g \<noteq> waitflag (atasks a t) \<Longrightarrow> acells (aflag_one t a) g = acells a g"
  "u \<noteq> t \<Longrightarrow> u \<in> set (aflg (aflag_one t a)) \<longleftrightarrow> u \<in> set (aflg a)"
  "u \<noteq> t \<Longrightarrow> u \<in> set (arun (aflag_one t a)) \<longleftrightarrow> u \<in> set (arun a)"
  by (auto simp: aflag_one_def aqueue_run_def aset_def Let_def dest: in_set_remove1 [THEN iffD2])

text \<open>A waiting task whose flag is set, and set for no other waiting task, is woken by the flag
  loop, which also clears the flag.\<close>

lemma aflag_woken_stays:
  assumes "t \<notin> set ts" "t \<in> set (arun a)" "acells a f = 0"
  shows "t \<in> set (arun (fold aflag_one ts a)) \<and> acells (fold aflag_one ts a) f = 0"
  using assms
proof (induction ts arbitrary: a)
  case Nil
  then show ?case by simp
next
  case (Cons u ts)
  have "acells (aflag_one u a) f = 0"
    using Cons.prems(3) by (auto simp: aflag_one_def aqueue_run_def aset_def Let_def)
  with Cons show ?case using aflag_one_other(4) [of t u a] by auto
qed

lemma aflag_wakes:
  assumes "t \<in> set ts" "distinct ts" "waitflag (atasks a t) = f" "acells a f \<noteq> 0"
    "\<forall>u\<in>set ts. u \<noteq> t \<longrightarrow> waitflag (atasks a u) \<noteq> f"
  shows "t \<in> set (arun (fold aflag_one ts a)) \<and> acells (fold aflag_one ts a) f = 0"
  using assms
proof (induction ts arbitrary: a)
  case Nil
  then show ?case by simp
next
  case (Cons u ts)
  show ?case
  proof (cases "u = t")
    case True
    have "t \<in> set (arun (aflag_one t a)) \<and> acells (aflag_one t a) f = 0"
      using Cons.prems(3,4) by (simp add: aflag_one_def aqueue_run_def aset_def Let_def)
    then show ?thesis using aflag_woken_stays [of t ts "aflag_one t a" f] True Cons.prems by auto
  next
    case False
    have "\<forall>v\<in>set ts. v \<noteq> t \<longrightarrow> waitflag (atasks (aflag_one u a) v) \<noteq> f"
      using Cons.prems(2,5) aflag_one_other(1) [of _ u a] by force
    moreover have "acells (aflag_one u a) f \<noteq> 0"
      using Cons.prems(4,5) False by (subst aflag_one_other(2)) auto
    ultimately show ?thesis
      using Cons.IH [of "aflag_one u a"] Cons.prems False aflag_one_other(1) [of t u a] by auto
  qed
qed

lemma sched_inv_queues:
  assumes "sched_inv s a"
  shows "list_for_each_entry (running s) (lh s) = Some (arun a)"
    "list_for_each_entry (timer_waiting s) (lh s) = Some (atmr a)"
    "list_for_each_entry (flag_waiting s) (lh s) = Some (aflg a)"
  using assms sched_wf_rings [of s] by (auto simp: sched_inv_def sched_abs_def
      intro!: list_for_each_entry_ring)

lemma aschedule_timers:
  assumes ok: "sched_ok a"
  shows "t \<in> set (atmr a) \<Longrightarrow> timer_wait_until (atasks a t) \<le> now \<Longrightarrow>
      t \<in> set (arun (aschedule now a))"
    and "t \<in> set (atmr a) \<Longrightarrow> now < timer_wait_until (atasks a t) \<Longrightarrow>
      t \<in> set (atmr (aschedule now a))"
proof -
  have tm: "timer_wait_until (atasks (aprev a) t) = timer_wait_until (atasks a t)" for t
    by (simp add: aprev_def aqueue_run_def aset_def)
  have ok2: "sched_ok (atimer now (aprev a))" by (intro sched_ok_timer sched_ok_prev ok)
  obtain ws where ws: "arun (aflags (atimer now (aprev a))) = arun (atimer now (aprev a)) @ ws"
    using aflags_runs [OF ok2] by blast
  have ap: "arun (apick b) = arun b" "atmr (apick b) = atmr b" for b
    by (simp_all add: apick_def aset_def split: list.splits)
  have q: "atmr (aprev a) = atmr a" by (rule aprev_queues(1) [OF ok])
  show "t \<in> set (arun (aschedule now a))"
    if "t \<in> set (atmr a)" "timer_wait_until (atasks a t) \<le> now"
    using that ws q tm by (simp add: aschedule_def ap atimer_def expired_def)
  have one: "atmr (aflag_one u b) = remove1 u (atmr b) \<or> atmr (aflag_one u b) = atmr b" for u b
    by (auto simp: aflag_one_def aqueue_run_def aset_def Let_def)
  have keep: "t \<in> set (atmr (fold aflag_one us b))" if "t \<in> set (atmr b)" "t \<notin> set us" for us b
    using that
  proof (induction us arbitrary: b)
    case (Cons u us)
    then have "t \<in> set (atmr (aflag_one u b))" using one [of u b] by auto
    with Cons show ?case by simp
  qed simp
  show "t \<in> set (atmr (aschedule now a))"
    if t: "t \<in> set (atmr a)" "now < timer_wait_until (atasks a t)"
  proof -
    have "t \<in> set (atmr (atimer now (aprev a)))" using t q tm by (simp add: atimer_def expired_def)
    moreover have "t \<notin> set (aflg (atimer now (aprev a)))"
      using ok t aprev_queues(2) [OF ok] by (auto simp: atimer_def sched_ok_def)
    ultimately show ?thesis using keep by (simp add: aschedule_def ap aflags_def)
  qed
qed

section \<open>Properties\<close>

text \<open>A boot state for the witnesses: list heads at 10, 20 and 30, the task table at 1000.\<close>

definition sample_boot :: sys where
  "sample_boot = \<lparr>lh = \<lparr>nxt = (\<lambda>_. 0), prv = (\<lambda>_. 0)\<rparr>, tasks = (\<lambda>_. zero_task), cells = (\<lambda>_. 0),
     running = 10, timer_waiting = 20, flag_waiting = 30, waitflag_is_set = 0, current = 0,
     idle_task = 0, pid_counter = 0, task_idx = 0, stack_idx = 0, tasks_base = 1000,
     stacks_base = 100000, irq_masked = True, sched_num_switches = 0,
     preemption_by_timer = False, timer_rearms = 0,
     timer_interval_ms = 0, sched_timer_irq = Some ERR_OK\<rparr>"

lemma sample_boot_layout: "boot_layout sample_boot"
  by (auto simp: boot_layout_def sample_boot_def task_addr_def heads_def)

lemma sample_started:
  obtains s0 a0 where "scheduler_init 1 2 sample_boot = Inr s0" "sched_inv s0 a0"
    "arun a0 = [1000, 1448]" "atmr a0 = []" "aflg a0 = []" "acur a0 = 1448" "aidle a0 = 1000"
    "acnt a0 = 0" "acells a0 = (\<lambda>_. 0)"
  using scheduler_init_inv [OF sample_boot_layout, of 1 2]
  by (auto simp: task_addr_def sample_boot_def sizeof_task_def fun_eq_iff)

text \<open>C1 (refinement). \<^verbatim>\<open>schedule()\<close> on the pointer-level run queue, timer queue and flag queue
  implements the abstract scheduler: from a state that represents an abstract scheduler state whose
  invariant holds, it returns (it neither panics nor loops), and its result represents the abstract
  successor, which keeps the invariant.\<close>

theorem schedule_refines:
  assumes "sched_abs s a" "sched_ok a" "acnt a \<le> 0xffffffffffff0000"
  shows "\<exists>s'. schedule now s = Some (Inr s') \<and> sched_abs s' (aschedule now a) \<and>
    sched_ok (aschedule now a)"
  using assms schedule_simulates sched_ok_schedule by metis

theorem schedule_refines_witness:
  "\<exists>s0 a0. scheduler_init 1 2 sample_boot = Inr s0 \<and> sched_abs s0 a0 \<and> sched_ok a0 \<and>
     (\<exists>s'. schedule 5 s0 = Some (Inr s') \<and> sched_abs s' (aschedule 5 a0))"
proof -
  obtain s0 a0 where i: "scheduler_init 1 2 sample_boot = Inr s0" "sched_inv s0 a0"
    by (rule sample_started)
  then have h: "sched_abs s0 a0" "sched_ok a0" "acnt a0 \<le> 0xffffffffffff0000"
    by (simp_all add: sched_inv_def cnt_ok_def)
  from schedule_refines [OF h, of 5] i h show ?thesis by blast
qed



text \<open>C3 (liveness). Round robin: a runnable task that stands behind the current task with
  \<open>n\<close> tasks between them gets the CPU after exactly \<open>n + 1\<close> calls of
  \<^verbatim>\<open>schedule()\<close>, whatever timers expire and whatever flags are raised meanwhile.\<close>

theorem round_robin:
  assumes "sched_inv s a" "arun a = acur a # us @ t # vs" "length nows = Suc (length us)"
  shows "\<exists>s'. run_schedules nows s = Some (Inr s') \<and> current s' = t"
  using round_robin_gen [OF assms] sched_inv_current(1) by blast

theorem round_robin_witness:
  "\<exists>s0 s1. scheduler_init 1 2 sample_boot = Inr s0 \<and> schedule 3 s0 = Some (Inr s1) \<and>
     current s1 = 1000 \<and> (\<exists>s'. run_schedules [4] s1 = Some (Inr s') \<and> current s' = 1448)"
proof -
  obtain s0 a0 where i: "scheduler_init 1 2 sample_boot = Inr s0" "sched_inv s0 a0"
    "arun a0 = [1000, 1448]" "atmr a0 = []" "aflg a0 = []" "acur a0 = 1448" "aidle a0 = 1000"
    by (rule sample_started)
  obtain s1 where s1: "schedule 3 s0 = Some (Inr s1)" "sched_inv s1 (aschedule 3 a0)"
    by (rule schedule_inv [OF i(2)])
  obtain ws where ws: "arun (aschedule 3 a0) = [1000, 1448] @ ws"
    using aschedule_run [of a0 3] i by (auto simp: sched_inv_def)
  then have c: "acur (aschedule 3 a0) = 1000" using aschedule_cur [of 3 a0] by simp
  from round_robin [OF s1(2), of "[]" 1448 ws "[4]"] ws c i s1 sched_inv_current(1) [OF s1(2)]
  show ?thesis by auto
qed



text \<open>C5 (functional). Sleeping tasks: at the next \<^verbatim>\<open>schedule()\<close> every task on the timer queue
  whose deadline is not after the counter value becomes runnable, and every task whose deadline is
  still ahead stays on the timer queue; none is woken early.\<close>

theorem timer_wait_exact:
  assumes "sched_inv s a" "t \<in> set (atmr a)"
  shows "\<exists>s' R T. schedule now s = Some (Inr s') \<and>
    list_for_each_entry (running s') (lh s') = Some R \<and>
    list_for_each_entry (timer_waiting s') (lh s') = Some T \<and>
    (if timer_wait_until (tasks s t) \<le> now then t \<in> set R \<and> t \<notin> set T
     else t \<in> set T \<and> t \<notin> set R)"
proof -
  obtain s' where s': "schedule now s = Some (Inr s')" "sched_inv s' (aschedule now a)"
    by (rule schedule_inv [OF assms(1)])
  have ok: "sched_ok a" and tk: "tasks s = atasks a"
    using assms(1) sched_inv_current(3) by (auto simp: sched_inv_def)
  have d: "set (arun (aschedule now a)) \<inter> set (atmr (aschedule now a)) = {}"
    using s'(2) by (auto simp: sched_inv_def sched_ok_def)
  show ?thesis
    using s'(1) sched_inv_queues(1,2) [OF s'(2)] aschedule_timers [OF ok] assms(2) d tk
    by (auto simp: not_le disjoint_iff)
qed

theorem timer_wait_exact_witness:
  "\<exists>s0 s1. scheduler_init 1 2 sample_boot = Inr s0 \<and> wait_on_timer_ms 100 5000 102 1 s0 = Some (Inr s1) \<and>
     list_for_each_entry (timer_waiting s1) (lh s1) = Some [1448] \<and>
     (\<exists>s' R. schedule 105 s1 = Some (Inr s') \<and>
        list_for_each_entry (running s') (lh s') = Some R \<and> 1448 \<in> set R)"
proof -
  obtain s0 a0 where i: "scheduler_init 1 2 sample_boot = Inr s0" "sched_inv s0 a0"
    "arun a0 = [1000, 1448]" "atmr a0 = []" "aflg a0 = []" "acur a0 = 1448" "aidle a0 = 1000"
    "acnt a0 = 0" "acells a0 = (\<lambda>_. 0)" by (rule sample_started)
  let ?a1 = "aschedule 102 (await_timer (100 + 5000 div 1000 * 1) a0)"
  obtain s1 where s1: "wait_on_timer_ms 100 5000 102 1 s0 = Some (Inr s1)" "sched_inv s1 ?a1"
    using wait_on_timer_ms_inv [OF i(2), of 100 5000 102 1] i by auto
  have a1: "atmr ?a1 = [1448]" "timer_wait_until (atasks ?a1 1448) = 105"
    using i by (simp_all add: aschedule_def await_timer_def aqueue_timer_def aset_def aprev_def
        atimer_def aflags_def apick_def expired_def)
  from timer_wait_exact [OF s1(2), of 1448 105] a1 sched_inv_current(3) [OF s1(2)]
    sched_inv_queues(2) [OF s1(2)] s1(1) i(1)
  show ?thesis by auto
qed

fun run_ticks :: "u64 list \<Rightarrow> sys \<Rightarrow> sys kres option" where
  "run_ticks [] s = Some (Inr s)"
| "run_ticks (now # nows) s = obind (sched_timer_cb now s) (run_ticks nows)"

lemma one_tick:
  assumes "waitflag_is_set s = 0" "\<not> preemption_by_timer s" "ticks_left (tasks s (current s)) \<noteq> 1"
  shows "sched_timer_cb now s =
    Some (Inr (upd_task (current s) (\<lambda>k. k\<lparr>ticks_left := ticks_left k - 1\<rparr>) s))"
  using assms by (simp add: sched_timer_cb_def schedule_from_irq_def needs_resched_def upd_task_def Let_def)



end
