(* ===== verification/Kmalloc.thy ===== *)
theory Kmalloc
  imports Prelude
begin

text \<open>
  The chunk allocator of \<^verbatim>\<open>src/kmalloc.c\<close> with the bitmaps of
  \<^verbatim>\<open>src/include/bitmap.h\<close> and \<^verbatim>\<open>src/include/bitword.h\<close> and the size logarithm of
  \<^verbatim>\<open>src/include/math.h\<close>. Addresses are offsets into \<^verbatim>\<open>kernel_memory\<close>. An access outside a
  bitmap array is \<open>Inl\<close>.
\<close>

section \<open>Size logarithm\<close>

function log2_loop :: "nat \<Rightarrow> int \<Rightarrow> nat \<times> int" where
  "log2_loop res tmp = (if tmp > 1 then log2_loop (res + 1) (tmp div 2) else (res, tmp))"
  by auto
termination by (relation "measure (\<lambda>(_, tmp). nat tmp)") auto

declare log2_loop.simps [simp del]

definition get_biggest_log2 :: "int \<Rightarrow> nat" where
  "get_biggest_log2 num =
     (let (res, tmp) = log2_loop 0 (num - 1) in if tmp * 2 ^ res < num then res + 1 else res)"

section \<open>Bitmaps\<close>

definition BITS_PER_WORD_LOG :: nat where "BITS_PER_WORD_LOG = 6"
definition BITS_PER_WORD :: nat where "BITS_PER_WORD = 64"

text \<open>The word is read into a \<^verbatim>\<open>char\<close> (unsigned on this target) and tested in \<^verbatim>\<open>int\<close>
  arithmetic. The loop returns at the ninth bit at the latest, so the shift stays below the width.\<close>

function bitword_loop :: "u8 \<Rightarrow> nat \<Rightarrow> nat \<Rightarrow> nat option" where
  "bitword_loop b i end_bit =
     (if i < end_bit
      then if (ucast b :: u32) AND push_bit i 1 = 0 then Some i else bitword_loop b (i + 1) end_bit
      else None)"
  by auto
termination by (relation "measure (\<lambda>(_, i, e). e - i)") auto

declare bitword_loop.simps [simp del]

definition bitword_set_next_free :: "u64 \<Rightarrow> nat \<Rightarrow> nat \<times> u64" where
  "bitword_set_next_free w end_bit =
     (let b = (ucast w :: u8)
      in case bitword_loop b 0 end_bit of
           Some i \<Rightarrow> (i, ucast ((ucast b :: u32) OR push_bit i 1))
         | None \<Rightarrow> (end_bit, w))"

definition bitword_clear_bit :: "u64 \<Rightarrow> nat \<Rightarrow> u64" where
  "bitword_clear_bit w k = w AND NOT (push_bit k 1)"

text \<open>\<^verbatim>\<open>1 << bit\<close> is an \<^verbatim>\<open>int\<close> that is extended by sign to the word.\<close>

definition bitword_bit_is_set :: "u64 \<Rightarrow> nat \<Rightarrow> bool" where
  "bitword_bit_is_set w k \<longleftrightarrow> w AND scast (push_bit k 1 :: u32) \<noteq> 0"

definition bitmap_clear :: "u64 list \<Rightarrow> nat \<Rightarrow> u64 list kres" where
  "bitmap_clear bm bit_idx =
     (let k = bit_idx div BITS_PER_WORD
      in if k < length bm then Inr (bm[k := bitword_clear_bit (bm ! k) (bit_idx mod BITS_PER_WORD)])
         else Inl ''bitmap out of bounds'')"

definition bitmap_bit_is_set :: "u64 list \<Rightarrow> nat \<Rightarrow> bool kres" where
  "bitmap_bit_is_set bm idx =
     (let k = idx div BITS_PER_WORD
      in if k < length bm then Inr (bitword_bit_is_set (bm ! k) (idx mod BITS_PER_WORD))
         else Inl ''bitmap out of bounds'')"

function bitmap_loop :: "u64 list \<Rightarrow> nat \<Rightarrow> nat \<Rightarrow> nat \<Rightarrow> (nat \<times> u64 list) kres" where
  "bitmap_loop bm cur end_word end_idx =
     (if cur < length bm
      then let (k, w) = bitword_set_next_free (bm ! cur) BITS_PER_WORD; bm = bm[cur := w]
           in if k \<le> BITS_PER_WORD - 1 then Inr (cur * BITS_PER_WORD + k, bm)
              else if cur + 1 \<noteq> end_word then bitmap_loop bm (cur + 1) end_word end_idx
              else if end_idx mod BITS_PER_WORD \<noteq> 0
              then if cur + 1 < length bm
                   then let (k, w) = bitword_set_next_free (bm ! (cur + 1)) (end_idx mod BITS_PER_WORD);
                            bm = bm[cur + 1 := w]
                        in if k \<le> end_idx mod BITS_PER_WORD
                           then Inr ((cur + 1) * BITS_PER_WORD + k, bm) else Inr (end_idx, bm)
                   else Inl ''bitmap out of bounds''
              else Inr (end_idx, bm)
      else Inl ''bitmap out of bounds'')"
  by auto
termination by (relation "measure (\<lambda>(bm, cur, _, _). length bm - cur)") auto

declare bitmap_loop.simps [simp del]

definition bitmap_set_next_free :: "u64 list \<Rightarrow> nat \<Rightarrow> (nat \<times> u64 list) kres" where
  "bitmap_set_next_free bm end_idx = bitmap_loop bm 0 (end_idx div BITS_PER_WORD) end_idx"

section \<open>The allocator\<close>

record kmalloc_descriptor =
  kd_bitmap :: "u64 list"
  num_entries :: nat
  chunk_size_log :: nat
  kd_offset :: nat

record kheap =
  descs :: "kmalloc_descriptor list"
  kmem :: "nat \<Rightarrow> u8"

definition kernel_memory_size :: nat where "kernel_memory_size = 16 * 1024 * 1024"

definition decl_malloc_desc :: "nat \<Rightarrow> nat \<Rightarrow> kmalloc_descriptor" where
  "decl_malloc_desc log n = \<lparr>kd_bitmap = replicate (n div BITS_PER_WORD) 0, num_entries = n,
     chunk_size_log = log, kd_offset = 0\<rparr>"

definition kmalloc_all_descriptors :: "kmalloc_descriptor list" where
  "kmalloc_all_descriptors =
     [decl_malloc_desc 3 4096, decl_malloc_desc 4 2048, decl_malloc_desc 5 1024,
      decl_malloc_desc 6 512, decl_malloc_desc 7 256, decl_malloc_desc 8 256,
      decl_malloc_desc 9 256, decl_malloc_desc 10 256, decl_malloc_desc 11 256,
      decl_malloc_desc 12 256, decl_malloc_desc 13 64, decl_malloc_desc 19 32]"

text \<open>\<^verbatim>\<open>kmalloc_descriptors\<close> as positions in \<^verbatim>\<open>kmalloc_all_descriptors\<close>.\<close>

definition kmalloc_descriptors :: "nat list" where
  "kmalloc_descriptors = [0, 0, 0, 0, 1, 2, 3, 4, 5, 6, 7, 8, 9, 10, 11, 11, 11, 11, 11, 11]"

definition kmalloc_common :: "nat \<Rightarrow> kheap \<Rightarrow> ((int + nat) \<times> kheap) kres" where
  "kmalloc_common i h =
     (let d = descs h ! i; end_idx = num_entries d
      in kbind (bitmap_set_next_free (kd_bitmap d) end_idx) (\<lambda>(idx, bm).
         let h = h\<lparr>descs := (descs h)[i := d\<lparr>kd_bitmap := bm\<rparr>]\<rparr>
         in if idx = end_idx then Inr (Inl ERR_NO_RESOURCE, h)
            else Inr (Inr (kd_offset d + idx * 2 ^ chunk_size_log d), h)))"

definition memset_kmem :: "nat \<Rightarrow> nat \<Rightarrow> (nat \<Rightarrow> u8) \<Rightarrow> nat \<Rightarrow> u8" where
  "memset_kmem p n m = (\<lambda>a. if p \<le> a \<and> a < p + n then 0 else m a)"

text \<open>\<open>sz\<close> is below \<^verbatim>\<open>2^31\<close>, where its conversion to \<^verbatim>\<open>int\<close> is exact; \<open>zero\<close> says
  whether \<^verbatim>\<open>flags\<close> has \<^verbatim>\<open>GFP_ZERO\<close>.\<close>

definition kmalloc :: "nat \<Rightarrow> bool \<Rightarrow> kheap \<Rightarrow> ((int + nat) \<times> kheap) kres" where
  "kmalloc sz zero h =
     (let logsz = get_biggest_log2 (int sz)
      in if logsz \<ge> length kmalloc_descriptors then Inr (Inl ERR_NO_RESOURCE, h)
         else kbind (kmalloc_common (kmalloc_descriptors ! logsz) h) (\<lambda>(r, h).
           case r of
             Inl e \<Rightarrow> Inr (Inl e, h)
           | Inr p \<Rightarrow> Inr (Inr p, if zero then h\<lparr>kmem := memset_kmem p sz (kmem h)\<rparr> else h)))"

text \<open>\<open>addr\<close> is the distance from the start of the descriptor's area. The shift of
  \<^verbatim>\<open>kfree_common\<close> goes to the left.\<close>

definition kfree_common :: "nat \<Rightarrow> nat \<Rightarrow> kheap \<Rightarrow> kheap kres" where
  "kfree_common i addr h =
     (let d = descs h ! i; idx = (addr - kd_offset d) * 2 ^ chunk_size_log d
      in kbind (bitmap_bit_is_set (kd_bitmap d) idx) (\<lambda>set.
         if \<not> set then Inl ''kfree: double free''
         else kbind (bitmap_clear (kd_bitmap d) idx) (\<lambda>bm.
           Inr (h\<lparr>descs := (descs h)[i := d\<lparr>kd_bitmap := bm\<rparr>]\<rparr>))))"

fun kfree_find :: "nat \<Rightarrow> nat \<Rightarrow> kmalloc_descriptor list \<Rightarrow> nat" where
  "kfree_find addr i [] = i"
| "kfree_find addr i (d # ds) = (if kd_offset d > addr then i else kfree_find addr (i + 1) ds)"

text \<open>\<^verbatim>\<open>d - 1\<close> is read as the descriptor declared before \<open>d\<close>.\<close>

definition kfree :: "int \<Rightarrow> kheap \<Rightarrow> kheap kres" where
  "kfree addr h =
     (if \<not> (0 \<le> addr \<and> addr < int kernel_memory_size) then Inl ''kfree: invalid address''
      else let i = kfree_find (nat addr) 1 (tl (descs h))
           in if i = length (descs h) then Inl ''kfree: address beyond descriptors''
              else kfree_common (i - 1) (nat addr) h)"

fun kmalloc_init_loop :: "kmalloc_descriptor option \<Rightarrow> kmalloc_descriptor list \<Rightarrow> kmalloc_descriptor list" where
  "kmalloc_init_loop prev_d [] = []"
| "kmalloc_init_loop prev_d (d # ds) =
     (let d = (case prev_d of
                 None \<Rightarrow> d\<lparr>kd_offset := 0\<rparr>
               | Some p \<Rightarrow> d\<lparr>kd_offset := kd_offset p + num_entries p * 2 ^ chunk_size_log p\<rparr>)
      in d # kmalloc_init_loop (Some d) ds)"

definition kmalloc_init :: "kheap \<Rightarrow> kheap" where
  "kmalloc_init h = h\<lparr>descs := kmalloc_init_loop None (descs h)\<rparr>"

section \<open>Lemmas\<close>

lemma log2_loop_spec:
  "1 \<le> tmp \<Longrightarrow> \<exists>k. log2_loop res tmp = (res + k, 1) \<and> 2 ^ k \<le> tmp \<and> tmp < 2 ^ (k + 1)"
proof (induction res tmp rule: log2_loop.induct)
  case (1 res tmp)
  show ?case
  proof (cases "tmp > 1")
    case True
    with 1 obtain k where "log2_loop (res + 1) (tmp div 2) = (res + 1 + k, 1)"
      "2 ^ k \<le> tmp div 2" "tmp div 2 < 2 ^ (k + 1)" by fastforce
    with True show ?thesis by (intro exI [of _ "Suc k"]) (auto simp: log2_loop.simps [of res tmp])
  next
    case False
    with 1 have "tmp = 1" by simp
    then show ?thesis by (simp add: log2_loop.simps)
  qed
qed

lemma get_biggest_log2_bounds:
  assumes "2 \<le> num"
  shows "2 ^ (get_biggest_log2 num - 1) < num" "num \<le> 2 ^ get_biggest_log2 num" "1 \<le> get_biggest_log2 num"
proof -
  obtain k where "log2_loop 0 (num - 1) = (k, 1)" "2 ^ k \<le> num - 1" "num - 1 < 2 ^ (k + 1)"
    using log2_loop_spec [of "num - 1" 0] assms by auto
  then show "2 ^ (get_biggest_log2 num - 1) < num" "num \<le> 2 ^ get_biggest_log2 num"
    "1 \<le> get_biggest_log2 num"
    by (auto simp: get_biggest_log2_def)
qed

lemma get_biggest_log2_1: "get_biggest_log2 1 = 1"
  by (simp add: get_biggest_log2_def log2_loop.simps)

lemma get_biggest_log2_le:
  assumes "1 \<le> n" "n \<le> 2 ^ k" "1 \<le> k"
  shows "get_biggest_log2 n \<le> k" "n \<le> 2 ^ get_biggest_log2 n"
proof -
  have "get_biggest_log2 n \<le> k \<and> n \<le> 2 ^ get_biggest_log2 n"
  proof (cases "n = 1")
    case True
    then show ?thesis using assms by (simp add: get_biggest_log2_1)
  next
    case False
    then have n: "2 ^ (get_biggest_log2 n - 1) < n" "n \<le> 2 ^ get_biggest_log2 n" "1 \<le> get_biggest_log2 n"
      using get_biggest_log2_bounds [of n] assms by auto
    with assms have "(2::int) ^ (get_biggest_log2 n - 1) < 2 ^ k" by linarith
    then have "get_biggest_log2 n - 1 < k" by simp
    with n show ?thesis by linarith
  qed
  then show "get_biggest_log2 n \<le> k" "n \<le> 2 ^ get_biggest_log2 n" by auto
qed

text \<open>The first clear bit of the low byte, or 8.\<close>

lemma bitword_loop_spec:
  fixes b :: u8
  assumes "i \<le> 8" "8 < e" "\<forall>j < i. bit b j"
  shows "\<exists>k \<le> 8. bitword_loop b i e = Some k \<and> (\<forall>j < k. bit b j) \<and> \<not> bit b k"
  using assms
proof (induction "8 - i" arbitrary: i)
  case 0
  then have "i = 8" by simp
  moreover have "\<not> bit b 8" by (simp add: bit_word.rep_eq)
  moreover have "(ucast b :: u32) AND push_bit n 1 = 0" if "8 \<le> n" for n
    using that by (intro bit_eqI) (auto simp: bit_simps dest: bit_imp_le_length)
  ultimately show ?case using 0 by (auto simp: bitword_loop.simps simp del: push_bit_of_1)
next
  case (Suc n)
  then have i: "i < 8" by simp
  have and_bit: "(ucast b :: u32) AND push_bit i 1 = 0 \<longleftrightarrow> \<not> bit b i"
    using i bit_iff_and_push_bit_not_eq_0 [of "ucast b :: u32" i] by (simp add: bit_simps)
  show ?case
  proof (cases "bit b i")
    case True
    have "\<exists>k \<le> 8. bitword_loop b (i + 1) e = Some k \<and> (\<forall>j < k. bit b j) \<and> \<not> bit b k"
      using Suc.hyps Suc.prems True i by (intro Suc.hyps(1)) (auto simp: less_Suc_eq)
    then show ?thesis using and_bit True Suc.prems i by (auto simp: bitword_loop.simps [of b i e])
  next
    case False
    then show ?thesis using and_bit Suc.prems i by (intro exI [of _ i]) (auto simp: bitword_loop.simps [of b i e])
  qed
qed

lemma bitword_set_next_free_spec:
  obtains k w' where "bitword_set_next_free w 64 = (k, w')" "k \<le> 8"
    "\<forall>j < k. bit w j" "k < 8 \<longrightarrow> \<not> bit w k"
    "w' = (take_bit 8 w) OR push_bit k 1"
proof -
  let ?b = "ucast w :: u8"
  obtain k where k: "k \<le> 8" "bitword_loop ?b 0 64 = Some k" "\<forall>j < k. bit ?b j" "\<not> bit ?b k"
    using bitword_loop_spec [of 0 64 ?b] by auto
  let ?w = "ucast ((ucast ?b :: u32) OR push_bit k 1) :: u64"
  have "?w = take_bit 8 w OR push_bit k 1"
    using k(1) by (intro bit_eqI) (auto simp: bit_simps)
  then show thesis using that [of k ?w] k by (auto simp: bitword_set_next_free_def Let_def bit_simps)
qed

text \<open>The fixed part of the descriptors: entries, chunk size and offset after
  \<^verbatim>\<open>kmalloc_init\<close>.\<close>

definition kd_layout :: "(nat \<times> nat \<times> nat) list" where
  "kd_layout = [(4096, 3, 0), (2048, 4, 32768), (1024, 5, 65536), (512, 6, 98304), (256, 7, 131072),
     (256, 8, 163840), (256, 9, 229376), (256, 10, 360448), (256, 11, 622592), (256, 12, 1146880),
     (64, 13, 2195456), (32, 19, 2719744)]"

definition kd_shape :: "kmalloc_descriptor \<Rightarrow> nat \<times> nat \<times> nat" where
  "kd_shape d = (num_entries d, chunk_size_log d, kd_offset d)"

definition kheap_ok :: "kheap \<Rightarrow> bool" where
  "kheap_ok h \<longleftrightarrow> map kd_shape (descs h) = kd_layout \<and>
     (\<forall>d \<in> set (descs h). length (kd_bitmap d) = num_entries d div 64)"

lemma kmalloc_init_ok: "kheap_ok (kmalloc_init \<lparr>descs = kmalloc_all_descriptors, kmem = m\<rparr>)"
  by (simp add: kheap_ok_def kmalloc_init_def kmalloc_all_descriptors_def decl_malloc_desc_def
      kd_shape_def kd_layout_def BITS_PER_WORD_def)

lemma kheap_ok_nth:
  assumes "kheap_ok h" "i < 12"
  shows "i < length (descs h)" "kd_shape (descs h ! i) = kd_layout ! i"
    "length (kd_bitmap (descs h ! i)) = num_entries (descs h ! i) div 64"
proof -
  have "length (descs h) = length kd_layout"
    using assms(1) unfolding kheap_ok_def by (metis length_map)
  then have l: "length (descs h) = 12" by (simp add: kd_layout_def)
  then show "i < length (descs h)" using assms(2) by simp
  show "kd_shape (descs h ! i) = kd_layout ! i"
    using assms l unfolding kheap_ok_def by (metis nth_map)
  show "length (kd_bitmap (descs h ! i)) = num_entries (descs h ! i) div 64"
    using assms l unfolding kheap_ok_def by auto
qed

lemma kheap_ok_bitmap:
  assumes "kheap_ok h" "i < length (descs h)" "length bm = length (kd_bitmap (descs h ! i))"
  shows "kheap_ok (h\<lparr>descs := (descs h)[i := (descs h ! i)\<lparr>kd_bitmap := bm\<rparr>]\<rparr>)"
proof -
  have "map kd_shape ((descs h)[i := (descs h ! i)\<lparr>kd_bitmap := bm\<rparr>]) = map kd_shape (descs h)"
    using assms(2) by (simp add: map_update kd_shape_def list_update_same_conv)
  moreover have "length (kd_bitmap d) = num_entries d div 64"
    if "d \<in> set ((descs h)[i := (descs h ! i)\<lparr>kd_bitmap := bm\<rparr>])" for d
    using that assms set_update_subset_insert unfolding kheap_ok_def by fastforce
  ultimately show ?thesis using assms(1) by (simp add: kheap_ok_def)
qed

lemma kmalloc_common_spec:
  assumes ok: "kheap_ok h" and i: "i < 11"
  defines "d \<equiv> descs h ! i"
  obtains k h' where "kmalloc_common i h = Inr (Inr (kd_offset d + k * 2 ^ chunk_size_log d), h')"
    "k \<le> 8" "\<forall>j < k. bit (hd (kd_bitmap d)) j" "k < 8 \<longrightarrow> \<not> bit (hd (kd_bitmap d)) k"
    "kheap_ok h'" "kmem h' = kmem h"
    "descs h' = (descs h)[i := d\<lparr>kd_bitmap := (take_bit 8 (hd (kd_bitmap d)) OR push_bit k 1) # tl (kd_bitmap d)\<rparr>]"
proof -
  note n = kheap_ok_nth [OF ok, of i]
  have "i = 0 \<or> i = 1 \<or> i = 2 \<or> i = 3 \<or> i = 4 \<or> i = 5 \<or> i = 6 \<or> i = 7 \<or> i = 8 \<or> i = 9 \<or> i = 10"
    using i by presburger
  then have "64 \<le> fst (kd_layout ! i)" by (auto simp: kd_layout_def)
  moreover have "num_entries d = fst (kd_shape d)" by (simp add: kd_shape_def)
  ultimately have e: "64 \<le> num_entries d" using n(2) i by (simp add: d_def)
  then have "0 < length (kd_bitmap d)" using n(3) i by (simp add: d_def)
  then obtain w ws where bm: "kd_bitmap d = w # ws" by (cases "kd_bitmap d") auto
  obtain k w' where k: "bitword_set_next_free w 64 = (k, w')" "k \<le> 8"
    "\<forall>j < k. bit w j" "k < 8 \<longrightarrow> \<not> bit w k" "w' = (take_bit 8 w) OR push_bit k 1"
    by (rule bitword_set_next_free_spec)
  have set: "bitmap_set_next_free (kd_bitmap d) (num_entries d) = Inr (k, w' # ws)"
    using k by (simp add: bitmap_set_next_free_def bitmap_loop.simps bm BITS_PER_WORD_def)
  define h' where "h' = h\<lparr>descs := (descs h)[i := d\<lparr>kd_bitmap := w' # ws\<rparr>]\<rparr>"
  have "kmalloc_common i h = Inr (Inr (kd_offset d + k * 2 ^ chunk_size_log d), h')"
    using k(2) e set by (simp add: kmalloc_common_def Let_def h'_def flip: d_def)
  moreover have "kheap_ok h'"
    using kheap_ok_bitmap [OF ok, of i "w' # ws"] n i bm by (simp add: h'_def d_def)
  ultimately show thesis using k bm by (intro that [of k h']) (auto simp: h'_def)
qed

section \<open>Properties\<close>

lemma kmalloc_class:
  assumes "1 \<le> sz" "sz \<le> 8192"
  defines "i \<equiv> kmalloc_descriptors ! get_biggest_log2 (int sz)"
  shows "get_biggest_log2 (int sz) \<le> 13" "i < 11" "sz \<le> 2 ^ fst (snd (kd_layout ! i))"
proof -
  let ?l = "get_biggest_log2 (int sz)"
  have l: "?l \<le> 13" "int sz \<le> 2 ^ ?l"
    using get_biggest_log2_le [of "int sz" 13] assms by auto
  then show "?l \<le> 13" by simp
  have "sz \<le> 2 ^ ?l" using l(2) by (metis of_nat_le_iff of_nat_numeral of_nat_power)
  moreover have "?l = 0 \<or> ?l = 1 \<or> ?l = 2 \<or> ?l = 3 \<or> ?l = 4 \<or> ?l = 5 \<or> ?l = 6 \<or> ?l = 7 \<or> ?l = 8 \<or>
    ?l = 9 \<or> ?l = 10 \<or> ?l = 11 \<or> ?l = 12 \<or> ?l = 13" using l(1) by presburger
  ultimately show "i < 11" "sz \<le> 2 ^ fst (snd (kd_layout ! i))"
    by (auto simp: i_def kmalloc_descriptors_def kd_layout_def)
qed

lemma kd_layout_fits:
  "i < 11 \<Longrightarrow> kd_layout ! i = (n, l, off) \<Longrightarrow> 9 \<le> n \<and> off + n * 2 ^ l \<le> kernel_memory_size \<and> 2 ^ l dvd off"
proof -
  assume i: "i < 11" and e: "kd_layout ! i = (n, l, off)"
  have "i = 0 \<or> i = 1 \<or> i = 2 \<or> i = 3 \<or> i = 4 \<or> i = 5 \<or> i = 6 \<or> i = 7 \<or> i = 8 \<or> i = 9 \<or> i = 10"
    using i by presburger
  with e show ?thesis by (auto simp: kd_layout_def kernel_memory_size_def)
qed

lemma kd_layout_disjoint:
  assumes "i < j" "j < 11" "kd_layout ! i = (n, l, off)" "kd_layout ! j = (n', l', off')"
  shows "off + n * 2 ^ l \<le> off'"
proof -
  have step: "fst (kd_layout ! k) * 2 ^ fst (snd (kd_layout ! k)) + snd (snd (kd_layout ! k)) =
      snd (snd (kd_layout ! Suc k))" if "k < 10" for k
  proof -
    have "k = 0 \<or> k = 1 \<or> k = 2 \<or> k = 3 \<or> k = 4 \<or> k = 5 \<or> k = 6 \<or> k = 7 \<or> k = 8 \<or> k = 9"
      using that by presburger
    then show ?thesis by (auto simp: kd_layout_def)
  qed
  have "snd (snd (kd_layout ! Suc i)) \<le> snd (snd (kd_layout ! j))"
    using assms(1,2)
  proof (induction j)
    case (Suc j)
    then show ?case using step [of j] by (cases "i = j") auto
  qed simp
  then show ?thesis using step [of i] assms by simp
qed

lemma length_kmalloc_descriptors: "length kmalloc_descriptors = 20"
  by (simp add: kmalloc_descriptors_def)

definition size_class :: "nat \<Rightarrow> nat" where
  "size_class sz = kmalloc_descriptors ! get_biggest_log2 (int sz)"

definition in_use :: "nat \<Rightarrow> kheap \<Rightarrow> nat set" where
  "in_use i h = {k. k < 8 \<and> bit (hd (kd_bitmap (descs h ! i))) k}"

definition chunk_addr :: "nat \<Rightarrow> nat \<Rightarrow> nat" where
  "chunk_addr i k = (case kd_layout ! i of (n, l, off) \<Rightarrow> off + k * 2 ^ l)"

definition chunk_size :: "nat \<Rightarrow> nat" where
  "chunk_size i = 2 ^ fst (snd (kd_layout ! i))"

definition chunk :: "nat \<Rightarrow> nat \<Rightarrow> nat set" where
  "chunk i k = {chunk_addr i k ..< chunk_addr i k + chunk_size i}"

lemma kmalloc_spec:
  assumes ok: "kheap_ok h" and sz: "1 \<le> sz" "sz \<le> 8192"
  defines "i \<equiv> size_class sz"
  obtains k h' where "kmalloc sz zero h = Inr (Inr (chunk_addr i k), h')"
    "k \<le> 8" "k \<notin> in_use i h" "{..<k} \<subseteq> in_use i h" "kheap_ok h'"
    "kmem h' = (if zero then memset_kmem (chunk_addr i k) sz (kmem h) else kmem h)"
    "in_use i h' = insert k (in_use i h) \<inter> {..<8}" "\<And>j. j \<noteq> i \<Longrightarrow> descs h' ! j = descs h ! j"
proof -
  note c = kmalloc_class [OF sz, folded size_class_def, folded i_def]
  define d where "d = descs h ! i"
  obtain k h1 where k: "kmalloc_common i h = Inr (Inr (kd_offset d + k * 2 ^ chunk_size_log d), h1)"
    "k \<le> 8" "\<forall>j < k. bit (hd (kd_bitmap d)) j" "k < 8 \<longrightarrow> \<not> bit (hd (kd_bitmap d)) k"
    "kheap_ok h1" "kmem h1 = kmem h"
    "descs h1 = (descs h)[i := d\<lparr>kd_bitmap := (take_bit 8 (hd (kd_bitmap d)) OR push_bit k 1) # tl (kd_bitmap d)\<rparr>]"
    unfolding d_def by (rule kmalloc_common_spec [OF ok c(2)])
  have "kd_shape d = kd_layout ! i" "i < length (descs h)"
    using kheap_ok_nth [OF ok, of i] c(2) by (simp_all add: d_def)
  then have p: "kd_offset d + k * 2 ^ chunk_size_log d = chunk_addr i k"
    by (simp add: kd_shape_def chunk_addr_def flip: \<open>kd_shape d = kd_layout ! i\<close>)
  let ?h = "if zero then h1\<lparr>kmem := memset_kmem (chunk_addr i k) sz (kmem h1)\<rparr> else h1"
  have "kmalloc sz zero h = Inr (Inr (chunk_addr i k), ?h)"
    using k(1) c(1) p by (simp add: kmalloc_def Let_def length_kmalloc_descriptors i_def size_class_def)
  moreover have "in_use i ?h = insert k (in_use i h) \<inter> {..<8}"
    using k(2,7) \<open>i < length (descs h)\<close> by (auto simp: in_use_def d_def bit_simps)
  moreover have "kheap_ok ?h" using k(5) by (simp add: kheap_ok_def)
  ultimately show thesis
    using k by (intro that [of k ?h]) (auto simp: in_use_def d_def)
qed

lemma chunk_disjoint:
  assumes "i < 11" "i' < 11" "k \<le> 8" "k' \<le> 8" "(i, k) \<noteq> (i', k')"
  shows "chunk i k \<inter> chunk i' k' = {}"
proof -
  obtain n l off where L: "kd_layout ! i = (n, l, off)" by (metis prod_cases3)
  obtain n' l' off' where L': "kd_layout ! i' = (n', l', off')" by (metis prod_cases3)
  have fit: "off + (k + 1) * 2 ^ l \<le> off + n * 2 ^ l" "off' + (k' + 1) * 2 ^ l' \<le> off' + n' * 2 ^ l'"
    using kd_layout_fits [OF assms(1) L] kd_layout_fits [OF assms(2) L'] assms(3,4)
    by (auto intro!: mult_right_mono simp del: mult_Suc)
  have c: "chunk i k = {off + k * 2 ^ l ..< off + (k + 1) * 2 ^ l}"
    "chunk i' k' = {off' + k' * 2 ^ l' ..< off' + (k' + 1) * 2 ^ l'}"
    by (simp_all add: chunk_def chunk_addr_def chunk_size_def L L' algebra_simps)
  consider "i < i'" | "i' < i" | "i = i'" "k < k'" | "i = i'" "k' < k" using assms(5) by fastforce
  then show ?thesis
  proof cases
    case 1
    then show ?thesis using kd_layout_disjoint [OF 1 assms(2) L L'] fit c by fastforce
  next
    case 2
    then show ?thesis using kd_layout_disjoint [OF 2 assms(1) L' L] fit c by fastforce
  next
    case 3
    then have "(k + 1) * 2 ^ l \<le> k' * 2 ^ l" by (intro mult_right_mono) auto
    then show ?thesis using 3 L L' c by fastforce
  next
    case 4
    then have "(k' + 1) * 2 ^ l \<le> k * 2 ^ l" by (intro mult_right_mono) auto
    then show ?thesis using 4 L L' c by fastforce
  qed
qed

lemma chunk_in_memory: "i < 11 \<Longrightarrow> k \<le> 8 \<Longrightarrow> chunk i k \<subseteq> {..<kernel_memory_size}"
proof -
  assume a: "i < 11" "k \<le> 8"
  obtain n l off where L: "kd_layout ! i = (n, l, off)" by (metis prod_cases3)
  have "off + (k + 1) * 2 ^ l \<le> off + n * 2 ^ l"
    using kd_layout_fits [OF a(1) L] a(2) by (auto intro!: mult_right_mono simp del: mult_Suc)
  then show ?thesis using kd_layout_fits [OF a(1) L]
    by (auto simp: chunk_def chunk_addr_def chunk_size_def L algebra_simps)
qed

text \<open>A sequence of allocations that nothing is freed between.\<close>

fun kmalloc_seq :: "nat list \<Rightarrow> kheap \<Rightarrow> (nat list \<times> kheap) kres" where
  "kmalloc_seq [] h = Inr ([], h)"
| "kmalloc_seq (sz # szs) h = kbind (kmalloc sz False h) (\<lambda>(r, h).
     case r of Inl e \<Rightarrow> Inl ''allocation failed''
     | Inr p \<Rightarrow> kbind (kmalloc_seq szs h) (\<lambda>(ps, h). Inr (p # ps, h)))"

definition requests :: "nat \<Rightarrow> nat list \<Rightarrow> nat" where
  "requests i szs = length (filter (\<lambda>s. size_class s = i) szs)"

lemma kmalloc_seq_chunks:
  assumes "kheap_ok h" "\<forall>s \<in> set szs. 1 \<le> s \<and> s \<le> 8192"
    "\<forall>i < 11. card (in_use i h) + requests i szs \<le> 8"
  shows "\<exists>ps h' ks. kmalloc_seq szs h = Inr (ps, h') \<and> length ks = length szs \<and>
    ps = map2 chunk_addr (map size_class szs) ks \<and> (\<forall>k \<in> set ks. k < 8) \<and>
    distinct (zip (map size_class szs) ks) \<and>
    (\<forall>(i, k) \<in> set (zip (map size_class szs) ks). k \<notin> in_use i h)"
  using assms
proof (induction szs arbitrary: h)
  case Nil
  then show ?case by simp
next
  case (Cons sz szs)
  define i where "i = size_class sz"
  have sz: "1 \<le> sz" "sz \<le> 8192" using Cons.prems by auto
  have i: "i < 11" using kmalloc_class(2) [OF sz] by (simp add: i_def size_class_def)
  obtain k h1 where k: "kmalloc sz False h = Inr (Inr (chunk_addr i k), h1)"
    "k \<le> 8" "k \<notin> in_use i h" "{..<k} \<subseteq> in_use i h" "kheap_ok h1"
    "in_use i h1 = insert k (in_use i h) \<inter> {..<8}" "\<And>j. j \<noteq> i \<Longrightarrow> descs h1 ! j = descs h ! j"
    unfolding i_def by (rule kmalloc_spec [OF Cons.prems(1) sz, of False]) auto
  have fin: "finite (in_use i h)" by (simp add: in_use_def)
  have room: "card (in_use i h) + Suc (requests i szs) \<le> 8"
    using Cons.prems(3) i by (auto simp: requests_def i_def)
  have k8: "k < 8"
  proof (rule ccontr)
    assume "\<not> k < 8"
    then have "{..<8} \<subseteq> in_use i h" using k(2,4) by simp
    then have "card {..<8::nat} \<le> card (in_use i h)" by (intro card_mono fin)
    with room show False by simp
  qed
  have sub: "in_use i h \<subseteq> {..<8}" by (auto simp: in_use_def)
  then have use1: "in_use i h1 = insert k (in_use i h)" using k(6) k8 by auto
  have other: "in_use j h1 = in_use j h" if "j \<noteq> i" for j
    using k(7) [OF that] by (simp add: in_use_def)
  have "\<forall>j < 11. card (in_use j h1) + requests j szs \<le> 8"
  proof (intro allI impI)
    fix j :: nat assume "j < 11"
    then show "card (in_use j h1) + requests j szs \<le> 8"
      using Cons.prems(3) room use1 other [of j] k(3) fin
      by (cases "j = i") (auto simp: requests_def i_def split: if_splits)
  qed
  from Cons.IH [OF k(5) _ this] Cons.prems(2) obtain ps h' ks where r:
    "kmalloc_seq szs h1 = Inr (ps, h')" "length ks = length szs"
    "ps = map2 chunk_addr (map size_class szs) ks" "\<forall>k \<in> set ks. k < 8"
    "distinct (zip (map size_class szs) ks)"
    "\<forall>(i, k) \<in> set (zip (map size_class szs) ks). k \<notin> in_use i h1" by auto
  have sub1: "in_use j h \<subseteq> in_use j h1" for j using use1 other by (cases "j = i") auto
  have "(i, k) \<notin> set (zip (map size_class szs) ks)" using r(6) use1 by auto
  moreover have "\<forall>(j, m) \<in> set (zip (map size_class szs) ks). m \<notin> in_use j h" using r(6) sub1 by blast
  ultimately show ?case
    using r k(1,3) k8 by (intro exI [of _ "chunk_addr i k # ps"] exI [of _ h'] exI [of _ "k # ks"])
      (auto simp: i_def)
qed

definition boot_heap :: kheap where
  "boot_heap = kmalloc_init \<lparr>descs = kmalloc_all_descriptors, kmem = (\<lambda>_. 0)\<rparr>"

lemma boot_heap_ok: "kheap_ok boot_heap"
  unfolding boot_heap_def by (rule kmalloc_init_ok)

lemma boot_heap_unused: "i < 11 \<Longrightarrow> in_use i boot_heap = {}"
proof -
  have hd0: "hd (kd_bitmap (descs boot_heap ! i)) = 0" if "i < 11" for i
  proof -
    have "i = 0 \<or> i = 1 \<or> i = 2 \<or> i = 3 \<or> i = 4 \<or> i = 5 \<or> i = 6 \<or> i = 7 \<or> i = 8 \<or> i = 9 \<or> i = 10"
      using that by presburger
    then show ?thesis
      by (auto simp: boot_heap_def kmalloc_init_def kmalloc_all_descriptors_def decl_malloc_desc_def
          BITS_PER_WORD_def)
  qed
  then show "i < 11 \<Longrightarrow> in_use i boot_heap = {}" by (simp add: in_use_def)
qed


lemma size_class_simps: "size_class 8 = 0" "size_class 100 = 4"
  by (simp_all add: size_class_def get_biggest_log2_def log2_loop.simps kmalloc_descriptors_def)


text \<open>Past eight chunks of a size class the allocator hands out the same chunk again:
  once the low byte of the class's first bitmap word is full, two successive allocations of the
  class both return its ninth chunk, although at least 56 chunks are free.\<close>

theorem kmalloc_ninth_chunk_shared:
  assumes "kheap_ok h" "1 \<le> sz" "sz \<le> 8192" "in_use (size_class sz) h = {..<8}"
  shows "\<exists>h'. kmalloc sz False h = Inr (Inr (chunk_addr (size_class sz) 8), h') \<and>
    (\<exists>h''. kmalloc sz False h' = Inr (Inr (chunk_addr (size_class sz) 8), h''))"
proof -
  have step: "\<exists>h'. kmalloc sz False g = Inr (Inr (chunk_addr (size_class sz) 8), h') \<and> kheap_ok h' \<and>
    in_use (size_class sz) h' = {..<8}" if "kheap_ok g" "in_use (size_class sz) g = {..<8}" for g
  proof (rule kmalloc_spec [OF that(1) assms(2,3), of False])
    fix k h'
    assume "kmalloc sz False g = Inr (Inr (chunk_addr (size_class sz) k), h')" "k \<le> 8"
      "k \<notin> in_use (size_class sz) g" "kheap_ok h'"
      "in_use (size_class sz) h' = insert k (in_use (size_class sz) g) \<inter> {..<8}"
    moreover from this that(2) have "k = 8" by auto
    ultimately show ?thesis using that(2) by auto
  qed
  from step [OF assms(1,4)] show ?thesis using step by blast
qed

text \<open>The boot heap with the first eight chunks of the smallest class in use.\<close>

definition busy_heap :: kheap where
  "busy_heap = boot_heap\<lparr>descs := (descs boot_heap)[0 := (descs boot_heap ! 0)
     \<lparr>kd_bitmap := 0xff # tl (kd_bitmap (descs boot_heap ! 0))\<rparr>]\<rparr>"

theorem kmalloc_ninth_chunk_shared_witness:
  "\<exists>h'. kmalloc 8 False busy_heap = Inr (Inr 64, h') \<and> (\<exists>h''. kmalloc 8 False h' = Inr (Inr 64, h''))"
proof -
  note n = kheap_ok_nth [OF boot_heap_ok, of 0]
  have "num_entries (descs boot_heap ! 0) = 4096" using n(2) by (simp add: kd_shape_def kd_layout_def)
  then have "length (kd_bitmap (descs boot_heap ! 0)) = 64" using n(3) by simp
  then have "kheap_ok busy_heap"
    unfolding busy_heap_def by (intro kheap_ok_bitmap boot_heap_ok n(1)) auto
  moreover have "bit (0xff :: u64) k" if "k < 8" for k
  proof -
    have "bit (mask 8 :: u64) k" using that by (simp add: bit_mask_iff del: mask_numeral)
    then show ?thesis by (simp add: mask_eq_exp_minus_1)
  qed
  then have "in_use 0 busy_heap = {..<8}"
    using n(1) by (auto simp: in_use_def busy_heap_def)
  moreover have "chunk_addr 0 8 = 64" by (simp add: chunk_addr_def kd_layout_def)
  ultimately show ?thesis
    using kmalloc_ninth_chunk_shared [of busy_heap 8] by (simp add: size_class_simps)
qed

end
