(* ===== verification/Mmu.thy ===== *)
theory Mmu
  imports Prelude
begin

text \<open>
  The translation tables that \<^verbatim>\<open>src/arch/armv8/mmu.c\<close> builds before the MMU is switched on,
  and a table walk in the sense of the VMSAv8-64 4KB granule (the layout the file's head comment
  describes), which says what the tables mean to the hardware. Memory maps the address of an
  eight-byte entry to its value; a \<^verbatim>\<open>mmu_pte_t *\<close> advances by eight.
\<close>

type_synonym pmem = "ptr \<Rightarrow> u64"

section \<open>Descriptors\<close>

definition BITS_AT_POS :: "u64 \<Rightarrow> nat \<Rightarrow> u64 \<Rightarrow> u64" where
  "BITS_AT_POS bits pos m = push_bit pos (bits AND m)"

definition BIT_AT_POS :: "u64 \<Rightarrow> nat \<Rightarrow> u64" where
  "BIT_AT_POS b pos = BITS_AT_POS b pos 1"

definition PTE_OUT_ADDR :: "u64 \<Rightarrow> u64" where
  "PTE_OUT_ADDR phys_page_idx = BITS_AT_POS phys_page_idx 12 0xffffffffff"

definition PTE_LO_ATTR :: "u64 \<Rightarrow> u64" where
  "PTE_LO_ATTR lo_attr = BITS_AT_POS lo_attr 2 0x3ff"

definition PTE_UP_ATTR :: "u64 \<Rightarrow> u64" where
  "PTE_UP_ATTR up_attr = BITS_AT_POS up_attr 51 0x1fff"

definition MAKE_PAGE_PTE :: "u64 \<Rightarrow> u64 \<Rightarrow> u64 \<Rightarrow> u64" where
  "MAKE_PAGE_PTE up_attr phys_page_idx lo_attr =
     PTE_UP_ATTR up_attr OR PTE_OUT_ADDR phys_page_idx OR PTE_LO_ATTR lo_attr OR 3"

definition MAKE_PAGE_PTE_LO_ATTR :: "u64 \<Rightarrow> u64 \<Rightarrow> u64 \<Rightarrow> u64 \<Rightarrow> u64 \<Rightarrow> u64 \<Rightarrow> u64" where
  "MAKE_PAGE_PTE_LO_ATTR attr_idx ns ap sh af ng =
     BITS_AT_POS attr_idx 0 7 OR BIT_AT_POS ns 3 OR BITS_AT_POS ap 4 3
     OR BITS_AT_POS sh 6 3 OR BIT_AT_POS af 8 OR BIT_AT_POS ng 9"

definition MAKE_TABLE_PTE :: "u64 \<Rightarrow> u64 \<Rightarrow> u64 \<Rightarrow> u64 \<Rightarrow> u64 \<Rightarrow> u64" where
  "MAKE_TABLE_PTE ns_table ap_table xn_table pxn_table next_lvl_table_page =
     BIT_AT_POS ns_table 63 OR BITS_AT_POS ap_table 61 3 OR BIT_AT_POS xn_table 60
     OR BIT_AT_POS pxn_table 59 OR PTE_OUT_ADDR next_lvl_table_page OR 3"

section \<open>Building the tables\<close>

record pt_mem_range =
  pa_start_page :: nat
  va_start_page :: nat
  num_pages :: nat
  mem_attr_idx :: nat
  sh_bits :: nat

record pt_config =
  base_address :: ptr
  page_size :: nat
  num_entries_per_pt :: nat
  pa_start :: nat
  pa_end :: nat
  mem_ranges :: "pt_mem_range list"

definition page_lo_attr :: "nat \<Rightarrow> nat \<Rightarrow> u64" where
  "page_lo_attr attr sh = MAKE_PAGE_PTE_LO_ATTR (of_nat attr) 1 0 (of_nat sh) 1 0"

fun page_ptes_loop :: "ptr \<Rightarrow> nat \<Rightarrow> nat \<Rightarrow> u64 \<Rightarrow> pmem \<Rightarrow> pmem" where
  "page_ptes_loop page_pte phys_page_idx 0 lo_attr m = m"
| "page_ptes_loop page_pte phys_page_idx (Suc n) lo_attr m =
     page_ptes_loop (page_pte + 8) (phys_page_idx + 1) n lo_attr
       (m(page_pte := MAKE_PAGE_PTE 0 (of_nat phys_page_idx) lo_attr))"

definition map_page_ptes :: "ptr \<Rightarrow> nat \<Rightarrow> nat \<Rightarrow> nat \<Rightarrow> nat \<Rightarrow> pmem \<Rightarrow> pmem" where
  "map_page_ptes page_pte phys_page_idx n attr sh m =
     page_ptes_loop page_pte phys_page_idx n (page_lo_attr attr sh) m"

fun table_ptes_loop :: "ptr \<Rightarrow> nat \<Rightarrow> nat \<Rightarrow> pmem \<Rightarrow> pmem" where
  "table_ptes_loop pt next_level_pt_page 0 m = m"
| "table_ptes_loop pt next_level_pt_page (Suc n) m =
     table_ptes_loop (pt + 8) (next_level_pt_page + 1) n
       (m(pt := MAKE_TABLE_PTE 0 0 0 0 (of_nat next_level_pt_page)))"

definition map_table_ptes :: "ptr \<Rightarrow> nat \<Rightarrow> ptr \<Rightarrow> pt_config \<Rightarrow> pmem \<Rightarrow> pmem" where
  "map_table_ptes pt pte_count next_level_pte c m =
     table_ptes_loop pt (next_level_pte div page_size c) pte_count m"

definition div_round_up :: "nat \<Rightarrow> nat \<Rightarrow> nat" where
  "div_round_up val by' = (val + by' - 1) div by'"

definition round_up_to :: "nat \<Rightarrow> nat \<Rightarrow> nat" where
  "round_up_to val to' = (val + to' - 1) div to' * to'"

definition l3_count :: "pt_config \<Rightarrow> nat" where
  "l3_count c = max ((pa_end c - pa_start c) div page_size c) 1"

definition l2_count :: "pt_config \<Rightarrow> nat" where
  "l2_count c = max (div_round_up (l3_count c) (num_entries_per_pt c)) 1"

definition l1_count :: "pt_config \<Rightarrow> nat" where
  "l1_count c = max (div_round_up (l2_count c) (num_entries_per_pt c)) 1"

definition l0_count :: "pt_config \<Rightarrow> nat" where
  "l0_count c = max (div_round_up (l1_count c) (num_entries_per_pt c)) 1"

definition l1_table :: "pt_config \<Rightarrow> ptr" where
  "l1_table c = base_address c + 8 * round_up_to (l0_count c) (num_entries_per_pt c)"

definition l2_table :: "pt_config \<Rightarrow> ptr" where
  "l2_table c = l1_table c + 8 * round_up_to (l1_count c) (num_entries_per_pt c)"

definition l3_table :: "pt_config \<Rightarrow> ptr" where
  "l3_table c = l2_table c + 8 * round_up_to (l2_count c) (num_entries_per_pt c)"

fun map_ranges :: "ptr \<Rightarrow> pt_mem_range list \<Rightarrow> pmem \<Rightarrow> pmem" where
  "map_ranges l3_pt [] m = m"
| "map_ranges l3_pt (r # rs) m =
     map_ranges l3_pt rs (map_page_ptes (l3_pt + 8 * va_start_page r) (pa_start_page r) (num_pages r)
       (mem_attr_idx r) (sh_bits r) m)"

definition map_linear_range :: "pt_config \<Rightarrow> pmem \<Rightarrow> pmem kres" where
  "map_linear_range c m =
     (if pa_end c mod page_size c \<noteq> 0 then Inl ''Unaligned memory translation range''
      else let m = map_table_ptes (base_address c) (l0_count c) (l1_table c) c m;
               m = map_table_ptes (l2_table c) (l2_count c) (l3_table c) c m;
               m = map_table_ptes (l1_table c) (l1_count c) (l2_table c) c m
           in Inr (map_ranges (l3_table c) (mem_ranges c) m))"

section \<open>The kernel's memory map\<close>

definition MMU_PAGE_GRANULE :: nat where "MMU_PAGE_GRANULE = 4096"
definition MMU_PTES_PER_LEVEL :: nat where "MMU_PTES_PER_LEVEL = 512"
definition PERIPHERAL_ADDR_RANGE_START :: nat where "PERIPHERAL_ADDR_RANGE_START = 0x3f000000"
definition PERIPHERAL_ADDR_RANGE_END :: nat where "PERIPHERAL_ADDR_RANGE_END = 0x40000000"
definition LOCAL_PERIPH_ADDR_START :: nat where "LOCAL_PERIPH_ADDR_START = 0x40000000"
definition LOCAL_PERIPH_ADDR_END :: nat where "LOCAL_PERIPH_ADDR_END = 0x40002000"
definition MEMATTR_IDX_NORMAL :: nat where "MEMATTR_IDX_NORMAL = 0"
definition MEMATTR_IDX_DEV_NGNRE :: nat where "MEMATTR_IDX_DEV_NGNRE = 1"
definition MEMATTR_IDX_NORMAL2 :: nat where "MEMATTR_IDX_NORMAL2 = 2"
definition MEMATTR_IDX_MMIO :: nat where "MEMATTR_IDX_MMIO = 3"
definition SH_BITS_OUTER_SHAREABLE :: nat where "SH_BITS_OUTER_SHAREABLE = 2"

definition decl_range :: "nat \<Rightarrow> nat \<Rightarrow> nat \<Rightarrow> nat \<Rightarrow> pt_mem_range" where
  "decl_range start num memattr sh =
     \<lparr>pa_start_page = start, va_start_page = start, num_pages = num, mem_attr_idx = memattr, sh_bits = sh\<rparr>"

text \<open>The addresses of the table and of the DMA area are symbols of the linker script.\<close>

definition mmu_init_config :: "ptr \<Rightarrow> nat \<Rightarrow> nat \<Rightarrow> pt_config" where
  "mmu_init_config mmu_table_base dma_start dma_end =
     (let pg_norm_off = 0;
          pg_norm_num = dma_start div MMU_PAGE_GRANULE;
          pg_dma_off = pg_norm_num;
          pg_dma_num = dma_end div MMU_PAGE_GRANULE - pg_dma_off;
          pg_shar_off = pg_dma_off + pg_dma_num;
          pg_shar_num = PERIPHERAL_ADDR_RANGE_START div MMU_PAGE_GRANULE - pg_shar_off;
          pg_peri_off = PERIPHERAL_ADDR_RANGE_START div MMU_PAGE_GRANULE;
          pg_peri_num = (PERIPHERAL_ADDR_RANGE_END - PERIPHERAL_ADDR_RANGE_START) div MMU_PAGE_GRANULE;
          pg_locl_off = LOCAL_PERIPH_ADDR_START div MMU_PAGE_GRANULE;
          pg_locl_num = (LOCAL_PERIPH_ADDR_END - LOCAL_PERIPH_ADDR_START) div MMU_PAGE_GRANULE
      in \<lparr>base_address = mmu_table_base, page_size = MMU_PAGE_GRANULE,
          num_entries_per_pt = MMU_PTES_PER_LEVEL, pa_start = 0, pa_end = LOCAL_PERIPH_ADDR_END,
          mem_ranges =
            [decl_range pg_norm_off pg_norm_num MEMATTR_IDX_NORMAL SH_BITS_OUTER_SHAREABLE,
             decl_range pg_dma_off pg_dma_num MEMATTR_IDX_MMIO SH_BITS_OUTER_SHAREABLE,
             decl_range pg_shar_off pg_shar_num MEMATTR_IDX_NORMAL2 SH_BITS_OUTER_SHAREABLE,
             decl_range pg_peri_off pg_peri_num MEMATTR_IDX_DEV_NGNRE SH_BITS_OUTER_SHAREABLE,
             decl_range pg_locl_off pg_locl_num MEMATTR_IDX_DEV_NGNRE SH_BITS_OUTER_SHAREABLE]\<rparr>)"

definition MEMATTR_WRITEBACK_NONTRANS :: "u8 \<Rightarrow> u8 \<Rightarrow> u8" where
  "MEMATTR_WRITEBACK_NONTRANS R W = 0xc OR push_bit 1 (R AND 1) OR (W AND 1)"

definition MAKE_MEMATTR_NORMAL :: "u8 \<Rightarrow> u8 \<Rightarrow> u8" where
  "MAKE_MEMATTR_NORMAL oooo iiii = push_bit 4 (oooo AND 0xf) OR (iiii AND 0xf)"

definition MEMATTR_DEVICE_NGNRE :: u8 where "MEMATTR_DEVICE_NGNRE = 4"

definition mair_repr :: "u8 list" where
  "mair_repr = (replicate 8 0)
     [MEMATTR_IDX_NORMAL := MAKE_MEMATTR_NORMAL (MEMATTR_WRITEBACK_NONTRANS 1 1) (MEMATTR_WRITEBACK_NONTRANS 1 1),
      MEMATTR_IDX_DEV_NGNRE := MEMATTR_DEVICE_NGNRE,
      MEMATTR_IDX_NORMAL2 := MAKE_MEMATTR_NORMAL (MEMATTR_WRITEBACK_NONTRANS 1 1) (MEMATTR_WRITEBACK_NONTRANS 1 1),
      MEMATTR_IDX_MMIO := MEMATTR_DEVICE_NGNRE]"

fun mair_put :: "nat \<Rightarrow> u8 list \<Rightarrow> u64" where
  "mair_put i [] = 0"
| "mair_put i (a # as) = push_bit (8 * i) (ucast a) OR mair_put (i + 1) as"

definition mair_repr_64_to_value :: "u8 list \<Rightarrow> u64" where
  "mair_repr_64_to_value r = mair_put 0 r"

text \<open>The registers the initialisation leaves: \<^verbatim>\<open>MAIR_EL1\<close> and the translation base that
  \<^verbatim>\<open>__armv8_enable_mmu\<close> gets.\<close>

record mmu_regs =
  mair_el1 :: u64
  ttbr :: ptr

definition mmu_init :: "ptr \<Rightarrow> nat \<Rightarrow> nat \<Rightarrow> pmem \<Rightarrow> (mmu_regs \<times> pmem) kres" where
  "mmu_init mmu_table_base dma_start dma_end m =
     (let c = mmu_init_config mmu_table_base dma_start dma_end
      in kbind (map_linear_range c m) (\<lambda>m.
         Inr (\<lparr>mair_el1 = mair_repr_64_to_value mair_repr, ttbr = base_address c\<rparr>, m)))"

section \<open>The table walk\<close>

definition pte_valid :: "u64 \<Rightarrow> bool" where
  "pte_valid d \<longleftrightarrow> bit d 0 \<and> bit d 1"

definition pte_addr :: "u64 \<Rightarrow> nat" where
  "pte_addr d = unat (push_bit 12 (take_bit 36 (drop_bit 12 d)))"

definition pte_attr_idx :: "u64 \<Rightarrow> nat" where
  "pte_attr_idx d = unat (take_bit 3 (drop_bit 2 d))"

definition pte_sh :: "u64 \<Rightarrow> nat" where
  "pte_sh d = unat (take_bit 2 (drop_bit 8 d))"

definition pte_access_flag :: "u64 \<Rightarrow> bool" where
  "pte_access_flag d \<longleftrightarrow> bit d 10"

definition table_entry :: "pmem \<Rightarrow> ptr \<Rightarrow> nat \<Rightarrow> nat \<Rightarrow> u64" where
  "table_entry m t va sh = m (t + 8 * (va div 2 ^ sh mod 512))"

text \<open>Physical address, attribute index and shareability of a virtual address, \<open>None\<close> for a fault.\<close>

definition walk :: "pmem \<Rightarrow> ptr \<Rightarrow> nat \<Rightarrow> (nat \<times> nat \<times> nat) option" where
  "walk m base va =
     (let d0 = table_entry m base va 39 in if \<not> pte_valid d0 then None else
      let d1 = table_entry m (pte_addr d0) va 30 in if \<not> pte_valid d1 then None else
      let d2 = table_entry m (pte_addr d1) va 21 in if \<not> pte_valid d2 then None else
      let d3 = table_entry m (pte_addr d2) va 12 in
        if pte_valid d3 \<and> pte_access_flag d3
        then Some (pte_addr d3 + va mod 4096, pte_attr_idx d3, pte_sh d3) else None)"

section \<open>Lemmas\<close>

definition slot :: "ptr \<Rightarrow> nat \<Rightarrow> ptr \<Rightarrow> bool" where
  "slot p n a \<longleftrightarrow> (\<exists>i < n. a = p + 8 * i)"

lemma slot_Suc: "slot p (Suc n) a \<longleftrightarrow> a = p \<or> slot (p + 8) n a"
proof
  assume "slot p (Suc n) a"
  then obtain i where "i < Suc n" "a = p + 8 * i" by (auto simp: slot_def)
  then show "a = p \<or> slot (p + 8) n a" by (cases i) (auto simp: slot_def)
next
  assume "a = p \<or> slot (p + 8) n a"
  then show "slot p (Suc n) a"
  proof
    assume "slot (p + 8) n a"
    then obtain i where "i < n" "a = p + 8 + 8 * i" by (auto simp: slot_def)
    then show ?thesis unfolding slot_def by (intro exI [of _ "Suc i"]) simp
  qed (auto simp: slot_def)
qed

lemma slot_next: "slot (p + 8) n a \<Longrightarrow> a \<noteq> p \<and> (a - p) div 8 = Suc ((a - (p + 8)) div 8)"
  by (auto simp: slot_def)

lemma slot_index [simp]: "slot p n (p + 8 * i) \<longleftrightarrow> i < n"
  by (simp add: slot_def)

lemma slot_simps: "\<not> slot p 0 a" "\<not> slot (p + 8) n p"
  by (simp_all add: slot_def)

lemma page_ptes_loop_eq:
  "page_ptes_loop p phys n lo m a =
     (if slot p n a then MAKE_PAGE_PTE 0 (of_nat (phys + (a - p) div 8)) lo else m a)"
proof (induction n arbitrary: p phys m)
  case (Suc n)
  show ?case using slot_next [of p n a] by (auto simp: Suc.IH slot_Suc slot_simps add.left_commute)
qed (simp add: slot_simps)

lemma table_ptes_loop_eq:
  "table_ptes_loop p pg n m a =
     (if slot p n a then MAKE_TABLE_PTE 0 0 0 0 (of_nat (pg + (a - p) div 8)) else m a)"
proof (induction n arbitrary: p pg m)
  case (Suc n)
  show ?case using slot_next [of p n a] by (auto simp: Suc.IH slot_Suc slot_simps add.left_commute)
qed (simp add: slot_simps)

text \<open>What the fields of the built descriptors read back as.\<close>

lemmas pte_defs = MAKE_TABLE_PTE_def MAKE_PAGE_PTE_def PTE_OUT_ADDR_def PTE_LO_ATTR_def PTE_UP_ATTR_def
  BITS_AT_POS_def BIT_AT_POS_def MAKE_PAGE_PTE_LO_ATTR_def page_lo_attr_def

lemma mask_consts:
  "(0xffffffffff :: u64) = mask 40" "(0x3ff :: u64) = mask 10" "(3 :: u64) = mask 2" "(7 :: u64) = mask 3"
  by (simp_all add: mask_eq_exp_minus_1)

lemma unat_page:
  assumes "pg < 2 ^ 36"
  shows "unat (push_bit 12 (of_nat pg :: u64)) = pg * 4096"
proof -
  have "pg * 4096 < 2 ^ 64" using assms by simp
  moreover have "push_bit 12 (of_nat pg :: u64) = of_nat (pg * 4096)" by (simp add: push_bit_eq_mult)
  ultimately show ?thesis by (simp only: unat_of_nat) (simp add: take_bit_eq_mod)
qed

lemma nat_bit_lt: "bit (k :: nat) i \<Longrightarrow> k < 2 ^ n \<Longrightarrow> i < n"
  by (metis bit_iff_odd div_less even_zero leI order_less_le_trans power_increasing_iff one_less_numeral_iff semiring_norm(76))

lemma table_pte_fields:
  assumes "pg < 2 ^ 36"
  shows "pte_valid (MAKE_TABLE_PTE 0 0 0 0 (of_nat pg))"
    "pte_addr (MAKE_TABLE_PTE 0 0 0 0 (of_nat pg)) = pg * 4096"
proof -
  let ?d = "MAKE_TABLE_PTE 0 0 0 0 (of_nat pg)"
  show "pte_valid ?d" unfolding pte_valid_def pte_defs mask_consts by (simp add: bit_simps)
  have "push_bit 12 (take_bit 36 (drop_bit 12 ?d)) = push_bit 12 (of_nat pg)"
    unfolding pte_defs mask_consts
    by (rule bit_eqI) (use assms in \<open>auto simp: bit_simps dest: nat_bit_lt [of pg _ 36]\<close>)
  then show "pte_addr ?d = pg * 4096" by (simp add: pte_addr_def unat_page [OF assms])
qed

lemma page_pte_fields:
  assumes "pg < 2 ^ 36" "attr < 8" "sh < 4"
  defines "d \<equiv> MAKE_PAGE_PTE 0 (of_nat pg) (page_lo_attr attr sh)"
  shows "pte_valid d" "pte_access_flag d" "pte_addr d = pg * 4096" "pte_attr_idx d = attr" "pte_sh d = sh"
proof -
  have small: "bit pg i \<Longrightarrow> i < 36" "bit attr i \<Longrightarrow> i < 3" "bit sh i \<Longrightarrow> i < 2" for i
    using nat_bit_lt [of pg i 36] nat_bit_lt [of attr i 3] nat_bit_lt [of sh i 2] assms by auto
  show "pte_valid d" "pte_access_flag d"
    unfolding d_def pte_valid_def pte_access_flag_def pte_defs mask_consts by (simp_all add: bit_simps)
  have "push_bit 12 (take_bit 36 (drop_bit 12 d)) = push_bit 12 (of_nat pg)"
    unfolding d_def pte_defs mask_consts
    by (rule bit_eqI) (auto simp: bit_simps dest: small)
  then show "pte_addr d = pg * 4096" by (simp add: pte_addr_def unat_page [OF assms(1)])
  have "take_bit 3 (drop_bit 2 d) = of_nat attr"
    unfolding d_def pte_defs mask_consts
    by (rule bit_eqI) (auto simp: bit_simps dest: small)
  then show "pte_attr_idx d = attr" using assms(2) by (simp add: pte_attr_idx_def unat_of_nat)
  have "take_bit 2 (drop_bit 8 d) = of_nat sh"
    unfolding d_def pte_defs mask_consts
    by (rule bit_eqI) (auto simp: bit_simps dest: small)
  then show "pte_sh d = sh" using assms(3) by (simp add: pte_sh_def unat_of_nat)
qed

definition covers :: "pt_mem_range \<Rightarrow> nat \<Rightarrow> bool" where
  "covers r i \<longleftrightarrow> va_start_page r \<le> i \<and> i < va_start_page r + num_pages r"

lemma slot_bounds: "slot p n a \<Longrightarrow> p \<le> a \<and> a < p + 8 * n"
  by (auto simp: slot_def)

lemma slot_covers: "slot (t + 8 * va_start_page r) (num_pages r) (t + 8 * i) \<longleftrightarrow> covers r i"
proof
  assume "slot (t + 8 * va_start_page r) (num_pages r) (t + 8 * i)"
  then show "covers r i" by (auto simp: slot_def covers_def)
next
  assume "covers r i"
  then show "slot (t + 8 * va_start_page r) (num_pages r) (t + 8 * i)"
    unfolding slot_def covers_def by (intro exI [of _ "i - va_start_page r"]) auto
qed

lemma map_ranges_other:
  "\<forall>r \<in> set rs. \<not> slot (t + 8 * va_start_page r) (num_pages r) a \<Longrightarrow> map_ranges t rs m a = m a"
  by (induction rs arbitrary: m) (simp_all add: map_page_ptes_def page_ptes_loop_eq)

lemma map_ranges_page:
  assumes "rs = rs1 @ r # rs2" "covers r i" "\<forall>q \<in> set rs2. \<not> covers q i"
  shows "map_ranges t rs m (t + 8 * i) =
    MAKE_PAGE_PTE 0 (of_nat (pa_start_page r + (i - va_start_page r))) (page_lo_attr (mem_attr_idx r) (sh_bits r))"
proof -
  have "map_ranges t (rs1 @ r # rs2) m = map_ranges t (r # rs2) (map_ranges t rs1 m)"
    by (induction rs1 arbitrary: m) simp_all
  moreover have "(t + 8 * i - (t + 8 * va_start_page r)) div 8 = i - va_start_page r"
    using assms(2) by (simp add: covers_def flip: diff_mult_distrib2)
  ultimately show ?thesis
    using assms slot_covers [of t r i] map_ranges_other [of rs2 t "t + 8 * i"]
    by (simp add: map_page_ptes_def page_ptes_loop_eq slot_covers)
qed

lemma round_up_512:
  "n \<le> round_up_to n 512" "4096 dvd 8 * round_up_to n 512" "k < n \<Longrightarrow> k div 512 < max (div_round_up n 512) 1"
proof -
  show "n \<le> round_up_to n 512" unfolding round_up_to_def by linarith
  have "8 * round_up_to n 512 = 4096 * ((n + 512 - 1) div 512)" by (simp add: round_up_to_def)
  then show "4096 dvd 8 * round_up_to n 512" by (metis dvd_triv_left)
  show "k < n \<Longrightarrow> k div 512 < max (div_round_up n 512) 1" unfolding div_round_up_def by linarith
qed

text \<open>What \<^verbatim>\<open>mmu_init\<close> sets up: 4KB pages, 512 entries per table, page-aligned tables that end
  below \<open>2^48\<close>, ranges inside the table, attribute indices and shareability in their fields.\<close>

definition config_ok :: "pt_config \<Rightarrow> bool" where
  "config_ok c \<longleftrightarrow> page_size c = 4096 \<and> num_entries_per_pt c = 512 \<and> 4096 dvd base_address c \<and>
     pa_end c mod 4096 = 0 \<and> l3_table c + 8 * l3_count c \<le> 2 ^ 48 \<and> l3_count c \<le> 2 ^ 36 \<and>
     (\<forall>r \<in> set (mem_ranges c). va_start_page r + num_pages r \<le> l3_count c \<and>
        pa_start_page r + num_pages r \<le> 2 ^ 36 \<and> mem_attr_idx r < 8 \<and> sh_bits r < 4)"

lemma config_tables:
  assumes "config_ok c"
  shows "4096 dvd l1_table c" "4096 dvd l2_table c" "4096 dvd l3_table c"
    "base_address c + 8 * l0_count c \<le> l1_table c" "l1_table c + 8 * l1_count c \<le> l2_table c"
    "l2_table c + 8 * l2_count c \<le> l3_table c"
  using assms round_up_512(1,2)
  by (auto simp: config_ok_def l1_table_def l2_table_def l3_table_def intro!: dvd_add)

lemma map_linear_range_entries:
  assumes ok: "config_ok c"
  obtains m' where "map_linear_range c m = Inr m'"
    "\<And>i. i < l0_count c \<Longrightarrow> m' (base_address c + 8 * i) = MAKE_TABLE_PTE 0 0 0 0 (of_nat (l1_table c div 4096 + i))"
    "\<And>i. i < l1_count c \<Longrightarrow> m' (l1_table c + 8 * i) = MAKE_TABLE_PTE 0 0 0 0 (of_nat (l2_table c div 4096 + i))"
    "\<And>i. i < l2_count c \<Longrightarrow> m' (l2_table c + 8 * i) = MAKE_TABLE_PTE 0 0 0 0 (of_nat (l3_table c div 4096 + i))"
    "\<And>i r rs1 rs2. mem_ranges c = rs1 @ r # rs2 \<Longrightarrow> covers r i \<Longrightarrow> \<forall>q \<in> set rs2. \<not> covers q i \<Longrightarrow>
       m' (l3_table c + 8 * i) = MAKE_PAGE_PTE 0 (of_nat (pa_start_page r + (i - va_start_page r)))
         (page_lo_attr (mem_attr_idx r) (sh_bits r))"
    "\<And>a. a < base_address c \<or> l3_table c + 8 * l3_count c \<le> a \<Longrightarrow> m' a = m a"
proof -
  note T = config_tables(4-6) [OF ok]
  have p: "page_size c = 4096" "pa_end c mod 4096 = 0" using ok by (auto simp: config_ok_def)
  define m3 where "m3 = map_table_ptes (l1_table c) (l1_count c) (l2_table c) c
    (map_table_ptes (l2_table c) (l2_count c) (l3_table c) c
      (map_table_ptes (base_address c) (l0_count c) (l1_table c) c m))"
  define m' where "m' = map_ranges (l3_table c) (mem_ranges c) m3"
  have m3: "m3 a = (if slot (l1_table c) (l1_count c) a
      then MAKE_TABLE_PTE 0 0 0 0 (of_nat (l2_table c div 4096 + (a - l1_table c) div 8))
    else if slot (l2_table c) (l2_count c) a
      then MAKE_TABLE_PTE 0 0 0 0 (of_nat (l3_table c div 4096 + (a - l2_table c) div 8))
    else if slot (base_address c) (l0_count c) a
      then MAKE_TABLE_PTE 0 0 0 0 (of_nat (l1_table c div 4096 + (a - base_address c) div 8)) else m a)" for a
    by (simp add: m3_def map_table_ptes_def table_ptes_loop_eq p)
  have in3: "va_start_page r + num_pages r \<le> l3_count c" if "r \<in> set (mem_ranges c)" for r
    using ok that by (simp add: config_ok_def)
  have out: "m' a = m3 a" if "a < l3_table c \<or> l3_table c + 8 * l3_count c \<le> a" for a
    unfolding m'_def
  proof (rule map_ranges_other, rule ballI, rule notI)
    fix r assume r: "r \<in> set (mem_ranges c)"
      and "slot (l3_table c + 8 * va_start_page r) (num_pages r) a"
    from slot_bounds [OF this(2)] in3 [OF r] that show False by linarith
  qed
  have s: "\<not> slot q n a" if "a < q \<or> q + 8 * n \<le> a" for q n a
    using slot_bounds [of q n a] that by linarith
  show thesis
  proof (rule that [of m'])
    show "map_linear_range c m = Inr m'"
      using p by (simp add: map_linear_range_def Let_def m'_def m3_def)
    show "m' (base_address c + 8 * i) = MAKE_TABLE_PTE 0 0 0 0 (of_nat (l1_table c div 4096 + i))"
      if "i < l0_count c" for i
      using out [of "base_address c + 8 * i"] T that s by (simp add: m3)
    show "m' (l1_table c + 8 * i) = MAKE_TABLE_PTE 0 0 0 0 (of_nat (l2_table c div 4096 + i))"
      if "i < l1_count c" for i
      using out [of "l1_table c + 8 * i"] T that s by (simp add: m3)
    show "m' (l2_table c + 8 * i) = MAKE_TABLE_PTE 0 0 0 0 (of_nat (l3_table c div 4096 + i))"
      if "i < l2_count c" for i
      using out [of "l2_table c + 8 * i"] T that s by (simp add: m3)
    show "m' (l3_table c + 8 * i) = MAKE_PAGE_PTE 0 (of_nat (pa_start_page r + (i - va_start_page r)))
         (page_lo_attr (mem_attr_idx r) (sh_bits r))"
      if "mem_ranges c = rs1 @ r # rs2" "covers r i" "\<forall>q \<in> set rs2. \<not> covers q i" for i r rs1 rs2
      unfolding m'_def by (rule map_ranges_page [OF that])
    show "m' a = m a" if "a < base_address c \<or> l3_table c + 8 * l3_count c \<le> a" for a
      using out [of a] T that s by (auto simp: m3)
  qed
qed

text \<open>One level of the walk: a table descriptor for entry \<open>k div 512\<close> leads to entry \<open>k\<close> of the
  next level.\<close>

lemma table_step:
  assumes "4096 dvd t" "t + 8 * n \<le> 2 ^ 48" "k < n" "k = va div 2 ^ s"
    "d = MAKE_TABLE_PTE 0 0 0 0 (of_nat (t div 4096 + k div 512))"
  shows "pte_valid d" "table_entry m (pte_addr d) va s = m (t + 8 * k)"
proof -
  obtain q where q: "t = 4096 * q" using assms(1) by auto
  have "q + k div 512 < 2 ^ 36" using assms(2,3) q by simp
  moreover have "t div 4096 = q" using q by simp
  ultimately have d: "pte_valid d" "pte_addr d = (q + k div 512) * 4096"
    using table_pte_fields [of "q + k div 512"] assms(5) by (simp_all del: of_nat_add)
  have "(q + a) * 4096 + 8 * b = t + 8 * k" if "k = a * 512 + b" for a b using that q by simp
  from this [OF div_mult_mod_eq [symmetric]]
  have "(q + k div 512) * 4096 + 8 * (k mod 512) = t + 8 * k" .
  then show "pte_valid d" "table_entry m (pte_addr d) va s = m (t + 8 * k)"
    using d assms(4) by (simp_all add: table_entry_def)
qed

lemma walk_page:
  assumes ok: "config_ok c" and r: "mem_ranges c = rs1 @ r # rs2"
    and cov: "covers r (va div 4096)" "\<forall>q \<in> set rs2. \<not> covers q (va div 4096)"
  obtains m' where "map_linear_range c m = Inr m'"
    "walk m' (base_address c) va = Some ((pa_start_page r + (va div 4096 - va_start_page r)) * 4096 + va mod 4096,
       mem_attr_idx r, sh_bits r)"
proof -
  let ?i = "va div 4096"
  obtain m' where m': "map_linear_range c m = Inr m'"
    "\<And>i. i < l0_count c \<Longrightarrow> m' (base_address c + 8 * i) = MAKE_TABLE_PTE 0 0 0 0 (of_nat (l1_table c div 4096 + i))"
    "\<And>i. i < l1_count c \<Longrightarrow> m' (l1_table c + 8 * i) = MAKE_TABLE_PTE 0 0 0 0 (of_nat (l2_table c div 4096 + i))"
    "\<And>i. i < l2_count c \<Longrightarrow> m' (l2_table c + 8 * i) = MAKE_TABLE_PTE 0 0 0 0 (of_nat (l3_table c div 4096 + i))"
    "m' (l3_table c + 8 * ?i) = MAKE_PAGE_PTE 0 (of_nat (pa_start_page r + (?i - va_start_page r)))
         (page_lo_attr (mem_attr_idx r) (sh_bits r))"
  proof (rule map_linear_range_entries [OF ok, of m])
    fix m' assume e: "map_linear_range c m = Inr m'"
      "\<And>i. i < l0_count c \<Longrightarrow> m' (base_address c + 8 * i) = MAKE_TABLE_PTE 0 0 0 0 (of_nat (l1_table c div 4096 + i))"
      "\<And>i. i < l1_count c \<Longrightarrow> m' (l1_table c + 8 * i) = MAKE_TABLE_PTE 0 0 0 0 (of_nat (l2_table c div 4096 + i))"
      "\<And>i. i < l2_count c \<Longrightarrow> m' (l2_table c + 8 * i) = MAKE_TABLE_PTE 0 0 0 0 (of_nat (l3_table c div 4096 + i))"
      "\<And>i r rs1 rs2. mem_ranges c = rs1 @ r # rs2 \<Longrightarrow> covers r i \<Longrightarrow> \<forall>q \<in> set rs2. \<not> covers q i \<Longrightarrow>
         m' (l3_table c + 8 * i) = MAKE_PAGE_PTE 0 (of_nat (pa_start_page r + (i - va_start_page r)))
           (page_lo_attr (mem_attr_idx r) (sh_bits r))"
    show thesis by (rule that [OF e(1-4) e(5) [OF r cov]])
  qed
  have okr: "va_start_page r + num_pages r \<le> l3_count c" "pa_start_page r + num_pages r \<le> 2 ^ 36"
    "mem_attr_idx r < 8" "sh_bits r < 4" "l3_count c \<le> 2 ^ 36" "l3_table c + 8 * l3_count c \<le> 2 ^ 48"
    "num_entries_per_pt c = 512"
    using ok r by (auto simp: config_ok_def)
  have i3: "?i < l3_count c" using cov(1) okr(1) by (simp add: covers_def)
  have i2: "?i div 512 < l2_count c"
    using round_up_512(3) [OF i3] by (simp add: l2_count_def okr)
  have i1: "?i div 512 div 512 < l1_count c"
    using round_up_512(3) [OF i2] by (simp add: l1_count_def okr)
  have i0: "?i div 512 div 512 div 512 < l0_count c"
    using round_up_512(3) [OF i1] by (simp add: l0_count_def okr)
  note T = config_tables [OF ok]
  have ends: "l1_table c + 8 * l1_count c \<le> 2 ^ 48" "l2_table c + 8 * l2_count c \<le> 2 ^ 48"
    using T okr(6) by linarith+
  have va: "va div 2 ^ 39 = ?i div 512 div 512 div 512" "va div 2 ^ 30 = ?i div 512 div 512"
    "va div 2 ^ 21 = ?i div 512" "va div 2 ^ 12 = ?i"
    by (simp_all flip: div_mult2_eq)
  have "?i div 512 div 512 div 512 < 512" using i3 okr(5) by simp
  then have d0: "table_entry m' (base_address c) va 39 =
      MAKE_TABLE_PTE 0 0 0 0 (of_nat (l1_table c div 4096 + ?i div 512 div 512 div 512))"
    using m'(2) [OF i0] va(1) by (simp add: table_entry_def)
  have pg: "pa_start_page r + (?i - va_start_page r) < 2 ^ 36"
    using cov(1) okr(2) unfolding covers_def by linarith
  note pf = page_pte_fields [OF pg okr(3,4)]
  note s1 = table_step [OF T(1) ends(1) i1 va(2) [symmetric] d0]
    and s2 = table_step [OF T(2) ends(2) i2 va(3) [symmetric] m'(3) [OF i1]]
    and s3 = table_step [OF T(3) okr(6) i3 va(4) [symmetric] m'(4) [OF i2]]
  have "walk m' (base_address c) va = Some ((pa_start_page r + (va div 4096 - va_start_page r)) * 4096 + va mod 4096,
       mem_attr_idx r, sh_bits r)"
    unfolding walk_def Let_def s1(2) [of m'] s2(2) [of m'] s3(2) [of m'] m'(5)
    using s1(1) s2(1) s3(1) pf by simp
  with m'(1) show thesis by (rule that)
qed

section \<open>Properties\<close>


definition sample_config :: pt_config where
  "sample_config = \<lparr>base_address = 4096, page_size = 4096, num_entries_per_pt = 512, pa_start = 0,
     pa_end = 40960, mem_ranges = [decl_range 0 10 0 2, decl_range 3 2 1 2]\<rparr>"

lemma sample_config_counts:
  "l3_count sample_config = 10" "l2_count sample_config = 1" "l1_count sample_config = 1"
  "l0_count sample_config = 1"
  by (simp_all add: l3_count_def l2_count_def l1_count_def l0_count_def div_round_up_def sample_config_def)


definition region_attr :: "nat \<Rightarrow> nat \<Rightarrow> nat \<Rightarrow> nat" where
  "region_attr dma_start dma_end va =
     (if va div 4096 < dma_start div 4096 then MEMATTR_IDX_NORMAL
      else if va div 4096 < dma_end div 4096 then MEMATTR_IDX_MMIO
      else if va < PERIPHERAL_ADDR_RANGE_START then MEMATTR_IDX_NORMAL2
      else MEMATTR_IDX_DEV_NGNRE)"

lemmas map_consts = MMU_PAGE_GRANULE_def MMU_PTES_PER_LEVEL_def PERIPHERAL_ADDR_RANGE_START_def
  PERIPHERAL_ADDR_RANGE_END_def LOCAL_PERIPH_ADDR_START_def LOCAL_PERIPH_ADDR_END_def
  MEMATTR_IDX_NORMAL_def MEMATTR_IDX_DEV_NGNRE_def MEMATTR_IDX_NORMAL2_def MEMATTR_IDX_MMIO_def
  SH_BITS_OUTER_SHAREABLE_def

lemma init_config_fields:
  "base_address (mmu_init_config b s e) = b" "page_size (mmu_init_config b s e) = 4096"
  "num_entries_per_pt (mmu_init_config b s e) = 512" "pa_start (mmu_init_config b s e) = 0"
  "pa_end (mmu_init_config b s e) = 0x40002000"
  by (simp_all add: mmu_init_config_def Let_def map_consts)

lemma init_config_ranges:
  assumes "s div 4096 \<le> e div 4096"
  shows "mem_ranges (mmu_init_config b s e) =
    [decl_range 0 (s div 4096) 0 2, decl_range (s div 4096) (e div 4096 - s div 4096) 3 2,
     decl_range (e div 4096) (0x3f000 - e div 4096) 2 2, decl_range 0x3f000 0x1000 1 2,
     decl_range 0x40000 2 1 2]"
  using assms by (simp add: mmu_init_config_def Let_def map_consts)

lemma init_config_counts:
  fixes b s e
  defines "c \<equiv> mmu_init_config b s e"
  shows "l3_count c = 262146" "l2_count c = 513" "l1_count c = 2" "l0_count c = 1"
    "l3_table c = b + 16384"
proof -
  note f = init_config_fields [of b s e, folded c_def]
  show 3: "l3_count c = 262146" by (simp add: l3_count_def f)
  show 2: "l2_count c = 513" by (simp add: l2_count_def 3 div_round_up_def f)
  show 1: "l1_count c = 2" by (simp add: l1_count_def 2 div_round_up_def f)
  show 0: "l0_count c = 1" by (simp add: l0_count_def 1 div_round_up_def f)
  show "l3_table c = b + 16384"
    by (simp add: l1_table_def l2_table_def l3_table_def 0 1 2 round_up_to_def f)
qed

lemma init_pages:
  assumes "s \<le> e" "e \<le> PERIPHERAL_ADDR_RANGE_START"
  shows "s div 4096 \<le> e div 4096" "e div 4096 \<le> 0x3f000"
  using assms div_le_mono [of e "0x3f000000" 4096] by (simp_all add: div_le_mono map_consts)

lemma init_config_ok:
  assumes "4096 dvd b" "b + 2113552 \<le> 2 ^ 48" "s \<le> e" "e \<le> PERIPHERAL_ADDR_RANGE_START"
  shows "config_ok (mmu_init_config b s e)"
  using assms(1,2) init_pages [OF assms(3,4)]
  by (simp add: config_ok_def init_config_counts init_config_fields init_config_ranges decl_range_def)

lemma init_region:
  assumes "s \<le> e" "e \<le> PERIPHERAL_ADDR_RANGE_START" "va < LOCAL_PERIPH_ADDR_END"
  shows "\<exists>rs1 r rs2. mem_ranges (mmu_init_config b s e) = rs1 @ r # rs2 \<and> covers r (va div 4096) \<and>
    (\<forall>q \<in> set rs2. \<not> covers q (va div 4096)) \<and> pa_start_page r = va_start_page r \<and>
    mem_attr_idx r = region_attr s e va \<and> sh_bits r = SH_BITS_OUTER_SHAREABLE"
proof -
  note se = init_pages [OF assms(1,2)]
  have i: "va div 4096 < 0x40002" using assms(3) by (simp add: map_consts)
  have vp: "va < 0x3f000000 \<longleftrightarrow> va div 4096 < 0x3f000" by linarith
  let ?r0 = "decl_range 0 (s div 4096) 0 2" and ?r1 = "decl_range (s div 4096) (e div 4096 - s div 4096) 3 2"
    and ?r2 = "decl_range (e div 4096) (0x3f000 - e div 4096) 2 2" and ?r3 = "decl_range 0x3f000 0x1000 1 2"
    and ?r4 = "decl_range 0x40000 2 1 2"
  note defs = covers_def decl_range_def region_attr_def map_consts
  consider "va div 4096 < s div 4096" | "s div 4096 \<le> va div 4096" "va div 4096 < e div 4096"
    | "e div 4096 \<le> va div 4096" "va div 4096 < 0x3f000" | "0x3f000 \<le> va div 4096" "va div 4096 < 0x40000"
    | "0x40000 \<le> va div 4096" by linarith
  then show ?thesis
  proof cases
    case 1
    then show ?thesis unfolding init_config_ranges [OF se(1)] using se
      by (intro exI [of _ "[]"] exI [of _ ?r0] exI [of _ "[?r1, ?r2, ?r3, ?r4]"]) (simp add: defs)
  next
    case 2
    then show ?thesis unfolding init_config_ranges [OF se(1)] using se
      by (intro exI [of _ "[?r0]"] exI [of _ ?r1] exI [of _ "[?r2, ?r3, ?r4]"]) (simp add: defs)
  next
    case 3
    then show ?thesis unfolding init_config_ranges [OF se(1)] using se vp
      by (intro exI [of _ "[?r0, ?r1]"] exI [of _ ?r2] exI [of _ "[?r3, ?r4]"]) (simp add: defs)
  next
    case 4
    then show ?thesis unfolding init_config_ranges [OF se(1)] using se vp
      by (intro exI [of _ "[?r0, ?r1, ?r2]"] exI [of _ ?r3] exI [of _ "[?r4]"]) (simp add: defs)
  next
    case 5
    then show ?thesis unfolding init_config_ranges [OF se(1)] using se vp i
      by (intro exI [of _ "[?r0, ?r1, ?r2, ?r3]"] exI [of _ ?r4] exI [of _ "[]"]) (simp add: defs)
  qed
qed

lemma init_mair_bytes:
  "take_bit 8 (drop_bit (8 * i) (mair_repr_64_to_value mair_repr)) =
     (if i = MEMATTR_IDX_NORMAL \<or> i = MEMATTR_IDX_NORMAL2 then 0xff else 0x04)" if "i < 4"
proof -
  have "i = 0 \<or> i = 1 \<or> i = 2 \<or> i = 3" using that by presburger
  moreover have r: "mair_repr = [0xff, 4, 0xff, 4, 0, 0, 0, 0]"
    by (simp add: mair_repr_def map_consts MAKE_MEMATTR_NORMAL_def MEMATTR_WRITEBACK_NONTRANS_def
        MEMATTR_DEVICE_NGNRE_def numeral_eq_Suc)
  have "mair_repr_64_to_value mair_repr = 0x04ff04ff"
    unfolding r by (simp add: mair_repr_64_to_value_def)
  ultimately show ?thesis by (auto simp: map_consts)
qed

text \<open>C11 (safety). After \<^verbatim>\<open>mmu_init\<close> every address below the end of the local peripherals
  translates to itself, so the switch to virtual addresses moves nothing, and with the memory type of
  its region: write-back normal memory (MAIR byte \<open>0xff\<close>) for the kernel's and the shared memory,
  device nGnRE (\<open>0x04\<close>) for the DMA area and the peripherals; all of it outer shareable.\<close>

theorem mmu_init_identity_map:
  assumes "4096 dvd mmu_table_base" "mmu_table_base + 2113552 \<le> 2 ^ 48"
    "dma_start \<le> dma_end" "dma_end \<le> PERIPHERAL_ADDR_RANGE_START" "va < LOCAL_PERIPH_ADDR_END"
  shows "\<exists>regs m'. mmu_init mmu_table_base dma_start dma_end m = Inr (regs, m') \<and>
    walk m' (ttbr regs) va = Some (va, region_attr dma_start dma_end va, SH_BITS_OUTER_SHAREABLE) \<and>
    take_bit 8 (drop_bit (8 * region_attr dma_start dma_end va) (mair_el1 regs)) =
      (if va div 4096 < dma_start div 4096 \<or> dma_end div 4096 \<le> va div 4096 \<and> va < PERIPHERAL_ADDR_RANGE_START
       then 0xff else 0x04)"
proof -
  define c where "c = mmu_init_config mmu_table_base dma_start dma_end"
  have ok: "config_ok c" unfolding c_def using assms by (intro init_config_ok) auto
  note se = init_pages [OF assms(3,4)]
  have i: "va div 4096 < 0x40002" using assms(5) by (simp add: map_consts)
  obtain rs1 r rs2 where r: "mem_ranges c = rs1 @ r # rs2" "covers r (va div 4096)"
    "\<forall>q \<in> set rs2. \<not> covers q (va div 4096)" "pa_start_page r = va_start_page r"
    "mem_attr_idx r = region_attr dma_start dma_end va" "sh_bits r = SH_BITS_OUTER_SHAREABLE"
    using init_region [OF assms(3-5)] unfolding c_def by blast
  obtain m' where m': "map_linear_range c m = Inr m'"
    "walk m' (base_address c) va = Some (va, region_attr dma_start dma_end va, SH_BITS_OUTER_SHAREABLE)"
  proof (rule walk_page [OF ok r(1-3), of m])
    fix m' assume m': "map_linear_range c m = Inr m'"
      "walk m' (base_address c) va = Some ((pa_start_page r + (va div 4096 - va_start_page r)) * 4096 + va mod 4096,
         mem_attr_idx r, sh_bits r)"
    have "(pa_start_page r + (va div 4096 - va_start_page r)) * 4096 + va mod 4096 = va"
      using r(2,4) by (simp add: covers_def)
    with m' r(5,6) show thesis by (intro that [of m']) simp_all
  qed
  have "region_attr dma_start dma_end va < 4" by (simp add: region_attr_def map_consts)
  from init_mair_bytes [OF this] show ?thesis
    using m' se i by (auto simp: mmu_init_def Let_def region_attr_def map_consts simp flip: c_def)
qed

theorem mmu_init_identity_map_witness:
  "\<exists>regs m'. mmu_init 0x100000 0x2000000 0x4000000 (\<lambda>_. 0) = Inr (regs, m') \<and>
    walk m' (ttbr regs) 0x3f200004 = Some (0x3f200004, 1, 2) \<and>
    take_bit 8 (drop_bit 8 (mair_el1 regs)) = 0x04"
  using mmu_init_identity_map [of "0x100000" "0x2000000" "0x4000000" "0x3f200004" "\<lambda>_. 0"]
  by (auto simp: map_consts region_attr_def)

end
