(* ===== verification/Stringlib.thy ===== *)
theory Stringlib
  imports Prelude "HOL-Library.List_Lexorder"
begin

text \<open>
  The string and memory routines of \<^verbatim>\<open>src/lib/stringlib/stringlib.c\<close>,
  \<^verbatim>\<open>src/lib/checksum.c\<close> and \<^verbatim>\<open>src/lib/parse_string.c\<close> over a byte memory. \<^verbatim>\<open>char\<close> is
  unsigned on this target. Loops that end only at a zero byte are partial functions: \<open>None\<close> is a
  loop that never ends.
\<close>

type_synonym bmem = "ptr \<Rightarrow> u8"

section \<open>Character classes\<close>

definition isprint :: "u8 \<Rightarrow> bool" where
  "isprint ch \<longleftrightarrow> (ch \<ge> 0x20 \<and> ch < 0x7f) \<or> ch = 10 \<or> ch = 32"

definition isdigit :: "u8 \<Rightarrow> bool" where
  "isdigit ch \<longleftrightarrow> ch \<ge> 48 \<and> ch \<le> 57"

definition isspace :: "u8 \<Rightarrow> bool" where
  "isspace c \<longleftrightarrow> c = 32 \<or> (c \<ge> 9 \<and> c \<le> 13)"

section \<open>Strings\<close>

partial_function (option) strcmp :: "bmem \<Rightarrow> ptr \<Rightarrow> ptr \<Rightarrow> int option" where
  "strcmp m s1 s2 =
     (if m s1 \<noteq> 0 \<and> m s2 \<noteq> 0 \<and> m s1 = m s2 then strcmp m (s1 + 1) (s2 + 1)
      else Some (uint (m s1) - uint (m s2)))"

fun memcmp :: "bmem \<Rightarrow> ptr \<Rightarrow> ptr \<Rightarrow> nat \<Rightarrow> int" where
  "memcmp m p1 p2 0 = 0"
| "memcmp m p1 p2 (Suc n) =
     (if m p1 \<noteq> m p2 then uint (m p1) - uint (m p2) else memcmp m p1 p2 n)"

fun strncmp :: "bmem \<Rightarrow> ptr \<Rightarrow> ptr \<Rightarrow> nat \<Rightarrow> int" where
  "strncmp m s1 s2 0 = 0"
| "strncmp m s1 s2 (Suc n) =
     (if m s1 \<noteq> 0 \<and> m s2 \<noteq> 0 \<and> m s1 = m s2 then strncmp m (s1 + 1) (s2 + 1) n
      else uint (m s1) - uint (m s2))"

partial_function (option) strlen_loop :: "bmem \<Rightarrow> ptr \<Rightarrow> nat \<Rightarrow> nat option" where
  "strlen_loop m p res = (if m p \<noteq> 0 then strlen_loop m (p + 1) (res + 1) else Some res)"

definition strlen :: "bmem \<Rightarrow> ptr \<Rightarrow> nat option" where
  "strlen m p = strlen_loop m p 0"

fun strnlen_loop :: "bmem \<Rightarrow> ptr \<Rightarrow> nat \<Rightarrow> nat \<Rightarrow> nat" where
  "strnlen_loop m p 0 res = res"
| "strnlen_loop m p (Suc n) res = (if m p \<noteq> 0 then strnlen_loop m (p + 1) n (res + 1) else res)"

definition strnlen :: "bmem \<Rightarrow> ptr \<Rightarrow> nat \<Rightarrow> nat" where
  "strnlen m p n = strnlen_loop m p n 0"

partial_function (option) strcpy :: "ptr \<Rightarrow> ptr \<Rightarrow> bmem \<Rightarrow> bmem option" where
  "strcpy dst src m =
     (if m src \<noteq> 0 then strcpy (dst + 1) (src + 1) (m(dst := m src)) else Some (m(dst := 0)))"

fun memset :: "ptr \<Rightarrow> u8 \<Rightarrow> nat \<Rightarrow> bmem \<Rightarrow> bmem" where
  "memset p v 0 m = m"
| "memset p v (Suc n) m = memset (p + 1) v n (m(p := v))"

fun strncpy :: "ptr \<Rightarrow> ptr \<Rightarrow> nat \<Rightarrow> bmem \<Rightarrow> bmem" where
  "strncpy dst src 0 m = m"
| "strncpy dst src (Suc n) m =
     (let tmp = m src; m = m(dst := tmp)
      in if tmp = 0 then memset (dst + 1) 0 n m else strncpy (dst + 1) (src + 1) n m)"

section \<open>Copying memory\<close>

text \<open>One assignment \<^verbatim>\<open>((typ*)dst)[i] = ((typ*)src)[i]\<close> of \<open>k\<close> bytes: all of them are read before
  any is written.\<close>

definition cpy_el :: "nat \<Rightarrow> ptr \<Rightarrow> ptr \<Rightarrow> nat \<Rightarrow> bmem \<Rightarrow> bmem" where
  "cpy_el k dst src i m =
     (\<lambda>a. if dst + k * i \<le> a \<and> a < dst + k * i + k then m (src + (a - dst)) else m a)"

fun cpy_loop :: "nat \<Rightarrow> ptr \<Rightarrow> ptr \<Rightarrow> nat \<Rightarrow> nat \<Rightarrow> bmem \<Rightarrow> bmem" where
  "cpy_loop k dst src i 0 m = m"
| "cpy_loop k dst src i (Suc n) m = cpy_loop k dst src (i + 1) n (cpy_el k dst src i m)"

definition memcpy_8aligned :: "ptr \<Rightarrow> ptr \<Rightarrow> nat \<Rightarrow> bmem \<Rightarrow> bmem kres" where
  "memcpy_8aligned dst src n m =
     (if dst mod 8 \<noteq> 0 \<or> src mod 8 \<noteq> 0 \<or> n mod 8 \<noteq> 0 then Inl ''memcpy not aligned''
      else Inr (cpy_loop 8 dst src 0 (n div 8) m))"

definition memcpy :: "ptr \<Rightarrow> ptr \<Rightarrow> nat \<Rightarrow> bmem \<Rightarrow> bmem kres" where
  "memcpy dst src n m =
     (if dst mod 8 \<noteq> 0 \<or> src mod 8 \<noteq> 0
      then if dst mod 4 \<noteq> 0 \<or> src mod 4 \<noteq> 0 then Inr (cpy_loop 1 dst src 0 n m)
           else let imax = n div 4 * 4;
                    m = cpy_loop 4 dst src 0 (imax div 4) m
                in Inr (cpy_loop 1 dst src (n div 4 * 4) (n - n div 4 * 4) m)
      else kbind (memcpy_8aligned dst src (n div 8 * 8) m) (\<lambda>m.
             Inr (cpy_loop 1 dst src (n div 8 * 8) (n - n div 8 * 8) m)))"

section \<open>Wide characters\<close>

function wtomb_loop :: "ptr \<Rightarrow> ptr \<Rightarrow> ptr \<Rightarrow> ptr \<Rightarrow> u8 \<Rightarrow> bmem \<Rightarrow> ptr \<times> bmem" where
  "wtomb_loop sptr send dptr dend c m =
     (let sptr = sptr + 1; m = m(dptr := c); dptr = dptr + 1
      in if dptr \<ge> dend then (dptr, m(dptr - 1 := 0))
         else let c = m sptr; sptr = sptr + 1
              in if c = 0 then (dptr, m(dptr := 0))
                 else if int send - int sptr < 2 then (dptr + 1, m(dptr := c, dptr + 1 := 0))
                 else wtomb_loop sptr send dptr dend c m)"
  by auto
termination by (relation "measure (\<lambda>(_, _, dptr, dend, _, _). dend - dptr)") auto

declare wtomb_loop.simps [simp del]

definition wtomb :: "ptr \<Rightarrow> nat \<Rightarrow> ptr \<Rightarrow> nat \<Rightarrow> bmem \<Rightarrow> nat \<times> bmem" where
  "wtomb buf buf_sz src src_sz m =
     (let dend = buf + buf_sz
      in if buf \<ge> dend then (0, m)
         else let (dptr, m) = wtomb_loop (src + 1) (src + src_sz) buf dend (m src) m
              in (dptr - buf, m))"

section \<open>Checksum and tokens\<close>

fun checksum_loop :: "bmem \<Rightarrow> ptr \<Rightarrow> nat \<Rightarrow> u32 \<Rightarrow> u32" where
  "checksum_loop m buf 0 result = result"
| "checksum_loop m buf (Suc n) result = checksum_loop m (buf + 1) n (result + ucast (m buf))"

definition checksum_basic :: "bmem \<Rightarrow> ptr \<Rightarrow> nat \<Rightarrow> u32 \<Rightarrow> u32" where
  "checksum_basic m buf sz initval = checksum_loop m buf sz initval"

text \<open>Tokens are pairs of start address and length. \<open>skip_spaces\<close> is the loop that looks for the
  first character of a word, \<open>None\<close> at the end of the text; \<open>scan_word\<close> runs to the end of the
  word and says whether the text goes on.\<close>

function skip_spaces :: "bmem \<Rightarrow> ptr \<Rightarrow> ptr \<Rightarrow> ptr option" where
  "skip_spaces m p e =
     (if p \<ge> e \<or> m p = 0 then None else if \<not> isspace (m p) then Some p else skip_spaces m (p + 1) e)"
  by auto
termination by (relation "measure (\<lambda>(_, p, e). e - p)") auto

function scan_word :: "bmem \<Rightarrow> ptr \<Rightarrow> ptr \<Rightarrow> ptr \<times> bool" where
  "scan_word m p e =
     (if p \<ge> e \<or> m p = 0 then (p, False) else if isspace (m p) then (p, True) else scan_word m (p + 1) e)"
  by auto
termination by (relation "measure (\<lambda>(_, p, e). e - p)") auto

declare skip_spaces.simps [simp del] scan_word.simps [simp del]

fun tokenize_loop :: "bmem \<Rightarrow> ptr \<Rightarrow> ptr \<Rightarrow> nat \<Rightarrow> (ptr \<times> nat) list" where
  "tokenize_loop m p e 0 = []"
| "tokenize_loop m p e (Suc n) =
     (case skip_spaces m p e of
        None \<Rightarrow> []
      | Some s \<Rightarrow> let (q, more) = scan_word m s e
                  in (s, q - s) # (if more then tokenize_loop m q e n else []))"

definition tokenize_string :: "bmem \<Rightarrow> ptr \<Rightarrow> ptr \<Rightarrow> nat \<Rightarrow> (ptr \<times> nat) list" where
  "tokenize_string m start e max_tokens = tokenize_loop m start e max_tokens"

section \<open>Lemmas\<close>

text \<open>The zero-terminated string at an address.\<close>

fun cstr :: "bmem \<Rightarrow> ptr \<Rightarrow> u8 list \<Rightarrow> bool" where
  "cstr m p [] \<longleftrightarrow> m p = 0"
| "cstr m p (c # cs) \<longleftrightarrow> c \<noteq> 0 \<and> m p = c \<and> cstr m (p + 1) cs"

lemma cstr_cong: "\<forall>a. p \<le> a \<and> a \<le> p + length s \<longrightarrow> m a = m' a \<Longrightarrow> cstr m p s \<longleftrightarrow> cstr m' p s"
  by (induction s arbitrary: p) auto

lemma uint_pos: "c \<noteq> 0 \<Longrightarrow> 0 < uint c"
  by (metis order_le_less uint_0_iff uint_ge_0)

lemma strcmp_cstr:
  "cstr m p s \<Longrightarrow> cstr m q t \<Longrightarrow>
    \<exists>r. strcmp m p q = Some r \<and> (r = 0 \<longleftrightarrow> s = t) \<and> (r < 0 \<longleftrightarrow> s < t)"
proof (induction s arbitrary: p q t)
  case Nil
  then show ?case using uint_pos by (cases t) (fastforce simp: strcmp.simps)+
next
  case (Cons c s)
  show ?case
  proof (cases t)
    case Nil
    then show ?thesis using Cons.prems
      by (auto simp: strcmp.simps [of m p q] word_less_def uint_0_iff dest: order_antisym [OF _ uint_ge_0])
  next
    case (Cons d ds)
    show ?thesis
    proof (cases "c = d")
      case True
      with Cons Cons.prems Cons.IH [of "p + 1" "q + 1" ds] show ?thesis
        by (auto simp: strcmp.simps [of m p q])
    next
      case False
      with Cons Cons.prems show ?thesis
        by (auto simp: strcmp.simps [of m p q] word_less_def word_uint_eq_iff)
    qed
  qed
qed


lemma strlen_loop_cstr: "cstr m p s \<Longrightarrow> strlen_loop m p res = Some (res + length s)"
  by (induction s arbitrary: p res) (simp_all add: strlen_loop.simps)

lemma strlen_cstr: "cstr m p s \<Longrightarrow> strlen m p = Some (length s)"
  by (simp add: strlen_def strlen_loop_cstr)

lemma strnlen_cstr: "cstr m p s \<Longrightarrow> strnlen_loop m p n res = res + min n (length s)"
  by (induction m p n res arbitrary: s rule: strnlen_loop.induct) (case_tac s; simp)+

lemma memset_eq: "memset p v n m = (\<lambda>a. if p \<le> a \<and> a < p + n then v else m a)"
  by (induction n arbitrary: p m) (auto simp: fun_eq_iff)

text \<open>What a copy of \<open>n\<close> bytes is meant to do.\<close>

definition bytes_copied :: "ptr \<Rightarrow> ptr \<Rightarrow> nat \<Rightarrow> bmem \<Rightarrow> bmem" where
  "bytes_copied dst src n m = (\<lambda>a. if dst \<le> a \<and> a < dst + n then m (src + (a - dst)) else m a)"

text \<open>A copy loop over elements of \<open>k\<close> bytes that continues a copy of the first \<open>k * i\<close> bytes.
  The ranges do not overlap, or the copy goes down in memory.\<close>

lemma cpy_loop_eq:
  assumes "dst \<le> src \<or> src + k * (i + n) \<le> dst"
  shows "cpy_loop k dst src i n (bytes_copied dst src (k * i) m) = bytes_copied dst src (k * (i + n)) m"
  using assms
proof (induction n arbitrary: i)
  case 0
  then show ?case by simp
next
  case (Suc n)
  have "src + (a - dst) < dst \<or> dst + k * i \<le> src + (a - dst)" if "dst + k * i \<le> a" "a < dst + k * i + k" for a
  proof (cases "dst \<le> src")
    case True
    then show ?thesis using that by linarith
  next
    case False
    with Suc.prems have "src + k * (i + Suc n) \<le> dst" by blast
    moreover have "k * i + k \<le> k * (i + Suc n)" by (simp add: algebra_simps)
    ultimately show ?thesis using that by linarith
  qed
  note sep = this
  have "cpy_el k dst src i (bytes_copied dst src (k * i) m) = bytes_copied dst src (k * (i + 1)) m"
  proof (rule ext)
    fix a
    show "cpy_el k dst src i (bytes_copied dst src (k * i) m) a = bytes_copied dst src (k * (i + 1)) m a"
      using sep [of a] by (auto simp: cpy_el_def bytes_copied_def)
  qed
  then show ?case using Suc.IH [of "i + 1"] Suc.prems by simp
qed

lemma bytes_copied_0: "bytes_copied dst src 0 m = m"
  by (intro ext) (auto simp: bytes_copied_def)

text \<open>Word copies followed by a byte copy of the rest.\<close>

lemma cpy_words_rest:
  assumes "dst \<le> src \<or> src + n \<le> dst" "0 < k"
  shows "cpy_loop 1 dst src (n div k * k) (n - n div k * k) (cpy_loop k dst src 0 (n div k) m) = bytes_copied dst src n m"
proof -
  have le: "n div k * k \<le> n" "k * (n div k) \<le> n" by simp_all
  have "dst \<le> src \<or> src + k * (0 + n div k) \<le> dst" using assms(1) order_trans [OF add_left_mono [OF le(2)]] by auto
  from cpy_loop_eq [OF this, of m]
  have "cpy_loop k dst src 0 (n div k) m = bytes_copied dst src (1 * (n div k * k)) m"
    by (simp add: bytes_copied_0 mult.commute)
  moreover have "cpy_loop 1 dst src (n div k * k) (n - n div k * k) (bytes_copied dst src (1 * (n div k * k)) m) =
      bytes_copied dst src (1 * (n div k * k + (n - n div k * k))) m"
    using assms(1) le by (intro cpy_loop_eq) auto
  ultimately show ?thesis using le by simp
qed

lemma memcpy_eq:
  assumes "dst \<le> src \<or> src + n \<le> dst"
  shows "memcpy dst src n m = Inr (bytes_copied dst src n m)"
proof -
  have "cpy_loop 1 dst src 0 n m = bytes_copied dst src n m"
    using cpy_loop_eq [of dst src 1 0 n m] assms by (simp add: bytes_copied_0)
  then show ?thesis
    using cpy_words_rest [OF assms, of 4 m] cpy_words_rest [OF assms, of 8 m]
    by (simp add: memcpy_def memcpy_8aligned_def Let_def)
qed

lemma strcpy_cstr:
  assumes "cstr m src s" "dst + length s < src \<or> src + length s < dst"
  shows "\<exists>m'. strcpy dst src m = Some m' \<and> cstr m' dst s \<and>
    (\<forall>a. a < dst \<or> dst + length s < a \<longrightarrow> m' a = m a)"
  using assms
proof (induction s arbitrary: dst src m)
  case Nil
  then show ?case by (simp add: strcpy.simps)
next
  case (Cons c s)
  let ?m = "m(dst := c)"
  have "cstr ?m (src + 1) s"
    using Cons.prems cstr_cong [of "src + 1" s m ?m] by auto
  moreover have "dst + 1 + length s < src + 1 \<or> src + 1 + length s < dst + 1" using Cons.prems(2) by auto
  ultimately obtain m' where m': "strcpy (dst + 1) (src + 1) ?m = Some m'" "cstr m' (dst + 1) s"
    "\<forall>a. a < dst + 1 \<or> dst + 1 + length s < a \<longrightarrow> m' a = ?m a"
    using Cons.IH by blast
  then show ?case using Cons.prems(1) by (auto simp: strcpy.simps [of dst src m])
qed

text \<open>The text between two addresses, up to a zero byte, and its words.\<close>

definition text_at :: "bmem \<Rightarrow> ptr \<Rightarrow> ptr \<Rightarrow> u8 list" where
  "text_at m p e = takeWhile (\<lambda>c. c \<noteq> 0) (map m [p ..< e])"

function words_of :: "u8 list \<Rightarrow> u8 list list" where
  "words_of cs = (let w = dropWhile isspace cs
     in if w = [] then []
        else takeWhile (\<lambda>c. \<not> isspace c) w # words_of (dropWhile (\<lambda>c. \<not> isspace c) w))"
  by auto
termination
proof (relation "measure length", goal_cases)
  case (2 cs w)
  then have "\<not> isspace (hd w)" using hd_dropWhile by blast
  then have "length (dropWhile (\<lambda>c. \<not> isspace c) w) < length w"
    using 2(2) by (cases w) (simp_all add: le_imp_less_Suc length_dropWhile_le)
  moreover have "length w \<le> length cs" using 2 by (simp add: length_dropWhile_le)
  ultimately show ?case by simp
qed simp

declare words_of.simps [simp del]

lemma text_at_Nil: "p \<ge> e \<or> m p = 0 \<Longrightarrow> text_at m p e = []"
  by (cases "p < e") (auto simp: text_at_def upt_conv_Cons)

lemma text_at_Cons: "\<not> (p \<ge> e \<or> m p = 0) \<Longrightarrow> text_at m p e = m p # text_at m (p + 1) e"
  by (simp add: text_at_def upt_conv_Cons)

lemma skip_spaces_text:
  "case skip_spaces m p e of
     None \<Rightarrow> dropWhile isspace (text_at m p e) = []
   | Some s \<Rightarrow> dropWhile isspace (text_at m p e) = text_at m s e \<and> text_at m s e \<noteq> []"
proof (induction m p e rule: skip_spaces.induct)
  case (1 m p e)
  show ?case
  proof (cases "p \<ge> e \<or> m p = 0")
    case True
    then show ?thesis by (simp add: skip_spaces.simps [of m p e] text_at_Nil)
  next
    case False
    then show ?thesis using 1 by (auto simp: skip_spaces.simps [of m p e] text_at_Cons split: option.split)
  qed
qed

lemma scan_word_text:
  "scan_word m p e = (q, more) \<Longrightarrow> p \<le> q \<and>
     map m [p ..< q] = takeWhile (\<lambda>c. \<not> isspace c) (text_at m p e) \<and>
     dropWhile (\<lambda>c. \<not> isspace c) (text_at m p e) = text_at m q e \<and> (more \<longleftrightarrow> text_at m q e \<noteq> [])"
proof (induction m p e rule: scan_word.induct)
  case (1 m p e)
  show ?case
  proof (cases "p \<ge> e \<or> m p = 0")
    case True
    then show ?thesis using 1(2) by (auto simp: scan_word.simps [of m p e] text_at_Nil)
  next
    case False
    then show ?thesis using 1
      by (cases "isspace (m p)") (auto simp: scan_word.simps [of m p e] text_at_Cons upt_conv_Cons)
  qed
qed

lemma words_of_Nil: "words_of [] = []"
  by (simp add: words_of.simps)

lemma tokenize_loop_words:
  "map (\<lambda>(s, l). map m [s ..< s + l]) (tokenize_loop m p e n) = take n (words_of (text_at m p e))"
proof (induction n arbitrary: p)
  case 0
  then show ?case by simp
next
  case (Suc n)
  show ?case
  proof (cases "skip_spaces m p e")
    case None
    then show ?thesis using skip_spaces_text [of m p e] by (simp add: words_of.simps)
  next
    case (Some s)
    obtain q more where q: "scan_word m s e = (q, more)" by fastforce
    note sk = skip_spaces_text [of m p e, unfolded Some option.case] and sw = scan_word_text [OF q]
    have "words_of (text_at m p e) = map m [s ..< q] # words_of (text_at m q e)"
      using sk sw by (simp add: words_of.simps [of "text_at m p e"] Let_def)
    moreover have "map m [s ..< s + (q - s)] = map m [s ..< q]" using sw by simp
    ultimately show ?thesis using Some q Suc.IH [of q] sw by (auto simp: words_of_Nil)
  qed
qed

section \<open>Properties\<close>

text \<open>\<^verbatim>\<open>strcmp\<close> of two zero-terminated strings returns; the result is zero
  exactly when the strings are equal and negative exactly when the first precedes the second in
  lexicographic order.\<close>

theorem strcmp_order:
  assumes "cstr m p s" "cstr m q t"
  shows "\<exists>r. strcmp m p q = Some r \<and> (r = 0 \<longleftrightarrow> s = t) \<and> (r < 0 \<longleftrightarrow> s < t)"
  using strcmp_cstr [OF assms] .

text \<open>Memory for the witnesses: \<^verbatim>\<open>"ab"\<close> at 10 and \<^verbatim>\<open>"ac"\<close> at 20.\<close>

definition sample_mem :: bmem where
  "sample_mem = (\<lambda>_. 0)(10 := 97, 11 := 98, 20 := 97, 21 := 99)"

theorem strcmp_order_witness: "\<exists>r. strcmp sample_mem 10 20 = Some r \<and> r < 0"
proof -
  have "cstr sample_mem 10 [97, 98]" "cstr sample_mem 20 [97, 99]" by (simp_all add: sample_mem_def)
  from strcmp_order [OF this] show ?thesis by auto
qed



text \<open>\<^verbatim>\<open>memcmp\<close> never advances its pointers: whatever the length, it compares the
  first bytes only, so it reports buffers as equal that differ anywhere behind the first byte.\<close>

theorem memcmp_first_byte_only:
  "memcmp m p q n = (if n = 0 then 0 else uint (m p) - uint (m q))"
  by (induction n) auto

text \<open>\<^verbatim>\<open>tokenize_string\<close> splits the text between the two addresses (up to a
  zero byte) at white space: the tokens it stores are the first \<open>max_tokens\<close> words, each exactly the
  characters of the word, in order.\<close>

theorem tokenize_string_words:
  "map (\<lambda>(s, l). map m [s ..< s + l]) (tokenize_string m start e max_tokens) =
     take max_tokens (words_of (text_at m start e))"
  by (simp add: tokenize_string_def tokenize_loop_words)

end
