(* ===== verification/Strtol.thy ===== *)
theory Strtol
  imports Stringlib
begin

text \<open>
  \<^verbatim>\<open>strtoll\<close> of \<^verbatim>\<open>src/lib/stringlib/strtol.c\<close>: the digits are first walked over forwards to
  find the end, then summed up backwards. The result is a \<^verbatim>\<open>long long\<close> kept as a 64-bit word; the
  second component is what the code stores in \<^verbatim>\<open>*endptr\<close>.
\<close>

partial_function (option) walk_while :: "(u8 \<Rightarrow> bool) \<Rightarrow> bmem \<Rightarrow> ptr \<Rightarrow> ptr option" where
  "walk_while P m p = (if m p \<noteq> 0 \<and> P (m p) then walk_while P m (p + 1) else Some p)"

definition digit2 :: "u8 \<Rightarrow> bool" where "digit2 c \<longleftrightarrow> \<not> c - 48 > 1"
definition digit10 :: "u8 \<Rightarrow> bool" where "digit10 c \<longleftrightarrow> \<not> c - 48 > 9"
definition digit16 :: "u8 \<Rightarrow> bool" where
  "digit16 c \<longleftrightarrow> \<not> (c - 48 > 9 \<and> c - 97 > 5 \<and> c - 65 > 5)"

text \<open>The backward walks over the \<open>n\<close> digits at \<open>p\<close>. The binary one shifts an \<^verbatim>\<open>int\<close>, which is
  undefined from the 32nd digit on.\<close>

fun back2 :: "bmem \<Rightarrow> ptr \<Rightarrow> nat \<Rightarrow> u64 \<Rightarrow> nat \<Rightarrow> u64 kres" where
  "back2 m p 0 result order = Inr result"
| "back2 m p (Suc n) result order =
     (if m (p + n) = 49
      then if order < 31 then back2 m p n (result + push_bit order 1) (order + 1) else Inl ''shift of int''
      else back2 m p n result (order + 1))"

fun back10 :: "bmem \<Rightarrow> ptr \<Rightarrow> nat \<Rightarrow> u64 \<Rightarrow> u64 \<Rightarrow> u64" where
  "back10 m p 0 result order = result"
| "back10 m p (Suc n) result order =
     back10 m p n (result + order * (ucast (m (p + n)) - 48)) (order * 10)"

fun back16 :: "bmem \<Rightarrow> ptr \<Rightarrow> nat \<Rightarrow> u64 \<Rightarrow> u64 \<Rightarrow> u64" where
  "back16 m p 0 result order = result"
| "back16 m p (Suc n) result order =
     (let c = m (p + n); c = (if c \<ge> 97 then c - 32 else c)
      in if int (unat c) - 48 \<le> 9 then back16 m p n (result + order * (ucast c - 48)) (order * 16)
         else if int (unat c) - 65 \<le> 6 then back16 m p n (result + order * (10 + ucast c - 65)) (order * 16)
         else result)"

definition strtoll_digits :: "bmem \<Rightarrow> ptr \<Rightarrow> nat \<Rightarrow> (u64 \<times> ptr) kres option" where
  "strtoll_digits m p basis =
     (if basis = 2 then
        case walk_while digit2 m p of None \<Rightarrow> None
        | Some e \<Rightarrow> Some (kbind (back2 m p (e - p) 0 0) (\<lambda>r. Inr (r, e)))
      else if basis = 10 then
        case walk_while digit10 m p of None \<Rightarrow> None
        | Some e \<Rightarrow> Some (Inr (back10 m p (e - p) 0 1, e))
      else
        case walk_while digit16 m p of None \<Rightarrow> None
        | Some e \<Rightarrow> Some (Inr (back16 m p (e - p) 0 1, e)))"

definition detect_basis :: "bmem \<Rightarrow> ptr \<Rightarrow> nat \<Rightarrow> nat" where
  "detect_basis m p basis =
     (if basis = 0
      then if m p = 48 then if m (p + 1) = 120 \<or> m (p + 1) = 88 then 16 else 2 else 10
      else basis)"

definition strtoll :: "bmem \<Rightarrow> ptr \<Rightarrow> nat \<Rightarrow> (u64 \<times> ptr) kres option" where
  "strtoll m str basis =
     (case walk_while isspace m str of None \<Rightarrow> None
      | Some p \<Rightarrow>
        let p = (if m p = 43 then p + 1 else p);
            neg = (m p = 45);
            p = (if neg then p + 1 else p);
            basis = detect_basis m p basis;
            sign = (\<lambda>(r, e). (if neg then - r else r, e))
        in if basis = 16 \<and> \<not> (m p = 48 \<and> (m (p + 1) = 120 \<or> m (p + 1) = 88)) then Some (Inr (sign (0, str)))
           else let p = (if basis = 16 then p + 2 else p)
                in if basis \<noteq> 2 \<and> basis \<noteq> 10 \<and> basis \<noteq> 16 then Some (Inr (sign (0, str)))
                   else case strtoll_digits m p basis of None \<Rightarrow> None
                        | Some r \<Rightarrow> Some (kbind r (\<lambda>r. Inr (sign r))))"

section \<open>Lemmas\<close>

text \<open>The bytes at an address.\<close>

fun bytes_at :: "bmem \<Rightarrow> ptr \<Rightarrow> u8 list \<Rightarrow> bool" where
  "bytes_at m p [] \<longleftrightarrow> True"
| "bytes_at m p (c # cs) \<longleftrightarrow> m p = c \<and> bytes_at m (p + 1) cs"

lemma bytes_at_append: "bytes_at m p (xs @ ys) \<longleftrightarrow> bytes_at m p xs \<and> bytes_at m (p + length xs) ys"
  by (induction xs arbitrary: p) auto

lemma walk_while_bytes:
  "bytes_at m p cs \<Longrightarrow> \<forall>c \<in> set cs. c \<noteq> 0 \<and> P c \<Longrightarrow> m (p + length cs) = 0 \<or> \<not> P (m (p + length cs)) \<Longrightarrow>
    walk_while P m p = Some (p + length cs)"
proof (induction cs arbitrary: p)
  case Nil
  then show ?case by (auto simp: walk_while.simps [of P m p])
next
  case (Cons c cs)
  then show ?case using Cons.IH [of "p + 1"] by (simp add: walk_while.simps [of P m p])
qed

text \<open>The number a digit string denotes, most significant digit first.\<close>

definition dec_value :: "u8 list \<Rightarrow> nat" where
  "dec_value cs = foldl (\<lambda>v c. 10 * v + unat (c - 48)) 0 cs"

definition hex_digit :: "u8 \<Rightarrow> nat" where
  "hex_digit c = (if c \<ge> 97 then unat c - 87 else if c \<ge> 65 then unat c - 55 else unat c - 48)"

definition hex_value :: "u8 list \<Rightarrow> nat" where
  "hex_value cs = foldl (\<lambda>v c. 16 * v + hex_digit c) 0 cs"

lemma dec_value_simps [simp]: "dec_value [] = 0" "dec_value (cs @ [c]) = 10 * dec_value cs + unat (c - 48)"
  by (simp_all add: dec_value_def)

lemma hex_value_simps [simp]: "hex_value [] = 0" "hex_value (cs @ [c]) = 16 * hex_value cs + hex_digit c"
  by (simp_all add: hex_value_def)

lemma digit10_unat: "digit10 c \<longleftrightarrow> 48 \<le> unat c \<and> unat c \<le> 57"
proof -
  have "unat (c - 48) = (if 48 \<le> unat c then unat c - 48 else unat c + 208)"
    using unat_u8_less [of c] by (simp add: unat_sub_if' word_le_nat_alt)
  then show ?thesis using unat_u8_less [of c] by (auto simp: digit10_def word_less_nat_alt not_less)
qed

lemma digit_sub:
  assumes "digit10 c"
  shows "unat (c - 48) = unat c - 48" "(ucast c :: u64) - 48 = of_nat (unat (c - 48))"
proof -
  have le: "48 \<le> unat c" using assms by (simp add: digit10_unat)
  then show u: "unat (c - 48) = unat c - 48" by (simp add: unat_sub_if')
  have "(of_nat (unat c - 48) :: u64) = of_nat (unat c) - of_nat 48" using le by (rule of_nat_diff)
  then show "(ucast c :: u64) - 48 = of_nat (unat (c - 48))" by (simp add: u unsigned_ucast_eq)
qed

lemma back10_value:
  "bytes_at m p cs \<Longrightarrow> \<forall>c \<in> set cs. digit10 c \<Longrightarrow>
    back10 m p (length cs) r ord = r + ord * of_nat (dec_value cs)"
proof (induction cs arbitrary: r ord rule: rev_induct)
  case (snoc c cs)
  then have "m (p + length cs) = c" "digit10 c" by (auto simp: bytes_at_append)
  with snoc show ?case by (simp add: bytes_at_append digit_sub algebra_simps)
qed simp

lemma digit16_unat:
  "digit16 c \<longleftrightarrow> (48 \<le> unat c \<and> unat c \<le> 57) \<or> (97 \<le> unat c \<and> unat c \<le> 102) \<or> (65 \<le> unat c \<and> unat c \<le> 70)"
proof -
  have "unat (c - k) = (if unat k \<le> unat c then unat c - unat k else unat c + 256 - unat k)" for k
    using unat_u8_less [of c] by (simp add: unat_sub_if' word_le_nat_alt)
  from this [of 48] this [of 97] this [of 65] show ?thesis
    using unat_u8_less [of c] by (auto simp: digit16_def word_less_nat_alt not_less)
qed

lemma back16_step:
  assumes "digit16 (m (p + n))"
  shows "back16 m p (Suc n) r ord = back16 m p n (r + ord * of_nat (hex_digit (m (p + n)))) (ord * 16)"
proof -
  define c where "c = m (p + n)"
  have i: "uint d \<le> 57 \<longleftrightarrow> unat d \<le> 57" "uint d \<le> 71 \<longleftrightarrow> unat d \<le> 71" for d :: u8
  proof -
    have "uint d = int (unat d)" by simp
    then show "uint d \<le> 57 \<longleftrightarrow> unat d \<le> 57" "uint d \<le> 71 \<longleftrightarrow> unat d \<le> 71" by linarith+
  qed
  have lower: "unat (c - 32) = unat c - 32" if "97 \<le> unat c" using that by (simp add: unat_sub_if')
  have ge: "c \<ge> 97 \<longleftrightarrow> 97 \<le> unat c" "c \<ge> 65 \<longleftrightarrow> 65 \<le> unat c" by (simp_all add: word_le_nat_alt)
  consider "48 \<le> unat c" "unat c \<le> 57" | "97 \<le> unat c" "unat c \<le> 102" | "65 \<le> unat c" "unat c \<le> 70"
    using assms by (auto simp: digit16_unat c_def)
  then show ?thesis
  proof cases
    case 1
    then have "(ucast c :: u64) - 48 = of_nat (unat c - 48)" by (simp add: of_nat_diff)
    with 1 show ?thesis by (simp add: ge hex_digit_def i Let_def flip: c_def)
  next
    case 2
    have "(of_nat (unat (c - 32)) :: u64) = of_nat (unat c) - 32"
      using 2 by (simp only: lower) (simp add: of_nat_diff)
    then have e: "(ucast c :: u64) = 32 + ucast (c - 32)" by simp
    have "uint c = int (unat c)" by simp
    then have "uint c \<le> 103" "\<not> unat c - 32 \<le> 57" using 2 by linarith+
    with 2 show ?thesis by (simp add: ge hex_digit_def i lower Let_def of_nat_diff e flip: c_def)
  next
    case 3
    then have "10 + (ucast c :: u64) - 65 = of_nat (unat c - 55)" by (simp add: of_nat_diff)
    with 3 show ?thesis by (simp add: ge hex_digit_def i Let_def flip: c_def)
  qed
qed

lemma back16_value:
  "bytes_at m p cs \<Longrightarrow> \<forall>c \<in> set cs. digit16 c \<Longrightarrow>
    back16 m p (length cs) r ord = r + ord * of_nat (hex_value cs)"
proof (induction cs arbitrary: r ord rule: rev_induct)
  case (snoc c cs)
  then have "m (p + length cs) = c" "digit16 c" by (auto simp: bytes_at_append)
  with snoc back16_step [of m p "length cs"] show ?case
    by (simp add: bytes_at_append algebra_simps del: back16.simps(2))
qed simp

lemma digit_nonzero: "digit10 c \<Longrightarrow> c \<noteq> 0 \<and> \<not> isspace c \<and> c \<noteq> 43 \<and> c \<noteq> 45" "digit16 c \<Longrightarrow> c \<noteq> 0"
  by (auto simp: digit10_unat digit16_unat isspace_def word_le_nat_alt)

lemma walk_spaces:
  assumes "bytes_at m p (ws @ c # cs)" "\<forall>w \<in> set ws. isspace w" "\<not> isspace c"
  shows "walk_while isspace m p = Some (p + length ws)"
proof (rule walk_while_bytes)
  show "\<forall>w \<in> set ws. w \<noteq> 0 \<and> isspace w" using assms(2) by (auto simp: isspace_def)
qed (use assms in \<open>auto simp: bytes_at_append\<close>)

lemma strtoll_dec:
  assumes t: "bytes_at m p (ws @ (if neg then [45] else []) @ ds @ [z])"
    and d: "\<forall>w \<in> set ws. isspace w" "ds \<noteq> []" "\<forall>c \<in> set ds. digit10 c" "z = 0 \<or> \<not> digit10 z"
  shows "strtoll m p 10 = Some (Inr (if neg then - of_nat (dec_value ds) else of_nat (dec_value ds),
    p + length ws + (if neg then 1 else 0) + length ds))"
proof -
  let ?p1 = "p + length ws" and ?p2 = "p + length ws + (if neg then 1 else 0)"
  obtain c ds' where c: "ds = c # ds'" using d(2) by (cases ds) auto
  have dc: "digit10 c" using c d(3) by simp
  have ds: "bytes_at m ?p2 ds" "m (?p2 + length ds) = z"
    using t by (auto simp: bytes_at_append split: if_splits)
  have w: "walk_while isspace m p = Some ?p1"
    using walk_spaces [of m p ws "if neg then 45 else c" "if neg then ds @ [z] else ds' @ [z]"] t d(1)
      digit_nonzero(1) [OF dc] by (cases neg) (auto simp: c isspace_def)
  have m1: "m ?p1 = (if neg then 45 else c)" using t c by (auto simp: bytes_at_append)
  have "walk_while digit10 m ?p2 = Some (?p2 + length ds)"
    using ds d digit_nonzero(1) by (intro walk_while_bytes) auto
  then have "strtoll_digits m ?p2 10 = Some (Inr (of_nat (dec_value ds), ?p2 + length ds))"
    using back10_value [OF ds(1) d(3)] by (simp add: strtoll_digits_def)
  then show ?thesis
    using w m1 digit_nonzero(1) [OF dc] by (cases neg) (simp_all add: strtoll_def detect_basis_def)
qed

lemma strtoll_hex:
  assumes t: "bytes_at m p ([48, 120] @ ds @ [z])"
    and d: "\<forall>c \<in> set ds. digit16 c" "z = 0 \<or> \<not> digit16 z" and b: "basis = 0 \<or> basis = 16"
  shows "strtoll m p basis = Some (Inr (of_nat (hex_value ds), p + 2 + length ds))"
proof -
  have ds: "bytes_at m (p + 2) ds" "m (p + 2 + length ds) = z" "m p = 48" "m (p + 1) = 120"
    using t by (auto simp: bytes_at_append numeral_eq_Suc)
  have w: "walk_while isspace m p = Some p"
    using ds(3) by (simp add: walk_while.simps [of isspace m p] isspace_def)
  have "walk_while digit16 m (p + 2) = Some (p + 2 + length ds)"
    using ds d digit_nonzero(2) by (intro walk_while_bytes) auto
  then have "strtoll_digits m (p + 2) 16 = Some (Inr (of_nat (hex_value ds), p + 2 + length ds))"
    using back16_value [OF ds(1) d(1)] by (simp add: strtoll_digits_def)
  then show ?thesis
    using w ds b by (auto simp: strtoll_def detect_basis_def Let_def)
qed

end
