(* ===== verification/Sprintf.thy ===== *)
theory Sprintf
  imports Strtol "HOL-Library.Signed_Division"
begin

text \<open>
  The formatter of \<^verbatim>\<open>src/lib/stringlib/sprintf.c\<close>. The format is a list of bytes with a zero
  behind its last one; \<open>fpos\<close> is the position of \<^verbatim>\<open>c->fmt\<close> in it. \<open>out\<close> holds the bytes from the
  start of the destination to \<^verbatim>\<open>c->dst\<close>, \<open>cap\<close> is \<^verbatim>\<open>dst_len\<close>. Arguments are the 64-bit
  slots of the variable argument list; a string argument is an address whose zero-terminated bytes
  \<open>strs\<close> gives. Reads outside the format or the digit table are \<open>Inl\<close>.
\<close>

section \<open>Context\<close>

datatype fmt_size = FMT_SIZE_NO | FMT_SIZE_LONG | FMT_SIZE_LLONG | FMT_SIZE_INTMAX | FMT_SIZE_SIZE_T
  | FMT_SIZE_INT64 | FMT_SIZE_HALF | FMT_SIZE_HHALF | FMT_SIZE_PTRDIFF

record printf_ctx =
  fpos :: nat
  out :: "u8 list"
  cap :: nat
  dst_virt :: int
  flag_plus :: bool
  flag_space :: bool
  flag_zero :: bool
  flag_left_align :: bool
  flag_hex_prefix :: bool
  width :: int
  precision :: int
  fsize :: fmt_size
  ftype :: u8
  arg :: u64

record print_num_spec =
  space_padding :: int
  padding :: int
  wordlen :: nat
  is_neg_sign :: bool

definition DST_APPEND_C :: "u8 \<Rightarrow> printf_ctx \<Rightarrow> printf_ctx" where
  "DST_APPEND_C ch c =
     c\<lparr>out := (if length (out c) < cap c then out c @ [ch] else out c), dst_virt := dst_virt c + 1\<rparr>"

definition DST_APPEND_S :: "u8 list \<Rightarrow> printf_ctx \<Rightarrow> printf_ctx" where
  "DST_APPEND_S s c = fold DST_APPEND_C s c"

definition DST_MEMCPY :: "u8 list \<Rightarrow> printf_ctx \<Rightarrow> printf_ctx" where
  "DST_MEMCPY src c =
     (let op_len = min (length src) (cap c - length (out c))
      in c\<lparr>out := out c @ take op_len src, dst_virt := dst_virt c + int op_len\<rparr>)"

text \<open>A negative length would become a huge \<^verbatim>\<open>size_t\<close> in the call of \<^verbatim>\<open>memset\<close>.\<close>

definition DST_MEMSET :: "u8 \<Rightarrow> int \<Rightarrow> printf_ctx \<Rightarrow> printf_ctx kres" where
  "DST_MEMSET val len c =
     (if len < 0 then Inl ''memset with a negative length''
      else let op_len = min (nat len) (cap c - length (out c))
           in Inr (c\<lparr>out := out c @ replicate op_len val, dst_virt := dst_virt c + len\<rparr>))"

definition to_char_16 :: "nat \<Rightarrow> bool \<Rightarrow> u8" where
  "to_char_16 i uppercase =
     (if i \<ge> 10 then of_nat (i + (if uppercase then 0 else 32) + 65 - 10) else of_nat (i + 48))"

definition to_char_8_10 :: "int \<Rightarrow> int \<Rightarrow> u8" where
  "to_char_8_10 i base = (if i \<ge> base then 35 else of_int (i + 48))"

section \<open>Decimal numbers\<close>

definition decimal_table :: "u64 list" where
  "decimal_table = map (\<lambda>k. 10 ^ k) [0 ..< 20]"

text \<open>The loop of \<^verbatim>\<open>closest_round_base10_div\<close>. The divider is zero after 64 multiplications by ten
  at the latest (\<open>10 ^ 64\<close> is a multiple of \<open>2 ^ 64\<close>), and a division by zero yields zero on this
  processor, so 64 rounds are all the loop can take.\<close>

fun base10_loop :: "nat \<Rightarrow> u64 \<Rightarrow> u64 \<Rightarrow> nat \<Rightarrow> nat" where
  "base10_loop 0 val divider wl = wl"
| "base10_loop (Suc n) val divider wl =
     (if val div divider \<noteq> 0 then base10_loop n val (divider * 10) (wl + 1) else wl)"

definition closest_round_base10_div :: "u64 \<Rightarrow> nat" where
  "closest_round_base10_div val = base10_loop 64 val 10 1"

definition print_fn_prep_spec :: "printf_ctx \<Rightarrow> print_num_spec \<Rightarrow> print_num_spec" where
  "print_fn_prep_spec c s =
     (let wl = closest_round_base10_div (arg c) + (if is_neg_sign s \<or> flag_plus c \<or> flag_space c then 1 else 0);
          pad = max (width c - int wl) 0;
          sp = max (pad - max (max (precision c) 0 - int wl) 0) 0;
          sp = (if flag_zero c \<and> precision c = -1 then 0 else sp)
      in s\<lparr>wordlen := wl, padding := pad, space_padding := sp\<rparr>)"

text \<open>\<^verbatim>\<open>DIV_LLD\<close>: both operands are read as signed; the quotient is passed as an \<^verbatim>\<open>int\<close>.\<close>

definition DIV_LLD :: "u64 \<Rightarrow> u64 \<Rightarrow> int" where
  "DIV_LLD a b = sint (of_int (sint a sdiv sint b) :: u32)"

function number_10_loop :: "u64 \<Rightarrow> printf_ctx \<Rightarrow> printf_ctx" where
  "number_10_loop divider c =
     (if divider \<noteq> 0
      then let tmp = to_char_8_10 (DIV_LLD (arg c) divider) 10;
               c = DST_APPEND_C tmp c
           in number_10_loop (divider div 10) (c\<lparr>arg := arg c mod divider\<rparr>)
      else c)"
  by auto
termination by (relation "measure (\<lambda>(d, _). unat d)") (auto simp: unat_div unat_gt_0 div_less_dividend)

declare number_10_loop.simps [simp del]

definition print_fn_number_10_div :: "nat \<Rightarrow> printf_ctx \<Rightarrow> printf_ctx kres" where
  "print_fn_number_10_div wl c =
     (if wl = 0 \<or> length decimal_table < wl then Inl ''__decimal_table out of bounds''
      else Inr (number_10_loop (decimal_table ! (wl - 1)) c))"

definition print_fn_number_10 :: "print_num_spec \<Rightarrow> printf_ctx \<Rightarrow> printf_ctx kres" where
  "print_fn_number_10 s c =
     kbind (DST_MEMSET 32 (space_padding s) c) (\<lambda>c.
       let s = s\<lparr>padding := padding s - space_padding s\<rparr>;
           (c, wl) = (if is_neg_sign s then (DST_APPEND_C 45 c, wordlen s - 1)
                      else if flag_plus c then (DST_APPEND_C 43 c, wordlen s - 1)
                      else if flag_space c then (DST_APPEND_C 32 c, wordlen s - 1)
                      else (c, wordlen s))
       in kbind (DST_MEMSET 48 (padding s) c) (print_fn_number_10_div wl))"

definition zero_spec :: print_num_spec where
  "zero_spec = \<lparr>space_padding = 0, padding = 0, wordlen = 0, is_neg_sign = False\<rparr>"

definition print_fn_number_10_u :: "printf_ctx \<Rightarrow> printf_ctx kres" where
  "print_fn_number_10_u c =
     (let c = (if fsize c = FMT_SIZE_NO then c\<lparr>arg := arg c AND 0xffffffff\<rparr> else c);
          s = print_fn_prep_spec c zero_spec
      in print_fn_number_10 s c)"

definition print_fn_number_10_d :: "printf_ctx \<Rightarrow> printf_ctx kres" where
  "print_fn_number_10_d c =
     (let max_bit_pos = (if fsize c \<in> {FMT_SIZE_LLONG, FMT_SIZE_LONG, FMT_SIZE_INT64} then 63 else 31);
          type_mask = (if max_bit_pos = 31 then 0xffffffff else 0xffffffffffffffff);
          c = c\<lparr>arg := arg c AND type_mask\<rparr>;
          neg = (arg c AND push_bit max_bit_pos 1 \<noteq> 0);
          c = (if neg then c\<lparr>arg := (NOT (arg c) + 1) AND type_mask\<rparr> else c);
          s = print_fn_prep_spec c (zero_spec\<lparr>is_neg_sign := neg\<rparr>)
      in print_fn_number_10 s c)"

section \<open>Hexadecimal numbers, strings and characters\<close>

fun bit_length :: "nat \<Rightarrow> nat" where
  "bit_length n = (if n = 0 then 0 else 1 + bit_length (n div 2))"

declare bit_length.simps [simp del]

text \<open>Leading zeros; the \<^verbatim>\<open>clz\<close> instruction gives the width for zero.\<close>

definition clz :: "nat \<Rightarrow> nat \<Rightarrow> nat" where
  "clz bits n = bits - bit_length n"

fun nibbles_loop :: "nat \<Rightarrow> printf_ctx \<Rightarrow> printf_ctx" where
  "nibbles_loop 0 c = c"
| "nibbles_loop (Suc k) c =
     nibbles_loop k (DST_APPEND_C (to_char_16 (unat (drop_bit (k * 4) (arg c) AND 0xf)) (ftype c < 97)) c)"

text \<open>The part of \<^verbatim>\<open>__print_fn_number_16\<close> behind its \<^verbatim>\<open>switch\<close>.\<close>

definition number_16_digits :: "nat \<Rightarrow> nat \<Rightarrow> printf_ctx \<Rightarrow> printf_ctx kres" where
  "number_16_digits leading_zeroes maxbits c =
     (let rightmost_nibble = (int maxbits - int leading_zeroes - 1) sdiv 4;
          pad = max (max (width c) (precision c) - (rightmost_nibble + 1)) 0;
          pad = (if flag_hex_prefix c then max (pad - 2) 0 else pad);
          pr = (if precision c \<noteq> -1 then max (precision c - (rightmost_nibble + 1)) 0 else precision c);
          sp = (if precision c \<noteq> -1 then pad - pr else if flag_zero c then 0 else pad)
      in kbind (DST_MEMSET 32 sp (c\<lparr>precision := pr\<rparr>)) (\<lambda>c.
           let c = (if flag_hex_prefix c then DST_APPEND_C 120 (DST_APPEND_C 48 c) else c)
           in kbind (DST_MEMSET 48 (pad - sp) c) (\<lambda>c.
                Inr (nibbles_loop (nat (rightmost_nibble + 1)) c))))"

definition print_fn_number_16 :: "printf_ctx \<Rightarrow> printf_ctx kres" where
  "print_fn_number_16 c =
     (case fsize c of
        FMT_SIZE_LLONG \<Rightarrow> number_16_digits (clz 64 (unat (arg c))) 64 c
      | FMT_SIZE_LONG \<Rightarrow> number_16_digits (clz 64 (unat (arg c))) 64 c
      | FMT_SIZE_NO \<Rightarrow> number_16_digits (clz 32 (unat (ucast (arg c) :: u32))) 32 c
      | _ \<Rightarrow> number_16_digits 0 0 (DST_APPEND_S [60, 62] c))"

definition print_fn_string :: "(u64 \<Rightarrow> u8 list) \<Rightarrow> printf_ctx \<Rightarrow> printf_ctx" where
  "print_fn_string strs c =
     (let src = strs (arg c)
      in c\<lparr>out := out c @ take (cap c - length (out c)) src, dst_virt := dst_virt c + int (length src)\<rparr>)"

definition print_fn_char :: "printf_ctx \<Rightarrow> printf_ctx" where
  "print_fn_char c =
     (let ch = (ucast (arg c) :: u8); ch = (if \<not> isprint ch then 46 else ch)
      in if length (out c) < cap c then c\<lparr>out := out c @ [ch]\<rparr> else c)"

definition print_fn_address :: "printf_ctx \<Rightarrow> printf_ctx kres" where
  "print_fn_address c = print_fn_number_16 (c\<lparr>flag_hex_prefix := True\<rparr>)"

text \<open>The table \<^verbatim>\<open>__printf_fn_map\<close>; the other letters up to \<^verbatim>\<open>x\<close> print nothing.\<close>

definition fmt_print_type :: "(u64 \<Rightarrow> u8 list) \<Rightarrow> printf_ctx \<Rightarrow> printf_ctx kres" where
  "fmt_print_type strs c =
     (let gentype = ftype c OR 0x20
      in if gentype = 99 then Inr (print_fn_char c)
         else if gentype = 100 \<or> gentype = 105 then print_fn_number_10_d c
         else if gentype = 112 then print_fn_address c
         else if gentype = 115 then Inr (print_fn_string strs c)
         else if gentype = 117 then print_fn_number_10_u c
         else if gentype = 120 then print_fn_number_16 c
         else Inr c)"

section \<open>Parsing the format\<close>

definition rd :: "u8 list \<Rightarrow> nat \<Rightarrow> u8" where
  "rd fmt i = (if i < length fmt then fmt ! i else 0)"

function mem_find_any_byte_of_2 :: "u8 list \<Rightarrow> nat \<Rightarrow> nat \<Rightarrow> nat" where
  "mem_find_any_byte_of_2 fmt p e =
     (if p < e \<and> \<not> (rd fmt p = 0 \<or> rd fmt p = 37) then mem_find_any_byte_of_2 fmt (p + 1) e else p)"
  by auto
termination by (relation "measure (\<lambda>(_, p, e). e - p)") auto

declare mem_find_any_byte_of_2.simps [simp del]

lemma mem_find_ge: "p \<le> mem_find_any_byte_of_2 fmt p e"
proof (induction fmt p e rule: mem_find_any_byte_of_2.induct)
  case (1 fmt p e)
  then show ?case by (auto simp: mem_find_any_byte_of_2.simps [of fmt p e])
qed

function find_special_or_null :: "u8 list \<Rightarrow> nat \<Rightarrow> nat \<Rightarrow> nat" where
  "find_special_or_null fmt p e =
     (let p = mem_find_any_byte_of_2 fmt p e
      in if rd fmt p \<noteq> 0 \<and> rd fmt (p + 1) \<noteq> 37 then p
         else if rd fmt p = 0 then p
         else find_special_or_null fmt (p + 1) e)"
  by auto
termination
proof (relation "measure (\<lambda>(fmt, p, _). length fmt - p)", goal_cases)
  case (2 fmt p e q)
  then have "q < length fmt" by (auto simp: rd_def split: if_splits)
  moreover have "p \<le> q" using 2 mem_find_ge by simp
  ultimately show ?case by simp
qed simp

declare find_special_or_null.simps [simp del]

definition fmt_skip_to_special :: "u8 list \<Rightarrow> printf_ctx \<Rightarrow> u8 \<times> printf_ctx" where
  "fmt_skip_to_special fmt c =
     (let pos = find_special_or_null fmt (fpos c) (fpos c + 512);
          c = DST_MEMCPY (map (rd fmt) [fpos c ..< pos]) c;
          c = c\<lparr>fpos := pos\<rparr>
      in if rd fmt (fpos c) = 37 then (rd fmt (pos + 1), c\<lparr>fpos := pos + 1\<rparr>) else (rd fmt pos, c))"

text \<open>\<^verbatim>\<open>fmt_handle_flag\<close> for one of the four flags: whatever the flag's letter, the macro tests
  for \<^verbatim>\<open>'0'\<close>.\<close>

definition fmt_handle_flag :: "u8 list \<Rightarrow> nat \<Rightarrow> bool \<times> nat" where
  "fmt_handle_flag fmt p = (if rd fmt p = 48 then (True, p + 1) else (False, p))"

function fmt_digits :: "u8 list \<Rightarrow> nat \<Rightarrow> int \<Rightarrow> int \<times> nat" where
  "fmt_digits fmt p v =
     (if 48 \<le> rd fmt p \<and> rd fmt p \<le> 57 then fmt_digits fmt (p + 1) (v * 10 + (uint (rd fmt p) - 48)) else (v, p))"
  by auto
termination
proof (relation "measure (\<lambda>(fmt, p, _). length fmt - p)", goal_cases)
  case (2 fmt p v)
  then have "p < length fmt" by (auto simp: rd_def split: if_splits)
  then show ?case by simp
qed simp

declare fmt_digits.simps [simp del]

definition fmt_handle_star_or_digit :: "u8 list \<Rightarrow> nat \<Rightarrow> u64 list \<Rightarrow> (int \<times> nat \<times> u64 list) kres" where
  "fmt_handle_star_or_digit fmt p args =
     (if rd fmt p = 42
      then case args of [] \<Rightarrow> Inl ''missing argument''
           | a # args \<Rightarrow> Inr (sint (ucast a :: u32), p + 1, args)
      else if 48 \<le> rd fmt p \<and> rd fmt p \<le> 57
      then let (v, p) = fmt_digits fmt p 0 in Inr (v, p, args)
      else Inr (-1, p, args))"

definition fmt_handle_size :: "u8 list \<Rightarrow> nat \<Rightarrow> fmt_size \<times> nat" where
  "fmt_handle_size fmt p =
     (let special = rd fmt p;
          (sz, p) = (if special = 99 then (FMT_SIZE_LONG, p)
                     else if special = 108 then (FMT_SIZE_LONG, p + 1)
                     else if special = 104 then (FMT_SIZE_HALF, p + 1)
                     else if special = 106 then (FMT_SIZE_INTMAX, p + 1)
                     else if special = 122 then (FMT_SIZE_SIZE_T, p + 1)
                     else if special = 116 then (FMT_SIZE_PTRDIFF, p + 1)
                     else if special = 76 then (FMT_SIZE_INT64, p + 1)
                     else (FMT_SIZE_NO, p));
          special = rd fmt p
      in if sz = FMT_SIZE_LONG \<and> special = 108 then (FMT_SIZE_LLONG, p + 1)
         else if sz = FMT_SIZE_HALF \<and> special = 104 then (FMT_SIZE_HHALF, p + 1)
         else if special = 112 \<or> special = 115 then (FMT_SIZE_LLONG, p)
         else (sz, p))"

definition arg_fetch :: "fmt_size \<Rightarrow> u64 \<Rightarrow> u64" where
  "arg_fetch sz a =
     (if sz \<in> {FMT_SIZE_SIZE_T, FMT_SIZE_LONG, FMT_SIZE_LLONG} then a else scast (ucast a :: u32))"

definition fmt_parse_token :: "u8 list \<Rightarrow> printf_ctx \<Rightarrow> u64 list \<Rightarrow> (bool \<times> printf_ctx \<times> u64 list) kres" where
  "fmt_parse_token fmt c args =
     (let (special, c) = fmt_skip_to_special fmt c
      in if special = 0 then Inr (True, c, args)
         else let (z, p) = fmt_handle_flag fmt (fpos c);
                  (l, p) = fmt_handle_flag fmt p;
                  (pl, p) = fmt_handle_flag fmt p;
                  (sp, p) = fmt_handle_flag fmt p
              in kbind (fmt_handle_star_or_digit fmt p args) (\<lambda>(w, p, args).
                 kbind (fmt_handle_star_or_digit fmt p args) (\<lambda>(pr, p, args).
                   let (sz, p) = fmt_handle_size fmt p
                   in if args = [] then Inl ''missing argument''
                      else Inr (False, c\<lparr>flag_zero := z, flag_left_align := l, flag_plus := pl, flag_space := sp,
                               width := w, precision := pr, fsize := sz, arg := arg_fetch sz (hd args),
                               ftype := rd fmt p, fpos := p + 1\<rparr>, tl args))))"

lemma find_special_ge: "p \<le> find_special_or_null fmt p e"
proof (induction fmt p e rule: find_special_or_null.induct)
  case (1 fmt p e)
  then show ?case using mem_find_ge [of p fmt e]
    by (fastforce simp: find_special_or_null.simps [of fmt p e] Let_def)
qed

lemma fmt_digits_ge: "fmt_digits fmt p v = (w, q) \<Longrightarrow> p \<le> q"
proof (induction fmt p v rule: fmt_digits.induct)
  case (1 fmt p v)
  then show ?case by (fastforce simp: fmt_digits.simps [of fmt p v] split: if_splits)
qed

lemma fmt_handle_ge:
  "fmt_handle_flag fmt p = (b, q) \<Longrightarrow> p \<le> q"
  "fmt_handle_star_or_digit fmt p args = Inr (w, q, args') \<Longrightarrow> p \<le> q"
  "p \<le> snd (fmt_handle_size fmt p)"
  by (auto simp: fmt_handle_flag_def fmt_handle_star_or_digit_def fmt_handle_size_def Let_def
      split: if_splits list.splits prod.splits dest: fmt_digits_ge)

lemma fmt_skip_ge: "fmt_skip_to_special fmt c = (special, c') \<Longrightarrow> fpos c \<le> fpos c'"
  using find_special_ge [of "fpos c" fmt "fpos c + 512"]
  by (auto simp: fmt_skip_to_special_def Let_def DST_MEMCPY_def split: if_splits)

text \<open>Every token that does not end the format moves forward in it.\<close>

lemma fmt_parse_token_progress:
  assumes "fmt_parse_token fmt c args = Inr (False, c', args')"
  shows "fpos c < fpos c'"
proof -
  obtain special c1 where s: "fmt_skip_to_special fmt c = (special, c1)" by fastforce
  obtain z p1 where p1: "fmt_handle_flag fmt (fpos c1) = (z, p1)" by fastforce
  obtain l p2 where p2: "fmt_handle_flag fmt p1 = (l, p2)" by fastforce
  obtain pl p3 where p3: "fmt_handle_flag fmt p2 = (pl, p3)" by fastforce
  obtain sp p4 where p4: "fmt_handle_flag fmt p3 = (sp, p4)" by fastforce
  obtain w p5 args1 pr p6 args2 where "fmt_handle_star_or_digit fmt p4 args = Inr (w, p5, args1)"
    "fmt_handle_star_or_digit fmt p5 args1 = Inr (pr, p6, args2)" "fpos c' = snd (fmt_handle_size fmt p6) + 1"
    using assms s p1 p2 p3 p4
    by (auto simp: fmt_parse_token_def kbind_eq_Inr case_prod_beta split: if_split_asm)
  then show ?thesis
    using fmt_handle_ge(3) [of p6 fmt] fmt_skip_ge [OF s] fmt_handle_ge(1) [OF p1] fmt_handle_ge(1) [OF p2] fmt_handle_ge(1) [OF p3]
      fmt_handle_ge(1) [OF p4] by (fastforce dest: fmt_handle_ge(2))
qed

text \<open>Printing a conversion leaves the position in the format and the capacity alone.\<close>

definition keeps :: "printf_ctx \<Rightarrow> printf_ctx \<Rightarrow> bool" where
  "keeps c c' \<longleftrightarrow> fpos c' = fpos c \<and> cap c' = cap c \<and> (length (out c) \<le> cap c \<longrightarrow> length (out c') \<le> cap c)"

named_theorems keeps_intros

lemma keeps_refl [keeps_intros]: "keeps c c"
  by (simp add: keeps_def)

lemma keeps_trans: "keeps a b \<Longrightarrow> keeps b c \<Longrightarrow> keeps a c"
  by (auto simp: keeps_def)

lemma keeps_upd [simp]:
  "keeps c (c'\<lparr>arg := a\<rparr>) = keeps c c'" "keeps c (c'\<lparr>precision := i\<rparr>) = keeps c c'"
  "keeps (c\<lparr>arg := a\<rparr>) c' = keeps c c'" "keeps (c\<lparr>precision := i\<rparr>) c' = keeps c c'"
  "keeps (c\<lparr>flag_hex_prefix := b\<rparr>) c' = keeps c c'"
  by (simp_all add: keeps_def)

lemma keeps_append_c [keeps_intros]: "keeps c (DST_APPEND_C ch c)"
  by (simp add: keeps_def DST_APPEND_C_def)

lemma keeps_append_s [keeps_intros]: "keeps c (DST_APPEND_S s c)"
  unfolding DST_APPEND_S_def
  by (induction s arbitrary: c) (auto intro: keeps_intros keeps_trans [OF keeps_append_c])

lemma keeps_memset: "DST_MEMSET v n c = Inr c' \<Longrightarrow> keeps c c'"
  by (auto simp: DST_MEMSET_def keeps_def Let_def split: if_splits)

lemma keeps_number_10_loop: "keeps c (number_10_loop d c)"
proof (induction d c rule: number_10_loop.induct)
  case (1 d c)
  show ?case
  proof (cases "d = 0")
    case True
    then show ?thesis by (simp add: number_10_loop.simps [of 0 c] keeps_refl)
  next
    case False
    from 1 [OF False refl refl] show ?thesis
      using False keeps_trans [OF keeps_append_c]
      by (simp add: number_10_loop.simps [of d c] Let_def)
  qed
qed

lemma keeps_nibbles: "keeps c (nibbles_loop k c)"
  by (induction k arbitrary: c) (auto intro: keeps_intros keeps_trans [OF keeps_append_c])

lemma keeps_number_10_div: "print_fn_number_10_div wl c = Inr c' \<Longrightarrow> keeps c c'"
  by (auto simp: print_fn_number_10_div_def keeps_number_10_loop split: if_splits)

lemma keeps_number_10:
  assumes "print_fn_number_10 s c = Inr c'"
  shows "keeps c c'"
proof -
  obtain c1 where c1: "keeps c c1" and r: "(let s = s\<lparr>padding := padding s - space_padding s\<rparr>;
           (c, wl) = (if is_neg_sign s then (DST_APPEND_C 45 c1, wordlen s - 1)
                      else if flag_plus c1 then (DST_APPEND_C 43 c1, wordlen s - 1)
                      else if flag_space c1 then (DST_APPEND_C 32 c1, wordlen s - 1)
                      else (c1, wordlen s))
       in kbind (DST_MEMSET 48 (padding s) c) (print_fn_number_10_div wl)) = Inr c'"
    using assms unfolding print_fn_number_10_def by (elim kbindE) (blast dest: keeps_memset)
  let ?sc = "if is_neg_sign s then Some 45 else if flag_plus c1 then Some 43 else if flag_space c1 then Some 32 else None"
  let ?c2 = "case ?sc of None \<Rightarrow> c1 | Some ch \<Rightarrow> DST_APPEND_C ch c1"
  have "keeps c1 ?c2" by (simp add: keeps_append_c keeps_refl)
  moreover have "kbind (DST_MEMSET 48 (padding s - space_padding s) ?c2)
      (print_fn_number_10_div (if ?sc = None then wordlen s else wordlen s - 1)) = Inr c'"
    using r by (simp add: Let_def split: if_split_asm)
  ultimately show ?thesis by (auto simp: kbind_eq_Inr dest!: keeps_memset keeps_number_10_div
        intro: keeps_trans [OF c1] keeps_trans)
qed

lemma keeps_number_16_digits:
  assumes "number_16_digits lz mb c = Inr c'"
  shows "keeps c c'"
proof -
  obtain sp z pr k where e: "kbind (DST_MEMSET 32 sp (c\<lparr>precision := pr\<rparr>)) (\<lambda>c.
      let c = (if flag_hex_prefix c then DST_APPEND_C 120 (DST_APPEND_C 48 c) else c)
      in kbind (DST_MEMSET 48 z c) (\<lambda>c. Inr (nibbles_loop k c))) = Inr c'"
    using assms unfolding number_16_digits_def Let_def by blast
  from e obtain c1 where c1: "keeps c c1" "(let c = (if flag_hex_prefix c1 then DST_APPEND_C 120 (DST_APPEND_C 48 c1) else c1)
      in kbind (DST_MEMSET 48 z c) (\<lambda>c. Inr (nibbles_loop k c))) = Inr c'"
    by (elim kbindE) (auto dest: keeps_memset)
  define c2 where "c2 = (if flag_hex_prefix c1 then DST_APPEND_C 120 (DST_APPEND_C 48 c1) else c1)"
  have "keeps c1 c2" by (auto simp: c2_def intro: keeps_refl keeps_trans [OF keeps_append_c] keeps_append_c)
  moreover obtain c3 where "keeps c2 c3" "c' = nibbles_loop k c3"
    using c1(2) by (auto simp: kbind_eq_Inr Let_def dest: keeps_memset simp flip: c2_def)
  ultimately show ?thesis using c1(1) keeps_nibbles by (blast intro: keeps_trans)
qed

lemma keeps_number_16: "print_fn_number_16 c = Inr c' \<Longrightarrow> keeps c c'"
  by (auto simp: print_fn_number_16_def split: fmt_size.splits
      dest!: keeps_number_16_digits intro: keeps_trans [OF keeps_append_s])

lemma keeps_print_type: "fmt_print_type strs c = Inr c' \<Longrightarrow> keeps c c'"
proof -
  have "keeps c (print_fn_char c)" "keeps c (print_fn_string strs c)"
    by (auto simp: keeps_def print_fn_char_def print_fn_string_def Let_def)
  moreover have "print_fn_number_10_d c = Inr c' \<Longrightarrow> keeps c c'" "print_fn_number_10_u c = Inr c' \<Longrightarrow> keeps c c'"
    "print_fn_address c = Inr c' \<Longrightarrow> keeps c c'"
    by (auto simp: print_fn_number_10_d_def print_fn_number_10_u_def print_fn_address_def Let_def
        split: if_splits dest!: keeps_number_10 keeps_number_16)
  ultimately show "fmt_print_type strs c = Inr c' \<Longrightarrow> keeps c c'"
    by (auto simp: fmt_print_type_def Let_def keeps_refl split: if_splits dest: keeps_number_16)
qed

section \<open>The formatter\<close>

text \<open>The test \<^verbatim>\<open>*c->fmt\<close> reads behind the zero of the format when a conversion was cut short.\<close>

function vsnprintf_loop :: "u8 list \<Rightarrow> (u64 \<Rightarrow> u8 list) \<Rightarrow> printf_ctx \<Rightarrow> u64 list \<Rightarrow> printf_ctx kres" where
  "vsnprintf_loop fmt strs c args =
     (if fpos c > length fmt then Inl ''read behind the format''
      else if rd fmt (fpos c) = 0 then Inr c
      else case fmt_parse_token fmt c args of
             Inl e \<Rightarrow> Inl e
           | Inr (stop, c, args) \<Rightarrow>
             if stop then Inr c
             else case fmt_print_type strs c of Inl e \<Rightarrow> Inl e | Inr c \<Rightarrow> vsnprintf_loop fmt strs c args)"
  by auto
termination
proof (relation "measure (\<lambda>(fmt, _, c, _). Suc (length fmt) - fpos c)", goal_cases)
  case (2 fmt strs c args r stop cx c1 args1 c2)
  then have "fpos c < fpos c1" by (auto dest: fmt_parse_token_progress)
  moreover have "fpos c2 = fpos c1" using 2 keeps_print_type [of strs c1 c2] by (simp add: keeps_def)
  ultimately show ?case using 2 by simp
qed simp

declare vsnprintf_loop.simps [simp del]

definition zero_ctx :: "nat \<Rightarrow> printf_ctx" where
  "zero_ctx dst_len = \<lparr>fpos = 0, out = [], cap = dst_len, dst_virt = 0, flag_plus = False, flag_space = False,
     flag_zero = False, flag_left_align = False, flag_hex_prefix = False, width = 0, precision = 0,
     fsize = FMT_SIZE_NO, ftype = 0, arg = 0\<rparr>"

text \<open>The returned number and the bytes written to the destination.\<close>

definition vsnprintf :: "nat \<Rightarrow> u8 list \<Rightarrow> (u64 \<Rightarrow> u8 list) \<Rightarrow> u64 list \<Rightarrow> (int \<times> u8 list) kres" where
  "vsnprintf dst_len fmt strs args =
     kbind (vsnprintf_loop fmt strs (zero_ctx dst_len) args) (\<lambda>c.
       let buf = (if dst_len = 0 then out c
                  else if length (out c) = cap c then (out c)[cap c - 1 := 0]
                  else out c @ [0])
       in Inr (dst_virt c, buf))"

section \<open>Bounds\<close>

lemma skip_bounded:
  assumes "fmt_skip_to_special fmt c = (special, c')"
  shows "cap c' = cap c" "length (out c) \<le> cap c \<Longrightarrow> length (out c') \<le> cap c"
  using assms by (auto simp: fmt_skip_to_special_def DST_MEMCPY_def Let_def split: if_splits)

lemma parse_bounded:
  assumes "fmt_parse_token fmt c args = Inr (stop, c', args')"
  shows "cap c' = cap c" "length (out c) \<le> cap c \<Longrightarrow> length (out c') \<le> cap c"
proof -
  obtain special c1 where s: "fmt_skip_to_special fmt c = (special, c1)" by fastforce
  have "cap c' = cap c1 \<and> out c' = out c1"
    using assms s by (auto simp: fmt_parse_token_def kbind_eq_Inr case_prod_beta split: if_split_asm)
  then show "cap c' = cap c" "length (out c) \<le> cap c \<Longrightarrow> length (out c') \<le> cap c"
    using skip_bounded [OF s] by auto
qed

lemma vsnprintf_loop_bounded:
  "vsnprintf_loop fmt strs c args = Inr c' \<Longrightarrow> length (out c) \<le> cap c \<Longrightarrow>
    cap c' = cap c \<and> length (out c') \<le> cap c"
proof (induction fmt strs c args rule: vsnprintf_loop.induct)
  case (1 fmt strs c args)
  show ?case
  proof (cases "fpos c > length fmt \<or> rd fmt (fpos c) = 0")
    case True
    then show ?thesis using 1(2,3) by (auto simp: vsnprintf_loop.simps [of fmt strs c args] split: if_splits)
  next
    case False
    with 1(2) obtain stop c1 args1 where t: "fmt_parse_token fmt c args = Inr (stop, c1, args1)"
      by (auto simp: vsnprintf_loop.simps [of fmt strs c args] split: sum.splits)
    note b = parse_bounded [OF t]
    show ?thesis
    proof (cases stop)
      case True
      then show ?thesis using False t b 1(2,3) by (auto simp: vsnprintf_loop.simps [of fmt strs c args])
    next
      case go: False
      with False t 1(2) obtain c2 where c2: "fmt_print_type strs c1 = Inr c2" "vsnprintf_loop fmt strs c2 args1 = Inr c'"
        by (auto simp: vsnprintf_loop.simps [of fmt strs c args] split: sum.splits)
      have k: "cap c2 = cap c" "length (out c2) \<le> cap c2"
        using keeps_print_type [OF c2(1)] b 1(3) by (auto simp: keeps_def)
      from 1(1) [OF _ _ t refl refl go c2(1) c2(2) k(2)] False k(1) show ?thesis by simp
    qed
  qed
qed

section \<open>Decimal conversion\<close>

lemma unat_pow10:
  assumes "k \<le> 19"
  shows "unat ((10 :: u64) ^ k) = 10 ^ k"
proof -
  have "(10 :: nat) ^ k \<le> 10 ^ 19" using assms by (intro power_increasing) auto
  then have "(10 :: nat) ^ k < 2 ^ 64" by simp
  moreover have "(10 :: u64) ^ k = of_nat (10 ^ k)" by simp
  ultimately show ?thesis by (simp only: unat_of_nat) (simp add: take_bit_eq_mod)
qed

lemma base10_loop_spec:
  assumes "unat val < 10 ^ 19" "1 \<le> k" "k + n = 65" "k \<le> 19" "k = 1 \<or> 10 ^ (k - 1) \<le> unat val"
  shows "\<exists>w. base10_loop n val (10 ^ k) k = w \<and> 1 \<le> w \<and> w \<le> 19 \<and> unat val < 10 ^ w \<and> (w = 1 \<or> 10 ^ (w - 1) \<le> unat val)"
  using assms
proof (induction n arbitrary: k)
  case 0
  then show ?case by simp
next
  case (Suc n)
  note p = unat_pow10 [OF Suc.prems(4)]
  have d: "val div 10 ^ k \<noteq> 0 \<longleftrightarrow> 10 ^ k \<le> unat val"
    by (simp add: word_unat_eq_iff unat_div p div_eq_0_iff not_less)
  show ?case
  proof (cases "10 ^ k \<le> unat val")
    case True
    then have "k < 19"
    proof -
      have "(10 :: nat) ^ k < 10 ^ 19" using True Suc.prems(1) by linarith
      then show ?thesis by (rule power_less_imp_less_exp [rotated]) simp
    qed
    then show ?thesis using Suc.IH [of "k + 1"] Suc.prems True d by (simp add: mult.commute)
  next
    case False
    then show ?thesis using Suc.prems d by simp
  qed
qed

lemma closest_round_spec:
  assumes "unat val < 10 ^ 19"
  obtains w where "closest_round_base10_div val = w" "1 \<le> w" "w \<le> 19" "unat val < 10 ^ w"
    "w = 1 \<or> 10 ^ (w - 1) \<le> unat val"
  using base10_loop_spec [OF assms, of 1 64] by (auto simp: closest_round_base10_div_def)

text \<open>The \<open>k\<close> decimal digits of a number, most significant first.\<close>

fun dec_digits :: "nat \<Rightarrow> nat \<Rightarrow> u8 list" where
  "dec_digits 0 a = []"
| "dec_digits (Suc k) a = of_nat (48 + a div 10 ^ k) # dec_digits k (a mod 10 ^ k)"

lemma length_dec_digits [simp]: "length (dec_digits k a) = k"
  by (induction k arbitrary: a) simp_all

lemma dec_value_Cons: "dec_value (c # cs) = unat (c - 48) * 10 ^ length cs + dec_value cs"
  by (induction cs rule: rev_induct) (simp_all flip: append_Cons add: dec_value_def [of "[c]"])

lemma div_pow_digit: "a < 10 ^ Suc k \<Longrightarrow> a div 10 ^ k < (10 :: nat)"
  by (simp add: less_mult_imp_div_less mult.commute)

lemma digit_char:
  assumes "d < 10"
  shows "unat (of_nat (48 + d) :: u8) = 48 + d" "digit10 (of_nat (48 + d))" "unat (of_nat (48 + d) - 48 :: u8) = d"
proof -
  show u: "unat (of_nat (48 + d) :: u8) = 48 + d"
    using assms by (simp only: unat_of_nat) (simp add: take_bit_eq_mod)
  then show d: "digit10 (of_nat (48 + d))" using assms by (simp add: digit10_unat)
  show "unat (of_nat (48 + d) - 48 :: u8) = d" using digit_sub(1) [OF d] u by simp
qed

lemma dec_digits_spec:
  "a < 10 ^ k \<Longrightarrow> dec_value (dec_digits k a) = a \<and> (\<forall>c \<in> set (dec_digits k a). digit10 c)"
proof (induction k arbitrary: a)
  case (Suc k)
  have "dec_value (dec_digits k (a mod 10 ^ k)) = a mod 10 ^ k \<and>
      (\<forall>c \<in> set (dec_digits k (a mod 10 ^ k)). digit10 c)"
    by (rule Suc.IH) simp
  then show ?case using digit_char [OF div_pow_digit [OF Suc.prems]] div_mult_mod_eq [of a "10 ^ k"]
    by (simp add: dec_value_Cons)
qed simp

lemma DIV_LLD_digit:
  assumes "unat a < 2 ^ 63" "k \<le> 18" "unat a < 10 ^ Suc k"
  shows "DIV_LLD a (10 ^ k) = int (unat a div 10 ^ k)"
proof -
  have pk: "(10 :: nat) ^ k \<le> 10 ^ 18" using assms(2) by (intro power_increasing) auto
  note s = sint_u64_small
  have "unat ((10 :: u64) ^ k) = 10 ^ k" using assms(2) by (intro unat_pow10) simp
  moreover from this pk have "unat ((10 :: u64) ^ k) < 2 ^ 63" by simp
  ultimately have "sint a sdiv sint ((10 :: u64) ^ k) = int (unat a div 10 ^ k)"
    using s [OF assms(1)] s [of "10 ^ k"] by (cases "a = 0") (simp_all add: signed_divide_int_def zdiv_int)
  moreover have "sint (of_int (int d) :: u32) = int d" if "d < 10" for d
    using that by (simp only: int_word_sint) simp
  ultimately show ?thesis
    using div_pow_digit [OF assms(3)] by (simp only: DIV_LLD_def)
qed

text \<open>The digit loop writes the digits when there is room for them.\<close>

lemma append_c_room: "length (out c) < cap c \<Longrightarrow> out (DST_APPEND_C ch c) = out c @ [ch]"
  "dst_virt (DST_APPEND_C ch c) = dst_virt c + 1" "cap (DST_APPEND_C ch c) = cap c"
  "fpos (DST_APPEND_C ch c) = fpos c" "arg (DST_APPEND_C ch c) = arg c" "ftype (DST_APPEND_C ch c) = ftype c"
  "flag_hex_prefix (DST_APPEND_C ch c) = flag_hex_prefix c"
  by (simp_all add: DST_APPEND_C_def)

lemma number_10_loop_digits:
  assumes "k \<le> 18" "unat (arg c) < 10 ^ Suc k" "unat (arg c) < 2 ^ 63" "length (out c) + Suc k \<le> cap c"
  shows "out (number_10_loop (10 ^ k) c) = out c @ dec_digits (Suc k) (unat (arg c)) \<and>
    dst_virt (number_10_loop (10 ^ k) c) = dst_virt c + int (Suc k) \<and> fpos (number_10_loop (10 ^ k) c) = fpos c"
  using assms
proof (induction k arbitrary: c)
  case 0
  have dl: "DIV_LLD (arg c) 1 = int (unat (arg c))" using DIV_LLD_digit [of "arg c" 0] 0 by simp
  have "to_char_8_10 (int d) 10 = of_nat (48 + d)" if "d < 10" for d
    using that by (simp add: to_char_8_10_def)
  then have ch: "to_char_8_10 (DIV_LLD (arg c) 1) 10 = of_nat (48 + unat (arg c))"
    unfolding dl using 0(2) by (simp only: power_Suc power_0 mult_1_right)
  then show ?case
    using 0 by (simp add: number_10_loop.simps [of 1 c] number_10_loop.simps [of 0] Let_def append_c_room)
next
  case (Suc k)
  have p: "unat ((10 :: u64) ^ Suc k) = 10 ^ Suc k" "unat ((10 :: u64) ^ k) = 10 ^ k"
    using Suc.prems(1) unat_pow10 [of "Suc k"] unat_pow10 [of k] by simp_all
  then have nz: "(10 :: u64) ^ Suc k \<noteq> 0" by (metis power_not_zero unat_0 zero_neq_numeral)
  have dv: "(10 :: u64) ^ Suc k div 10 = 10 ^ k"
    unfolding word_unat_eq_iff unat_div p by simp
  let ?d = "unat (arg c) div 10 ^ Suc k"
  have d10: "?d < 10" by (rule div_pow_digit [OF Suc.prems(2)])
  have ch: "to_char_8_10 (DIV_LLD (arg c) (10 ^ Suc k)) 10 = of_nat (48 + ?d)"
    using DIV_LLD_digit [of "arg c" "Suc k"] Suc.prems(1-3) d10 by (simp add: to_char_8_10_def)
  let ?c = "(DST_APPEND_C (of_nat (48 + ?d)) c)\<lparr>arg := arg c mod 10 ^ Suc k\<rparr>"
  have ua: "unat (arg ?c) = unat (arg c) mod 10 ^ Suc k" by (simp add: unat_mod p del: power_Suc)
  moreover have "unat (arg c) mod 10 ^ Suc k < 2 ^ 63"
    by (rule order_le_less_trans [OF mod_less_eq_dividend Suc.prems(3)])
  moreover have "unat (arg c) mod 10 ^ Suc k < 10 ^ Suc k" by simp
  ultimately have "out (number_10_loop (10 ^ k) ?c) = out ?c @ dec_digits (Suc k) (unat (arg ?c)) \<and>
      dst_virt (number_10_loop (10 ^ k) ?c) = dst_virt ?c + int (Suc k) \<and> fpos (number_10_loop (10 ^ k) ?c) = fpos ?c"
    using Suc.prems by (intro Suc.IH) (simp_all add: append_c_room del: power_Suc)
  moreover have "number_10_loop (10 ^ Suc k) c = number_10_loop (10 ^ k) ?c"
    using nz by (simp add: number_10_loop.simps [of "10 ^ Suc k"] ch dv Let_def append_c_room del: power_Suc)
  ultimately show ?case
    using Suc.prems(4) ua by (simp add: append_c_room del: power_Suc)
qed

text \<open>A decimal number without leading zeros.\<close>

definition decimal_of :: "nat \<Rightarrow> u8 list \<Rightarrow> bool" where
  "decimal_of n ds \<longleftrightarrow> ds \<noteq> [] \<and> (\<forall>c \<in> set ds. digit10 c) \<and> dec_value ds = n \<and> (length ds > 1 \<longrightarrow> hd ds \<noteq> 48)"

lemma decimal_of_dec_digits:
  assumes "1 \<le> w" "n < 10 ^ w" "w = 1 \<or> 10 ^ (w - 1) \<le> n"
  shows "decimal_of n (dec_digits w n)"
proof -
  obtain k where w: "w = Suc k" using assms(1) by (cases w) auto
  have d: "n div 10 ^ k < 10" using div_pow_digit assms(2) by (simp only: w)
  have "hd (dec_digits w n) \<noteq> 48" if "k \<noteq> 0"
  proof
    assume "hd (dec_digits w n) = 48"
    then have "unat (of_nat (48 + n div 10 ^ k) :: u8) = unat (48 :: u8)" by (simp only: w dec_digits.simps list.sel)
    then have "n div 10 ^ k = 0" using digit_char(1) [OF d] by simp
    moreover have "10 ^ k \<le> n" using assms(3) that by (simp add: w)
    ultimately show False by (simp add: div_eq_0_iff)
  qed
  then show ?thesis using dec_digits_spec [OF assms(2)] by (auto simp: decimal_of_def w)
qed

lemma memset_none [simp]: "DST_MEMSET v 0 c = Inr c"
  by (simp add: DST_MEMSET_def)

lemma number_10_plain:
  assumes plain: "width c = -1" "precision c = -1" "\<not> flag_plus c" "\<not> flag_space c"
    and a: "unat (arg c) < 2 ^ 63" and room: "length (out c) + 20 \<le> cap c"
  shows "\<exists>ds c'. print_fn_number_10 (print_fn_prep_spec c (zero_spec\<lparr>is_neg_sign := neg\<rparr>)) c = Inr c' \<and>
    decimal_of (unat (arg c)) ds \<and> length ds \<le> 19 \<and> out c' = out c @ (if neg then [45] else []) @ ds \<and>
    dst_virt c' = dst_virt c + (if neg then 1 else 0) + int (length ds) \<and> fpos c' = fpos c"
proof -
  have "unat (arg c) < 10 ^ 19" using a by simp
  then obtain w where w: "closest_round_base10_div (arg c) = w" "1 \<le> w" "w \<le> 19" "unat (arg c) < 10 ^ w"
    "w = 1 \<or> 10 ^ (w - 1) \<le> unat (arg c)" by (rule closest_round_spec)
  obtain k where k: "w = Suc k" using w(2) by (cases w) auto
  define s where "s = print_fn_prep_spec c (zero_spec\<lparr>is_neg_sign := neg\<rparr>)"
  have s: "space_padding s = 0" "padding s = 0" "is_neg_sign s = neg" "wordlen s = (if neg then w + 1 else w)"
    using plain w(1) by (simp_all add: s_def print_fn_prep_spec_def zero_spec_def Let_def)
  define c1 where "c1 = (if neg then DST_APPEND_C 45 c else c)"
  have c1: "arg c1 = arg c" "out c1 = out c @ (if neg then [45] else [])" "cap c1 = cap c"
    "dst_virt c1 = dst_virt c + (if neg then 1 else 0)" "fpos c1 = fpos c"
    using room by (simp_all add: c1_def append_c_room)
  have tab: "decimal_table ! (w - 1) = 10 ^ k" "length decimal_table = 20"
    using w(3) k by (simp_all add: decimal_table_def)
  have "print_fn_number_10 s c = Inr (number_10_loop (10 ^ k) c1)"
    using s plain w(2,3) k tab by (simp add: print_fn_number_10_def print_fn_number_10_div_def c1_def Let_def)
  moreover have "out (number_10_loop (10 ^ k) c1) = out c1 @ dec_digits (Suc k) (unat (arg c1)) \<and>
    dst_virt (number_10_loop (10 ^ k) c1) = dst_virt c1 + int (Suc k) \<and> fpos (number_10_loop (10 ^ k) c1) = fpos c1"
    using w(3,4) a room k c1 by (intro number_10_loop_digits) (auto simp del: power_Suc)
  moreover have "decimal_of (unat (arg c)) (dec_digits w (unat (arg c)))"
    by (rule decimal_of_dec_digits [OF w(2,4,5)])
  ultimately show ?thesis
    using c1 k w(3) unfolding s_def [symmetric] by (intro exI [of _ "dec_digits w (unat (arg c))"]) simp
qed

lemma sign_bit:
  fixes a :: "'a :: len word"
  shows "a AND push_bit (LENGTH('a) - 1) 1 \<noteq> 0 \<longleftrightarrow> sint a < 0"
  using bit_iff_and_push_bit_not_eq_0 [of a "LENGTH('a) - 1"] bit_last_iff [of a] by simp

lemma number_10_d_64:
  assumes plain: "width c = -1" "precision c = -1" "\<not> flag_plus c" "\<not> flag_space c"
    and sz: "fsize c = FMT_SIZE_LLONG" and a: "arg c \<noteq> push_bit 63 1" and room: "length (out c) + 20 \<le> cap c"
  shows "\<exists>ds c'. print_fn_number_10_d c = Inr c' \<and> decimal_of (nat \<bar>sint (arg c)\<bar>) ds \<and> length ds \<le> 19 \<and>
    out c' = out c @ (if sint (arg c) < 0 then [45] else []) @ ds \<and>
    dst_virt c' = dst_virt c + (if sint (arg c) < 0 then 1 else 0) + int (length ds) \<and> fpos c' = fpos c"
proof -
  define neg where "neg = (sint (arg c) < 0)"
  have "(0xffffffffffffffff :: u64) = - 1" by simp
  then have m: "x AND 0xffffffffffffffff = x" for x :: u64 by (simp only: bit.conj_one_right)
  have nb: "arg c AND push_bit 63 1 \<noteq> 0 \<longleftrightarrow> neg" using sign_bit [of "arg c"] by (simp add: neg_def)
  let ?c = "c\<lparr>arg := (if neg then - arg c else arg c)\<rparr>"
  have u: "int (unat (arg ?c)) = \<bar>sint (arg c)\<bar>" using unat_magnitude [of "arg c"] by (simp add: neg_def)
  have "sint (arg c) \<noteq> - (2 ^ 63)"
  proof
    assume "sint (arg c) = - (2 ^ 63)"
    moreover have "arg c = of_int (sint (arg c))" by simp
    ultimately have "arg c = of_int (- (2 ^ 63))" by (simp only:)
    then show False using a by simp
  qed
  then have "\<bar>sint (arg c)\<bar> < 2 ^ 63" using sint_ge [of "arg c"] sint_lt [of "arg c"] by (simp add: abs_less_iff)
  then have "int (unat (arg ?c)) < int (2 ^ 63)" unfolding u by simp
  then have lt: "unat (arg ?c) < 2 ^ 63" by (simp only: of_nat_less_iff)
  have eq: "print_fn_number_10_d c = print_fn_number_10 (print_fn_prep_spec ?c (zero_spec\<lparr>is_neg_sign := neg\<rparr>)) ?c"
    unfolding print_fn_number_10_d_def Let_def sz using nb m
    by (cases neg) (simp_all add: minus_eq_not_plus_1)
  have n: "nat \<bar>sint (arg c)\<bar> = unat (arg ?c)" using u by linarith
  show ?thesis
    using number_10_plain [of ?c neg] plain lt room unfolding eq n neg_def [symmetric] by simp
qed

lemma unat_ucast_u64: "unat (ucast (y :: u32) :: u64) = unat y"
proof -
  have "unat y < 2 ^ LENGTH(32)" by (rule unsigned_less)
  then show ?thesis by (simp add: unsigned_ucast_eq take_bit_nat_eq_self)
qed

lemma number_10_d_32:
  fixes c defines "x \<equiv> (ucast (arg c) :: u32)"
  assumes plain: "width c = -1" "precision c = -1" "\<not> flag_plus c" "\<not> flag_space c"
    and sz: "fsize c = FMT_SIZE_NO" and room: "length (out c) + 20 \<le> cap c"
  shows "\<exists>ds c'. print_fn_number_10_d c = Inr c' \<and> decimal_of (nat \<bar>sint x\<bar>) ds \<and> length ds \<le> 19 \<and>
    out c' = out c @ (if sint x < 0 then [45] else []) @ ds \<and>
    dst_virt c' = dst_virt c + (if sint x < 0 then 1 else 0) + int (length ds) \<and> fpos c' = fpos c"
proof -
  define neg where "neg = (sint x < 0)"
  have mask: "y AND 0xffffffff = take_bit 32 y" for y :: u64
    by (simp add: take_bit_eq_mask mask_eq_exp_minus_1)
  have lo: "arg c AND 0xffffffff = ucast x"
    unfolding mask x_def by (rule bit_eqI) (auto simp: bit_simps)
  have "(ucast x :: u64) AND push_bit 31 1 \<noteq> 0 \<longleftrightarrow> x AND push_bit 31 1 \<noteq> 0"
    using bit_iff_and_push_bit_not_eq_0 [of "ucast x :: u64" 31] bit_iff_and_push_bit_not_eq_0 [of x 31]
    by (simp add: bit_simps)
  then have nb: "(ucast x :: u64) AND push_bit 31 1 \<noteq> 0 \<longleftrightarrow> neg" using sign_bit [of x] by (simp add: neg_def)
  have "take_bit 32 (- (ucast x :: u64)) = ucast (- x)"
  proof -
    have "uint x < 2 ^ 32" using uint_lt2p [of x] by simp
    then have "take_bit 64 (uint x) = uint x" by (intro take_bit_int_eq_self) simp_all
    then have "uint (take_bit 32 (- (ucast x :: u64))) = uint (ucast (- x) :: u64)"
      by (simp add: unsigned_take_bit_eq uint_word_arith_bintrs take_bit_take_bit unsigned_ucast_eq)
    then show ?thesis by (simp only: word_uint_eq_iff)
  qed
  then have ng: "(NOT (ucast x :: u64) + 1) AND 0xffffffff = ucast (- x)"
    by (simp only: mask minus_eq_not_plus_1)
  let ?c = "c\<lparr>arg := ucast (if neg then - x else x)\<rparr>"
  have ac: "arg ?c = ucast (if neg then - x else x)" by simp
  have u: "int (unat (arg ?c)) = \<bar>sint x\<bar>"
    unfolding ac unat_ucast_u64 unfolding neg_def by (rule unat_magnitude)
  have "\<bar>sint x\<bar> < 2 ^ 63" using sint_ge [of x] sint_lt [of x] by (simp add: abs_less_iff)
  then have "int (unat (arg ?c)) < int (2 ^ 63)" unfolding u by simp
  then have lt: "unat (arg ?c) < 2 ^ 63" by (simp only: of_nat_less_iff)
  have eq: "print_fn_number_10_d c = print_fn_number_10 (print_fn_prep_spec ?c (zero_spec\<lparr>is_neg_sign := neg\<rparr>)) ?c"
    unfolding print_fn_number_10_d_def Let_def sz using nb lo ng by (cases neg) simp_all
  have n: "nat \<bar>sint x\<bar> = unat (arg ?c)" using u by linarith
  show ?thesis
    using number_10_plain [of ?c neg] plain lt room unfolding eq n neg_def [symmetric] by simp
qed

section \<open>Hexadecimal conversion\<close>

text \<open>The low \<open>k\<close> hexadecimal digits of a number, in lower case.\<close>

fun hex_digits :: "nat \<Rightarrow> nat \<Rightarrow> u8 list" where
  "hex_digits 0 a = []"
| "hex_digits (Suc k) a = to_char_16 (a div 16 ^ k mod 16) False # hex_digits k a"

lemma length_hex_digits [simp]: "length (hex_digits k a) = k"
  by (induction k) simp_all

lemma nibble: "unat (drop_bit (k * 4) (w :: u64) AND 0xf) = unat w div 16 ^ k mod 16"
proof -
  have "drop_bit (k * 4) w AND 0xf = take_bit 4 (drop_bit (k * 4) w)"
    by (simp add: take_bit_eq_mask mask_eq_exp_minus_1)
  moreover have "unat (take_bit 4 (drop_bit (k * 4) w)) = unat w div 2 ^ (k * 4) mod 2 ^ 4"
    by (simp only: unsigned_take_bit_eq unat_drop_bit_eq) (simp only: drop_bit_eq_div take_bit_eq_mod)
  ultimately show ?thesis by (simp add: power_mult mult.commute [of k 4])
qed

lemma nibbles_loop_digits:
  assumes "length (out c) + k \<le> cap c" "\<not> ftype c < 97"
  shows "out (nibbles_loop k c) = out c @ hex_digits k (unat (arg c)) \<and>
    dst_virt (nibbles_loop k c) = dst_virt c + int k \<and> fpos (nibbles_loop k c) = fpos c"
  using assms
proof (induction k arbitrary: c)
  case (Suc k)
  then show ?case by (simp add: append_c_room nibble)
qed simp

lemma hex_char:
  assumes "d < 16"
  shows "digit16 (to_char_16 d False)" "hex_digit (to_char_16 d False) = d"
proof -
  have "unat (to_char_16 d False) = (if d < 10 then 48 + d else 87 + d)"
    using assms by (simp add: to_char_16_def unat_of_nat take_bit_eq_mod del: of_nat_add)
  then show "digit16 (to_char_16 d False)" "hex_digit (to_char_16 d False) = d"
    using assms by (auto simp: digit16_unat hex_digit_def word_le_nat_alt)
qed

lemma hex_value_Cons: "hex_value (c # cs) = hex_digit c * 16 ^ length cs + hex_value cs"
  by (induction cs rule: rev_induct) (simp_all flip: append_Cons add: hex_value_def [of "[c]"])

lemma hex_digits_spec:
  "hex_value (hex_digits k a) = a mod 16 ^ k \<and> (\<forall>c \<in> set (hex_digits k a). digit16 c)"
proof (induction k)
  case (Suc k)
  have "a mod 16 ^ Suc k = 16 ^ k * (a div 16 ^ k mod 16) + a mod 16 ^ k"
    by (simp add: mult.commute [of 16] mod_mult2_eq)
  then show ?case using Suc.IH hex_char [of "a div 16 ^ k mod 16"] by (simp add: hex_value_Cons mult.commute)
qed (simp add: hex_value_def)

lemma bit_length_bound: "n < 2 ^ bit_length n"
proof (induction n rule: bit_length.induct)
  case (1 n)
  then show ?case by (cases "n = 0") (auto simp: bit_length.simps [of n])
qed

lemma bit_length_le: "n < 2 ^ k \<Longrightarrow> bit_length n \<le> k"
proof (induction n arbitrary: k rule: bit_length.induct)
  case (1 n)
  show ?case
  proof (cases "n = 0")
    case True
    then show ?thesis by (simp add: bit_length.simps)
  next
    case False
    then obtain j where "k = Suc j" using 1(2) by (cases k) auto
    then show ?thesis using 1(1) [OF False, of j] 1(2) False by (simp add: bit_length.simps [of n])
  qed
qed

lemma number_16_plain:
  assumes plain: "width c = -1" "precision c = -1" "flag_hex_prefix c" "\<not> ftype c < 97"
    and room: "length (out c) + 18 \<le> cap c"
  shows "\<exists>ds c'. number_16_digits (clz 64 (unat (arg c))) 64 c = Inr c' \<and> length ds \<le> 16 \<and> ds \<noteq> [] \<and>
    hex_value ds = unat (arg c) \<and> (\<forall>d \<in> set ds. digit16 d) \<and> out c' = out c @ [48, 120] @ ds \<and>
    dst_virt c' = dst_virt c + 2 + int (length ds) \<and> fpos c' = fpos c"
proof -
  let ?a = "unat (arg c)"
  let ?b = "bit_length ?a"
  have "?a < 2 ^ LENGTH(64)" by (rule unsigned_less)
  then have b64: "?b \<le> 64" using bit_length_le [of ?a 64] by simp
  define k where "k = nat ((int 64 - int (clz 64 ?a) - 1) sdiv 4 + 1)"
  have rn: "(int 64 - int (clz 64 ?a) - 1) sdiv 4 = (if ?b = 0 then 0 else (int ?b - 1) div 4)"
    using b64 by (simp add: clz_def signed_divide_int_def sgn_if)
  then have k: "k = (if ?b = 0 then 1 else (?b - 1) div 4 + 1)"
    unfolding k_def by (cases "?b") (simp_all add: nat_add_distrib zdiv_int [symmetric] flip: of_nat_Suc)
  have "?b \<le> 4 * k" "1 \<le> k" "k \<le> 16" using b64 by (auto simp: k)
  have "(2 :: nat) ^ ?b \<le> 2 ^ (4 * k)" using \<open>?b \<le> 4 * k\<close> by (intro power_increasing) auto
  then have "?a < 16 ^ k" using bit_length_bound [of ?a] by (simp add: power_mult)
  define c1 where "c1 = DST_APPEND_C 120 (DST_APPEND_C 48 (c\<lparr>precision := -1\<rparr>))"
  have c1: "out c1 = out c @ [48, 120]" "cap c1 = cap c" "arg c1 = arg c" "ftype c1 = ftype c"
    "dst_virt c1 = dst_virt c + 2" "fpos c1 = fpos c"
    using room by (simp_all add: c1_def append_c_room)
  have "number_16_digits (clz 64 ?a) 64 c = Inr (nibbles_loop k c1)"
    using plain rn by (simp add: number_16_digits_def Let_def c1_def k_def)
  moreover have "out (nibbles_loop k c1) = out c1 @ hex_digits k (unat (arg c1)) \<and>
      dst_virt (nibbles_loop k c1) = dst_virt c1 + int k \<and> fpos (nibbles_loop k c1) = fpos c1"
    using room plain(4) \<open>k \<le> 16\<close> c1 by (intro nibbles_loop_digits) auto
  ultimately show ?thesis
    using c1 hex_digits_spec [of k ?a] \<open>?a < 16 ^ k\<close> \<open>1 \<le> k\<close> \<open>k \<le> 16\<close>
    by (intro exI [of _ "hex_digits k ?a"]) (auto simp: length_0_conv [symmetric] simp del: length_0_conv)
qed

section \<open>Whole formats\<close>

lemma zero_ctx_simps [simp]:
  "fpos (zero_ctx n) = 0" "out (zero_ctx n) = []" "cap (zero_ctx n) = n" "dst_virt (zero_ctx n) = 0"
  "\<not> flag_plus (zero_ctx n)" "\<not> flag_space (zero_ctx n)" "\<not> flag_hex_prefix (zero_ctx n)"
  by (simp_all add: zero_ctx_def)

lemma vsnprintf_single:
  assumes "fmt \<noteq> []" "hd fmt \<noteq> 0" "fmt_parse_token fmt (zero_ctx n) [a] = Inr (False, c, [])"
    "fmt_print_type strs c = Inr c'" "fpos c' = length fmt" "length (out c') < n"  "cap c' = n"
  shows "vsnprintf n fmt strs [a] = Inr (dst_virt c', out c' @ [0])"
proof -
  have 0: "rd fmt 0 \<noteq> 0" using assms(1,2) by (cases fmt) (auto simp: rd_def)
  have "vsnprintf_loop fmt strs c' [] = Inr c'"
    using assms(5) by (simp add: vsnprintf_loop.simps [of fmt strs c' "[]"] rd_def)
  then have "vsnprintf_loop fmt strs (zero_ctx n) [a] = Inr c'"
    using 0 assms(3,4) by (simp add: vsnprintf_loop.simps [of fmt strs "zero_ctx n"])
  then show ?thesis using assms(6,7) by (simp add: vsnprintf_def Let_def)
qed

definition parsed :: "nat \<Rightarrow> nat \<Rightarrow> fmt_size \<Rightarrow> u8 \<Rightarrow> u64 \<Rightarrow> printf_ctx" where
  "parsed n pos sz t a = (zero_ctx n)\<lparr>fpos := pos, width := -1, precision := -1, fsize := sz, ftype := t, arg := a\<rparr>"

lemma skip_at_percent:
  assumes "rd fmt 0 = 37" "rd fmt 1 \<noteq> 37"
  shows "fmt_skip_to_special fmt (zero_ctx n) = (rd fmt 1, (zero_ctx n)\<lparr>fpos := 1\<rparr>)"
proof -
  have "mem_find_any_byte_of_2 fmt 0 512 = 0" using assms by (simp add: mem_find_any_byte_of_2.simps)
  then have "find_special_or_null fmt 0 512 = 0"
    using assms by (simp add: find_special_or_null.simps [of fmt 0] Let_def)
  then show ?thesis using assms by (simp add: fmt_skip_to_special_def DST_MEMCPY_def Let_def)
qed

lemma parse_p: "fmt_parse_token [37, 112] (zero_ctx n) [a] = Inr (False, parsed n 2 FMT_SIZE_LLONG 112 a, [])"
  and parse_d: "fmt_parse_token [37, 100] (zero_ctx n) [a] =
    Inr (False, parsed n 2 FMT_SIZE_NO 100 (scast (ucast a :: u32)), [])"
  and parse_lld: "fmt_parse_token [37, 108, 108, 100] (zero_ctx n) [a] =
    Inr (False, parsed n 4 FMT_SIZE_LLONG 100 a, [])"
  by (simp_all add: fmt_parse_token_def skip_at_percent rd_def fmt_handle_flag_def fmt_handle_star_or_digit_def
      fmt_handle_size_def arg_fetch_def parsed_def Let_def) (simp_all add: zero_ctx_def)

lemma parsed_simps [simp]:
  "out (parsed n q sz t a) = []" "cap (parsed n q sz t a) = n" "dst_virt (parsed n q sz t a) = 0"
  "fpos (parsed n q sz t a) = q" "width (parsed n q sz t a) = -1" "precision (parsed n q sz t a) = -1"
  "\<not> flag_plus (parsed n q sz t a)" "\<not> flag_space (parsed n q sz t a)" "fsize (parsed n q sz t a) = sz"
  "ftype (parsed n q sz t a) = t" "arg (parsed n q sz t a) = a"
  by (simp_all add: parsed_def)

lemma vsnprintf_lld:
  assumes "a \<noteq> push_bit 63 1" "21 \<le> n"
  shows "\<exists>ds. vsnprintf n [37, 108, 108, 100] strs [a] =
      Inr ((if sint a < 0 then 1 else 0) + int (length ds), (if sint a < 0 then [45] else []) @ ds @ [0]) \<and>
    decimal_of (nat \<bar>sint a\<bar>) ds"
proof -
  let ?c = "parsed n 4 FMT_SIZE_LLONG 100 a"
  obtain ds c' where c': "print_fn_number_10_d ?c = Inr c'" "decimal_of (nat \<bar>sint a\<bar>) ds" "length ds \<le> 19"
    "out c' = (if sint a < 0 then [45] else []) @ ds"
    "dst_virt c' = (if sint a < 0 then 1 else 0) + int (length ds)" "fpos c' = 4"
    using number_10_d_64 [of ?c] assms by auto
  have "fmt_print_type strs ?c = Inr c'" using c'(1) by (simp add: fmt_print_type_def)
  then show ?thesis
    using vsnprintf_single [OF _ _ parse_lld, where strs = strs and c' = c'] c' assms(2) keeps_print_type [of strs ?c c']
    by (auto simp: keeps_def)
qed

section \<open>Properties\<close>



text \<open>C34 (functional). \<^verbatim>\<open>"%d"\<close> prints every \<^verbatim>\<open>int\<close>, the smallest one included: a minus sign
  exactly for negative values, then the decimal digits of the magnitude without leading zeros, then the
  zero byte; the return value is the length of the text.\<close>

theorem vsnprintf_int_decimal:
  assumes "21 \<le> dst_len"
  shows "\<exists>ds. vsnprintf dst_len [37, 100] strs [a] =
      Inr (int (length ((if sint (ucast a :: u32) < 0 then [45] else []) @ ds)),
           (if sint (ucast a :: u32) < 0 then [45] else []) @ ds @ [0]) \<and>
    decimal_of (nat \<bar>sint (ucast a :: u32)\<bar>) ds"
proof -
  let ?x = "ucast a :: u32"
  let ?c = "parsed dst_len 2 FMT_SIZE_NO 100 (scast ?x)"
  have x: "(ucast (scast ?x :: u64) :: u32) = ?x" by (rule bit_eqI) (auto simp: bit_simps)
  obtain ds c' where c': "print_fn_number_10_d ?c = Inr c'" "decimal_of (nat \<bar>sint ?x\<bar>) ds" "length ds \<le> 19"
    "out c' = (if sint ?x < 0 then [45] else []) @ ds"
    "dst_virt c' = (if sint ?x < 0 then 1 else 0) + int (length ds)" "fpos c' = 2"
    using number_10_d_32 [of ?c] assms x by auto
  have "fmt_print_type strs ?c = Inr c'" using c'(1) by (simp add: fmt_print_type_def)
  then show ?thesis
    using vsnprintf_single [OF _ _ parse_d, where strs = strs and c' = c'] c' assms keeps_print_type [of strs ?c c']
    by (auto simp: keeps_def)
qed

theorem vsnprintf_int_decimal_witness:
  "\<exists>ds. vsnprintf 32 [37, 100] (\<lambda>_. []) [0xffffffff] = Inr (int (length ([45] @ ds)), [45] @ ds @ [0]) \<and> decimal_of 1 ds"
proof -
  have "sint (ucast (0xffffffff :: u64) :: u32) = -1" by simp
  with vsnprintf_int_decimal [of 32 "\<lambda>_. []" "0xffffffff"] show ?thesis by auto
qed

text \<open>C28 (roundtrip). What \<^verbatim>\<open>"%lld"\<close> prints, \<^verbatim>\<open>strtoll\<close> with base ten reads back: for every
  64-bit value except the most negative one, parsing the printed text yields the value and stops at the
  terminating zero.\<close>

theorem lld_strtoll_roundtrip:
  assumes "a \<noteq> push_bit 63 1" "21 \<le> dst_len"
  shows "\<exists>r buf. vsnprintf dst_len [37, 108, 108, 100] strs [a] = Inr (r, buf) \<and> r = int (length buf) - 1 \<and>
    (\<forall>m p. bytes_at m p buf \<longrightarrow> strtoll m p 10 = Some (Inr (a, p + length buf - 1)))"
proof -
  obtain ds where v: "vsnprintf dst_len [37, 108, 108, 100] strs [a] =
      Inr ((if sint a < 0 then 1 else 0) + int (length ds), (if sint a < 0 then [45] else []) @ ds @ [0])"
    and d: "decimal_of (nat \<bar>sint a\<bar>) ds" using vsnprintf_lld [OF assms] by blast
  have "(of_nat (nat \<bar>sint a\<bar>) :: u64) = of_int \<bar>sint a\<bar>" by (simp add: word_of_nat_eq_iff)
  then have val: "(if sint a < 0 then - of_nat (nat \<bar>sint a\<bar>) else of_nat (nat \<bar>sint a\<bar>)) = a" by simp
  have "strtoll m p 10 = Some (Inr (a, p + length ((if sint a < 0 then [45] else []) @ ds @ [0]) - 1))"
    if "bytes_at m p ((if sint a < 0 then [45] else []) @ ds @ [0])" for m p
    using strtoll_dec [of m p "[]" "sint a < 0" ds 0] that d val
    by (auto simp: decimal_of_def split: if_splits)
  then show ?thesis using v by auto
qed

theorem lld_strtoll_roundtrip_witness:
  "\<exists>r buf. vsnprintf 32 [37, 108, 108, 100] (\<lambda>_. []) [- 5] = Inr (r, buf) \<and>
    (\<forall>m p. bytes_at m p buf \<longrightarrow> strtoll m p 10 = Some (Inr (- 5, p + length buf - 1)))"
  using lld_strtoll_roundtrip [of "- 5" 32 "\<lambda>_. []"] by auto

text \<open>What \<^verbatim>\<open>"%p"\<close> prints, \<^verbatim>\<open>strtoll\<close> with base 16 (or base 0, which
  detects the prefix) reads back: every 64-bit address comes back unchanged.\<close>

theorem pointer_strtoll_roundtrip:
  assumes "19 \<le> dst_len" "basis = 0 \<or> basis = 16"
  shows "\<exists>r buf. vsnprintf dst_len [37, 112] strs [a] = Inr (r, buf) \<and> r = int (length buf) - 1 \<and>
    (\<forall>m p. bytes_at m p buf \<longrightarrow> strtoll m p basis = Some (Inr (a, p + length buf - 1)))"
proof -
  let ?c = "parsed dst_len 2 FMT_SIZE_LLONG 112 a"
  obtain ds c' where c': "number_16_digits (clz 64 (unat a)) 64 (?c\<lparr>flag_hex_prefix := True\<rparr>) = Inr c'"
    "length ds \<le> 16" "hex_value ds = unat a" "\<forall>d \<in> set ds. digit16 d" "out c' = [48, 120] @ ds"
    "dst_virt c' = 2 + int (length ds)" "fpos c' = 2"
    using number_16_plain [of "?c\<lparr>flag_hex_prefix := True\<rparr>"] assms by auto
  have "fmt_print_type strs ?c = Inr c'"
    using c'(1) by (simp add: fmt_print_type_def print_fn_address_def print_fn_number_16_def)
  then have v: "vsnprintf dst_len [37, 112] strs [a] = Inr (2 + int (length ds), [48, 120] @ ds @ [0])"
    using vsnprintf_single [OF _ _ parse_p, where strs = strs and c' = c'] c' assms keeps_print_type [of strs ?c c']
    by (auto simp: keeps_def)
  have "strtoll m p basis = Some (Inr (a, p + length ([48, 120] @ ds @ [0]) - 1))"
    if "bytes_at m p ([48, 120] @ ds @ [0])" for m p
    using strtoll_hex [of m p ds 0 basis] that c'(3,4) assms(2) by auto
  then show ?thesis using v by auto
qed

theorem pointer_strtoll_roundtrip_witness:
  "\<exists>r buf. vsnprintf 32 [37, 112] (\<lambda>_. []) [0xdeadbeef] = Inr (r, buf) \<and>
    (\<forall>m p. bytes_at m p buf \<longrightarrow> strtoll m p 16 = Some (Inr (0xdeadbeef, p + length buf - 1)))"
  using pointer_strtoll_roundtrip [of 32 16 "\<lambda>_. []" "0xdeadbeef"] by auto

end
