(* ===== verification/Mmio.thy ===== *)
theory Mmio
  imports Prelude
begin

text \<open>
  Memory-mapped registers (\<^verbatim>\<open>src/include/reg_access.h\<close>) and the bit fields in them (\<^verbatim>\<open>src/include/bits_api.h\<close>).
  A device is hardware: what it answers to a read and how it reacts to a write is a parameter of the drivers, a
  record of two functions on a state of any type.
\<close>

section \<open>Registers\<close>

record 'd mmio =
  mm_read :: "ptr \<Rightarrow> 'd \<Rightarrow> u32 \<times> 'd"
  mm_write :: "ptr \<Rightarrow> u32 \<Rightarrow> 'd \<Rightarrow> 'd"

definition read_reg :: "'d mmio \<Rightarrow> ptr \<Rightarrow> 'd \<Rightarrow> u32 \<times> 'd" where
  "read_reg io a d = mm_read io a d"

definition write_reg :: "'d mmio \<Rightarrow> ptr \<Rightarrow> u32 \<Rightarrow> 'd \<Rightarrow> 'd" where
  "write_reg io a v d = mm_write io a v d"

text \<open>A read, a change of the value, and a write back.\<close>

definition modify_reg :: "'d mmio \<Rightarrow> ptr \<Rightarrow> (u32 \<Rightarrow> u32) \<Rightarrow> 'd \<Rightarrow> 'd" where
  "modify_reg io a f d = (let (v, d) = read_reg io a d in write_reg io a (f v) d)"

text \<open>Hardware that only stores what is written to it, with a log of the writes.\<close>

record reg_file =
  rf_val :: "ptr \<Rightarrow> u32"
  rf_log :: "(ptr \<times> u32) list"

definition plain_regs :: "reg_file mmio" where
  "plain_regs = \<lparr>mm_read = (\<lambda>a d. (rf_val d a, d)),
     mm_write = (\<lambda>a v d. d\<lparr>rf_val := (rf_val d)(a := v), rf_log := rf_log d @ [(a, v)]\<rparr>)\<rparr>"

lemma plain_regs_simps [simp]:
  "read_reg plain_regs a d = (rf_val d a, d)"
  "write_reg plain_regs a v d = d\<lparr>rf_val := (rf_val d)(a := v), rf_log := rf_log d @ [(a, v)]\<rparr>"
  "modify_reg plain_regs a f d = d\<lparr>rf_val := (rf_val d)(a := f (rf_val d a)), rf_log := rf_log d @ [(a, f (rf_val d a))]\<rparr>"
  by (simp_all add: read_reg_def write_reg_def modify_reg_def plain_regs_def)

section \<open>Bits and bit fields\<close>

definition BT :: "nat \<Rightarrow> u32" where "BT p = push_bit p 1"

definition BIT_IS_SET :: "u32 \<Rightarrow> nat \<Rightarrow> bool" where "BIT_IS_SET v p \<longleftrightarrow> v AND BT p \<noteq> 0"

definition BIT_CLEAR_U32 :: "nat \<Rightarrow> u32 \<Rightarrow> u32" where "BIT_CLEAR_U32 p v = v AND NOT (BT p)"

definition BIT_SET_U32 :: "nat \<Rightarrow> u32 \<Rightarrow> u32" where "BIT_SET_U32 p v = v OR BT p"

definition BF_MASK_32 :: "nat \<Rightarrow> u32" where "BF_MASK_32 w = ucast (push_bit w (1 :: u64) - 1)"

definition BF_EXTRACT :: "u32 \<Rightarrow> nat \<Rightarrow> nat \<Rightarrow> u32" where
  "BF_EXTRACT v p w = drop_bit p v AND BF_MASK_32 w"

definition BF_CLEAR :: "nat \<Rightarrow> nat \<Rightarrow> u32 \<Rightarrow> u32" where
  "BF_CLEAR p w v = v AND NOT (push_bit p (BF_MASK_32 w))"

definition BITS_PLACE_32 :: "u32 \<Rightarrow> nat \<Rightarrow> nat \<Rightarrow> u32" where
  "BITS_PLACE_32 x p w = push_bit p (x AND BF_MASK_32 w)"

definition BF_CLEAR_AND_SET :: "nat \<Rightarrow> nat \<Rightarrow> u32 \<Rightarrow> u32 \<Rightarrow> u32" where
  "BF_CLEAR_AND_SET p w x v = BF_CLEAR p w v OR BITS_PLACE_32 x p w"

lemma bit_BT: "i < 32 \<Longrightarrow> bit (BT p) i \<longleftrightarrow> i = p"
  unfolding BT_def bit_push_bit_iff by (auto simp: bit_1_iff)

lemma BF_MASK_32_eq: "w \<le> 32 \<Longrightarrow> BF_MASK_32 w = Bit_Operations.mask w"
  by (rule bit_word_eqI)
    (auto simp: BF_MASK_32_def mask_eq_exp_minus_1 [symmetric] push_bit_of_1 bit_ucast_iff bit_mask_iff
      simp flip: mask_eq_exp_minus_1)

lemma bit_BF_EXTRACT: "w \<le> 32 \<Longrightarrow> bit (BF_EXTRACT v p w) i \<longleftrightarrow> i < w \<and> bit v (p + i)"
  by (auto simp: BF_EXTRACT_def BF_MASK_32_eq bit_and_iff bit_drop_bit_eq bit_mask_iff dest: bit_imp_le_length)

lemma bit_BF_CLEAR_AND_SET:
  "w \<le> 32 \<Longrightarrow> i < 32 \<Longrightarrow> bit (BF_CLEAR_AND_SET p w x v) i \<longleftrightarrow> (if p \<le> i \<and> i < p + w then bit x (i - p) else bit v i)"
  by (auto simp: BF_CLEAR_AND_SET_def BF_CLEAR_def BITS_PLACE_32_def BF_MASK_32_eq bit_or_iff bit_and_iff bit_not_iff
      bit_push_bit_iff bit_mask_iff)

text \<open>A field reads back what was written to it, cut to its width, and the other fields stay.\<close>

lemma BF_EXTRACT_same:
  assumes "p + w \<le> 32"
  shows "BF_EXTRACT (BF_CLEAR_AND_SET p w x v) p w = take_bit w x"
proof (rule bit_word_eqI)
  fix i
  assume "i < LENGTH(32)"
  then show "bit (BF_EXTRACT (BF_CLEAR_AND_SET p w x v) p w) i \<longleftrightarrow> bit (take_bit w x) i"
    using assms by (cases "i < w") (simp_all add: bit_BF_EXTRACT bit_BF_CLEAR_AND_SET bit_take_bit_iff)
qed

lemma BF_EXTRACT_other:
  assumes "p + w \<le> 32" "p' + w' \<le> 32" "p' + w' \<le> p \<or> p + w \<le> p'"
  shows "BF_EXTRACT (BF_CLEAR_AND_SET p w x v) p' w' = BF_EXTRACT v p' w'"
proof (rule bit_word_eqI)
  fix i
  assume "i < LENGTH(32)"
  then show "bit (BF_EXTRACT (BF_CLEAR_AND_SET p w x v) p' w') i \<longleftrightarrow> bit (BF_EXTRACT v p' w') i"
    using assms by (cases "i < w'") (auto simp: bit_BF_EXTRACT bit_BF_CLEAR_AND_SET)
qed

lemma BF_EXTRACT_zero: "w \<le> 32 \<Longrightarrow> BF_EXTRACT 0 p w = 0"
  by (simp add: BF_EXTRACT_def)

lemmas bit_field_simps = BF_EXTRACT_same BF_EXTRACT_other BF_EXTRACT_zero

text \<open>Fields of one bit.\<close>

lemma bit_BF_CLEAR: "w \<le> 32 \<Longrightarrow> i < 32 \<Longrightarrow> bit (BF_CLEAR p w v) i \<longleftrightarrow> bit v i \<and> \<not> (p \<le> i \<and> i < p + w)"
  by (auto simp: BF_CLEAR_def BF_MASK_32_eq bit_and_iff bit_not_iff bit_push_bit_iff bit_mask_iff)

lemma BF_EXTRACT_1_bit: "BF_EXTRACT v p 1 \<noteq> 0 \<longleftrightarrow> bit v p"
proof -
  have "bit (BF_EXTRACT v p 1) i \<longleftrightarrow> i = 0 \<and> bit v p" for i by (auto simp: bit_BF_EXTRACT)
  then show ?thesis by (metis bit_0_eq bot_apply bot_bool_def bit_eqI)
qed

lemma one_bit_fields:
  "i < 32 \<Longrightarrow> bit (BF_CLEAR p (Suc 0) v) i \<longleftrightarrow> bit v i \<and> i \<noteq> p"
  "i < 32 \<Longrightarrow> bit (BF_CLEAR_AND_SET p (Suc 0) x v) i \<longleftrightarrow> (if i = p then bit x 0 else bit v i)"
  "BF_EXTRACT v p (Suc 0) = (if bit v p then 1 else 0)"
  using bit_BF_CLEAR [of 1 i p v] bit_BF_CLEAR_AND_SET [of 1 i p x v] BF_EXTRACT_1_bit [of v p]
  by (auto simp: le_less_Suc_eq bit_BF_EXTRACT bit_1_iff intro!: bit_word_eqI)

lemma BF_CLEAR_eq: "BF_CLEAR p w v = BF_CLEAR_AND_SET p w 0 v"
  by (simp add: BF_CLEAR_AND_SET_def BITS_PLACE_32_def)

text \<open>A number that fits a field reads back as it was written.\<close>

lemma field_int: "0 \<le> i \<Longrightarrow> i < 2 ^ w \<Longrightarrow> w \<le> 32 \<Longrightarrow> uint (take_bit w (word_of_int i :: u32)) = i"
proof -
  assume i: "0 \<le> i" "i < 2 ^ w" "w \<le> 32"
  have "(2 :: int) ^ w \<le> 2 ^ 32" using i(3) by (intro power_increasing) simp_all
  then have "i < 2 ^ 32" using i(2) by linarith
  then have "uint (word_of_int i :: u32) = i" using i(1) by (simp add: uint_word_of_int)
  then show ?thesis using i take_bit_int_eq_self [of i w] by (simp add: unsigned_take_bit_eq)
qed

end
