(* ===== verification/Emmc_regs.thy ===== *)
theory Emmc_regs
  imports Mmio
begin

text \<open>
  Registers of the SD card controller (\<^verbatim>\<open>src/board/bcm2835/emmc/emmc_regs.h\<close>, \<^verbatim>\<open>emmc_regs_bits.h\<close>) that the
  driver uses, and the table of commands (\<^verbatim>\<open>emmc_cmd.c\<close>).
\<close>

section \<open>Addresses\<close>

definition EMMC_BASE :: ptr where "EMMC_BASE = 0x3f300000"

definition EMMC_BLKSIZECNT :: ptr where "EMMC_BLKSIZECNT = EMMC_BASE + 0x0004"
definition EMMC_ARG1 :: ptr where "EMMC_ARG1 = EMMC_BASE + 0x0008"
definition EMMC_CMDTM :: ptr where "EMMC_CMDTM = EMMC_BASE + 0x000c"
definition EMMC_RESP0 :: ptr where "EMMC_RESP0 = EMMC_BASE + 0x0010"
definition EMMC_RESP1 :: ptr where "EMMC_RESP1 = EMMC_BASE + 0x0014"
definition EMMC_RESP2 :: ptr where "EMMC_RESP2 = EMMC_BASE + 0x0018"
definition EMMC_RESP3 :: ptr where "EMMC_RESP3 = EMMC_BASE + 0x001c"
definition EMMC_DATA :: ptr where "EMMC_DATA = EMMC_BASE + 0x0020"
definition EMMC_STATUS :: ptr where "EMMC_STATUS = EMMC_BASE + 0x0024"
definition EMMC_CONTROL0 :: ptr where "EMMC_CONTROL0 = EMMC_BASE + 0x0028"
definition EMMC_CONTROL1 :: ptr where "EMMC_CONTROL1 = EMMC_BASE + 0x002c"
definition EMMC_INTERRUPT :: ptr where "EMMC_INTERRUPT = EMMC_BASE + 0x0030"
definition EMMC_IRPT_MASK :: ptr where "EMMC_IRPT_MASK = EMMC_BASE + 0x0034"
definition EMMC_IRPT_EN :: ptr where "EMMC_IRPT_EN = EMMC_BASE + 0x0038"
definition EMMC_CONTROL2 :: ptr where "EMMC_CONTROL2 = EMMC_BASE + 0x003c"

lemmas emmc_addresses =
  EMMC_BASE_def EMMC_BLKSIZECNT_def EMMC_ARG1_def EMMC_CMDTM_def EMMC_RESP0_def EMMC_RESP1_def EMMC_RESP2_def
  EMMC_RESP3_def EMMC_DATA_def EMMC_STATUS_def EMMC_CONTROL0_def EMMC_CONTROL1_def EMMC_INTERRUPT_def
  EMMC_IRPT_MASK_def EMMC_IRPT_EN_def EMMC_CONTROL2_def

section \<open>Fields\<close>

definition BF_MASK_AT_32 :: "nat \<Rightarrow> nat \<Rightarrow> u32" where "BF_MASK_AT_32 p w = push_bit p (BF_MASK_32 w)"

definition EMMC_BLKSIZECNT_CLR_SET_BLKCNT :: "u32 \<Rightarrow> u32 \<Rightarrow> u32" where "EMMC_BLKSIZECNT_CLR_SET_BLKCNT x v = BF_CLEAR_AND_SET 16 16 x v"
definition EMMC_BLKSIZECNT_CLR_SET_BLKSIZE :: "u32 \<Rightarrow> u32 \<Rightarrow> u32" where "EMMC_BLKSIZECNT_CLR_SET_BLKSIZE x v = BF_CLEAR_AND_SET 0 10 x v"
definition EMMC_CARD_STATUS_GET_CURRENT_STATE :: "u32 \<Rightarrow> u32" where "EMMC_CARD_STATUS_GET_CURRENT_STATE v = BF_EXTRACT v 9 4"
definition EMMC_CMDTM_GET_CMD_ISDATA :: "u32 \<Rightarrow> u32" where "EMMC_CMDTM_GET_CMD_ISDATA v = BF_EXTRACT v 21 1"
definition EMMC_CMDTM_GET_CMD_RSPNS_TYPE :: "u32 \<Rightarrow> u32" where "EMMC_CMDTM_GET_CMD_RSPNS_TYPE v = BF_EXTRACT v 16 2"
definition EMMC_CMDTM_GET_TM_DAT_DIR :: "u32 \<Rightarrow> u32" where "EMMC_CMDTM_GET_TM_DAT_DIR v = BF_EXTRACT v 4 1"
definition EMMC_CMDTM_SHIFT_CMD_CRCCHK_EN :: nat where "EMMC_CMDTM_SHIFT_CMD_CRCCHK_EN = 19"
definition EMMC_CMDTM_SHIFT_CMD_INDEX :: nat where "EMMC_CMDTM_SHIFT_CMD_INDEX = 24"
definition EMMC_CMDTM_SHIFT_CMD_ISDATA :: nat where "EMMC_CMDTM_SHIFT_CMD_ISDATA = 21"
definition EMMC_CMDTM_SHIFT_CMD_RSPNS_TYPE :: nat where "EMMC_CMDTM_SHIFT_CMD_RSPNS_TYPE = 16"
definition EMMC_CMDTM_SHIFT_TM_DAT_DIR :: nat where "EMMC_CMDTM_SHIFT_TM_DAT_DIR = 4"
definition EMMC_CONTROL0_CLR_SET_HCTL_DWIDTH :: "u32 \<Rightarrow> u32 \<Rightarrow> u32" where "EMMC_CONTROL0_CLR_SET_HCTL_DWIDTH x v = BF_CLEAR_AND_SET 1 1 x v"
definition EMMC_CONTROL1_CLR_CLK_EN :: "u32 \<Rightarrow> u32" where "EMMC_CONTROL1_CLR_CLK_EN v = BF_CLEAR 2 1 v"
definition EMMC_CONTROL1_CLR_CLK_INTLEN :: "u32 \<Rightarrow> u32" where "EMMC_CONTROL1_CLR_CLK_INTLEN v = BF_CLEAR 0 1 v"
definition EMMC_CONTROL1_CLR_SET_CLK_EN :: "u32 \<Rightarrow> u32 \<Rightarrow> u32" where "EMMC_CONTROL1_CLR_SET_CLK_EN x v = BF_CLEAR_AND_SET 2 1 x v"
definition EMMC_CONTROL1_CLR_SET_CLK_INTLEN :: "u32 \<Rightarrow> u32 \<Rightarrow> u32" where "EMMC_CONTROL1_CLR_SET_CLK_INTLEN x v = BF_CLEAR_AND_SET 0 1 x v"
definition EMMC_CONTROL1_CLR_SET_DATA_TOUNIT :: "u32 \<Rightarrow> u32 \<Rightarrow> u32" where "EMMC_CONTROL1_CLR_SET_DATA_TOUNIT x v = BF_CLEAR_AND_SET 16 4 x v"
definition EMMC_CONTROL1_CLR_SET_SRST_CMD :: "u32 \<Rightarrow> u32 \<Rightarrow> u32" where "EMMC_CONTROL1_CLR_SET_SRST_CMD x v = BF_CLEAR_AND_SET 25 1 x v"
definition EMMC_CONTROL1_CLR_SET_SRST_HC :: "u32 \<Rightarrow> u32 \<Rightarrow> u32" where "EMMC_CONTROL1_CLR_SET_SRST_HC x v = BF_CLEAR_AND_SET 24 1 x v"
definition EMMC_CONTROL1_GET_SRST_HC :: "u32 \<Rightarrow> u32" where "EMMC_CONTROL1_GET_SRST_HC v = BF_EXTRACT v 24 1"
definition EMMC_CONTROL1_MASK_CLK_STABLE :: u32 where "EMMC_CONTROL1_MASK_CLK_STABLE = BF_MASK_AT_32 1 1"
definition EMMC_CONTROL1_MASK_SRST_CMD :: u32 where "EMMC_CONTROL1_MASK_SRST_CMD = BF_MASK_AT_32 25 1"
definition EMMC_INTERRUPT_CLR_SET_CTO_ERR :: "u32 \<Rightarrow> u32 \<Rightarrow> u32" where "EMMC_INTERRUPT_CLR_SET_CTO_ERR x v = BF_CLEAR_AND_SET 16 1 x v"
definition EMMC_INTERRUPT_CLR_SET_DATA_DONE :: "u32 \<Rightarrow> u32 \<Rightarrow> u32" where "EMMC_INTERRUPT_CLR_SET_DATA_DONE x v = BF_CLEAR_AND_SET 1 1 x v"
definition EMMC_INTERRUPT_CLR_SET_ERR :: "u32 \<Rightarrow> u32 \<Rightarrow> u32" where "EMMC_INTERRUPT_CLR_SET_ERR x v = BF_CLEAR_AND_SET 15 1 x v"
definition EMMC_INTERRUPT_CLR_SET_READ_RDY :: "u32 \<Rightarrow> u32 \<Rightarrow> u32" where "EMMC_INTERRUPT_CLR_SET_READ_RDY x v = BF_CLEAR_AND_SET 5 1 x v"
definition EMMC_INTERRUPT_CLR_SET_WRITE_RDY :: "u32 \<Rightarrow> u32 \<Rightarrow> u32" where "EMMC_INTERRUPT_CLR_SET_WRITE_RDY x v = BF_CLEAR_AND_SET 4 1 x v"
definition EMMC_INTERRUPT_GET_CTO_ERR :: "u32 \<Rightarrow> u32" where "EMMC_INTERRUPT_GET_CTO_ERR v = BF_EXTRACT v 16 1"
definition EMMC_INTERRUPT_GET_ERR :: "u32 \<Rightarrow> u32" where "EMMC_INTERRUPT_GET_ERR v = BF_EXTRACT v 15 1"
definition EMMC_INTERRUPT_MASK_CMD_DONE :: u32 where "EMMC_INTERRUPT_MASK_CMD_DONE = BF_MASK_AT_32 0 1"
definition EMMC_INTERRUPT_MASK_DATA_DONE :: u32 where "EMMC_INTERRUPT_MASK_DATA_DONE = BF_MASK_AT_32 1 1"
definition EMMC_INTERRUPT_MASK_ERR :: u32 where "EMMC_INTERRUPT_MASK_ERR = BF_MASK_AT_32 15 1"
definition EMMC_STATUS_GET_CMD_INHIBIT :: "u32 \<Rightarrow> u32" where "EMMC_STATUS_GET_CMD_INHIBIT v = BF_EXTRACT v 0 1"
definition EMMC_STATUS_GET_DAT_INHIBIT :: "u32 \<Rightarrow> u32" where "EMMC_STATUS_GET_DAT_INHIBIT v = BF_EXTRACT v 1 1"

lemmas emmc_fields =
  EMMC_BLKSIZECNT_CLR_SET_BLKCNT_def EMMC_BLKSIZECNT_CLR_SET_BLKSIZE_def
  EMMC_CARD_STATUS_GET_CURRENT_STATE_def EMMC_CMDTM_GET_CMD_ISDATA_def EMMC_CMDTM_GET_CMD_RSPNS_TYPE_def
  EMMC_CMDTM_GET_TM_DAT_DIR_def EMMC_CMDTM_SHIFT_CMD_CRCCHK_EN_def EMMC_CMDTM_SHIFT_CMD_INDEX_def
  EMMC_CMDTM_SHIFT_CMD_ISDATA_def EMMC_CMDTM_SHIFT_CMD_RSPNS_TYPE_def EMMC_CMDTM_SHIFT_TM_DAT_DIR_def
  EMMC_CONTROL0_CLR_SET_HCTL_DWIDTH_def EMMC_CONTROL1_CLR_CLK_EN_def EMMC_CONTROL1_CLR_CLK_INTLEN_def
  EMMC_CONTROL1_CLR_SET_CLK_EN_def EMMC_CONTROL1_CLR_SET_CLK_INTLEN_def EMMC_CONTROL1_CLR_SET_DATA_TOUNIT_def
  EMMC_CONTROL1_CLR_SET_SRST_CMD_def EMMC_CONTROL1_CLR_SET_SRST_HC_def EMMC_CONTROL1_GET_SRST_HC_def
  EMMC_CONTROL1_MASK_CLK_STABLE_def EMMC_CONTROL1_MASK_SRST_CMD_def EMMC_INTERRUPT_CLR_SET_CTO_ERR_def
  EMMC_INTERRUPT_CLR_SET_DATA_DONE_def EMMC_INTERRUPT_CLR_SET_ERR_def EMMC_INTERRUPT_CLR_SET_READ_RDY_def
  EMMC_INTERRUPT_CLR_SET_WRITE_RDY_def EMMC_INTERRUPT_GET_CTO_ERR_def EMMC_INTERRUPT_GET_ERR_def
  EMMC_INTERRUPT_MASK_CMD_DONE_def EMMC_INTERRUPT_MASK_DATA_DONE_def EMMC_INTERRUPT_MASK_ERR_def
  EMMC_STATUS_GET_CMD_INHIBIT_def EMMC_STATUS_GET_DAT_INHIBIT_def

section \<open>Commands\<close>

definition EMMC_RESPONSE_TYPE_NONE :: u32 where "EMMC_RESPONSE_TYPE_NONE = 0"
definition EMMC_RESPONSE_TYPE_136_BITS :: u32 where "EMMC_RESPONSE_TYPE_136_BITS = 1"
definition EMMC_RESPONSE_TYPE_48_BITS :: u32 where "EMMC_RESPONSE_TYPE_48_BITS = 2"
definition EMMC_RESPONSE_TYPE_48_BITS_BUSY :: u32 where "EMMC_RESPONSE_TYPE_48_BITS_BUSY = 3"

lemmas emmc_response_types =
  EMMC_RESPONSE_TYPE_NONE_def EMMC_RESPONSE_TYPE_136_BITS_def EMMC_RESPONSE_TYPE_48_BITS_def
  EMMC_RESPONSE_TYPE_48_BITS_BUSY_def

text \<open>The kinds of response as the tables name them, and the direction of the data.\<close>

datatype resp = NA | R1 | R1b | R2 | R3 | R6 | R7

fun RESP_TYPE :: "resp \<Rightarrow> u32" where
  "RESP_TYPE R1 = EMMC_RESPONSE_TYPE_48_BITS"
| "RESP_TYPE R1b = EMMC_RESPONSE_TYPE_48_BITS_BUSY"
| "RESP_TYPE R2 = EMMC_RESPONSE_TYPE_136_BITS"
| "RESP_TYPE R3 = EMMC_RESPONSE_TYPE_48_BITS"
| "RESP_TYPE R6 = EMMC_RESPONSE_TYPE_48_BITS"
| "RESP_TYPE R7 = EMMC_RESPONSE_TYPE_48_BITS"
| "RESP_TYPE NA = EMMC_RESPONSE_TYPE_NONE"

definition EMMC_TRANS_TYPE_DATA_HOST_TO_CARD :: u32 where "EMMC_TRANS_TYPE_DATA_HOST_TO_CARD = 0"
definition EMMC_TRANS_TYPE_DATA_NA :: u32 where "EMMC_TRANS_TYPE_DATA_NA = 0"
definition EMMC_TRANS_TYPE_DATA_CARD_TO_HOST :: u32 where "EMMC_TRANS_TYPE_DATA_CARD_TO_HOST = 1"

lemmas emmc_trans_types =
  EMMC_TRANS_TYPE_DATA_HOST_TO_CARD_def EMMC_TRANS_TYPE_DATA_NA_def EMMC_TRANS_TYPE_DATA_CARD_TO_HOST_def

definition CMDTM_GEN :: "u32 \<Rightarrow> resp \<Rightarrow> u32 \<Rightarrow> u32 \<Rightarrow> u32 \<Rightarrow> u32" where
  "CMDTM_GEN idx rt crc_enable trans_type is_data =
     push_bit EMMC_CMDTM_SHIFT_CMD_INDEX idx OR push_bit EMMC_CMDTM_SHIFT_CMD_RSPNS_TYPE (RESP_TYPE rt) OR
     push_bit EMMC_CMDTM_SHIFT_CMD_CRCCHK_EN crc_enable OR push_bit EMMC_CMDTM_SHIFT_TM_DAT_DIR trans_type OR
     push_bit EMMC_CMDTM_SHIFT_CMD_ISDATA is_data"

definition sd_commands :: "u32 list" where
  "sd_commands = [
     CMDTM_GEN 0 NA 0 EMMC_TRANS_TYPE_DATA_NA 0,
     CMDTM_GEN 1 NA 0 EMMC_TRANS_TYPE_DATA_NA 0,
     CMDTM_GEN 2 R2 1 EMMC_TRANS_TYPE_DATA_NA 0,
     CMDTM_GEN 3 R6 1 EMMC_TRANS_TYPE_DATA_NA 0,
     CMDTM_GEN 4 NA 0 EMMC_TRANS_TYPE_DATA_NA 0,
     CMDTM_GEN 5 R2 0 EMMC_TRANS_TYPE_DATA_NA 0,
     CMDTM_GEN 6 NA 0 EMMC_TRANS_TYPE_DATA_NA 0,
     CMDTM_GEN 7 R1b 1 EMMC_TRANS_TYPE_DATA_NA 0,
     CMDTM_GEN 8 R7 1 EMMC_TRANS_TYPE_DATA_NA 0,
     CMDTM_GEN 9 R2 0 EMMC_TRANS_TYPE_DATA_NA 0,
     CMDTM_GEN 10 R2 0 EMMC_TRANS_TYPE_DATA_NA 0,
     CMDTM_GEN 11 R1 1 EMMC_TRANS_TYPE_DATA_NA 0,
     CMDTM_GEN 12 R1b 1 EMMC_TRANS_TYPE_DATA_NA 0,
     CMDTM_GEN 13 R1 1 EMMC_TRANS_TYPE_DATA_NA 0,
     CMDTM_GEN 14 NA 0 EMMC_TRANS_TYPE_DATA_NA 0,
     CMDTM_GEN 15 NA 0 EMMC_TRANS_TYPE_DATA_NA 0,
     CMDTM_GEN 16 R1 1 EMMC_TRANS_TYPE_DATA_NA 0,
     CMDTM_GEN 17 R1 1 EMMC_TRANS_TYPE_DATA_CARD_TO_HOST 1,
     CMDTM_GEN 18 R1 1 EMMC_TRANS_TYPE_DATA_NA 0,
     CMDTM_GEN 19 R1 1 EMMC_TRANS_TYPE_DATA_NA 0,
     CMDTM_GEN 20 R1b 1 EMMC_TRANS_TYPE_DATA_NA 0,
     CMDTM_GEN 21 R1 1 EMMC_TRANS_TYPE_DATA_NA 0,
     CMDTM_GEN 22 R1 1 EMMC_TRANS_TYPE_DATA_NA 0,
     CMDTM_GEN 23 R1 1 EMMC_TRANS_TYPE_DATA_NA 0,
     CMDTM_GEN 24 R1 1 EMMC_TRANS_TYPE_DATA_HOST_TO_CARD 1,
     CMDTM_GEN 25 R1 1 EMMC_TRANS_TYPE_DATA_NA 0,
     CMDTM_GEN 26 NA 0 EMMC_TRANS_TYPE_DATA_NA 0,
     CMDTM_GEN 27 R1 1 EMMC_TRANS_TYPE_DATA_NA 0,
     CMDTM_GEN 28 R1b 1 EMMC_TRANS_TYPE_DATA_NA 0,
     CMDTM_GEN 29 R1b 1 EMMC_TRANS_TYPE_DATA_NA 0,
     CMDTM_GEN 30 R1 1 EMMC_TRANS_TYPE_DATA_NA 0,
     CMDTM_GEN 31 NA 0 EMMC_TRANS_TYPE_DATA_NA 0,
     CMDTM_GEN 32 R1 1 EMMC_TRANS_TYPE_DATA_NA 0,
     CMDTM_GEN 33 R1 1 EMMC_TRANS_TYPE_DATA_NA 0,
     CMDTM_GEN 34 NA 0 EMMC_TRANS_TYPE_DATA_NA 0,
     CMDTM_GEN 35 NA 0 EMMC_TRANS_TYPE_DATA_NA 0,
     CMDTM_GEN 36 NA 0 EMMC_TRANS_TYPE_DATA_NA 0,
     CMDTM_GEN 37 NA 0 EMMC_TRANS_TYPE_DATA_NA 0,
     CMDTM_GEN 38 R1b 1 EMMC_TRANS_TYPE_DATA_NA 0,
     CMDTM_GEN 39 NA 0 EMMC_TRANS_TYPE_DATA_NA 0,
     CMDTM_GEN 40 R1 1 EMMC_TRANS_TYPE_DATA_NA 0,
     CMDTM_GEN 41 NA 0 EMMC_TRANS_TYPE_DATA_NA 0,
     CMDTM_GEN 42 R1 1 EMMC_TRANS_TYPE_DATA_NA 0,
     CMDTM_GEN 43 NA 0 EMMC_TRANS_TYPE_DATA_NA 0,
     CMDTM_GEN 44 NA 0 EMMC_TRANS_TYPE_DATA_NA 0,
     CMDTM_GEN 45 NA 0 EMMC_TRANS_TYPE_DATA_NA 0,
     CMDTM_GEN 46 NA 0 EMMC_TRANS_TYPE_DATA_NA 0,
     CMDTM_GEN 47 NA 0 EMMC_TRANS_TYPE_DATA_NA 0,
     CMDTM_GEN 48 NA 0 EMMC_TRANS_TYPE_DATA_NA 0,
     CMDTM_GEN 49 NA 0 EMMC_TRANS_TYPE_DATA_NA 0,
     CMDTM_GEN 50 NA 0 EMMC_TRANS_TYPE_DATA_NA 0,
     CMDTM_GEN 51 NA 0 EMMC_TRANS_TYPE_DATA_NA 0,
     CMDTM_GEN 52 NA 0 EMMC_TRANS_TYPE_DATA_NA 0,
     CMDTM_GEN 53 NA 0 EMMC_TRANS_TYPE_DATA_NA 0,
     CMDTM_GEN 54 NA 0 EMMC_TRANS_TYPE_DATA_NA 0,
     CMDTM_GEN 55 R1 1 EMMC_TRANS_TYPE_DATA_NA 0,
     CMDTM_GEN 56 R1 1 EMMC_TRANS_TYPE_DATA_NA 0,
     CMDTM_GEN 57 NA 0 EMMC_TRANS_TYPE_DATA_NA 0,
     CMDTM_GEN 58 NA 0 EMMC_TRANS_TYPE_DATA_NA 0,
     CMDTM_GEN 59 NA 0 EMMC_TRANS_TYPE_DATA_NA 0]"

definition sd_acommands :: "u32 list" where
  "sd_acommands = [
     CMDTM_GEN 0 NA 0 EMMC_TRANS_TYPE_DATA_NA 0,
     CMDTM_GEN 1 NA 0 EMMC_TRANS_TYPE_DATA_NA 0,
     CMDTM_GEN 2 NA 0 EMMC_TRANS_TYPE_DATA_NA 0,
     CMDTM_GEN 3 NA 0 EMMC_TRANS_TYPE_DATA_NA 0,
     CMDTM_GEN 4 NA 0 EMMC_TRANS_TYPE_DATA_NA 0,
     CMDTM_GEN 5 NA 0 EMMC_TRANS_TYPE_DATA_NA 0,
     CMDTM_GEN 6 R1 1 EMMC_TRANS_TYPE_DATA_NA 0,
     CMDTM_GEN 7 NA 0 EMMC_TRANS_TYPE_DATA_NA 0,
     CMDTM_GEN 8 NA 0 EMMC_TRANS_TYPE_DATA_NA 0,
     CMDTM_GEN 9 NA 0 EMMC_TRANS_TYPE_DATA_NA 0,
     CMDTM_GEN 10 NA 0 EMMC_TRANS_TYPE_DATA_NA 0,
     CMDTM_GEN 11 NA 0 EMMC_TRANS_TYPE_DATA_NA 0,
     CMDTM_GEN 12 NA 0 EMMC_TRANS_TYPE_DATA_NA 0,
     CMDTM_GEN 13 NA 0 EMMC_TRANS_TYPE_DATA_NA 0,
     CMDTM_GEN 14 NA 0 EMMC_TRANS_TYPE_DATA_NA 0,
     CMDTM_GEN 15 NA 0 EMMC_TRANS_TYPE_DATA_NA 0,
     CMDTM_GEN 16 NA 0 EMMC_TRANS_TYPE_DATA_NA 0,
     CMDTM_GEN 17 NA 0 EMMC_TRANS_TYPE_DATA_NA 0,
     CMDTM_GEN 18 NA 0 EMMC_TRANS_TYPE_DATA_NA 0,
     CMDTM_GEN 19 NA 0 EMMC_TRANS_TYPE_DATA_NA 0,
     CMDTM_GEN 20 NA 0 EMMC_TRANS_TYPE_DATA_NA 0,
     CMDTM_GEN 21 NA 0 EMMC_TRANS_TYPE_DATA_NA 0,
     CMDTM_GEN 22 NA 0 EMMC_TRANS_TYPE_DATA_NA 0,
     CMDTM_GEN 23 NA 0 EMMC_TRANS_TYPE_DATA_NA 0,
     CMDTM_GEN 24 NA 0 EMMC_TRANS_TYPE_DATA_NA 0,
     CMDTM_GEN 25 NA 0 EMMC_TRANS_TYPE_DATA_NA 0,
     CMDTM_GEN 26 NA 0 EMMC_TRANS_TYPE_DATA_NA 0,
     CMDTM_GEN 27 NA 0 EMMC_TRANS_TYPE_DATA_NA 0,
     CMDTM_GEN 28 NA 0 EMMC_TRANS_TYPE_DATA_NA 0,
     CMDTM_GEN 29 NA 0 EMMC_TRANS_TYPE_DATA_NA 0,
     CMDTM_GEN 30 NA 0 EMMC_TRANS_TYPE_DATA_NA 0,
     CMDTM_GEN 31 NA 0 EMMC_TRANS_TYPE_DATA_NA 0,
     CMDTM_GEN 32 NA 0 EMMC_TRANS_TYPE_DATA_NA 0,
     CMDTM_GEN 33 NA 0 EMMC_TRANS_TYPE_DATA_NA 0,
     CMDTM_GEN 34 NA 0 EMMC_TRANS_TYPE_DATA_NA 0,
     CMDTM_GEN 35 NA 0 EMMC_TRANS_TYPE_DATA_NA 0,
     CMDTM_GEN 36 NA 0 EMMC_TRANS_TYPE_DATA_NA 0,
     CMDTM_GEN 37 NA 0 EMMC_TRANS_TYPE_DATA_NA 0,
     CMDTM_GEN 38 NA 0 EMMC_TRANS_TYPE_DATA_NA 0,
     CMDTM_GEN 39 NA 0 EMMC_TRANS_TYPE_DATA_NA 0,
     CMDTM_GEN 40 NA 0 EMMC_TRANS_TYPE_DATA_NA 0,
     CMDTM_GEN 41 R3 0 EMMC_TRANS_TYPE_DATA_NA 0,
     CMDTM_GEN 42 NA 0 EMMC_TRANS_TYPE_DATA_NA 0,
     CMDTM_GEN 43 NA 0 EMMC_TRANS_TYPE_DATA_NA 0,
     CMDTM_GEN 44 NA 0 EMMC_TRANS_TYPE_DATA_NA 0,
     CMDTM_GEN 45 NA 0 EMMC_TRANS_TYPE_DATA_NA 0,
     CMDTM_GEN 46 NA 0 EMMC_TRANS_TYPE_DATA_NA 0,
     CMDTM_GEN 47 NA 0 EMMC_TRANS_TYPE_DATA_NA 0,
     CMDTM_GEN 48 NA 0 EMMC_TRANS_TYPE_DATA_NA 0,
     CMDTM_GEN 49 NA 0 EMMC_TRANS_TYPE_DATA_NA 0,
     CMDTM_GEN 50 R1 1 EMMC_TRANS_TYPE_DATA_NA 0,
     CMDTM_GEN 51 R1 1 EMMC_TRANS_TYPE_DATA_CARD_TO_HOST 1,
     CMDTM_GEN 52 NA 0 EMMC_TRANS_TYPE_DATA_NA 0,
     CMDTM_GEN 53 NA 0 EMMC_TRANS_TYPE_DATA_NA 0,
     CMDTM_GEN 54 NA 0 EMMC_TRANS_TYPE_DATA_NA 0,
     CMDTM_GEN 55 NA 0 EMMC_TRANS_TYPE_DATA_NA 0,
     CMDTM_GEN 56 NA 0 EMMC_TRANS_TYPE_DATA_NA 0,
     CMDTM_GEN 57 NA 0 EMMC_TRANS_TYPE_DATA_NA 0,
     CMDTM_GEN 58 NA 0 EMMC_TRANS_TYPE_DATA_NA 0,
     CMDTM_GEN 59 NA 0 EMMC_TRANS_TYPE_DATA_NA 0]"

end
