(* ===== verification/Fat32.thy ===== *)
theory Fat32
  imports Stringlib
begin

text \<open>
  The FAT32 reader of \<^verbatim>\<open>src/fs/fat32/fat32.c\<close> and \<^verbatim>\<open>src/include/fs/fat32.h\<close> with the
  little-endian accessors of \<^verbatim>\<open>src/include/mem_access.h\<close>. The block device is the parameter
  \<open>rd\<close>: the outcome of reading one sector, an error code or the sector's bytes. A directory is read
  into a buffer of the byte memory, at address \<open>buf\<close>; the boot sector is a table of its bytes. A
  FAT may be cyclic, so the loops along cluster chains are partial functions.
\<close>

type_synonym sector_reader = "u64 \<Rightarrow> int + u8 list"

section \<open>Unaligned little-endian accesses\<close>

definition get_unaligned_16_le :: "bmem \<Rightarrow> ptr \<Rightarrow> u16" where
  "get_unaligned_16_le m a = push_bit 8 (ucast (m (a + 1))) OR ucast (m a)"

definition get_unaligned_32_le :: "bmem \<Rightarrow> ptr \<Rightarrow> u32" where
  "get_unaligned_32_le m a = push_bit 24 (ucast (m (a + 3))) OR push_bit 16 (ucast (m (a + 2)))
     OR push_bit 8 (ucast (m (a + 1))) OR ucast (m a)"

definition BYTE_EXTRACT :: "'a :: len word \<Rightarrow> nat \<Rightarrow> u8" where
  "BYTE_EXTRACT v i = ucast (drop_bit (i * 8) v AND 0xff)"

definition set_unaligned_16_le :: "ptr \<Rightarrow> u16 \<Rightarrow> bmem \<Rightarrow> bmem" where
  "set_unaligned_16_le a v m = m(a := BYTE_EXTRACT v 1, a + 1 := BYTE_EXTRACT v 0)"

definition set_unaligned_32_le :: "ptr \<Rightarrow> u32 \<Rightarrow> bmem \<Rightarrow> bmem" where
  "set_unaligned_32_le a v m = m(a := BYTE_EXTRACT v 3, a + 1 := BYTE_EXTRACT v 2,
     a + 2 := BYTE_EXTRACT v 1, a + 3 := BYTE_EXTRACT v 0)"

section \<open>The boot sector\<close>

type_synonym boot_sector = bmem

definition fat32_get_num_reserved_sectors :: "boot_sector \<Rightarrow> u16" where
  "fat32_get_num_reserved_sectors b = get_unaligned_16_le b 14"

definition fat32_get_root_dir_cluster :: "boot_sector \<Rightarrow> u32" where
  "fat32_get_root_dir_cluster b = get_unaligned_32_le b 44"

definition fat32_get_logical_sector_size :: "boot_sector \<Rightarrow> u32" where
  "fat32_get_logical_sector_size b = ucast (get_unaligned_16_le b 11)"

definition fat32_get_sectors_per_cluster :: "boot_sector \<Rightarrow> u32" where
  "fat32_get_sectors_per_cluster b = ucast (b 13)"

definition fat32_get_sectors_per_fat :: "boot_sector \<Rightarrow> u16" where
  "fat32_get_sectors_per_fat b = get_unaligned_16_le b 36"

definition fat32_get_num_fats :: "boot_sector \<Rightarrow> u8" where
  "fat32_get_num_fats b = b 16"

definition fat32_get_num_fat_sectors :: "boot_sector \<Rightarrow> u32" where
  "fat32_get_num_fat_sectors b = ucast (fat32_get_num_fats b) * ucast (fat32_get_sectors_per_fat b)"

definition fat32_get_data_start_sector :: "boot_sector \<Rightarrow> u64" where
  "fat32_get_data_start_sector b =
     ucast (ucast (fat32_get_num_reserved_sectors b) + fat32_get_num_fat_sectors b :: u32)"

definition fat32_get_num_root_entries :: "boot_sector \<Rightarrow> u16" where
  "fat32_get_num_root_entries b = get_unaligned_16_le b 17"

definition fat32_get_bytes_per_cluster :: "boot_sector \<Rightarrow> u32" where
  "fat32_get_bytes_per_cluster b = fat32_get_logical_sector_size b * fat32_get_sectors_per_cluster b"

definition fat32_get_root_dir_sector :: "boot_sector \<Rightarrow> u32" where
  "fat32_get_root_dir_sector b = ucast (fat32_get_data_start_sector b)"

text \<open>The product is computed in \<^verbatim>\<open>size_t\<close> and divided by the promoted sector size.\<close>

definition fat32_get_num_root_dir_sectors :: "boot_sector \<Rightarrow> u32" where
  "fat32_get_num_root_dir_sectors b =
     ucast ((ucast (fat32_get_num_root_entries b) * 32 :: u64) div ucast (fat32_get_logical_sector_size b))"

text \<open>\<^verbatim>\<open>fat32_open\<close>: what the first sector holds is the boot sector from then on.\<close>

definition fat32_open :: "sector_reader \<Rightarrow> int + boot_sector" where
  "fat32_open rd = (case rd 0 of Inl err \<Rightarrow> Inl err | Inr bs \<Rightarrow> Inr (\<lambda>i. bs ! i))"

section \<open>Directory entries\<close>

definition FAT32_ENTRY_END_OF_CHAIN :: u32 where "FAT32_ENTRY_END_OF_CHAIN = 0x0fffffff"
definition FAT32_ENTRY_END_OF_CHAIN_ALT :: u32 where "FAT32_ENTRY_END_OF_CHAIN_ALT = 0x0ffffff8"
definition FAT32_DATA_FIRST_CLUSTER :: u32 where "FAT32_DATA_FIRST_CLUSTER = 2"
definition FAT_ENTRY_DELETED_MARK :: u8 where "FAT_ENTRY_DELETED_MARK = 0xe5"
definition FAT_FILE_ATTR_VFAT_LFN :: u8 where "FAT_FILE_ATTR_VFAT_LFN = 0xf"
definition sizeof_fat_dentry :: nat where "sizeof_fat_dentry = 32"

definition fat32_dentry_get_cluster :: "bmem \<Rightarrow> ptr \<Rightarrow> u32" where
  "fat32_dentry_get_cluster m d =
     push_bit 16 (ucast (get_unaligned_16_le m (d + 20))) OR ucast (get_unaligned_16_le m (d + 26))"

definition fat32_dentry_get_file_size :: "bmem \<Rightarrow> ptr \<Rightarrow> u32" where
  "fat32_dentry_get_file_size m d = get_unaligned_32_le m (d + 28)"

definition fat32_dentry_is_valid :: "bmem \<Rightarrow> ptr \<Rightarrow> bool" where
  "fat32_dentry_is_valid m d \<longleftrightarrow>
     m d \<noteq> 0 \<and> fat32_dentry_get_file_size m d \<noteq> 0 \<and> fat32_dentry_get_cluster m d \<noteq> 0"

definition fat32_dentry_is_deleted :: "bmem \<Rightarrow> ptr \<Rightarrow> bool" where
  "fat32_dentry_is_deleted m d \<longleftrightarrow> m d = FAT_ENTRY_DELETED_MARK"

definition fat32_dentry_is_vfat_lfn :: "bmem \<Rightarrow> ptr \<Rightarrow> bool" where
  "fat32_dentry_is_vfat_lfn m d \<longleftrightarrow> m (d + 11) = FAT_FILE_ATTR_VFAT_LFN"

definition fat32_dentry_is_end_mark :: "bmem \<Rightarrow> ptr \<Rightarrow> bool" where
  "fat32_dentry_is_end_mark m d \<longleftrightarrow> list_all (\<lambda>i. m (d + i) = 0) [0 ..< sizeof_fat_dentry]"

text \<open>\<open>Some (None, _)\<close> is the null pointer of the end of the directory. The entry behind the last one
  of the sector is examined, too, as in the code, whose loop only ends where it meets \<open>d_end\<close>.\<close>

partial_function (option) fat32_dentry_next ::
  "bmem \<Rightarrow> ptr \<Rightarrow> ptr \<Rightarrow> ptr option \<Rightarrow> (ptr option \<times> ptr option) option" where
  "fat32_dentry_next m d d_end first_lfn =
     (if d \<noteq> d_end
      then let d = d + sizeof_fat_dentry
           in if fat32_dentry_is_vfat_lfn m d
              then fat32_dentry_next m d d_end (if first_lfn = None then Some d else first_lfn)
              else if fat32_dentry_is_deleted m d then fat32_dentry_next m d d_end None
              else if fat32_dentry_is_valid m d then Some (Some d, first_lfn)
              else if fat32_dentry_is_end_mark m d then Some (None, first_lfn)
              else fat32_dentry_next m d d_end None
      else Some (Some d, first_lfn))"

section \<open>File names\<close>

text \<open>\<^verbatim>\<open>LFN_UCS2_TO_ASCII\<close> for one field: \<open>None\<close> when the loop is left.\<close>

definition lfn_part :: "ptr \<Rightarrow> nat \<Rightarrow> ptr \<Rightarrow> ptr \<times> bmem \<Rightarrow> (ptr \<times> bmem) \<times> bool" where
  "lfn_part field fsz e = (\<lambda>(p, m).
     let (num, m) = wtomb p (e - p) field fsz m
     in if num = 0 then ((p, m), False)
        else ((p + num, m), \<not> num < fsz div 2))"

function fill_lfn_loop :: "ptr \<Rightarrow> ptr \<Rightarrow> ptr \<Rightarrow> ptr \<times> bmem \<Rightarrow> ptr \<times> bmem" where
  "fill_lfn_loop le dentry e s =
     (if le < dentry
      then let (s, go) = lfn_part (le + 1) 10 e s in if \<not> go then s else
           let (s, go) = lfn_part (le + 14) 12 e s in if \<not> go then s else
           let (s, go) = lfn_part (le + 28) 4 e s in if \<not> go then s else
           fill_lfn_loop (le + 32) dentry e s
      else s)"
  by auto
termination by (relation "measure (\<lambda>(le, d, _, _). d - le)") auto

declare fill_lfn_loop.simps [simp del]

definition fat32_fill_filename_lfn :: "ptr \<Rightarrow> ptr \<Rightarrow> ptr \<Rightarrow> nat \<Rightarrow> bmem \<Rightarrow> ptr \<times> bmem" where
  "fat32_fill_filename_lfn le dentry buf bufsz m =
     (let (p, m) = fill_lfn_loop le dentry (buf + bufsz - 1) (buf, m) in (p, m(p := 0)))"

fun short_name_loop :: "ptr \<Rightarrow> nat list \<Rightarrow> ptr \<Rightarrow> ptr \<times> bmem \<Rightarrow> ptr \<times> bmem" where
  "short_name_loop d [] e (p, m) = (p, m)"
| "short_name_loop d (i # is) e (p, m) =
     (if p < e \<and> m (d + i) \<noteq> 0 then short_name_loop d is e (p + 1, m(p := m (d + i))) else (p, m))"

fun extension_loop :: "ptr \<Rightarrow> nat list \<Rightarrow> ptr \<Rightarrow> ptr \<times> bmem \<Rightarrow> ptr \<times> bmem" where
  "extension_loop d [] e (p, m) = (p, m)"
| "extension_loop d (i # is) e (p, m) =
     (if p < e
      then if m (d + 8 + i) \<noteq> 0 \<and> m (d + 8 + i) \<noteq> 32
           then extension_loop d is e (p + 1, m(p := m (d + 8 + i)))
           else extension_loop d is e (p, m)
      else (p, m))"

definition fat32_dentry_fill_name_short :: "ptr \<Rightarrow> ptr \<Rightarrow> nat \<Rightarrow> bmem \<Rightarrow> nat \<times> bmem" where
  "fat32_dentry_fill_name_short d buf bufsz m =
     (let e = buf + bufsz;
          (p, m) = short_name_loop d [0 ..< 8] e (buf, m);
          (p, m) = (if p < e \<and> m (d + 8) \<noteq> 0 then (p + 1, m(p := 46)) else (p, m));
          (p, m) = extension_loop d [0 ..< 3] e (p, m)
      in (p - buf, m(p := 0)))"

definition fat32_dentry_get_filename :: "ptr \<Rightarrow> ptr option \<Rightarrow> ptr \<Rightarrow> nat \<Rightarrow> bmem \<Rightarrow> bmem" where
  "fat32_dentry_get_filename d le buf bufsz m =
     (case le of Some le \<Rightarrow> snd (fat32_fill_filename_lfn le d buf bufsz m)
      | None \<Rightarrow> snd (fat32_dentry_fill_name_short d buf bufsz m))"

section \<open>Cluster chains\<close>

definition le32_at :: "u8 list \<Rightarrow> nat \<Rightarrow> u32" where
  "le32_at bs i = get_unaligned_32_le (\<lambda>a. bs ! a) (4 * i)"

definition fat32_get_next_cluster_num :: "boot_sector \<Rightarrow> sector_reader \<Rightarrow> u32 \<Rightarrow> u32 kres" where
  "fat32_get_next_cluster_num b rd cluster_idx =
     (let fat_start_sector = ucast (fat32_get_num_reserved_sectors b);
          entries_per_sector = drop_bit 2 (fat32_get_logical_sector_size b);
          entry_sector = (ucast (fat_start_sector + cluster_idx div entries_per_sector :: u32) :: u64)
      in if entry_sector > ucast (fat32_get_sectors_per_fat b) then Inr FAT32_ENTRY_END_OF_CHAIN
         else let offset_in_sector = unat (cluster_idx mod entries_per_sector)
              in case rd entry_sector of
                   Inl err \<Rightarrow> Inr (of_int err)
                 | Inr fatbuf \<Rightarrow> if 4 * offset_in_sector + 4 \<le> length fatbuf
                               then Inr (le32_at fatbuf offset_in_sector) else Inl ''fatbuf out of bounds'')"

record cluster_it =
  ci_cluster_idx :: u32
  ci_valid :: bool

definition cluster_it_init :: "u32 \<Rightarrow> cluster_it" where
  "cluster_it_init start_cluster = \<lparr>ci_cluster_idx = start_cluster, ci_valid = True\<rparr>"

definition cluster_it_next :: "boot_sector \<Rightarrow> sector_reader \<Rightarrow> cluster_it \<Rightarrow> cluster_it kres" where
  "cluster_it_next b rd ci =
     kbind (fat32_get_next_cluster_num b rd (ci_cluster_idx ci)) (\<lambda>c.
       Inr (if c = FAT32_ENTRY_END_OF_CHAIN \<or> c = FAT32_ENTRY_END_OF_CHAIN_ALT
            then \<lparr>ci_cluster_idx = c, ci_valid = False\<rparr> else ci\<lparr>ci_cluster_idx := c\<rparr>))"

text \<open>Start and end of \<^verbatim>\<open>struct cl_sector_iter\<close>.\<close>

definition cl_sector_iter_init :: "boot_sector \<Rightarrow> u32 \<Rightarrow> u32 \<Rightarrow> u64 \<times> u64" where
  "cl_sector_iter_init b cluster_idx num_sectors =
     (let first_data_sector_idx = fat32_get_data_start_sector b;
          data_sector_idx = ucast ((cluster_idx - FAT32_DATA_FIRST_CLUSTER) * fat32_get_sectors_per_cluster b);
          sector_idx = first_data_sector_idx + data_sector_idx
      in (sector_idx, sector_idx + ucast num_sectors))"

section \<open>The sectors of a file\<close>

text \<open>A callback gets the cluster and the sector and says whether to stop.\<close>

function cl_sectors_loop :: "(u32 \<Rightarrow> u64 \<Rightarrow> 's \<Rightarrow> bool \<times> 's) \<Rightarrow> u32 \<Rightarrow> u64 \<Rightarrow> u64 \<Rightarrow> 's \<Rightarrow> bool \<times> 's" where
  "cl_sectors_loop cb cl s e st =
     (if s < e
      then let (stop, st) = cb cl s st in if stop then (True, st) else cl_sectors_loop cb cl (s + 1) e st
      else (False, st))"
  by auto
termination
proof (relation "measure (\<lambda>(_, _, s, e, _). unat e - unat s)", goal_cases)
  case (2 cb cl s e st r stop st')
  then have "s < e" by simp
  then show ?case using unat_Suc_less [OF \<open>s < e\<close>] by (simp add: word_less_nat_alt)
qed simp

declare cl_sectors_loop.simps [simp del]

text \<open>The reader gets the state the callback works on, since a callback may write to the device.\<close>

partial_function (option) file_sectors_loop ::
  "boot_sector \<Rightarrow> ('s \<Rightarrow> sector_reader) \<Rightarrow> (u32 \<Rightarrow> u64 \<Rightarrow> 's \<Rightarrow> bool \<times> 's) \<Rightarrow> u32 \<Rightarrow> cluster_it \<Rightarrow> 's \<Rightarrow> 's kres option" where
  "file_sectors_loop b rd cb size_sectors ci st =
     (if size_sectors \<noteq> 0 \<and> ci_valid ci
      then let sectors_per_cluster = fat32_get_sectors_per_cluster b;
               num_sectors = (if size_sectors > sectors_per_cluster then sectors_per_cluster else size_sectors);
               (s, e) = cl_sector_iter_init b (ci_cluster_idx ci) num_sectors;
               (stop, st) = cl_sectors_loop cb (ci_cluster_idx ci) s e st
           in if stop then Some (Inr st)
              else case cluster_it_next b (rd st) ci of
                     Inl p \<Rightarrow> Some (Inl p)
                   | Inr ci \<Rightarrow> file_sectors_loop b rd cb (size_sectors - num_sectors) ci st
      else Some (Inr st))"

definition fat32_iterate_file_sectors ::
  "boot_sector \<Rightarrow> ('s \<Rightarrow> sector_reader) \<Rightarrow> bmem \<Rightarrow> ptr \<Rightarrow> (u32 \<Rightarrow> u64 \<Rightarrow> 's \<Rightarrow> bool \<times> 's) \<Rightarrow> 's \<Rightarrow> 's kres option" where
  "fat32_iterate_file_sectors b rd m d cb st =
     (let sector_size = fat32_get_logical_sector_size b;
          size_bytes = fat32_dentry_get_file_size m d;
          size_sectors = (size_bytes + sector_size - 1) div sector_size
      in file_sectors_loop b rd cb size_sectors (cluster_it_init (fat32_dentry_get_cluster m d)) st)"

section \<open>Directories\<close>

text \<open>A directory callback gets the memory with the entry, the entry and the first of its long name
  entries, and says whether to stop. Its own buffers are part of the memory it may change.\<close>

type_synonym 's dir_cb = "ptr \<Rightarrow> ptr option \<Rightarrow> bmem \<times> 's \<Rightarrow> bool \<times> bmem \<times> 's"

datatype dir_scan = DIR_STOP | DIR_EOF | DIR_MORE

text \<open>The loop \<^verbatim>\<open>while(1)\<close> over the entries of a sector behind the first one.\<close>

partial_function (option) dir_entries_loop ::
  "'s dir_cb \<Rightarrow> ptr \<Rightarrow> ptr \<Rightarrow> ptr option \<Rightarrow> bmem \<times> 's \<Rightarrow> (dir_scan \<times> bmem \<times> 's) option" where
  "dir_entries_loop cb d d_end first_le ms =
     (case fat32_dentry_next (fst ms) d d_end first_le of
        None \<Rightarrow> None
      | Some (None, _) \<Rightarrow> Some (DIR_EOF, ms)
      | Some (Some d, first_le) \<Rightarrow>
          if d = d_end then Some (DIR_MORE, ms)
          else let (stop, ms) = cb d first_le ms
               in if stop then Some (DIR_STOP, ms) else dir_entries_loop cb d d_end None ms)"

definition dir_sector ::
  "boot_sector \<Rightarrow> 's dir_cb \<Rightarrow> ptr \<Rightarrow> bmem \<times> 's \<Rightarrow> (dir_scan \<times> bmem \<times> 's) option" where
  "dir_sector b cb buf ms =
     (let d = buf; d_end = buf + unat (fat32_get_logical_sector_size b);
          first_le = (if fat32_dentry_is_vfat_lfn (fst ms) d then Some d else None)
      in if first_le = None \<and> fat32_dentry_is_valid (fst ms) d
         then let (stop, ms) = cb d first_le ms
              in if stop then Some (DIR_STOP, ms) else dir_entries_loop cb d d_end first_le ms
         else dir_entries_loop cb d d_end first_le ms)"

text \<open>A sector is read to \<open>buf\<close>.\<close>

definition store_bytes :: "ptr \<Rightarrow> u8 list \<Rightarrow> bmem \<Rightarrow> bmem" where
  "store_bytes p bs m = (\<lambda>a. if p \<le> a \<and> a < p + length bs then bs ! (a - p) else m a)"

text \<open>The sectors of one cluster: the third component is the code the iteration ends with, if it
  ends here.\<close>

partial_function (option) dir_cluster_loop ::
  "boot_sector \<Rightarrow> sector_reader \<Rightarrow> 's dir_cb \<Rightarrow> ptr \<Rightarrow> u64 \<Rightarrow> u64 \<Rightarrow> bmem \<times> 's \<Rightarrow> (bmem \<times> 's \<times> int option) option" where
  "dir_cluster_loop b rd cb buf s e ms =
     (if s < e
      then case rd s of
             Inl err \<Rightarrow> Some (fst ms, snd ms, Some err)
           | Inr bs \<Rightarrow>
               (case dir_sector b cb buf (store_bytes buf bs (fst ms), snd ms) of
                  None \<Rightarrow> None
                | Some (DIR_MORE, ms) \<Rightarrow> dir_cluster_loop b rd cb buf (s + 1) e ms
                | Some (_, ms) \<Rightarrow> Some (fst ms, snd ms, Some ERR_OK))
      else Some (fst ms, snd ms, None))"

partial_function (option) dir_clusters ::
  "boot_sector \<Rightarrow> sector_reader \<Rightarrow> 's dir_cb \<Rightarrow> ptr \<Rightarrow> cluster_it \<Rightarrow> bmem \<times> 's \<Rightarrow> (int \<times> bmem \<times> 's) kres option" where
  "dir_clusters b rd cb buf ci ms =
     (if ci_valid ci
      then let (s, e) = cl_sector_iter_init b (ci_cluster_idx ci) (fat32_get_sectors_per_cluster b)
           in (case dir_cluster_loop b rd cb buf s e ms of
                 None \<Rightarrow> None
               | Some (m, st, Some err) \<Rightarrow> Some (Inr (err, m, st))
               | Some (m, st, None) \<Rightarrow>
                   (case cluster_it_next b rd ci of
                      Inl p \<Rightarrow> Some (Inl p)
                    | Inr ci \<Rightarrow> dir_clusters b rd cb buf ci (m, st)))
      else Some (Inr (ERR_OK, ms)))"

definition fat32_iterate_directory ::
  "boot_sector \<Rightarrow> sector_reader \<Rightarrow> u32 \<Rightarrow> 's dir_cb \<Rightarrow> ptr \<Rightarrow> bmem \<times> 's \<Rightarrow> (int \<times> bmem \<times> 's) kres option" where
  "fat32_iterate_directory b rd dir_start_cluster cb buf ms =
     dir_clusters b rd cb buf (cluster_it_init dir_start_cluster) ms"

section \<open>Lookup\<close>

text \<open>\<^verbatim>\<open>struct fat32_compare_filename_arg\<close>: the result of the comparison and the copied entry.\<close>

record compare_arg =
  ca_err :: int
  ca_dentry :: "u8 list"

text \<open>\<open>filename\<close> is the address of the name looked for, \<open>namebuf\<close> that of the callback's buffer.\<close>

definition fat32_compare_filename_cb :: "ptr \<Rightarrow> ptr \<Rightarrow> compare_arg dir_cb" where
  "fat32_compare_filename_cb filename namebuf d le = (\<lambda>(m, arg).
     let m = fat32_dentry_get_filename d le namebuf 128 m
     in if strcmp m namebuf filename = Some 0
        then (True, m, \<lparr>ca_err = ERR_OK, ca_dentry = map (\<lambda>i. m (d + i)) [0 ..< sizeof_fat_dentry]\<rparr>)
        else (False, m, arg))"

function filepath_get_next_element :: "u8 list \<Rightarrow> nat \<Rightarrow> nat" where
  "filepath_get_next_element path p =
     (if p < length path \<and> path ! p \<noteq> 47 then filepath_get_next_element path (p + 1) else p)"
  by auto
termination by (relation "measure (\<lambda>(path, p). length path - p)") auto

declare filepath_get_next_element.simps [simp del]

text \<open>
  The stack frame of \<^verbatim>\<open>fat32_lookup\<close> and of the callback: the addresses of the sector buffer,
  of the lookup's name buffer (128 bytes) and of the callback's.
\<close>

record lookup_frame =
  lf_buf :: ptr
  lf_name :: ptr
  lf_namebuf :: ptr

text \<open>The path is a list of non-zero bytes. \<open>arg\<close> is what the argument structure holds before.
  \<open>Inr (err, m, d)\<close> is the returned code, the memory and what was copied to the result, if anything.\<close>

partial_function (option) lookup_loop ::
  "boot_sector \<Rightarrow> sector_reader \<Rightarrow> lookup_frame \<Rightarrow> u8 list \<Rightarrow> nat \<Rightarrow> bmem \<times> compare_arg \<Rightarrow>
    (int \<times> bmem \<times> u8 list option) kres option" where
  "lookup_loop b rd fr path p ms =
     (let q = filepath_get_next_element path p; n = q - p
      in if n = 0 then Some (Inr (0, fst ms, Some (ca_dentry (snd ms))))
         else if 128 \<le> n then Some (Inl ''namebuf out of bounds'')
         else let m = store_bytes (lf_name fr) (take n (drop p path) @ [0]) (fst ms);
                  p = (if q < length path \<and> path ! q = 47 then q + 1 else q);
                  arg = (snd ms)\<lparr>ca_err := ERR_NOT_FOUND\<rparr>
              in case fat32_iterate_directory b rd (fat32_get_root_dir_cluster b)
                        (fat32_compare_filename_cb (lf_name fr) (lf_namebuf fr)) (lf_buf fr) (m, arg) of
                   None \<Rightarrow> None
                 | Some (Inl e) \<Rightarrow> Some (Inl e)
                 | Some (Inr (err, m, arg)) \<Rightarrow>
                     if err \<noteq> 0 then Some (Inr (err, m, None))
                     else if ca_err arg \<noteq> ERR_OK then Some (Inr (err, m, None))
                     else lookup_loop b rd fr path p (m, arg))"

definition fat32_lookup ::
  "boot_sector \<Rightarrow> sector_reader \<Rightarrow> lookup_frame \<Rightarrow> u8 list \<Rightarrow> bmem \<times> compare_arg \<Rightarrow>
    (int \<times> bmem \<times> u8 list option) kres option" where
  "fat32_lookup b rd fr path ms =
     (if path = [] \<or> hd path \<noteq> 47 then Some (Inr (-1, fst ms, None)) else lookup_loop b rd fr path 1 ms)"

text \<open>What \<^verbatim>\<open>fat32_dentry_print\<close> prints: the name in \<open>namebuf\<close>, the size, the cluster and the
  attributes.\<close>

definition fat32_dentry_print :: "ptr \<Rightarrow> (u8 list \<times> u32 \<times> u32 \<times> u8) list dir_cb" where
  "fat32_dentry_print namebuf d le = (\<lambda>(m, out).
     let m = fat32_dentry_get_filename d le namebuf 128 m
     in (False, m, out @ [(map (\<lambda>i. m (namebuf + i)) [0 ..< 128], fat32_dentry_get_file_size m d,
           fat32_dentry_get_cluster m d, m (d + 11))]))"

definition fat32_file_sectors_cb_print :: "u32 \<Rightarrow> u64 \<Rightarrow> (u32 \<times> u64) list \<Rightarrow> bool \<times> (u32 \<times> u64) list" where
  "fat32_file_sectors_cb_print cluster sector out = (False, out @ [(cluster, sector)])"

text \<open>\<^verbatim>\<open>fat32_ls\<close> with the printing callback as a parameter: other paths than the root list the
  cluster 2.\<close>

definition fat32_ls ::
  "boot_sector \<Rightarrow> sector_reader \<Rightarrow> u8 list \<Rightarrow> 's dir_cb \<Rightarrow> ptr \<Rightarrow> bmem \<times> 's \<Rightarrow> (int \<times> bmem \<times> 's) kres option" where
  "fat32_ls b rd dirpath cb buf ms =
     (let cluster = (if dirpath = [47] then fat32_get_root_dir_cluster b else 2)
      in fat32_iterate_directory b rd cluster cb buf ms)"

definition fat32_dump_file_cluster_chain ::
  "boot_sector \<Rightarrow> sector_reader \<Rightarrow> lookup_frame \<Rightarrow> u8 list \<Rightarrow> (u32 \<Rightarrow> u64 \<Rightarrow> 's \<Rightarrow> bool \<times> 's) \<Rightarrow> bmem \<times> compare_arg \<Rightarrow>
    's \<Rightarrow> u8 list \<Rightarrow> (int \<times> 's) kres option" where
  "fat32_dump_file_cluster_chain b rd fr filename cb ms st d0 =
     (case fat32_lookup b rd fr filename ms of
        None \<Rightarrow> None
      | Some (Inl e) \<Rightarrow> Some (Inl e)
      | Some (Inr (err, m, d)) \<Rightarrow>
          if err \<noteq> 0 then Some (Inr (err, st))
          else let bs = (case d of Some bs \<Rightarrow> bs | None \<Rightarrow> d0)
               in (case fat32_iterate_file_sectors b (\<lambda>_. rd) (store_bytes 0 bs (\<lambda>_. 0)) 0 cb st of
                     None \<Rightarrow> None
                   | Some (Inl e) \<Rightarrow> Some (Inl e)
                   | Some (Inr st) \<Rightarrow> Some (Inr (ERR_OK, st))))"

section \<open>Lemmas\<close>

text \<open>Calling a callback on a list of clusters and sectors until it stops.\<close>

fun visit :: "(u32 \<Rightarrow> u64 \<Rightarrow> 's \<Rightarrow> bool \<times> 's) \<Rightarrow> (u32 \<times> u64) list \<Rightarrow> 's \<Rightarrow> bool \<times> 's" where
  "visit cb [] st = (False, st)"
| "visit cb ((c, s) # xs) st = (let (stop, st) = cb c s st in if stop then (True, st) else visit cb xs st)"

lemma visit_append:
  "visit cb (xs @ ys) st = (let (stop, st) = visit cb xs st in if stop then (True, st) else visit cb ys st)"
  by (induction cb xs st rule: visit.induct) (auto split: prod.splits)

lemma cl_sectors_loop_visit:
  "unat e = unat s + n \<Longrightarrow> cl_sectors_loop cb cl s e st = visit cb (map (\<lambda>i. (cl, s + of_nat i)) [0 ..< n]) st"
proof (induction n arbitrary: s st)
  case 0
  then show ?case by (simp add: cl_sectors_loop.simps [of cb cl s e] word_less_nat_alt)
next
  case (Suc n)
  then have lt: "s < e" by (simp add: word_less_nat_alt)
  have "unat e = unat (s + 1) + n" using Suc.prems unat_Suc_less [OF lt] by simp
  moreover have "map (\<lambda>i. (cl, s + of_nat i)) [0 ..< Suc n] = (cl, s) # map (\<lambda>i. (cl, s + 1 + of_nat i)) [0 ..< n]"
    by (simp add: upt_conv_Cons map_Suc_upt [symmetric] comp_def add.assoc del: upt_Suc)
  ultimately show ?case
    using lt Suc.IH [of "s + 1"] by (simp add: cl_sectors_loop.simps [of cb cl s e] split: prod.splits del: upt_Suc)
qed

definition first_sector :: "boot_sector \<Rightarrow> u32 \<Rightarrow> u64" where
  "first_sector b c = fat32_get_data_start_sector b +
     ucast ((c - FAT32_DATA_FIRST_CLUSTER) * fat32_get_sectors_per_cluster b)"

lemma unat_ucast_32_64: "unat (ucast (y :: u32) :: u64) = unat y" "unat y < 2 ^ 32"
proof -
  have "unat y < 2 ^ LENGTH(32)" by (rule unsigned_less)
  then show "unat (ucast y :: u64) = unat y" "unat y < 2 ^ 32"
    by (simp_all add: unsigned_ucast_eq take_bit_nat_eq_self)
qed

lemma cl_sector_iter_init_range:
  assumes "cl_sector_iter_init b c n = (s, e)"
  shows "s = first_sector b c" "unat e = unat s + unat n"
proof -
  define x :: u32 where "x = ucast (fat32_get_num_reserved_sectors b) + fat32_get_num_fat_sectors b"
  define y where "y = (c - FAT32_DATA_FIRST_CLUSTER) * fat32_get_sectors_per_cluster b"
  have s: "s = ucast x + ucast y" and e: "e = s + ucast n"
    using assms by (auto simp: cl_sector_iter_init_def Let_def fat32_get_data_start_sector_def x_def y_def)
  then show "s = first_sector b c" by (simp add: first_sector_def fat32_get_data_start_sector_def x_def y_def)
  have "unat s = unat x + unat y"
    using unat_ucast_32_64 [of x] unat_ucast_32_64 [of y] by (simp add: s unat_word_ariths)
  then show "unat e = unat s + unat n"
    using unat_ucast_32_64 [of x] unat_ucast_32_64 [of y] unat_ucast_32_64 [of n] by (simp add: e unat_word_ariths)
qed

text \<open>A chain of clusters as the FAT gives it; the entry of the last one may be anything that can be
  read.\<close>

fun cluster_chain :: "boot_sector \<Rightarrow> sector_reader \<Rightarrow> u32 list \<Rightarrow> bool" where
  "cluster_chain b rd [] \<longleftrightarrow> False"
| "cluster_chain b rd [c] \<longleftrightarrow> (case fat32_get_next_cluster_num b rd c of Inl _ \<Rightarrow> False | Inr _ \<Rightarrow> True)"
| "cluster_chain b rd (c # c' # cs) \<longleftrightarrow> fat32_get_next_cluster_num b rd c = Inr c' \<and>
     c' \<noteq> FAT32_ENTRY_END_OF_CHAIN \<and> c' \<noteq> FAT32_ENTRY_END_OF_CHAIN_ALT \<and> cluster_chain b rd (c' # cs)"

definition chain_sectors :: "boot_sector \<Rightarrow> u32 list \<Rightarrow> (u32 \<times> u64) list" where
  "chain_sectors b cs = concat (map (\<lambda>c. map (\<lambda>i. (c, first_sector b c + of_nat i))
     [0 ..< unat (fat32_get_sectors_per_cluster b)]) cs)"

lemma chain_sectors_simps [simp]:
  "chain_sectors b [] = []"
  "chain_sectors b (c # cs) = map (\<lambda>i. (c, first_sector b c + of_nat i))
     [0 ..< unat (fat32_get_sectors_per_cluster b)] @ chain_sectors b cs"
  by (simp_all add: chain_sectors_def)

lemma file_sectors_loop_done [simp]: "file_sectors_loop b rds cb 0 ci st = Some (Inr st)"
  by (simp add: file_sectors_loop.simps)

text \<open>The callback may change what the reader returns, as long as \<open>I\<close>, which gives the chain of \<open>rd\<close>,
  is kept.\<close>

lemma visit_invariant:
  assumes "\<And>c s st. (c, s) \<in> set xs \<Longrightarrow> I st \<Longrightarrow> I (snd (cb c s st))" "I st"
  shows "I (snd (visit cb xs st))"
  using assms by (induction cb xs st rule: visit.induct) (auto simp: Let_def split: prod.splits, (metis snd_conv)+)

lemma file_sectors_loop_chain:
  assumes "cluster_chain b rd cs" "fat32_get_sectors_per_cluster b \<noteq> 0"
    "unat sz \<le> unat (fat32_get_sectors_per_cluster b) * length cs"
    "\<And>c st. c \<in> set cs \<Longrightarrow> I st \<Longrightarrow> fat32_get_next_cluster_num b (rds st) c = fat32_get_next_cluster_num b rd c"
    "\<And>c s st. (c, s) \<in> set (chain_sectors b cs) \<Longrightarrow> I st \<Longrightarrow> I (snd (cb c s st))" "I st"
  shows "file_sectors_loop b rds cb sz \<lparr>ci_cluster_idx = hd cs, ci_valid = True\<rparr> st =
    Some (Inr (snd (visit cb (take (unat sz) (chain_sectors b cs)) st)))"
  using assms
proof (induction cs arbitrary: sz st)
  case Nil
  then show ?case by simp
next
  case (Cons c cs)
  let ?spc = "fat32_get_sectors_per_cluster b"
  let ?n = "if sz > ?spc then ?spc else sz"
  show ?case
  proof (cases "sz = 0")
    case True
    then show ?thesis by simp
  next
    case False
    obtain s e where se: "cl_sector_iter_init b c ?n = (s, e)" by fastforce
    note r = cl_sector_iter_init_range [OF se]
    let ?here = "map (\<lambda>i. (c, first_sector b c + of_nat i)) [0 ..< unat ?n]"
    have loop: "cl_sectors_loop cb c s e st = visit cb ?here st"
      using cl_sectors_loop_visit [OF r(2), of cb c st] r(1) by simp
    have n: "unat ?n = min (unat ?spc) (unat sz)" by (auto simp: word_less_nat_alt min_def)
    have split: "take (unat sz) (chain_sectors b (c # cs)) = ?here @ take (unat sz - unat ?spc) (chain_sectors b cs)"
      using n by (auto simp: take_map min_def)
    obtain stop st' where v: "visit cb ?here st = (stop, st')" by fastforce
    have sub_here: "set ?here \<subseteq> set (chain_sectors b (c # cs))" using n by auto
    have "I (snd (visit cb ?here st))"
      by (rule visit_invariant [where I = I], rule Cons.prems(5)) (use sub_here Cons.prems(6) in auto)
    then have I': "I st'" using v by simp
    obtain nx where nx: "fat32_get_next_cluster_num b rd c = Inr nx"
      using Cons.prems(1) by (cases cs) (auto split: sum.splits)
    then have nx': "fat32_get_next_cluster_num b (rds st') c = Inr nx"
      using Cons.prems(4) [of c st'] I' by simp
    then obtain ci where ci: "cluster_it_next b (rds st') \<lparr>ci_cluster_idx = c, ci_valid = True\<rparr> = Inr ci"
      by (simp add: cluster_it_next_def)
    have step: "file_sectors_loop b rds cb sz \<lparr>ci_cluster_idx = c, ci_valid = True\<rparr> st =
      (if stop then Some (Inr st') else file_sectors_loop b rds cb (sz - ?n) ci st')"
      using False se loop v ci by (simp add: file_sectors_loop.simps [of b _ cb sz] Let_def)
    show ?thesis
    proof (cases "stop \<or> sz \<le> ?spc")
      case True
      then have "\<not> stop \<Longrightarrow> ?n = sz" "\<not> stop \<Longrightarrow> unat sz - unat ?spc = 0"
        by (auto simp: word_le_nat_alt word_less_nat_alt)
      then show ?thesis unfolding split visit_append using step v by auto
    next
      case go: False
      then have gt: "unat ?spc < unat sz" "?n = ?spc" by (simp_all add: word_less_nat_alt not_le)
      have "cs \<noteq> []" using Cons.prems(3) gt by auto
      then obtain c' cs' where cs: "cs = c' # cs'" by (cases cs) auto
      have ch: "cluster_chain b rd cs" "ci = \<lparr>ci_cluster_idx = hd cs, ci_valid = True\<rparr>"
        using Cons.prems(1) ci nx nx' by (auto simp: cs cluster_it_next_def)
      have sub: "unat (sz - ?spc) = unat sz - unat ?spc"
        using gt by (simp add: unat_sub_if')
      have "unat (sz - ?spc) \<le> unat ?spc * length cs" using Cons.prems(3) sub by simp
      from Cons.IH [where st = st', OF ch(1) Cons.prems(2) this Cons.prems(4,5) I'] show ?thesis
        unfolding split visit_append using step v go gt ch(2) sub by simp
    qed
  qed
qed

lemma zero_sector:
  assumes "i < length bs" "bs = replicate k 0"
  shows "store_bytes p bs m (p + i) = 0"
  using assms by (simp add: store_bytes_def)

lemma empty_dir_sector:
  assumes "fat32_get_logical_sector_size b = 512"
  shows "dir_sector b cb buf (store_bytes buf (replicate 512 0) m, st) =
    Some (DIR_EOF, store_bytes buf (replicate 512 0) m, st)"
proof -
  let ?m = "store_bytes buf (replicate 512 0) m"
  have z: "?m (buf + i) = 0" if "i < 512" for i using that by (simp add: zero_sector)
  have z0: "?m buf = 0" using z [of 0] by simp
  have z32: "?m (buf + 32 + i) = 0" if "i < 32" for i using z [of "32 + i"] that by (simp add: add.assoc)
  have no: "\<not> fat32_dentry_is_vfat_lfn ?m buf" "\<not> fat32_dentry_is_valid ?m buf"
    using z [of 11] z0 by (simp_all add: fat32_dentry_is_vfat_lfn_def FAT_FILE_ATTR_VFAT_LFN_def fat32_dentry_is_valid_def)
  have "\<not> fat32_dentry_is_vfat_lfn ?m (buf + 32)" "\<not> fat32_dentry_is_deleted ?m (buf + 32)"
    "\<not> fat32_dentry_is_valid ?m (buf + 32)" "fat32_dentry_is_end_mark ?m (buf + 32)"
    using z32 [of 11] z32 [of 0] z32
    by (simp_all add: fat32_dentry_is_vfat_lfn_def FAT_FILE_ATTR_VFAT_LFN_def fat32_dentry_is_valid_def
        fat32_dentry_is_deleted_def FAT_ENTRY_DELETED_MARK_def fat32_dentry_is_end_mark_def
        sizeof_fat_dentry_def list_all_iff)
  then have "fat32_dentry_next ?m buf (buf + 512) None = Some (None, None)"
    by (simp add: fat32_dentry_next.simps [of ?m buf] sizeof_fat_dentry_def Let_def)
  then show ?thesis using no assms by (simp add: dir_sector_def Let_def dir_entries_loop.simps)
qed

lemma filepath_element_all:
  "47 \<notin> set (drop p path) \<Longrightarrow> p \<le> length path \<Longrightarrow> filepath_get_next_element path p = length path"
proof (induction path p rule: filepath_get_next_element.induct)
  case (1 path p)
  show ?case
  proof (cases "p < length path")
    case True
    then have "drop p path = path ! p # drop (p + 1) path" by (simp add: Cons_nth_drop_Suc)
    then show ?thesis using 1 True by (auto simp: filepath_get_next_element.simps [of path p])
  next
    case False
    then have "filepath_get_next_element path p = p" by (simp add: filepath_get_next_element.simps [of path p])
    then show ?thesis using False 1(3) by simp
  qed
qed

section \<open>Properties\<close>

text \<open>Iterating over a file visits exactly the sectors of the file's cluster chain, in
  order, each with the cluster it belongs to: as many as the file size needs, none behind them, and it
  stops early only where the callback asks for it. The iteration ends for every chain that is long
  enough for the size.\<close>

theorem file_sectors_visited:
  assumes "cluster_chain b rd cs" "hd cs = fat32_dentry_get_cluster m d"
    "fat32_get_sectors_per_cluster b \<noteq> 0"
    "sz = (fat32_dentry_get_file_size m d + fat32_get_logical_sector_size b - 1) div fat32_get_logical_sector_size b"
    "unat sz \<le> unat (fat32_get_sectors_per_cluster b) * length cs"
  shows "fat32_iterate_file_sectors b (\<lambda>_. rd) m d cb st =
    Some (Inr (snd (visit cb (take (unat sz) (chain_sectors b cs)) st)))"
  using file_sectors_loop_chain [OF assms(1,3,5), of "\<lambda>_. True" "\<lambda>_. rd" cb st] assms(2,4)
  by (simp add: fat32_iterate_file_sectors_def Let_def cluster_it_init_def)

text \<open>A file system with one sector per cluster, one reserved sector and a FAT of one sector in which
  cluster 2 is followed by cluster 3, and the entry of a file of 700 bytes in cluster 2.\<close>

definition sample_boot_sector :: boot_sector where
  "sample_boot_sector = (\<lambda>_. 0)(12 := 2, 13 := 1, 14 := 1, 16 := 1, 36 := 1, 44 := 2)"

definition sample_fat :: "u8 list" where
  "sample_fat = replicate 8 0 @ [3, 0, 0, 0, 0xff, 0xff, 0xff, 0x0f] @ replicate 496 0"

definition sample_reader :: sector_reader where
  "sample_reader s = Inr (if s = 1 then sample_fat else replicate 512 0)"

definition sample_dentry :: bmem where
  "sample_dentry = (\<lambda>_. 0)(0 := 65, 26 := 2, 28 := 0xbc, 29 := 2)"

lemmas sample_boot_fields = fat32_get_num_reserved_sectors_def fat32_get_logical_sector_size_def
  fat32_get_sectors_per_fat_def fat32_get_num_fat_sectors_def fat32_get_num_fats_def
  fat32_get_data_start_sector_def fat32_get_sectors_per_cluster_def fat32_get_root_dir_cluster_def
  get_unaligned_16_le_def get_unaligned_32_le_def sample_boot_sector_def

lemma sample_boot:
  "fat32_get_num_reserved_sectors sample_boot_sector = 1" "fat32_get_logical_sector_size sample_boot_sector = 512"
  "fat32_get_sectors_per_fat sample_boot_sector = 1" "fat32_get_data_start_sector sample_boot_sector = 2"
  "fat32_get_sectors_per_cluster sample_boot_sector = 1"
  by (simp_all add: sample_boot_fields)

lemma sample_chain:
  assumes "rd 1 = Inr sample_fat"
  shows "cluster_chain sample_boot_sector rd [2, 3]"
proof -
  have nth: "sample_fat ! 8 = 3" "sample_fat ! 9 = 0" "sample_fat ! 10 = 0" "sample_fat ! 11 = 0"
    "sample_fat ! 12 = 0xff" "sample_fat ! 13 = 0xff" "sample_fat ! 14 = 0xff" "sample_fat ! 15 = 0x0f"
    "length sample_fat = 512" by (simp_all add: sample_fat_def nth_append)
  have nx: "fat32_get_next_cluster_num sample_boot_sector rd 2 = Inr 3"
    "fat32_get_next_cluster_num sample_boot_sector rd 3 = Inr 0x0fffffff"
    by (simp_all add: fat32_get_next_cluster_num_def sample_boot assms nth le32_at_def get_unaligned_32_le_def Let_def)
  then show ?thesis by (simp add: FAT32_ENTRY_END_OF_CHAIN_def FAT32_ENTRY_END_OF_CHAIN_ALT_def)
qed

lemma sample_file:
  "fat32_dentry_get_cluster sample_dentry 0 = 2" "fat32_dentry_get_file_size sample_dentry 0 = 700"
  "chain_sectors sample_boot_sector [2, 3] = [(2, 2), (3, 3)]"
  by (simp_all add: fat32_dentry_get_cluster_def fat32_dentry_get_file_size_def get_unaligned_16_le_def
      get_unaligned_32_le_def sample_dentry_def sample_boot first_sector_def FAT32_DATA_FIRST_CLUSTER_def)

lemma sample_size:
  "(2 :: u32) = (fat32_dentry_get_file_size sample_dentry 0 +
     fat32_get_logical_sector_size sample_boot_sector - 1) div fat32_get_logical_sector_size sample_boot_sector"
  unfolding sample_file sample_boot by simp

theorem file_sectors_visited_witness:
  "fat32_iterate_file_sectors sample_boot_sector (\<lambda>_. sample_reader) sample_dentry 0 fat32_file_sectors_cb_print [] =
    Some (Inr [(2, 2), (3, 3)])"
proof -
  have "sample_reader 1 = Inr sample_fat" by (simp add: sample_reader_def)
  then have "fat32_iterate_file_sectors sample_boot_sector (\<lambda>_. sample_reader) sample_dentry 0 fat32_file_sectors_cb_print [] =
    Some (Inr (snd (visit fat32_file_sectors_cb_print (take (unat (2 :: u32))
      (chain_sectors sample_boot_sector [2, 3])) [])))"
    by (intro file_sectors_visited [OF sample_chain _ _ sample_size]) (simp_all add: sample_file sample_boot)
  then show ?thesis unfolding sample_file by (simp add: fat32_file_sectors_cb_print_def)
qed

text \<open>Looking up a name that the root directory does not have reports success: in an empty
  root directory \<^verbatim>\<open>fat32_lookup\<close> returns 0 for every name and leaves the caller's entry as it
  was.\<close>

theorem lookup_missing_returns_ok:
  assumes "fat32_get_logical_sector_size b = 512" "fat32_get_sectors_per_cluster b \<noteq> 0"
    "rd (first_sector b (fat32_get_root_dir_cluster b)) = Inr (replicate 512 0)"
    "name \<noteq> []" "47 \<notin> set name" "length name < 128"
  shows "\<exists>m'. fat32_lookup b rd fr (47 # name) ms = Some (Inr (0, m', None))"
proof -
  let ?root = "fat32_get_root_dir_cluster b" and ?spc = "fat32_get_sectors_per_cluster b"
  have el: "filepath_get_next_element (47 # name) 1 = length name + 1"
    using filepath_element_all [of 1 "47 # name"] assms(5) by simp
  obtain s e where se: "cl_sector_iter_init b ?root ?spc = (s, e)" by fastforce
  note r = cl_sector_iter_init_range [OF se]
  have lt: "s < e" using r(2) assms(2) by (simp add: word_less_nat_alt unat_gt_0)
  have it: "\<exists>m2. fat32_iterate_directory b rd ?root cb buf (m, arg) = Some (Inr (ERR_OK, m2, arg))"
    for cb :: "compare_arg dir_cb" and buf m arg
    using se lt r(1) assms(3) empty_dir_sector [OF assms(1), of cb buf m arg]
    by (simp add: fat32_iterate_directory_def cluster_it_init_def dir_clusters.simps dir_cluster_loop.simps)
  define m1 where "m1 = store_bytes (lf_name fr) (name @ [0]) (fst ms)"
  define arg where "arg = (snd ms)\<lparr>ca_err := ERR_NOT_FOUND\<rparr>"
  obtain m2 where m2: "fat32_iterate_directory b rd ?root
      (fat32_compare_filename_cb (lf_name fr) (lf_namebuf fr)) (lf_buf fr) (m1, arg) = Some (Inr (ERR_OK, m2, arg))"
    using it by blast
  have "ERR_NOT_FOUND \<noteq> ERR_OK" "ERR_OK = 0" by (simp_all add: err_defs)
  then have "lookup_loop b rd fr (47 # name) 1 ms = Some (Inr (0, m2, None))"
    using assms(4,6) el m2 by (simp add: lookup_loop.simps [of b rd fr "47 # name"] Let_def m1_def arg_def)
  then show ?thesis by (simp add: fat32_lookup_def)
qed

theorem lookup_missing_returns_ok_witness:
  "\<exists>m'. fat32_lookup sample_boot_sector (\<lambda>_. Inr (replicate 512 0)) \<lparr>lf_buf = 1000, lf_name = 3000, lf_namebuf = 4000\<rparr>
     (47 # [97, 98]) (\<lambda>_. 0, \<lparr>ca_err = 0, ca_dentry = []\<rparr>) = Some (Inr (0, m', None))"
  by (rule lookup_missing_returns_ok) (simp_all add: sample_boot_fields)

end
