(* ===== verification/Fs.thy ===== *)
theory Fs
  imports Fat32
begin

text \<open>
  Block devices and partitions (\<^verbatim>\<open>src/include/block_device.h\<close>,
  \<^verbatim>\<open>src/fs/partition_device.c\<close>, \<^verbatim>\<open>src/fs/partition_table.c\<close>) and the image writer of
  \<^verbatim>\<open>src/fs/fs.c\<close>. The SD card driver's \<^verbatim>\<open>emmc_init\<close>, \<^verbatim>\<open>emmc_read\<close> and
  \<^verbatim>\<open>emmc_write\<close> are parameters; what the writer relies on is the named contract
  \<open>emmc_contract\<close>. Device functions work on the byte memory and the state of the card.
\<close>

section \<open>Block devices\<close>

type_synonym 'd bd_op = "ptr \<Rightarrow> u32 \<Rightarrow> u64 \<Rightarrow> u32 \<Rightarrow> bmem \<times> 'd \<Rightarrow> int \<times> bmem \<times> 'd"
type_synonym 'd emmc_op = "int \<Rightarrow> int \<Rightarrow> ptr \<Rightarrow> int \<Rightarrow> bmem \<times> 'd \<Rightarrow> int \<times> bmem \<times> 'd"

record 'd block_device =
  bd_read :: "'d bd_op"
  bd_write :: "'d bd_op"
  bd_sector_size :: nat

text \<open>The loop of \<^verbatim>\<open>emmc_block_device_read\<close> and \<^verbatim>\<open>emmc_block_device_write\<close>, which differ in the
  driver's function only. The driver takes the sector as a C \<^verbatim>\<open>int\<close>.\<close>

function emmc_block_loop ::
  "'d emmc_op \<Rightarrow> nat \<Rightarrow> u64 \<Rightarrow> u32 \<Rightarrow> u32 \<Rightarrow> ptr \<Rightarrow> ptr \<Rightarrow> bmem \<times> 'd \<Rightarrow> int \<times> bmem \<times> 'd" where
  "emmc_block_loop op sector_size start_sector n i p bufend md =
     (if i < n
      then if bufend \<le> p then (-1, md)
           else let current_sector = ucast i + start_sector;
                    (err, md) = op (sint (ucast current_sector :: u32)) 1 p (int bufend - int p) md
                in if err \<noteq> 0 then (-1, md)
                   else emmc_block_loop op sector_size start_sector n (i + 1) (p + sector_size) bufend md
      else (sint n, md))"
  by auto
termination
proof (relation "measure (\<lambda>(_, _, _, n, i, _). unat n - unat i)", goal_cases)
  case (2 op ss start n i)
  then have "i < n" by simp
  then show ?case using unat_Suc_less [OF \<open>i < n\<close>] by (simp add: word_less_nat_alt)
qed simp

declare emmc_block_loop.simps [simp del]

definition emmc_block_device_read :: "'d emmc_op \<Rightarrow> nat \<Rightarrow> 'd bd_op" where
  "emmc_block_device_read emmc_read sector_size buf bufsz start_sector n md =
     emmc_block_loop emmc_read sector_size start_sector n 0 buf (buf + unat bufsz) md"

definition emmc_block_device_write :: "'d emmc_op \<Rightarrow> nat \<Rightarrow> 'd bd_op" where
  "emmc_block_device_write emmc_write sector_size buf bufsz start_sector n md =
     emmc_block_loop emmc_write sector_size start_sector n 0 buf (buf + unat bufsz) md"

definition emmc_block_device :: "'d emmc_op \<Rightarrow> 'd emmc_op \<Rightarrow> 'd block_device" where
  "emmc_block_device emmc_read emmc_write =
     \<lparr>bd_read = emmc_block_device_read emmc_read 512, bd_write = emmc_block_device_write emmc_write 512,
      bd_sector_size = 512\<rparr>"

section \<open>Partitions\<close>

record 'd partition_device =
  pd_disk_dev :: "'d block_device"
  pd_start_sector :: u64
  pd_end_sector :: u64

definition partition_device_read :: "'d partition_device \<Rightarrow> 'd bd_op" where
  "partition_device_read pdev buf bufsz start_sector n =
     bd_read (pd_disk_dev pdev) buf bufsz (pd_start_sector pdev + start_sector) n"

definition partition_device_write :: "'d partition_device \<Rightarrow> 'd bd_op" where
  "partition_device_write pdev buf bufsz start_sector n =
     bd_write (pd_disk_dev pdev) buf bufsz (pd_start_sector pdev + start_sector) n"

definition partition_device_init :: "'d block_device \<Rightarrow> u64 \<Rightarrow> u64 \<Rightarrow> 'd partition_device" where
  "partition_device_init disk_dev start_sector end_sector =
     \<lparr>pd_disk_dev = disk_dev, pd_start_sector = start_sector, pd_end_sector = end_sector\<rparr>"

text \<open>The block device in the partition device, whose sector size \<^verbatim>\<open>memset\<close> has cleared.\<close>

definition partition_bdev :: "'d partition_device \<Rightarrow> 'd block_device" where
  "partition_bdev pdev =
     \<lparr>bd_read = partition_device_read pdev, bd_write = partition_device_write pdev, bd_sector_size = 0\<rparr>"

section \<open>The partition table\<close>

definition mbr_entry :: "ptr \<Rightarrow> nat \<Rightarrow> ptr" where
  "mbr_entry mbr i = mbr + 446 + 16 * i"

definition mbr_partition_entry_get_lba :: "bmem \<Rightarrow> ptr \<Rightarrow> u32" where
  "mbr_partition_entry_get_lba m e = get_unaligned_32_le m (e + 8)"

definition mbr_partition_entry_get_num_sectors :: "bmem \<Rightarrow> ptr \<Rightarrow> u32" where
  "mbr_partition_entry_get_num_sectors m e = get_unaligned_32_le m (e + 12)"

definition mbr_get_part_by_idx :: "ptr \<Rightarrow> int \<Rightarrow> ptr kres" where
  "mbr_get_part_by_idx mbr i =
     (if i > 3 then Inl ''partition index too large'' else Inr (mbr_entry mbr (nat i)))"

definition mbr_part_get_lba :: "bmem \<Rightarrow> ptr \<Rightarrow> int \<Rightarrow> u32 kres" where
  "mbr_part_get_lba m mbr i =
     kbind (mbr_get_part_by_idx mbr i) (\<lambda>e. Inr (mbr_partition_entry_get_lba m e))"

definition mbr_part_get_num_sectors :: "bmem \<Rightarrow> ptr \<Rightarrow> int \<Rightarrow> u32 kres" where
  "mbr_part_get_num_sectors m mbr i =
     kbind (mbr_get_part_by_idx mbr i) (\<lambda>e. Inr (mbr_partition_entry_get_num_sectors m e))"

definition mbr_get_first_valid_partition :: "bmem \<Rightarrow> ptr \<Rightarrow> ptr option" where
  "mbr_get_first_valid_partition m mbr =
     map_option (mbr_entry mbr) (List.find (\<lambda>i. m (mbr_entry mbr i + 4) \<noteq> 0) [0 ..< 4])"

text \<open>The result of the read is ignored.\<close>

definition mbr_read :: "'d block_device \<Rightarrow> ptr \<Rightarrow> bmem \<times> 'd \<Rightarrow> int \<times> bmem \<times> 'd" where
  "mbr_read b mbr md = (let (_, md) = bd_read b mbr 512 0 1 md in (0, md))"

section \<open>Writing an image\<close>

text \<open>The FAT reader over a device reads one sector to the buffer \<open>fatbuf\<close>.\<close>

definition device_reader :: "'d block_device \<Rightarrow> ptr \<Rightarrow> bmem \<times> 'd \<Rightarrow> sector_reader" where
  "device_reader b fatbuf md s =
     (let (err, m, _) = bd_read b fatbuf 512 s 1 md
      in if err < 0 then Inl err else Inr (map (\<lambda>i. m (fatbuf + i)) [0 ..< 512]))"

record 'd write_image_ctx =
  wi_src :: ptr
  wi_err :: int
  wi_mem :: bmem
  wi_dev :: 'd

definition write_image_per_sector ::
  "'d block_device \<Rightarrow> ptr \<Rightarrow> nat \<Rightarrow> u32 \<Rightarrow> u64 \<Rightarrow> 'd write_image_ctx \<Rightarrow> bool \<times> 'd write_image_ctx" where
  "write_image_per_sector b src_end sector_size cluster sector c =
     (if src_end \<le> wi_src c then (True, c)
      else let (sectors_written, m, d) = bd_write b (wi_src c) (of_nat sector_size) sector 1 (wi_mem c, wi_dev c);
               c = c\<lparr>wi_mem := m, wi_dev := d\<rparr>
           in if sectors_written \<noteq> 1
              then (True, c\<lparr>wi_err := (if sectors_written = 0 then ERR_GENERIC else sectors_written)\<rparr>)
              else (False, c\<lparr>wi_src := wi_src c + sector_size\<rparr>))"

text \<open>The addresses of the static buffers.\<close>

record sd_frame =
  sf_mbr :: ptr
  sf_scratchbuf :: ptr
  sf_fatbuf :: ptr
  sf_lookup :: lookup_frame

text \<open>\<^verbatim>\<open>jtag_sd_card_init\<close>: the code, the memory and card, and on success the partition and the boot
  sector of its file system.\<close>

definition jtag_sd_card_init ::
  "(bmem \<times> 'd \<Rightarrow> int \<times> bmem \<times> 'd) \<Rightarrow> 'd emmc_op \<Rightarrow> 'd emmc_op \<Rightarrow> sd_frame \<Rightarrow> bmem \<times> 'd \<Rightarrow>
    (int \<times> ('d partition_device \<times> boot_sector) option) \<times> bmem \<times> 'd" where
  "jtag_sd_card_init emmc_init emmc_read emmc_write sf md =
     (let (err, md) = emmc_init md
      in if err \<noteq> ERR_OK then ((err, None), md)
         else let b = emmc_block_device emmc_read emmc_write;
                  (err, md) = mbr_read b (sf_mbr sf) md
              in if err \<noteq> ERR_OK then ((err, None), md)
                 else (case mbr_get_first_valid_partition (fst md) (sf_mbr sf) of
                         None \<Rightarrow> ((ERR_NOT_FOUND, None), md)
                       | Some pe \<Rightarrow>
                           let start_sector = ucast (mbr_partition_entry_get_lba (fst md) pe) :: u64;
                               pdev = partition_device_init b start_sector
                                 (start_sector + ucast (mbr_partition_entry_get_num_sectors (fst md) pe));
                               b = partition_bdev pdev;
                               (_, md) = bd_read b (sf_scratchbuf sf) 1024 0 1 md
                           in (case fat32_open (device_reader b (sf_fatbuf sf) md) of
                                 Inl err \<Rightarrow> ((err, None), md)
                               | Inr boot \<Rightarrow> ((ERR_OK, Some (pdev, boot)), md))))"

definition u_boot_bin :: "u8 list" where
  "u_boot_bin = [47, 117, 45, 98, 111, 111, 116, 46, 98, 105, 110]"

text \<open>The entry that was looked up is a list of bytes; \<open>d0\<close> is what the uninitialised structure holds
  before, which is used when the lookup reports success without an entry.\<close>

definition write_image_to_sd ::
  "(bmem \<times> 'd \<Rightarrow> int \<times> bmem \<times> 'd) \<Rightarrow> 'd emmc_op \<Rightarrow> 'd emmc_op \<Rightarrow> sd_frame \<Rightarrow> ptr \<Rightarrow> ptr \<Rightarrow> u8 list \<Rightarrow>
    compare_arg \<Rightarrow> bmem \<times> 'd \<Rightarrow> (int \<times> bmem \<times> 'd) kres option" where
  "write_image_to_sd emmc_init emmc_read emmc_write sf image_start image_end d0 arg0 md =
     (case jtag_sd_card_init emmc_init emmc_read emmc_write sf md of
        ((err, None), md) \<Rightarrow> Some (Inr (err, md))
      | ((_, Some (pdev, boot)), md) \<Rightarrow>
          let b = partition_bdev pdev
          in (case fat32_lookup boot (device_reader b (sf_fatbuf sf) md) (sf_lookup sf) u_boot_bin (fst md, arg0) of
                None \<Rightarrow> None
              | Some (Inl e) \<Rightarrow> Some (Inl e)
              | Some (Inr (err, m, d)) \<Rightarrow>
                  if err \<noteq> ERR_OK then Some (Inr (err, m, snd md))
                  else let bs = (case d of Some bs \<Rightarrow> bs | None \<Rightarrow> d0);
                           ctx = \<lparr>wi_src = image_start, wi_err = ERR_OK, wi_mem = m, wi_dev = snd md\<rparr>
                       in (case fat32_iterate_file_sectors boot
                                  (\<lambda>c. device_reader b (sf_fatbuf sf) (wi_mem c, wi_dev c))
                                  (store_bytes 0 bs (\<lambda>_. 0)) 0 (write_image_per_sector b image_end 512) ctx of
                             None \<Rightarrow> None
                           | Some (Inl e) \<Rightarrow> Some (Inl e)
                           | Some (Inr c) \<Rightarrow> Some (Inr (wi_err c, wi_mem c, wi_dev c)))))"

section \<open>Lemmas\<close>

text \<open>What the writer relies on: in every state that satisfies \<open>ready\<close> the driver reads and writes single blocks;
  \<open>content\<close> is what the card holds. The theory \<open>Emmc_card\<close> proves the contract for the driver in \<^verbatim>\<open>src/board/bcm2835/emmc\<close>.\<close>

definition emmc_contract :: "('d \<Rightarrow> bool) \<Rightarrow> ('d \<Rightarrow> int \<Rightarrow> u8 list) \<Rightarrow> 'd emmc_op \<Rightarrow> 'd emmc_op \<Rightarrow> bool" where
  "emmc_contract ready content er ew \<longleftrightarrow> (\<forall>blk p m d. ready d \<longrightarrow> 0 \<le> blk \<longrightarrow> blk < 2 ^ 31 \<longrightarrow>
     length (content d blk) = 512 \<and>
     (\<exists>d'. er blk 1 p 512 (m, d) = (0, store_bytes p (content d blk) m, d') \<and> ready d' \<and> content d' = content d) \<and>
     (\<exists>d'. ew blk 1 p 512 (m, d) = (0, m, d') \<and> ready d' \<and>
        content d' = (content d)(blk := map (\<lambda>i. m (p + i)) [0 ..< 512])))"

lemma emmc_contract_read:
  "emmc_contract ready content er ew \<Longrightarrow> ready d \<Longrightarrow> 0 \<le> blk \<Longrightarrow> blk < 2 ^ 31 \<Longrightarrow>
     length (content d blk) = 512 \<and>
     (\<exists>d'. er blk 1 p 512 (m, d) = (0, store_bytes p (content d blk) m, d') \<and> ready d' \<and> content d' = content d)"
  unfolding emmc_contract_def by blast

lemma emmc_contract_write:
  "emmc_contract ready content er ew \<Longrightarrow> ready d \<Longrightarrow> 0 \<le> blk \<Longrightarrow> blk < 2 ^ 31 \<Longrightarrow>
     \<exists>d'. ew blk 1 p 512 (m, d) = (0, m, d') \<and> ready d' \<and> content d' = (content d)(blk := map (\<lambda>i. m (p + i)) [0 ..< 512])"
  unfolding emmc_contract_def by blast

lemma emmc_block_loop_one:
  "emmc_block_loop op 512 s 1 0 p (p + 512) md =
     (let (err, md) = op (sint (ucast s :: u32)) 1 p 512 md in if err \<noteq> 0 then (-1, md) else (1, md))"
  by (simp add: emmc_block_loop.simps [of op _ s 1 0] emmc_block_loop.simps [of op _ s 1 1] split: prod.splits)

lemma sint_low_sector:
  assumes "unat (s :: u64) < 2 ^ 31"
  shows "sint (ucast s :: u32) = int (unat s)"
proof -
  have u: "unat (ucast s :: u32) = unat s"
    using assms by (simp add: unsigned_ucast_eq take_bit_nat_eq_self)
  then have "uint (ucast s :: u32) < 2 ^ 31"
    using assms by (metis of_nat_less_iff of_nat_numeral of_nat_power uint_nat)
  then have "signed_take_bit 31 (uint (ucast s :: u32)) = uint (ucast s :: u32)"
    by (intro signed_take_bit_int_eq_self) (use uint_ge_0 [of "ucast s :: u32"] in linarith)+
  moreover have "sint (ucast s :: u32) = signed_take_bit 31 (uint (ucast s :: u32))"
    unfolding sint_uint by simp
  ultimately show ?thesis using u by (metis uint_nat)
qed

text \<open>The block of the image a sector gets, and the contents of the card after a list of such writes.\<close>

definition image_block :: "bmem \<Rightarrow> ptr \<Rightarrow> u8 list" where
  "image_block m p = map (\<lambda>i. m (p + i)) [0 ..< 512]"

fun write_blocks :: "u64 \<Rightarrow> bmem \<Rightarrow> ptr \<Rightarrow> ptr \<Rightarrow> u64 list \<Rightarrow> (int \<Rightarrow> u8 list) \<Rightarrow> int \<Rightarrow> u8 list" where
  "write_blocks start m p e [] f = f"
| "write_blocks start m p e (s # ss) f =
     (if e \<le> p then f else write_blocks start m (p + 512) e ss (f(int (unat (start + s)) := image_block m p)))"

abbreviation sd_partition :: "'d emmc_op \<Rightarrow> 'd emmc_op \<Rightarrow> u64 \<Rightarrow> u64 \<Rightarrow> 'd block_device" where
  "sd_partition er ew start endp \<equiv> partition_bdev (partition_device_init (emmc_block_device er ew) start endp)"

lemma sd_partition_write:
  assumes "emmc_contract ready content er ew" "unat (start + s) < 2 ^ 31" "ready d"
  shows "\<exists>d'. bd_write (sd_partition er ew start endp) p 512 s 1 (m, d) = (1, m, d') \<and> ready d' \<and>
    content d' = (content d)(int (unat (start + s)) := image_block m p)"
proof -
  have "int (unat (start + s)) < 2 ^ 31" using assms(2) by (metis of_nat_less_iff of_nat_numeral of_nat_power)
  then obtain d' where "ew (int (unat (start + s))) 1 p 512 (m, d) = (0, m, d')" "ready d'"
    "content d' = (content d)(int (unat (start + s)) := image_block m p)"
    using emmc_contract_write [OF assms(1,3), of "int (unat (start + s))"] unfolding image_block_def by auto
  then show ?thesis
    using emmc_block_loop_one [of ew "start + s" p "(m, d)"] sint_low_sector [OF assms(2)]
    by (simp add: partition_bdev_def partition_device_init_def partition_device_write_def
        emmc_block_device_def emmc_block_device_write_def)
qed

lemma sd_partition_read:
  assumes "emmc_contract ready content er ew" "unat (start + s) < 2 ^ 31" "ready d"
  shows "device_reader (sd_partition er ew start endp) fb (m, d) s = Inr (content d (int (unat (start + s))))"
proof -
  let ?bs = "content d (int (unat (start + s)))"
  have "int (unat (start + s)) < 2 ^ 31" using assms(2) by (metis of_nat_less_iff of_nat_numeral of_nat_power)
  then obtain d' where len: "length ?bs = 512"
    and r: "er (int (unat (start + s))) 1 fb 512 (m, d) = (0, store_bytes fb ?bs m, d')"
    using emmc_contract_read [OF assms(1,3), of "int (unat (start + s))"] by auto
  have "map (\<lambda>i. store_bytes fb ?bs m (fb + i)) [0 ..< 512] = ?bs"
    using len by (intro nth_equalityI) (auto simp: store_bytes_def)
  then show ?thesis
    using emmc_block_loop_one [of er "start + s" fb "(m, d)"] sint_low_sector [OF assms(2)] r
    by (simp add: partition_bdev_def partition_device_init_def partition_device_read_def
        emmc_block_device_def emmc_block_device_read_def device_reader_def)
qed

lemma visit_write_image:
  assumes "emmc_contract ready content er ew" "\<And>c s. (c, s) \<in> set xs \<Longrightarrow> unat (start + s) < 2 ^ 31" "ready (wi_dev st)"
  shows "let st' = snd (visit (write_image_per_sector (sd_partition er ew start endp) e 512) xs st)
    in ready (wi_dev st') \<and> wi_err st' = wi_err st \<and> wi_mem st' = wi_mem st \<and> content (wi_dev st') = write_blocks start (wi_mem st) (wi_src st) e (map snd xs) (content (wi_dev st))"
  using assms(2,3)
proof (induction xs arbitrary: st)
  case Nil
  then show ?case by simp
next
  case (Cons x xs)
  obtain c s where x: "x = (c, s)" by fastforce
  show ?case
  proof (cases "e \<le> wi_src st")
    case True
    then show ?thesis using Cons.prems(2) by (simp add: x write_image_per_sector_def)
  next
    case False
    have "unat (start + s) < 2 ^ 31" using Cons.prems(1) [of c s] x by simp
    from sd_partition_write [OF assms(1) this Cons.prems(2)]
    obtain d' where d': "bd_write (sd_partition er ew start endp) (wi_src st) 512 s 1 (wi_mem st, wi_dev st) = (1, wi_mem st, d')" "ready d'"
      "content d' = (content (wi_dev st))(int (unat (start + s)) := image_block (wi_mem st) (wi_src st))" by blast
    let ?st = "st\<lparr>wi_mem := wi_mem st, wi_dev := d', wi_src := wi_src st + 512\<rparr>"
    have "write_image_per_sector (sd_partition er ew start endp) e 512 c s st = (False, ?st)"
      using False d'(1) by (simp add: write_image_per_sector_def)
    moreover have "\<And>c s. (c, s) \<in> set xs \<Longrightarrow> unat (start + s) < 2 ^ 31"
      using Cons.prems(1) by (meson list.set_intros(2))
    ultimately show ?thesis using Cons.IH [of ?st] Cons.prems(2) False d'(2,3) by (simp add: x Let_def fun_upd_def)
  qed
qed

lemma write_blocks_other:
  "(\<And>s. s \<in> set ss \<Longrightarrow> int (unat (start + s)) \<noteq> k) \<Longrightarrow> write_blocks start m p e ss f k = f k"
  by (induction start m p e ss f rule: write_blocks.induct) auto

lemma write_blocks_nth:
  assumes "distinct (map (\<lambda>s. unat (start + s)) ss)" "i < length ss" "p + 512 * i < e"
  shows "write_blocks start m p e ss f (int (unat (start + ss ! i))) = image_block m (p + 512 * i)"
  using assms
proof (induction ss arbitrary: p f i)
  case Nil
  then show ?case by simp
next
  case (Cons s ss)
  show ?case
  proof (cases i)
    case 0
    have "write_blocks start m (p + 512) e ss g (int (unat (start + s))) = g (int (unat (start + s)))" for g
    proof (rule write_blocks_other)
      have s_new: "unat (start + s) \<notin> (\<lambda>s. unat (start + s)) ` set ss"
        using Cons.prems(1) unfolding list.map distinct.simps set_map by (rule conjunct1)
      fix s' assume "s' \<in> set ss"
      then have "unat (start + s') \<noteq> unat (start + s)" using s_new
        by (metis image_eqI)
      then show "int (unat (start + s')) \<noteq> int (unat (start + s))" by (simp only: of_nat_eq_iff not_False_eq_True)
    qed
    then show ?thesis using 0 Cons.prems(3) by simp
  next
    case (Suc j)
    then show ?thesis using Cons.prems Cons.IH [of j "p + 512"] by (simp add: add.assoc)
  qed
qed

text \<open>The sector of the FAT that holds a cluster's entry.\<close>

definition fat_entry_sector :: "boot_sector \<Rightarrow> u32 \<Rightarrow> u64" where
  "fat_entry_sector b c = ucast (ucast (fat32_get_num_reserved_sectors b) +
     c div drop_bit 2 (fat32_get_logical_sector_size b) :: u32)"

lemma next_cluster_cong:
  "rd (fat_entry_sector b c) = rd' (fat_entry_sector b c) \<Longrightarrow>
   fat32_get_next_cluster_num b rd c = fat32_get_next_cluster_num b rd' c"
  by (simp add: fat32_get_next_cluster_num_def fat_entry_sector_def Let_def)

section \<open>Properties\<close>

text \<open>Writing an image over a file of a partition: the sectors of the file's cluster
  chain get the blocks of the image in order, each once, as far as the image and the file reach; every
  other sector of the card keeps its contents, the memory is unchanged and no error is left. This
  holds for distinct sectors within the driver's \<^verbatim>\<open>int\<close> range that do not hold the FAT
  entries of the chain.\<close>

lemma image_lands_in_file:
  assumes "emmc_contract ready content er ew"
    "cluster_chain boot (device_reader (sd_partition er ew start endp) fb (m, d0)) cs" "hd cs = fat32_dentry_get_cluster dm da"
    "fat32_get_sectors_per_cluster boot \<noteq> 0"
    "sz = (fat32_dentry_get_file_size dm da + fat32_get_logical_sector_size boot - 1) div fat32_get_logical_sector_size boot"
    "unat sz \<le> unat (fat32_get_sectors_per_cluster boot) * length cs"
    "secs = map snd (chain_sectors boot cs)" "distinct (map (\<lambda>s. unat (start + s)) secs)"
    "\<forall>s \<in> set secs \<union> fat_entry_sector boot ` set cs. unat (start + s) < 2 ^ 31"
    "\<forall>s \<in> set secs. \<forall>c \<in> set cs. unat (start + s) \<noteq> unat (start + fat_entry_sector boot c)"
    "ready d0"
  shows "\<exists>c. fat32_iterate_file_sectors boot (\<lambda>c. device_reader (sd_partition er ew start endp) fb (wi_mem c, wi_dev c)) dm da
      (write_image_per_sector (sd_partition er ew start endp) e 512) \<lparr>wi_src = p, wi_err = ERR_OK, wi_mem = m, wi_dev = d0\<rparr> =
        Some (Inr c) \<and> wi_err c = ERR_OK \<and> wi_mem c = m \<and> ready (wi_dev c) \<and>
      (\<forall>i < unat sz. p + 512 * i < e \<longrightarrow>
         content (wi_dev c) (int (unat (start + secs ! i))) = image_block m (p + 512 * i)) \<and>
      (\<forall>k. k \<notin> (\<lambda>s. int (unat (start + s))) ` set (take (unat sz) secs) \<longrightarrow>
         content (wi_dev c) k = content d0 k)"
proof -
  let ?b = "sd_partition er ew start endp" and ?st = "\<lparr>wi_src = p, wi_err = ERR_OK, wi_mem = m, wi_dev = d0\<rparr>"
  let ?cb = "write_image_per_sector ?b e 512" and ?fat = "\<lambda>c. int (unat (start + fat_entry_sector boot c))"
  let ?xs = "take (unat sz) (chain_sectors boot cs)"
  let ?I = "\<lambda>st. ready (wi_dev st) \<and> (\<forall>c \<in> set cs. content (wi_dev st) (?fat c) = content d0 (?fat c))"
  have low: "unat (start + s) < 2 ^ 31" if "(c, s) \<in> set (chain_sectors boot cs)" for c s
    using assms(9) that unfolding assms(7) by force
  have fat: "fat32_get_next_cluster_num boot (device_reader ?b fb (wi_mem st, wi_dev st)) c =
      fat32_get_next_cluster_num boot (device_reader ?b fb (m, d0)) c" if "c \<in> set cs" "?I st" for c st
  proof (rule next_cluster_cong)
    have "unat (start + fat_entry_sector boot c) < 2 ^ 31" using assms(9) that(1) by blast
    then show "device_reader ?b fb (wi_mem st, wi_dev st) (fat_entry_sector boot c) =
        device_reader ?b fb (m, d0) (fat_entry_sector boot c)"
      using sd_partition_read [OF assms(1)] that assms(11) by metis
  qed
  have keep: "?I (snd (?cb c s st))" if "(c, s) \<in> set (chain_sectors boot cs)" "?I st" for c s st
  proof (intro conjI ballI)
    note v = visit_write_image [OF assms(1), of "[(c, s)]" start st endp e]
    show "ready (wi_dev (snd (?cb c s st)))"
      using v low [OF that(1)] that(2) by (auto simp: Let_def split: prod.splits if_splits)
    fix c' assume c': "c' \<in> set cs"
    have "unat (start + s) \<noteq> unat (start + fat_entry_sector boot c')"
      using assms(10) c' that(1) unfolding assms(7) by force
    then have ne: "int (unat (start + s)) \<noteq> ?fat c'" by (simp only: of_nat_eq_iff not_False_eq_True)
    have "content (wi_dev (snd (visit ?cb [(c, s)] st))) (?fat c') = content (wi_dev st) (?fat c')"
      using v low [OF that(1)] ne that(2)
      by (auto simp: Let_def simp del: visit.simps)
    then show "content (wi_dev (snd (?cb c s st))) (?fat c') = content d0 (?fat c')"
      using that(2) c' by (auto split: prod.splits if_splits)
  qed
  have run: "fat32_iterate_file_sectors boot (\<lambda>c. device_reader ?b fb (wi_mem c, wi_dev c)) dm da ?cb ?st =
      Some (Inr (snd (visit ?cb ?xs ?st)))"
    unfolding fat32_iterate_file_sectors_def Let_def cluster_it_init_def assms(3) [symmetric] assms(5) [symmetric]
    by (rule file_sectors_loop_chain [where I = ?I, OF _ assms(4,6) fat keep]) (use assms(2,11) in simp_all)
  have lowx: "unat (start + s) < 2 ^ 31" if "(c, s) \<in> set ?xs" for c s
    using low [of c s] that by (meson in_set_takeD)
  have res: "ready (wi_dev (snd (visit ?cb ?xs ?st)))" "wi_err (snd (visit ?cb ?xs ?st)) = ERR_OK" "wi_mem (snd (visit ?cb ?xs ?st)) = m"
    "content (wi_dev (snd (visit ?cb ?xs ?st))) = write_blocks start m p e (take (unat sz) secs) (content d0)"
    using visit_write_image [OF assms(1), of ?xs start ?st endp e] lowx assms(11) by (simp_all add: Let_def assms(7) take_map)
  have len: "length secs = unat (fat32_get_sectors_per_cluster boot) * length cs"
    by (simp add: assms(7) chain_sectors_def length_concat comp_def sum_list_triv)
  have blocks: "write_blocks start m p e (take (unat sz) secs) (content d0) (int (unat (start + secs ! i))) =
      image_block m (p + 512 * i)" if "i < unat sz" "p + 512 * i < e" for i
    using write_blocks_nth [of start "take (unat sz) secs" i p e m "content d0"] that assms(6,8) len
    by (simp add: take_map [symmetric] distinct_take)
  have other: "write_blocks start m p e (take (unat sz) secs) (content d0) k = content d0 k"
    if "k \<notin> (\<lambda>s. int (unat (start + s))) ` set (take (unat sz) secs)" for k
    by (rule write_blocks_other) (use that in blast)
  show ?thesis using run res blocks other by auto
qed

lemma sample_entry_sectors: "fat_entry_sector sample_boot_sector 2 = 1" "fat_entry_sector sample_boot_sector 3 = 1"
  by (simp_all add: fat_entry_sector_def sample_boot)

end
