(* ===== verification/Mbox.thy ===== *)
theory Mbox
  imports Prelude
begin

text \<open>
  Property messages to the video processor (\<^verbatim>\<open>src/mbox/mbox.c\<close>, \<^verbatim>\<open>src/mbox/mbox_props.c\<close>,
  \<^verbatim>\<open>mbox_routines.S\<close>). The message buffer is the list of the 36 words of \<^verbatim>\<open>mbox_buffer\<close>. The
  video processor is a parameter: given the word that was written to the mailbox and the buffer, it is the word
  that is read back and the buffer it leaves. The locks and the cache maintenance around a call have no
  effect on the buffer and are left out. A \<^verbatim>\<open>uint32_t *\<close> that is read and written is an argument and a component
  of the result; it keeps its value where the code does not assign it.
\<close>

section \<open>The call\<close>

type_synonym mbuf = "u32 list"
type_synonym videocore = "u32 \<Rightarrow> mbuf \<Rightarrow> u32 \<times> mbuf"

definition MBOX_REQUEST :: u32 where "MBOX_REQUEST = 0"
definition MBOX_TAG_LAST :: u32 where "MBOX_TAG_LAST = 0"
definition MBOX_CH_PROP :: u32 where "MBOX_CH_PROP = 8"
definition MBOX_TAG_GET_FIRMWARE_REV :: u32 where "MBOX_TAG_GET_FIRMWARE_REV = 0x00001"
definition MBOX_TAG_GET_BOARD_MODEL :: u32 where "MBOX_TAG_GET_BOARD_MODEL = 0x10001"
definition MBOX_TAG_GET_BOARD_REV :: u32 where "MBOX_TAG_GET_BOARD_REV = 0x10002"
definition MBOX_TAG_GET_MAC_ADDR :: u32 where "MBOX_TAG_GET_MAC_ADDR = 0x10003"
definition MBOX_TAG_GET_BOARD_SERIAL :: u32 where "MBOX_TAG_GET_BOARD_SERIAL = 0x10004"
definition MBOX_TAG_GET_ARM_MEMORY :: u32 where "MBOX_TAG_GET_ARM_MEMORY = 0x10005"
definition MBOX_TAG_GET_VC_MEMORY :: u32 where "MBOX_TAG_GET_VC_MEMORY = 0x10006"
definition MBOX_TAG_ALLOCATE_BUFFER :: u32 where "MBOX_TAG_ALLOCATE_BUFFER = 0x40001"
definition MBOX_TAG_GET_POWER_STATE :: u32 where "MBOX_TAG_GET_POWER_STATE = 0x20001"
definition MBOX_TAG_SET_POWER_STATE :: u32 where "MBOX_TAG_SET_POWER_STATE = 0x28001"
definition MBOX_TAG_GET_CLOCK_STATE :: u32 where "MBOX_TAG_GET_CLOCK_STATE = 0x30001"
definition MBOX_TAG_SET_CLOCK_STATE :: u32 where "MBOX_TAG_SET_CLOCK_STATE = 0x38001"
definition MBOX_TAG_GET_CLOCK_RATE :: u32 where "MBOX_TAG_GET_CLOCK_RATE = 0x30002"
definition MBOX_TAG_GET_MAX_CLOCK_RATE :: u32 where "MBOX_TAG_GET_MAX_CLOCK_RATE = 0x30004"
definition MBOX_TAG_GET_MIN_CLOCK_RATE :: u32 where "MBOX_TAG_GET_MIN_CLOCK_RATE = 0x30007"
definition MBOX_TAG_SET_CLOCK_RATE :: u32 where "MBOX_TAG_SET_CLOCK_RATE = 0x38002"
definition MBOX_TAG_SET_PHYS_WIDTH_HEIGHT :: u32 where "MBOX_TAG_SET_PHYS_WIDTH_HEIGHT = 0x48003"
definition MBOX_TAG_GET_VIRT_WIDTH_HEIGHT :: u32 where "MBOX_TAG_GET_VIRT_WIDTH_HEIGHT = 0x40004"
definition MBOX_TAG_SET_VIRT_WIDTH_HEIGHT :: u32 where "MBOX_TAG_SET_VIRT_WIDTH_HEIGHT = 0x48004"
definition MBOX_TAG_SET_DEPTH :: u32 where "MBOX_TAG_SET_DEPTH = 0x48005"
definition MBOX_TAG_SET_PIXEL_ORDER :: u32 where "MBOX_TAG_SET_PIXEL_ORDER = 0x48006"
definition MBOX_TAG_GET_PITCH :: u32 where "MBOX_TAG_GET_PITCH = 0x40008"
definition MBOX_TAG_SET_VIRT_OFFSET :: u32 where "MBOX_TAG_SET_VIRT_OFFSET = 0x48009"
definition MBOX_TAG_SET_VCHIQ_INIT :: u32 where "MBOX_TAG_SET_VCHIQ_INIT = 0x48010"

text \<open>Assignments to consecutive words of the buffer.\<close>

fun put_words :: "nat \<Rightarrow> u32 list \<Rightarrow> mbuf \<Rightarrow> mbuf" where
  "put_words i [] b = b"
| "put_words i (w # ws) b = put_words (i + 1) ws (b[i := w])"

definition mbox_call_blocking :: "videocore \<Rightarrow> u32 \<Rightarrow> u32 \<Rightarrow> mbuf \<Rightarrow> int \<times> mbuf" where
  "mbox_call_blocking vc buffer_addr mbox_channel b =
     (let w1 = buffer_addr OR (mbox_channel AND 0xf);
          (w0, b) = vc w1 b
      in (if w0 = w1 then 0 else 1, b))"

definition mbox_prop_call_no_lock :: "videocore \<Rightarrow> u32 \<Rightarrow> mbuf \<Rightarrow> (int \<times> mbuf) kres" where
  "mbox_prop_call_no_lock vc addr b =
     (let (ret, b) = mbox_call_blocking vc addr MBOX_CH_PROP b
      in if ret \<noteq> 0 then Inl ''mbox_call_blocking failed'' else Inr (ret, b))"

definition mbox_prop_call :: "videocore \<Rightarrow> u32 \<Rightarrow> mbuf \<Rightarrow> (int \<times> mbuf) kres" where
  "mbox_prop_call vc addr b = mbox_prop_call_no_lock vc addr b"

section \<open>Messages with one tag\<close>

text \<open>\<open>DECL_MBOX_MSG tg n\<close>: \<open>n\<close> is the size of the union of request and response in words.\<close>

definition DECL_MBOX_MSG :: "u32 \<Rightarrow> nat \<Rightarrow> mbuf \<Rightarrow> mbuf" where
  "DECL_MBOX_MSG tg n b =
     (let b = put_words 0 (replicate (6 + n) 0) b
      in b[0 := of_nat (4 * (6 + n)), 1 := MBOX_REQUEST, 2 := tg, 3 := of_nat (4 * n), 5 + n := MBOX_TAG_LAST])"

definition mbox_init_vchiq :: "videocore \<Rightarrow> u32 \<Rightarrow> u32 \<Rightarrow> mbuf \<Rightarrow> (int \<times> u32 \<times> mbuf) kres" where
  "mbox_init_vchiq vc addr vchiq_base b =
     (let b = (DECL_MBOX_MSG MBOX_TAG_SET_VCHIQ_INIT 1 b)[5 := vchiq_base]
      in kbind (mbox_prop_call vc addr b) (\<lambda>(ret, b).
           Inr (if ret = 0 then (0, b ! 5, b) else (-1, vchiq_base, b))))"

definition word_query :: "videocore \<Rightarrow> u32 \<Rightarrow> u32 \<Rightarrow> mbuf \<Rightarrow> (u32 \<times> mbuf) kres" where
  "word_query vc addr tg b =
     (let b = put_words 0 [7 * 4, MBOX_REQUEST, tg, 4, 4, 0, MBOX_TAG_LAST] b
      in kbind (mbox_prop_call vc addr b) (\<lambda>(ret, b). Inr (if ret = 0 then b ! 5 else - 1, b)))"

definition mbox_get_firmware_rev :: "videocore \<Rightarrow> u32 \<Rightarrow> mbuf \<Rightarrow> (u32 \<times> mbuf) kres" where
  "mbox_get_firmware_rev vc addr b = word_query vc addr MBOX_TAG_GET_FIRMWARE_REV b"

definition mbox_get_board_model :: "videocore \<Rightarrow> u32 \<Rightarrow> mbuf \<Rightarrow> (u32 \<times> mbuf) kres" where
  "mbox_get_board_model vc addr b = word_query vc addr MBOX_TAG_GET_BOARD_MODEL b"

definition mbox_get_board_rev :: "videocore \<Rightarrow> u32 \<Rightarrow> mbuf \<Rightarrow> (u32 \<times> mbuf) kres" where
  "mbox_get_board_rev vc addr b = word_query vc addr MBOX_TAG_GET_BOARD_REV b"

text \<open>The six bytes at word 5, cut off where the caller's buffer of \<open>room\<close> bytes ends.\<close>

definition word_bytes :: "u32 \<Rightarrow> u8 list" where
  "word_bytes w = map (\<lambda>i. ucast (drop_bit (8 * i) w)) [0..<4]"

definition mbox_get_mac_addr :: "videocore \<Rightarrow> u32 \<Rightarrow> nat \<Rightarrow> mbuf \<Rightarrow> (int \<times> u8 list \<times> mbuf) kres" where
  "mbox_get_mac_addr vc addr room b =
     kbind (mbox_prop_call vc addr (DECL_MBOX_MSG MBOX_TAG_GET_MAC_ADDR 2 b)) (\<lambda>(ret, b).
       Inr (if ret = 0 then (0, take room (take 6 (word_bytes (b ! 5) @ word_bytes (b ! 6))), b) else (-1, [], b)))"

text \<open>The message is laid out but there is no call.\<close>

definition mbox_get_board_serial :: "mbuf \<Rightarrow> u64 \<times> mbuf" where
  "mbox_get_board_serial b =
     (let b = put_words 0 [8 * 4, MBOX_REQUEST, MBOX_TAG_GET_BOARD_SERIAL, 8, 8, 0, 0, MBOX_TAG_LAST] b
      in (push_bit 32 (ucast (b ! 5)) OR ucast (b ! 6), b))"

definition memory_query :: "videocore \<Rightarrow> u32 \<Rightarrow> u32 \<Rightarrow> mbuf \<Rightarrow> (int \<times> (u32 \<times> u32) option \<times> mbuf) kres" where
  "memory_query vc addr tg b =
     (let b = put_words 0 [8 * 4, MBOX_REQUEST, tg, 8, 8, 0, 0, MBOX_TAG_LAST] b
      in kbind (mbox_prop_call vc addr b) (\<lambda>(ret, b).
           Inr (if ret = 0 then (0, Some (b ! 5, b ! 6), b) else (-1, None, b))))"

definition mbox_get_arm_memory :: "videocore \<Rightarrow> u32 \<Rightarrow> ptr \<Rightarrow> ptr \<Rightarrow> mbuf \<Rightarrow> (int \<times> (u32 \<times> u32) option \<times> mbuf) kres" where
  "mbox_get_arm_memory vc addr base_addr byte_size b =
     (if base_addr = NULL \<or> byte_size = NULL then Inr (-1, None, b)
      else memory_query vc addr MBOX_TAG_GET_ARM_MEMORY b)"

definition mbox_get_vc_memory :: "videocore \<Rightarrow> u32 \<Rightarrow> ptr \<Rightarrow> ptr \<Rightarrow> mbuf \<Rightarrow> (int \<times> (u32 \<times> u32) option \<times> mbuf) kres" where
  "mbox_get_vc_memory vc addr base_addr byte_size b =
     (if base_addr = NULL \<or> byte_size = NULL then Inr (-1, None, b)
      else memory_query vc addr MBOX_TAG_GET_VC_MEMORY b)"

text \<open>State bits of a device or a clock: bit 0 says on, bit 1 says that it does not exist.\<close>

definition state_answer :: "u32 \<Rightarrow> u32 \<times> u32" where
  "state_answer st = (st AND 1, if drop_bit 1 st AND 1 \<noteq> 0 then 0 else 1)"

definition state_call :: "videocore \<Rightarrow> u32 \<Rightarrow> mbuf \<Rightarrow> u32 \<Rightarrow> u32 \<Rightarrow> (int \<times> u32 \<times> u32 \<times> mbuf) kres" where
  "state_call vc addr b on exist =
     kbind (mbox_prop_call vc addr b) (\<lambda>(ret, b).
       Inr (if ret = 0 then (0, fst (state_answer (b ! 6)), snd (state_answer (b ! 6)), b) else (-1, on, exist, b)))"

definition mbox_get_power_state :: "videocore \<Rightarrow> u32 \<Rightarrow> u32 \<Rightarrow> u32 \<Rightarrow> u32 \<Rightarrow> mbuf \<Rightarrow> (int \<times> u32 \<times> u32 \<times> mbuf) kres" where
  "mbox_get_power_state vc addr device_id powered_on exist b =
     state_call vc addr ((DECL_MBOX_MSG MBOX_TAG_GET_POWER_STATE 2 b)[5 := device_id]) powered_on exist"

definition mbox_set_power_state ::
  "videocore \<Rightarrow> u32 \<Rightarrow> u32 \<Rightarrow> u32 \<Rightarrow> u32 \<Rightarrow> u32 \<Rightarrow> mbuf \<Rightarrow> (int \<times> u32 \<times> u32 \<times> mbuf) kres" where
  "mbox_set_power_state vc addr device_id power_on wait exist b =
     state_call vc addr
       ((DECL_MBOX_MSG MBOX_TAG_SET_POWER_STATE 2 b)[5 := device_id, 6 := (power_on AND 1) OR push_bit 1 (wait AND 1)])
       power_on exist"

definition mbox_get_clock_state :: "videocore \<Rightarrow> u32 \<Rightarrow> u32 \<Rightarrow> u32 \<Rightarrow> u32 \<Rightarrow> mbuf \<Rightarrow> (int \<times> u32 \<times> u32 \<times> mbuf) kres" where
  "mbox_get_clock_state vc addr clock_id enabled exist b =
     state_call vc addr ((DECL_MBOX_MSG MBOX_TAG_GET_CLOCK_STATE 2 b)[5 := clock_id]) enabled exist"

definition mbox_set_clock_state :: "videocore \<Rightarrow> u32 \<Rightarrow> u32 \<Rightarrow> u32 \<Rightarrow> u32 \<Rightarrow> mbuf \<Rightarrow> (int \<times> u32 \<times> u32 \<times> mbuf) kres" where
  "mbox_set_clock_state vc addr clock_id enabled exist b =
     state_call vc addr ((DECL_MBOX_MSG MBOX_TAG_SET_CLOCK_STATE 2 b)[5 := clock_id, 6 := enabled]) enabled exist"

definition GET_CLOCK_RATE :: "u32 \<Rightarrow> videocore \<Rightarrow> u32 \<Rightarrow> u32 \<Rightarrow> u32 \<Rightarrow> mbuf \<Rightarrow> (int \<times> u32 \<times> mbuf) kres" where
  "GET_CLOCK_RATE tg vc addr clock_id clock_rate b =
     kbind (mbox_prop_call vc addr ((DECL_MBOX_MSG tg 2 b)[5 := clock_id])) (\<lambda>(ret, b).
       Inr (if ret = 0 \<and> b ! 5 = clock_id then (0, b ! 6, b) else (-1, clock_rate, b)))"

definition mbox_get_clock_rate :: "videocore \<Rightarrow> u32 \<Rightarrow> u32 \<Rightarrow> u32 \<Rightarrow> mbuf \<Rightarrow> (int \<times> u32 \<times> mbuf) kres" where
  "mbox_get_clock_rate = GET_CLOCK_RATE MBOX_TAG_GET_CLOCK_RATE"

definition mbox_get_min_clock_rate :: "videocore \<Rightarrow> u32 \<Rightarrow> u32 \<Rightarrow> u32 \<Rightarrow> mbuf \<Rightarrow> (int \<times> u32 \<times> mbuf) kres" where
  "mbox_get_min_clock_rate = GET_CLOCK_RATE MBOX_TAG_GET_MIN_CLOCK_RATE"

definition mbox_get_max_clock_rate :: "videocore \<Rightarrow> u32 \<Rightarrow> u32 \<Rightarrow> u32 \<Rightarrow> mbuf \<Rightarrow> (int \<times> u32 \<times> mbuf) kres" where
  "mbox_get_max_clock_rate = GET_CLOCK_RATE MBOX_TAG_GET_MAX_CLOCK_RATE"

definition mbox_set_clock_rate :: "videocore \<Rightarrow> u32 \<Rightarrow> u32 \<Rightarrow> u32 \<Rightarrow> u32 \<Rightarrow> mbuf \<Rightarrow> (int \<times> u32 \<times> mbuf) kres" where
  "mbox_set_clock_rate vc addr clock_id clock_rate skip_turbo b =
     (let b = (DECL_MBOX_MSG MBOX_TAG_SET_CLOCK_RATE 3 b)[5 := clock_id, 6 := clock_rate, 7 := skip_turbo]
      in kbind (mbox_prop_call vc addr b) (\<lambda>(ret, b).
           Inr (if ret \<noteq> 0 \<and> b ! 5 = clock_id then (0, b ! 6, b) else (-1, clock_rate, b))))"

definition mbox_get_virt_wh :: "videocore \<Rightarrow> u32 \<Rightarrow> u32 \<Rightarrow> u32 \<Rightarrow> mbuf \<Rightarrow> (int \<times> u32 \<times> u32 \<times> mbuf) kres" where
  "mbox_get_virt_wh vc addr out_width out_height b =
     kbind (mbox_prop_call vc addr (DECL_MBOX_MSG MBOX_TAG_GET_VIRT_WIDTH_HEIGHT 2 b)) (\<lambda>(ret, b).
       Inr (if ret \<noteq> 0 then (-1, out_width, out_height, b) else (0, b ! 5, b ! 6, b)))"

section \<open>The frame buffer\<close>

record mbox_set_fb_args =
  psize_x :: u32
  psize_y :: u32
  vsize_x :: u32
  vsize_y :: u32
  voffset_x :: u32
  voffset_y :: u32
  arg_depth :: u32
  pixel_order :: u32

record mbox_set_fb_res =
  res_fb_addr :: u32
  res_fb_width :: u32
  res_fb_height :: u32
  res_fb_pitch :: u32
  res_fb_pixel_size :: u32

definition set_fb_message :: "mbox_set_fb_args \<Rightarrow> mbuf \<Rightarrow> mbuf" where
  "set_fb_message args = put_words 0
     [35 * 4, MBOX_REQUEST,
      MBOX_TAG_SET_PHYS_WIDTH_HEIGHT, 8, 8, psize_x args, psize_y args,
      MBOX_TAG_SET_VIRT_WIDTH_HEIGHT, 8, 8, vsize_x args, vsize_y args,
      MBOX_TAG_SET_VIRT_OFFSET, 8, 8, voffset_x args, voffset_y args,
      MBOX_TAG_SET_DEPTH, 4, 4, arg_depth args,
      MBOX_TAG_SET_PIXEL_ORDER, 4, 4, pixel_order args,
      MBOX_TAG_ALLOCATE_BUFFER, 8, 8, 4096, 0,
      MBOX_TAG_GET_PITCH, 4, 4, 0,
      MBOX_TAG_LAST]"

definition mbox_set_fb ::
  "videocore \<Rightarrow> u32 \<Rightarrow> mbox_set_fb_args \<Rightarrow> mbox_set_fb_res \<Rightarrow> mbuf \<Rightarrow> (int \<times> mbox_set_fb_res \<times> mbuf) kres" where
  "mbox_set_fb vc addr args res b =
     kbind (mbox_prop_call vc addr (set_fb_message args b)) (\<lambda>(ret, b).
       Inr (if ret \<noteq> 0 then (-1, res, b)
            else if b ! 20 \<noteq> 32 \<or> b ! 28 = 0 then (-1, res, b)
            else (ERR_OK, \<lparr>res_fb_addr = b ! 28 AND 0x3fffffff, res_fb_width = b ! 5, res_fb_height = b ! 6,
                           res_fb_pitch = b ! 33, res_fb_pixel_size = 4\<rparr>, b)))"

section \<open>Well-formed messages\<close>

text \<open>
  A property message, as the firmware documents it: the size of the message in bytes, the request code, a sequence of tags, each an
  identifier, the size of its value buffer in bytes, a request code and the value buffer, and the end tag 0 in the last word.
  \<open>tags_end b i\<close> is the index of the end tag of the sequence that starts at \<open>i\<close>.
\<close>

function tags_end :: "mbuf \<Rightarrow> nat \<Rightarrow> nat option" where
  "tags_end b i =
     (if length b \<le> i then None
      else if b ! i = 0 then Some i
      else if length b \<le> i + 2 \<or> unat (b ! (i + 1)) mod 4 \<noteq> 0 then None
      else tags_end b (i + 3 + unat (b ! (i + 1)) div 4))"
  by pat_completeness auto
termination by (relation "measure (\<lambda>(b, i). length b - i)") auto

declare tags_end.simps [simp del]

definition wf_message :: "mbuf \<Rightarrow> bool" where
  "wf_message b \<longleftrightarrow> length b = 36 \<and> unat (b ! 0) mod 4 = 0 \<and> b ! 1 = 0 \<and>
     tags_end b 2 = Some (unat (b ! 0) div 4 - 1)"

lemma put_words_eq: "i + length ws \<le> length b \<Longrightarrow> put_words i ws b = take i b @ ws @ drop (i + length ws) b"
proof (induction ws arbitrary: i b)
  case (Cons w ws)
  then have "put_words i (w # ws) b = take (Suc i) (b[i := w]) @ ws @ drop (Suc i + length ws) (b[i := w])" by simp
  also have "\<dots> = take i b @ (w # ws) @ drop (i + length (w # ws)) b"
    using Cons.prems by (simp add: take_Suc_conv_app_nth)
  finally show ?case .
qed simp

lemma DECL_MBOX_MSG_eq:
  assumes "length b = 36"
  shows "DECL_MBOX_MSG tg 1 b = [28, 0, tg, 4, 0, 0, 0] @ drop 7 b"
    and "DECL_MBOX_MSG tg 2 b = [32, 0, tg, 8, 0, 0, 0, 0] @ drop 8 b"
    and "DECL_MBOX_MSG tg 3 b = [36, 0, tg, 12, 0, 0, 0, 0, 0] @ drop 9 b"
proof -
  have r: "replicate 7 0 = [0, 0, 0, 0, 0, 0, 0 :: u32]" "replicate 8 0 = [0, 0, 0, 0, 0, 0, 0, 0 :: u32]"
    "replicate 9 0 = [0, 0, 0, 0, 0, 0, 0, 0, 0 :: u32]" by (simp_all add: numeral_eq_Suc)
  have p: "put_words 0 (replicate n 0) b = replicate n 0 @ drop n b" if "n \<le> 36" for n
    using that assms by (simp add: put_words_eq)
  show "DECL_MBOX_MSG tg 1 b = [28, 0, tg, 4, 0, 0, 0] @ drop 7 b"
    "DECL_MBOX_MSG tg 2 b = [32, 0, tg, 8, 0, 0, 0, 0] @ drop 8 b"
    "DECL_MBOX_MSG tg 3 b = [36, 0, tg, 12, 0, 0, 0, 0, 0] @ drop 9 b"
    using assms by (simp_all only: DECL_MBOX_MSG_def p, simp_all add: r Let_def MBOX_REQUEST_def MBOX_TAG_LAST_def)
qed

lemma wf_one_tag:
  assumes "tg \<noteq> 0"
  shows "length b = 29 \<Longrightarrow> wf_message (28 # 0 # tg # 4 # c # v # 0 # b)"
    and "length b = 28 \<Longrightarrow> wf_message (32 # 0 # tg # 8 # c # v # w # 0 # b)"
    and "length b = 27 \<Longrightarrow> wf_message (36 # 0 # tg # 12 # c # v # w # x # 0 # b)"
  using assms by (simp_all add: wf_message_def tags_end.simps [of _ 2] tags_end.simps [of _ 6] tags_end.simps [of _ 7]
      tags_end.simps [of _ 8])

text \<open>Two video processors that answer every well-formed message alike.\<close>

definition same_on_messages :: "videocore \<Rightarrow> videocore \<Rightarrow> bool" where
  "same_on_messages vc vc' \<longleftrightarrow> (\<forall>w b. wf_message b \<longrightarrow> vc w b = vc' w b)"

lemma mbox_prop_call_same:
  "same_on_messages vc vc' \<Longrightarrow> wf_message b \<Longrightarrow> mbox_prop_call vc addr b = mbox_prop_call vc' addr b"
  by (simp add: mbox_prop_call_def mbox_prop_call_no_lock_def mbox_call_blocking_def same_on_messages_def Let_def)

lemmas tag_defs = MBOX_TAG_GET_FIRMWARE_REV_def MBOX_TAG_GET_BOARD_MODEL_def MBOX_TAG_GET_BOARD_REV_def
  MBOX_TAG_GET_MAC_ADDR_def MBOX_TAG_GET_ARM_MEMORY_def MBOX_TAG_GET_VC_MEMORY_def MBOX_TAG_GET_POWER_STATE_def
  MBOX_TAG_SET_POWER_STATE_def MBOX_TAG_GET_CLOCK_STATE_def MBOX_TAG_SET_CLOCK_STATE_def MBOX_TAG_GET_CLOCK_RATE_def
  MBOX_TAG_GET_MAX_CLOCK_RATE_def MBOX_TAG_GET_MIN_CLOCK_RATE_def MBOX_TAG_SET_CLOCK_RATE_def
  MBOX_TAG_GET_VIRT_WIDTH_HEIGHT_def MBOX_TAG_SET_VCHIQ_INIT_def

lemma wf_DECL_MBOX_MSG:
  assumes "length b = 36" "tg \<noteq> 0"
  shows "wf_message ((DECL_MBOX_MSG tg 1 b)[5 := v])"
    and "wf_message (DECL_MBOX_MSG tg 2 b)"
    and "wf_message ((DECL_MBOX_MSG tg 2 b)[5 := v])"
    and "wf_message ((DECL_MBOX_MSG tg 2 b)[5 := v, 6 := w])"
    and "wf_message ((DECL_MBOX_MSG tg 3 b)[5 := v, 6 := w, 7 := x])"
  using assms DECL_MBOX_MSG_eq(1) [unfolded One_nat_def] by (simp_all add: DECL_MBOX_MSG_eq(2,3) wf_one_tag)

lemma wf_word_message:
  "length b = 36 \<Longrightarrow> tg \<noteq> 0 \<Longrightarrow> wf_message (put_words 0 [7 * 4, MBOX_REQUEST, tg, 4, 4, 0, MBOX_TAG_LAST] b)"
  by (subst put_words_eq) (simp_all add: wf_one_tag MBOX_REQUEST_def MBOX_TAG_LAST_def)

lemma wf_memory_message:
  "length b = 36 \<Longrightarrow> tg \<noteq> 0 \<Longrightarrow> wf_message (put_words 0 [8 * 4, MBOX_REQUEST, tg, 8, 8, 0, 0, MBOX_TAG_LAST] b)"
  by (subst put_words_eq) (simp_all add: wf_one_tag MBOX_REQUEST_def MBOX_TAG_LAST_def)

lemma wf_set_fb_message: "length b = 36 \<Longrightarrow> wf_message (set_fb_message args b)"
  unfolding set_fb_message_def
  by (subst put_words_eq)
    (simp_all add: wf_message_def tags_end.simps MBOX_REQUEST_def MBOX_TAG_LAST_def MBOX_TAG_SET_PHYS_WIDTH_HEIGHT_def
      MBOX_TAG_SET_VIRT_WIDTH_HEIGHT_def MBOX_TAG_SET_VIRT_OFFSET_def MBOX_TAG_SET_DEPTH_def
      MBOX_TAG_SET_PIXEL_ORDER_def MBOX_TAG_ALLOCATE_BUFFER_def MBOX_TAG_GET_PITCH_def)

lemmas wf_requests = wf_DECL_MBOX_MSG wf_word_message wf_memory_message wf_set_fb_message

section \<open>Properties\<close>

text \<open>C35 (type). Every request is a well-formed property message: no operation can tell two video processors
  apart that agree on the well-formed messages.\<close>

theorem mbox_requests_wellformed:
  assumes "length b = 36" "same_on_messages vc vc'"
  shows "mbox_set_fb vc addr args res b = mbox_set_fb vc' addr args res b \<and>
    mbox_init_vchiq vc addr v b = mbox_init_vchiq vc' addr v b \<and>
    mbox_get_firmware_rev vc addr b = mbox_get_firmware_rev vc' addr b \<and>
    mbox_get_board_model vc addr b = mbox_get_board_model vc' addr b \<and>
    mbox_get_board_rev vc addr b = mbox_get_board_rev vc' addr b \<and>
    mbox_get_mac_addr vc addr room b = mbox_get_mac_addr vc' addr room b \<and>
    mbox_get_arm_memory vc addr p q b = mbox_get_arm_memory vc' addr p q b \<and>
    mbox_get_vc_memory vc addr p q b = mbox_get_vc_memory vc' addr p q b \<and>
    mbox_get_power_state vc addr i on ex b = mbox_get_power_state vc' addr i on ex b \<and>
    mbox_set_power_state vc addr i on wait ex b = mbox_set_power_state vc' addr i on wait ex b \<and>
    mbox_get_clock_state vc addr i on ex b = mbox_get_clock_state vc' addr i on ex b \<and>
    mbox_set_clock_state vc addr i on ex b = mbox_set_clock_state vc' addr i on ex b \<and>
    mbox_get_clock_rate vc addr i rate b = mbox_get_clock_rate vc' addr i rate b \<and>
    mbox_get_min_clock_rate vc addr i rate b = mbox_get_min_clock_rate vc' addr i rate b \<and>
    mbox_get_max_clock_rate vc addr i rate b = mbox_get_max_clock_rate vc' addr i rate b \<and>
    mbox_set_clock_rate vc addr i rate turbo b = mbox_set_clock_rate vc' addr i rate turbo b \<and>
    mbox_get_virt_wh vc addr wd ht b = mbox_get_virt_wh vc' addr wd ht b"
  using mbox_prop_call_same [OF assms(2)] wf_requests [OF assms(1)]
  by (intro conjI) (simp_all add: mbox_set_fb_def mbox_init_vchiq_def mbox_get_firmware_rev_def mbox_get_board_model_def
      mbox_get_board_rev_def word_query_def mbox_get_mac_addr_def mbox_get_arm_memory_def mbox_get_vc_memory_def
      memory_query_def mbox_get_power_state_def mbox_set_power_state_def mbox_get_clock_state_def
      mbox_set_clock_state_def state_call_def mbox_get_clock_rate_def mbox_get_min_clock_rate_def
      mbox_get_max_clock_rate_def GET_CLOCK_RATE_def mbox_set_clock_rate_def mbox_get_virt_wh_def tag_defs
      del: put_words.simps list_update_numeral)

text \<open>A video processor that answers with the response code, and one that does so for well-formed messages only.\<close>

definition answering :: videocore where "answering w b = (w, b[1 := 0x80000000])"

definition strict :: videocore where "strict w b = (if wf_message b then (w, b[1 := 0x80000000]) else (0, b))"

theorem mbox_requests_wellformed_witness:
  "mbox_get_virt_wh strict 0x1000 0 0 (replicate 36 0) = mbox_get_virt_wh answering 0x1000 0 0 (replicate 36 0)"
  using mbox_requests_wellformed [of "replicate 36 0" strict answering]
  by (simp add: same_on_messages_def answering_def strict_def)

text \<open>\<^verbatim>\<open>mbox_set_clock_rate\<close> never reports success: when the video processor has answered
  and set the rate, the result is -1 and the caller's rate is what it was; otherwise the call panics.\<close>

theorem mbox_set_clock_rate_fails:
  "mbox_set_clock_rate vc addr i rate turbo b =
     (let w = addr OR 8;
          msg = (DECL_MBOX_MSG MBOX_TAG_SET_CLOCK_RATE 3 b)[5 := i, 6 := rate, 7 := turbo]
      in if fst (vc w msg) = w then Inr (-1, rate, snd (vc w msg)) else Inl ''mbox_call_blocking failed'')"
  by (simp add: mbox_set_clock_rate_def mbox_prop_call_def mbox_prop_call_no_lock_def mbox_call_blocking_def
      MBOX_CH_PROP_def Let_def split: prod.split)

end
