(* ===== verification/Emmc.thy ===== *)
theory Emmc
  imports Emmc_regs Fs Mbox
begin

text \<open>
  The SD card driver (\<^verbatim>\<open>src/board/bcm2835/emmc/emmc_cmd.c\<close>, \<^verbatim>\<open>emmc_cmd.h\<close>, \<^verbatim>\<open>emmc_utils.[ch]\<close>, \<^verbatim>\<open>emmc_initialize.c\<close>,
  \<^verbatim>\<open>emmc.c\<close>): waiting for the controller, commands with and without data, reading and writing of a block, and the
  initialisation of a card. The functions work on the byte memory and the controller. Log messages and delays
  are left out; waits end after a number of polls.
\<close>

section \<open>Waiting\<close>

definition EMMC_WAIT_TIMEOUT_USEC :: u64 where "EMMC_WAIT_TIMEOUT_USEC = 1000000"
definition EMMC_BLOCK_SIZE :: u32 where "EMMC_BLOCK_SIZE = 1024"
definition EMMC_CLOCK_HZ_SETUP :: u32 where "EMMC_CLOCK_HZ_SETUP = 400000"
definition EMMC_CLOCK_HZ_NORMAL :: u32 where "EMMC_CLOCK_HZ_NORMAL = 25000000"

text \<open>The global \<^verbatim>\<open>emmc_mode_blocking\<close>, which nothing changes.\<close>

definition emmc_mode_blocking :: bool where "emmc_mode_blocking \<longleftrightarrow> True"

definition reg_matches :: "u32 \<Rightarrow> u32 \<Rightarrow> u32 \<Rightarrow> bool" where
  "reg_matches msk value regval \<longleftrightarrow> (if msk \<noteq> 0 then regval AND msk = value else regval AND value \<noteq> 0)"

function wait_loop :: "'d mmio \<Rightarrow> ptr \<Rightarrow> u32 \<Rightarrow> u32 \<Rightarrow> u64 \<Rightarrow> 'd \<Rightarrow> u32 option \<times> 'd" where
  "wait_loop io a msk value wait_left_usec d =
     (if wait_left_usec \<ge> 100
      then let (regval, d) = read_reg io a d
           in if reg_matches msk value regval then (Some regval, d)
              else wait_loop io a msk value (wait_left_usec - 100) d
      else (None, d))"
  by pat_completeness auto
termination
  by (relation "measure (\<lambda>(_, _, _, _, left, _). unat left)")
    (auto simp: word_le_nat_alt unat_sub)

declare wait_loop.simps [simp del]

text \<open>The result is the value that was waited for, and \<open>None\<close> stands for \<^verbatim>\<open>ERR_TIMEOUT\<close>.\<close>

definition emmc_wait_reg_value ::
  "'d mmio \<Rightarrow> ptr \<Rightarrow> u32 \<Rightarrow> u32 \<Rightarrow> u64 \<Rightarrow> bool \<Rightarrow> 'd \<Rightarrow> (u32 option \<times> 'd) kres" where
  "emmc_wait_reg_value io a msk value timeout_usec blocking d =
     (if \<not> blocking then Inl ''Nonblocking timed wait not supported''
      else Inr (wait_loop io a msk value timeout_usec d))"

definition emmc_interrupt_wait_done_or_err ::
  "'d mmio \<Rightarrow> u64 \<Rightarrow> bool \<Rightarrow> bool \<Rightarrow> bool \<Rightarrow> 'd \<Rightarrow> (u32 option \<times> 'd) kres" where
  "emmc_interrupt_wait_done_or_err io timeout_usec waitcmd waitdat blocking d =
     (let intmask = EMMC_INTERRUPT_MASK_ERR;
          intmask = (if waitcmd then intmask OR EMMC_INTERRUPT_MASK_CMD_DONE else intmask);
          intmask = (if waitdat then intmask OR EMMC_INTERRUPT_MASK_DATA_DONE else intmask)
      in emmc_wait_reg_value io EMMC_INTERRUPT 0 intmask timeout_usec blocking d)"

text \<open>Polls at most \<open>n\<close> times; the result says whether the register became ready.\<close>

fun poll_n :: "'d mmio \<Rightarrow> ptr \<Rightarrow> (u32 \<Rightarrow> bool) \<Rightarrow> nat \<Rightarrow> 'd \<Rightarrow> bool \<times> 'd" where
  "poll_n io a ready 0 d = (False, d)"
| "poll_n io a ready (Suc n) d =
     (let (v, d) = read_reg io a d in if ready v then (True, d) else poll_n io a ready n d)"

definition emmc_wait_cmd_dat_ready :: "'d mmio \<Rightarrow> 'd \<Rightarrow> int \<times> 'd" where
  "emmc_wait_cmd_dat_ready io d =
     (let (ok, d) = poll_n io EMMC_STATUS (\<lambda>v. \<not> (EMMC_STATUS_GET_CMD_INHIBIT v \<noteq> 0 \<or> EMMC_STATUS_GET_DAT_INHIBIT v \<noteq> 0)) 1000 d
      in (if ok then 0 else -1, d))"

definition emmc_wait_cmd_inhibit :: "'d mmio \<Rightarrow> 'd \<Rightarrow> int \<times> 'd" where
  "emmc_wait_cmd_inhibit io d =
     (let (ok, d) = poll_n io EMMC_STATUS (\<lambda>v. EMMC_STATUS_GET_CMD_INHIBIT v = 0) 1000 d in (if ok then 0 else -1, d))"

definition emmc_wait_dat_inhibit :: "'d mmio \<Rightarrow> 'd \<Rightarrow> int \<times> 'd" where
  "emmc_wait_dat_inhibit io d =
     (let (ok, d) = poll_n io EMMC_STATUS (\<lambda>v. EMMC_STATUS_GET_DAT_INHIBIT v = 0) 1000 d in (if ok then 0 else -1, d))"

section \<open>Commands\<close>

text \<open>Application commands have bit 31 set.\<close>

definition EMMC_CMD_IS_ACMD :: "u32 \<Rightarrow> bool" where "EMMC_CMD_IS_ACMD cmd \<longleftrightarrow> cmd AND push_bit 31 1 \<noteq> 0"

definition EMMC_CMD0 :: u32 where "EMMC_CMD0 = 0"
definition EMMC_CMD2 :: u32 where "EMMC_CMD2 = 2"
definition EMMC_CMD3 :: u32 where "EMMC_CMD3 = 3"
definition EMMC_CMD5 :: u32 where "EMMC_CMD5 = 5"
definition EMMC_CMD7 :: u32 where "EMMC_CMD7 = 7"
definition EMMC_CMD8 :: u32 where "EMMC_CMD8 = 8"
definition EMMC_CMD8_ARG :: u32 where "EMMC_CMD8_ARG = 0x1aa"
definition EMMC_CMD13 :: u32 where "EMMC_CMD13 = 0xd"
definition EMMC_CMD17 :: u32 where "EMMC_CMD17 = 0x11"
definition EMMC_CMD24 :: u32 where "EMMC_CMD24 = 0x18"
definition EMMC_CMD55 :: u32 where "EMMC_CMD55 = 0x37"
definition EMMC_BUS_WIDTH_4BITS :: u32 where "EMMC_BUS_WIDTH_4BITS = 2"
definition EMMC_ACMD6 :: u32 where "EMMC_ACMD6 = 0x80000006"
definition EMMC_ACMD41 :: u32 where "EMMC_ACMD41 = 0x80000029"
definition EMMC_ACMD51 :: u32 where "EMMC_ACMD51 = 0x80000033"

lemmas emmc_cmds =
  EMMC_CMD0_def EMMC_CMD2_def EMMC_CMD3_def EMMC_CMD5_def EMMC_CMD7_def EMMC_CMD8_def EMMC_CMD13_def EMMC_CMD17_def
  EMMC_CMD24_def EMMC_CMD55_def EMMC_ACMD6_def EMMC_ACMD41_def EMMC_ACMD51_def

text \<open>The status is an enumeration, but the driver returns -1 too.\<close>

definition EMMC_CMD_OK :: int where "EMMC_CMD_OK = 0"
definition EMMC_CMD_ERR :: int where "EMMC_CMD_ERR = 1"
definition EMMC_CMD_TIMEOUT :: int where "EMMC_CMD_TIMEOUT = 2"

lemmas emmc_statuses = EMMC_CMD_OK_def EMMC_CMD_ERR_def EMMC_CMD_TIMEOUT_def

definition emmc_cmd_status_to_err :: "int \<Rightarrow> int kres" where
  "emmc_cmd_status_to_err status =
     (let errors = [ERR_OK, ERR_GENERIC, ERR_TIMEOUT]
      in if 0 \<le> status \<and> status < 3 then Inr (errors ! nat status) else Inl ''emmc_cmd_status_to_err: outside of errors'')"

record emmc_command =
  cmd_idx :: u32
  cmd_arg :: u32
  block_size :: u32
  num_blocks :: u32
  rca :: u32
  resp0 :: u32
  resp1 :: u32
  resp2 :: u32
  resp3 :: u32
  databuf :: ptr

definition emmc_cmd_init :: "u32 \<Rightarrow> u32 \<Rightarrow> emmc_command" where
  "emmc_cmd_init idx arg =
     \<lparr>cmd_idx = idx, cmd_arg = arg, block_size = 0, num_blocks = 0, rca = 0, resp0 = 0, resp1 = 0, resp2 = 0, resp3 = 0, databuf = NULL\<rparr>"

text \<open>Words of the data buffer, least significant byte first.\<close>

definition word_at :: "bmem \<Rightarrow> ptr \<Rightarrow> u32" where
  "word_at m p = get_unaligned_32_le m p"

definition store_word :: "ptr \<Rightarrow> u32 \<Rightarrow> bmem \<Rightarrow> bmem" where
  "store_word p w m = store_bytes p (word_bytes w) m"

fun write_words :: "'d mmio \<Rightarrow> ptr \<Rightarrow> nat \<Rightarrow> bmem \<Rightarrow> 'd \<Rightarrow> 'd" where
  "write_words io p 0 m d = d"
| "write_words io p (Suc n) m d = write_words io (p + 4) n m (write_reg io EMMC_DATA (word_at m p) d)"

fun read_words :: "'d mmio \<Rightarrow> ptr \<Rightarrow> nat \<Rightarrow> bmem \<Rightarrow> 'd \<Rightarrow> bmem \<times> 'd" where
  "read_words io p 0 m d = (m, d)"
| "read_words io p (Suc n) m d =
     (let (v, d) = read_reg io EMMC_DATA d in read_words io (p + 4) n (store_word p v m) d)"

definition emmc_cmd_process_single_block ::
  "'d mmio \<Rightarrow> ptr \<Rightarrow> u32 \<Rightarrow> bool \<Rightarrow> bmem \<times> 'd \<Rightarrow> int \<times> bmem \<times> 'd" where
  "emmc_cmd_process_single_block io buf sz is_write md =
     (let (m, d) = md; n = unat sz div 4
      in (EMMC_CMD_OK, if is_write then (m, write_words io buf n m d) else read_words io buf n m d))"

definition emmc_wait_process_interrupts :: "'d mmio \<Rightarrow> u32 \<Rightarrow> u64 \<Rightarrow> bool \<Rightarrow> 'd \<Rightarrow> (int \<times> 'd) kres" where
  "emmc_wait_process_interrupts io intbits timeout_usec blocking d =
     kbind (emmc_wait_reg_value io EMMC_INTERRUPT 0 intbits timeout_usec blocking d) (\<lambda>(r, d).
       case r of
         None \<Rightarrow> Inr (EMMC_CMD_TIMEOUT, d)
       | Some intval \<Rightarrow>
           let d = write_reg io EMMC_INTERRUPT intval d
           in Inr (if EMMC_INTERRUPT_GET_ERR intval \<noteq> 0
                   then if EMMC_INTERRUPT_GET_CTO_ERR intval \<noteq> 0 then EMMC_CMD_TIMEOUT else EMMC_CMD_ERR
                   else EMMC_CMD_OK, d))"

function process_blocks ::
  "'d mmio \<Rightarrow> emmc_command \<Rightarrow> bool \<Rightarrow> u32 \<Rightarrow> u64 \<Rightarrow> bool \<Rightarrow> u32 \<Rightarrow> bmem \<times> 'd \<Rightarrow> (int \<times> bmem \<times> 'd) kres" where
  "process_blocks io c is_write intbits timeout_usec blocking block md =
     (if block < num_blocks c
      then kbind (emmc_wait_process_interrupts io intbits timeout_usec blocking (snd md)) (\<lambda>(status, d).
             if status \<noteq> EMMC_CMD_OK then Inr (status, fst md, d)
             else let (status, md) = emmc_cmd_process_single_block io (databuf c + unat (block * block_size c)) (block_size c) is_write (fst md, d)
                  in if status \<noteq> EMMC_CMD_OK then Inr (status, md)
                     else process_blocks io c is_write intbits timeout_usec blocking (block + 1) md)
      else Inr (EMMC_CMD_OK, md))"
  by pat_completeness auto
termination
proof (relation "measure (\<lambda>(_, c, _, _, _, _, block, _). unat (num_blocks c) - unat block)", goal_cases)
  case (2 io c is_write intbits timeout_usec blocking block)
  then have "block < num_blocks c" by simp
  then show ?case using unat_Suc_less [OF \<open>block < num_blocks c\<close>] by (simp add: word_less_nat_alt)
qed simp

declare process_blocks.simps [simp del]

definition emmc_cmd_process_data ::
  "'d mmio \<Rightarrow> emmc_command \<Rightarrow> u32 \<Rightarrow> u64 \<Rightarrow> bool \<Rightarrow> bmem \<times> 'd \<Rightarrow> (int \<times> bmem \<times> 'd) kres" where
  "emmc_cmd_process_data io c cmdreg timeout_usec blocking md =
     (let is_write = (EMMC_CMDTM_GET_TM_DAT_DIR cmdreg = EMMC_TRANS_TYPE_DATA_HOST_TO_CARD);
          intbits = EMMC_INTERRUPT_CLR_SET_ERR 1 0;
          intbits = (if is_write then EMMC_INTERRUPT_CLR_SET_WRITE_RDY 1 intbits else EMMC_INTERRUPT_CLR_SET_READ_RDY 1 intbits)
      in kbind (process_blocks io c is_write intbits timeout_usec blocking 0 md) (\<lambda>(status, m, d).
           if status \<noteq> EMMC_CMD_OK then Inr (status, m, d)
           else kbind (emmc_wait_process_interrupts io (EMMC_INTERRUPT_CLR_SET_DATA_DONE 1 (EMMC_INTERRUPT_CLR_SET_ERR 1 0))
                         timeout_usec blocking d) (\<lambda>(status, d). Inr (status, m, d))))"

text \<open>The answer of the card, read from the registers that its type needs.\<close>

definition read_response :: "'d mmio \<Rightarrow> u32 \<Rightarrow> emmc_command \<Rightarrow> 'd \<Rightarrow> emmc_command \<times> 'd" where
  "read_response io response_type c d =
     (if response_type = EMMC_RESPONSE_TYPE_136_BITS
      then let (r0, d) = read_reg io EMMC_RESP0 d; (r1, d) = read_reg io EMMC_RESP1 d;
               (r2, d) = read_reg io EMMC_RESP2 d; (r3, d) = read_reg io EMMC_RESP3 d
           in (c\<lparr>resp0 := r0, resp1 := r1, resp2 := r2, resp3 := r3\<rparr>, d)
      else if response_type = EMMC_RESPONSE_TYPE_48_BITS \<or> response_type = EMMC_RESPONSE_TYPE_48_BITS_BUSY
      then let (r0, d) = read_reg io EMMC_RESP0 d in (c\<lparr>resp0 := r0\<rparr>, d)
      else (c, d))"

text \<open>What follows the acceptance of a command: its answer, its data, and the end of the busy state.\<close>

definition finish_cmd ::
  "'d mmio \<Rightarrow> emmc_command \<Rightarrow> u32 \<Rightarrow> u64 \<Rightarrow> bmem \<times> 'd \<Rightarrow> (int \<times> emmc_command \<times> bmem \<times> 'd) kres" where
  "finish_cmd io c cmdreg timeout_usec md =
     (let (m, d) = md;
          response_type = EMMC_CMDTM_GET_CMD_RSPNS_TYPE cmdreg;
          (c, d) = read_response io response_type c (write_reg io EMMC_INTERRUPT 0xffff0001 d)
      in kbind (if EMMC_CMDTM_GET_CMD_ISDATA cmdreg \<noteq> 0
                then emmc_cmd_process_data io c cmdreg timeout_usec emmc_mode_blocking (m, d)
                else Inr (EMMC_CMD_OK, m, d)) (\<lambda>(data_status, m, d).
           if data_status \<noteq> EMMC_CMD_OK then Inr (data_status, c, m, d)
           else if response_type = EMMC_RESPONSE_TYPE_48_BITS_BUSY
           then let (_, d) = read_reg io EMMC_INTERRUPT d
                in kbind (emmc_interrupt_wait_done_or_err io timeout_usec False True emmc_mode_blocking d) (\<lambda>(r, d).
                     case r of
                       None \<Rightarrow> Inr (EMMC_CMD_TIMEOUT, c, m, d)
                     | Some _ \<Rightarrow> Inr (EMMC_CMD_OK, c, m, write_reg io EMMC_INTERRUPT 0xffff0002 d))
           else Inr (EMMC_CMD_OK, c, m, d)))"

definition emmc_do_issue_cmd ::
  "'d mmio \<Rightarrow> emmc_command \<Rightarrow> u32 \<Rightarrow> u64 \<Rightarrow> bmem \<times> 'd \<Rightarrow> (int \<times> emmc_command \<times> bmem \<times> 'd) kres" where
  "emmc_do_issue_cmd io c cmdreg timeout_usec md =
     (let (m, d) = md; (err, d) = emmc_wait_cmd_inhibit io d
      in if err \<noteq> 0 then Inr (-1, c, m, d)
         else let (err, d) = emmc_wait_dat_inhibit io d
              in if err \<noteq> 0 then Inr (-1, c, m, d)
                 else let blksizecnt = EMMC_BLKSIZECNT_CLR_SET_BLKCNT (num_blocks c) (EMMC_BLKSIZECNT_CLR_SET_BLKSIZE (block_size c) 0);
                          d = write_reg io EMMC_BLKSIZECNT blksizecnt d;
                          d = write_reg io EMMC_ARG1 (cmd_arg c) d;
                          d = write_reg io EMMC_CMDTM cmdreg d
                      in kbind (emmc_interrupt_wait_done_or_err io timeout_usec True False emmc_mode_blocking d) (\<lambda>(r, d).
                           case r of
                             None \<Rightarrow> Inr (EMMC_CMD_TIMEOUT, c, m, d)
                           | Some intval \<Rightarrow>
                               if EMMC_INTERRUPT_GET_ERR intval \<noteq> 0
                               then let d = write_reg io EMMC_INTERRUPT intval d
                                    in Inr (if EMMC_INTERRUPT_GET_CTO_ERR intval \<noteq> 0 \<and>
                                               EMMC_INTERRUPT_CLR_SET_ERR 1 (EMMC_INTERRUPT_CLR_SET_CTO_ERR 1 0) = intval
                                            then EMMC_CMD_TIMEOUT else EMMC_CMD_ERR, c, m, d)
                               else finish_cmd io c cmdreg timeout_usec (m, d)))"

text \<open>The tables have sixty entries; an index behind them is an access that C leaves undefined.\<close>

definition command_entry :: "u32 list \<Rightarrow> u32 \<Rightarrow> u32 kres" where
  "command_entry xs i = (if unat i < length xs then Inr (xs ! unat i) else Inl ''emmc_cmd: index outside of the table'')"

definition emmc_cmd :: "'d mmio \<Rightarrow> emmc_command \<Rightarrow> u64 \<Rightarrow> bmem \<times> 'd \<Rightarrow> (int \<times> emmc_command \<times> bmem \<times> 'd) kres" where
  "emmc_cmd io c timeout_usec md =
     (let (m, d) = md;
          (intval, d) = read_reg io EMMC_INTERRUPT d;
          d = (if intval \<noteq> 0 then write_reg io EMMC_INTERRUPT intval d else d)
      in if EMMC_CMD_IS_ACMD (cmd_idx c)
         then let tmp_cmd = (emmc_cmd_init EMMC_CMD55 (push_bit 16 (rca c)))\<lparr>num_blocks := num_blocks c, block_size := block_size c\<rparr>
              in kbind (command_entry sd_commands EMMC_CMD55) (\<lambda>reg.
                 kbind (emmc_do_issue_cmd io tmp_cmd reg timeout_usec (m, d)) (\<lambda>(tmp_status, _, m, d).
                   if tmp_status \<noteq> EMMC_CMD_OK then Inr (tmp_status, c, m, d)
                   else kbind (command_entry sd_acommands (cmd_idx c)) (\<lambda>reg. emmc_do_issue_cmd io c reg timeout_usec (m, d))))
         else kbind (command_entry sd_commands (cmd_idx c)) (\<lambda>reg. emmc_do_issue_cmd io c reg timeout_usec (m, d)))"

definition emmc_reset_cmd :: "'d mmio \<Rightarrow> 'd \<Rightarrow> (int \<times> 'd) kres" where
  "emmc_reset_cmd io d =
     kbind (emmc_wait_reg_value io EMMC_CONTROL1 EMMC_CONTROL1_MASK_SRST_CMD 0 EMMC_WAIT_TIMEOUT_USEC emmc_mode_blocking
              (modify_reg io EMMC_CONTROL1 (EMMC_CONTROL1_CLR_SET_SRST_CMD 1) d)) (\<lambda>(r, d).
       Inr (if r = None then ERR_TIMEOUT else ERR_OK, d))"

section \<open>Single commands\<close>

text \<open>A command whose status becomes an error code; the command comes back with the answer of the card.\<close>

definition simple_cmd :: "'d mmio \<Rightarrow> emmc_command \<Rightarrow> u64 \<Rightarrow> bmem \<times> 'd \<Rightarrow> (int \<times> emmc_command \<times> bmem \<times> 'd) kres" where
  "simple_cmd io c timeout_usec md =
     kbind (emmc_cmd io c timeout_usec md) (\<lambda>(status, c, md). kbind (emmc_cmd_status_to_err status) (\<lambda>err. Inr (err, c, md)))"

definition emmc_cmd0 :: "'d mmio \<Rightarrow> bmem \<times> 'd \<Rightarrow> (int \<times> bmem \<times> 'd) kres" where
  "emmc_cmd0 io md =
     kbind (simple_cmd io (emmc_cmd_init EMMC_CMD0 0) EMMC_WAIT_TIMEOUT_USEC md) (\<lambda>(err, _, md). Inr (err, md))"

text \<open>\<^verbatim>\<open>emmc_cmd2\<close> writes the identification of the card to four words at \<open>device_id\<close>.\<close>

definition emmc_cmd2 :: "'d mmio \<Rightarrow> ptr \<Rightarrow> bmem \<times> 'd \<Rightarrow> (int \<times> bmem \<times> 'd) kres" where
  "emmc_cmd2 io device_id md =
     kbind (simple_cmd io (emmc_cmd_init EMMC_CMD2 0) EMMC_WAIT_TIMEOUT_USEC md) (\<lambda>(err, c, m, d).
       Inr (err, if err \<noteq> ERR_OK then m
                 else store_word (device_id + 12) (resp3 c) (store_word (device_id + 8) (resp2 c)
                        (store_word (device_id + 4) (resp1 c) (store_word device_id (resp0 c) m))), d))"

definition emmc_cmd3 :: "'d mmio \<Rightarrow> u32 \<Rightarrow> bmem \<times> 'd \<Rightarrow> (int \<times> u32 \<times> bmem \<times> 'd) kres" where
  "emmc_cmd3 io out_rca md =
     kbind (simple_cmd io (emmc_cmd_init EMMC_CMD3 0) EMMC_WAIT_TIMEOUT_USEC md) (\<lambda>(err, c, md).
       Inr (if err \<noteq> ERR_OK then (err, out_rca, md)
            else if BF_EXTRACT (resp0 c) 13 1 \<noteq> 0 then (ERR_GENERIC, out_rca, md)
            else (ERR_OK, BF_EXTRACT (resp0 c) 16 16, md)))"

definition emmc_cmd5 :: "'d mmio \<Rightarrow> bmem \<times> 'd \<Rightarrow> (int \<times> bmem \<times> 'd) kres" where
  "emmc_cmd5 io md = kbind (simple_cmd io (emmc_cmd_init EMMC_CMD5 0) 2000 md) (\<lambda>(err, _, md). Inr (err, md))"

definition emmc_cmd7 :: "'d mmio \<Rightarrow> u32 \<Rightarrow> bmem \<times> 'd \<Rightarrow> (int \<times> bmem \<times> 'd) kres" where
  "emmc_cmd7 io r md =
     kbind (simple_cmd io (emmc_cmd_init EMMC_CMD7 (push_bit 16 r)) EMMC_WAIT_TIMEOUT_USEC md) (\<lambda>(err, _, md). Inr (err, md))"

definition emmc_cmd8 :: "'d mmio \<Rightarrow> bmem \<times> 'd \<Rightarrow> (int \<times> bmem \<times> 'd) kres" where
  "emmc_cmd8 io md =
     kbind (simple_cmd io (emmc_cmd_init EMMC_CMD8 EMMC_CMD8_ARG) EMMC_WAIT_TIMEOUT_USEC md) (\<lambda>(err, c, md).
       Inr (if err \<noteq> ERR_OK then err else if resp0 c \<noteq> EMMC_CMD8_ARG then ERR_GENERIC else ERR_OK, md))"

definition emmc_cmd13 :: "'d mmio \<Rightarrow> u32 \<Rightarrow> u32 \<Rightarrow> bmem \<times> 'd \<Rightarrow> (int \<times> u32 \<times> bmem \<times> 'd) kres" where
  "emmc_cmd13 io r out_status md =
     kbind (simple_cmd io (emmc_cmd_init EMMC_CMD13 (push_bit 16 r)) EMMC_WAIT_TIMEOUT_USEC md) (\<lambda>(err, c, md).
       Inr (err, if err \<noteq> ERR_OK then out_status else resp0 c, md))"

definition block_cmd :: "u32 \<Rightarrow> u32 \<Rightarrow> ptr \<Rightarrow> emmc_command" where
  "block_cmd idx block_idx buf = (emmc_cmd_init idx block_idx)\<lparr>databuf := buf, num_blocks := 1, block_size := 512\<rparr>"

definition emmc_cmd17 :: "'d mmio \<Rightarrow> u32 \<Rightarrow> ptr \<Rightarrow> bmem \<times> 'd \<Rightarrow> (int \<times> bmem \<times> 'd) kres" where
  "emmc_cmd17 io block_idx dstbuf md =
     kbind (simple_cmd io (block_cmd EMMC_CMD17 block_idx dstbuf) EMMC_WAIT_TIMEOUT_USEC md) (\<lambda>(err, _, md). Inr (err, md))"

definition emmc_cmd24 :: "'d mmio \<Rightarrow> u32 \<Rightarrow> ptr \<Rightarrow> bmem \<times> 'd \<Rightarrow> (int \<times> bmem \<times> 'd) kres" where
  "emmc_cmd24 io block_idx srcbuf md =
     kbind (simple_cmd io (block_cmd EMMC_CMD24 block_idx srcbuf) EMMC_WAIT_TIMEOUT_USEC md) (\<lambda>(err, _, md). Inr (err, md))"

definition emmc_acmd6 :: "'d mmio \<Rightarrow> u32 \<Rightarrow> u32 \<Rightarrow> bmem \<times> 'd \<Rightarrow> (int \<times> bmem \<times> 'd) kres" where
  "emmc_acmd6 io r bus_width_bit md =
     kbind (simple_cmd io ((emmc_cmd_init EMMC_ACMD6 bus_width_bit)\<lparr>rca := r\<rparr>) EMMC_WAIT_TIMEOUT_USEC md) (\<lambda>(err, _, md). Inr (err, md))"

definition emmc_acmd41 :: "'d mmio \<Rightarrow> u32 \<Rightarrow> u32 \<Rightarrow> bmem \<times> 'd \<Rightarrow> (int \<times> u32 \<times> bmem \<times> 'd) kres" where
  "emmc_acmd41 io arg resp md =
     kbind (simple_cmd io (emmc_cmd_init EMMC_ACMD41 arg) EMMC_WAIT_TIMEOUT_USEC md) (\<lambda>(err, c, md).
       Inr (err, if err \<noteq> ERR_OK then resp else resp0 c, md))"

definition emmc_acmd51 :: "'d mmio \<Rightarrow> u32 \<Rightarrow> ptr \<Rightarrow> int \<Rightarrow> bmem \<times> 'd \<Rightarrow> (int \<times> bmem \<times> 'd) kres" where
  "emmc_acmd51 io r scrbuf scrbuf_len md =
     (if scrbuf_len < 8 then Inr (-1, md)
      else if scrbuf mod 4 \<noteq> 0 then Inr (-1, md)
      else kbind (simple_cmd io ((emmc_cmd_init EMMC_ACMD51 0)\<lparr>block_size := 8, num_blocks := 1, rca := r, databuf := scrbuf\<rparr>)
                    (EMMC_WAIT_TIMEOUT_USEC * 4) md) (\<lambda>(err, _, md). Inr (err, md)))"

section \<open>Blocks\<close>

datatype emmc_io_type = EMMC_IO_READ | EMMC_IO_WRITE

text \<open>Only one block is read or written, whatever number the caller asks for, and the size of the buffer is not looked at.\<close>

definition emmc_data_io ::
  "'d mmio \<Rightarrow> emmc_io_type \<Rightarrow> ptr \<Rightarrow> u64 \<Rightarrow> u32 \<Rightarrow> u32 \<Rightarrow> bmem \<times> 'd \<Rightarrow> (int \<times> bmem \<times> 'd) kres" where
  "emmc_data_io io io_type buf bufsz first_block_idx nblocks md =
     kbind (case io_type of EMMC_IO_READ \<Rightarrow> emmc_cmd17 io first_block_idx buf md
                          | EMMC_IO_WRITE \<Rightarrow> emmc_cmd24 io first_block_idx buf md) (\<lambda>(cmd_err, md).
       Inr (if cmd_err \<noteq> 0 then -1 else 0, md))"

definition emmc_read :: "'d mmio \<Rightarrow> int \<Rightarrow> int \<Rightarrow> ptr \<Rightarrow> int \<Rightarrow> bmem \<times> 'd \<Rightarrow> (int \<times> bmem \<times> 'd) kres" where
  "emmc_read io first_block_idx nblocks buf bufsz md =
     emmc_data_io io EMMC_IO_READ buf (word_of_int bufsz) (word_of_int first_block_idx) (word_of_int nblocks) md"

definition emmc_write :: "'d mmio \<Rightarrow> int \<Rightarrow> int \<Rightarrow> ptr \<Rightarrow> int \<Rightarrow> bmem \<times> 'd \<Rightarrow> (int \<times> bmem \<times> 'd) kres" where
  "emmc_write io first_block_idx nblocks buf bufsz md =
     emmc_data_io io EMMC_IO_WRITE buf (word_of_int bufsz) (word_of_int first_block_idx) (word_of_int nblocks) md"

section \<open>The clock\<close>

definition MBOX_CLOCK_ID_EMMC :: u32 where "MBOX_CLOCK_ID_EMMC = 1"
definition MBOX_DEVICE_ID_SD :: u32 where "MBOX_DEVICE_ID_SD = 0"

definition emmc_get_clock_div :: "videocore \<Rightarrow> u32 \<Rightarrow> u32 \<Rightarrow> mbuf \<Rightarrow> (u32 \<times> mbuf) kres" where
  "emmc_get_clock_div vc addr target_clock b =
     kbind (mbox_get_clock_rate vc addr MBOX_CLOCK_ID_EMMC 0 b) (\<lambda>(err, base_clock, b).
       Inr (if err \<noteq> 0 then - 1
            else if base_clock = 200000000 \<and> target_clock = EMMC_CLOCK_HZ_SETUP then 64
            else if base_clock = 200000000 \<and> target_clock = EMMC_CLOCK_HZ_NORMAL then 4 else 0, b))"

definition emmc_wait_clock_stabilized :: "'d mmio \<Rightarrow> u64 \<Rightarrow> bool \<Rightarrow> 'd \<Rightarrow> (int \<times> 'd) kres" where
  "emmc_wait_clock_stabilized io timeout_usec blocking d =
     kbind (emmc_wait_reg_value io EMMC_CONTROL1 EMMC_CONTROL1_MASK_CLK_STABLE EMMC_CONTROL1_MASK_CLK_STABLE timeout_usec blocking d)
       (\<lambda>(r, d). Inr (if r = None then ERR_TIMEOUT else ERR_OK, d))"

definition emmc_set_clock :: "'d mmio \<Rightarrow> videocore \<Rightarrow> u32 \<Rightarrow> u32 \<Rightarrow> 'd \<times> mbuf \<Rightarrow> (int \<times> 'd \<times> mbuf) kres" where
  "emmc_set_clock io vc addr target_hz db =
     (let (d, b) = db
      in kbind (emmc_get_clock_div vc addr target_hz b) (\<lambda>(divisor, b).
           if divisor = 0 then Inr (ERR_GENERIC, d, b)
           else let (err, d) = emmc_wait_cmd_dat_ready io d
                in if err \<noteq> 0 then Inr (ERR_GENERIC, d, b)
                   else let d = modify_reg io EMMC_CONTROL1 (\<lambda>r. EMMC_CONTROL1_CLR_SET_CLK_INTLEN 1 (EMMC_CONTROL1_CLR_SET_DATA_TOUNIT 0xb r) OR divisor) d
                        in kbind (emmc_wait_clock_stabilized io 1000 emmc_mode_blocking d) (\<lambda>(err, d). Inr (err, d, b))))"

section \<open>Initialisation\<close>

definition emmc_set_block_size :: "'d mmio \<Rightarrow> u32 \<Rightarrow> 'd \<Rightarrow> 'd" where
  "emmc_set_block_size io sz = modify_reg io EMMC_BLKSIZECNT (\<lambda>r. (r AND 0xffff) OR sz)"

definition emmc_reset_handle_scr :: "'d mmio \<Rightarrow> u32 \<Rightarrow> ptr \<Rightarrow> bmem \<times> 'd \<Rightarrow> (int \<times> bmem \<times> 'd) kres" where
  "emmc_reset_handle_scr io r scr md =
     (let m = fst md;
          scr_le32 = push_bit 24 (ucast (m scr)) OR push_bit 16 (ucast (m (scr + 1))) OR push_bit 8 (ucast (m (scr + 2))) OR ucast (m (scr + 3)) :: u32;
          bus_width = BF_EXTRACT scr_le32 (48 - 32) 4;
          finish = (\<lambda>(m, d). (ERR_OK, m, write_reg io EMMC_INTERRUPT 0xffffffff d))
      in if bus_width AND 4 \<noteq> 0
         then kbind (emmc_acmd6 io r EMMC_BUS_WIDTH_4BITS md) (\<lambda>(err, m, d).
                Inr (if err \<noteq> ERR_OK then (err, m, d)
                     else finish (m, modify_reg io EMMC_CONTROL0 (EMMC_CONTROL0_CLR_SET_HCTL_DWIDTH 1) d)))
         else Inr (finish md))"

record 'd emmc_state =
  es_mem :: bmem
  es_dev :: 'd
  es_mbuf :: mbuf
  es_rca :: u32
  es_initialized :: bool

text \<open>An operation on memory and controller, and the check of its error after it.\<close>

definition on_card :: "(bmem \<times> 'd \<Rightarrow> (int \<times> bmem \<times> 'd) kres) \<Rightarrow> 'd emmc_state \<Rightarrow> (int \<times> 'd emmc_state) kres" where
  "on_card f s = kbind (f (es_mem s, es_dev s)) (\<lambda>(err, m, d). Inr (err, s\<lparr>es_mem := m, es_dev := d\<rparr>))"

definition on_dev :: "('d \<Rightarrow> 'd) \<Rightarrow> 'd emmc_state \<Rightarrow> 'd emmc_state" where "on_dev f s = s\<lparr>es_dev := f (es_dev s)\<rparr>"

definition EMMC_CHECK_ERR :: "(int \<times> 's) kres \<Rightarrow> ('s \<Rightarrow> (int \<times> 's) run) \<Rightarrow> (int \<times> 's) run" where
  "EMMC_CHECK_ERR r f = run_bind (Some r) (\<lambda>(err, s). if err \<noteq> ERR_OK then Some (Inr (err, s)) else f s)"

definition reset_circuit :: "'d mmio \<Rightarrow> videocore \<Rightarrow> u32 \<Rightarrow> 'd emmc_state \<Rightarrow> (int \<times> 'd emmc_state) kres" where
  "reset_circuit io vc addr s =
     (let s = on_dev (write_reg io EMMC_CONTROL0 0) s
      in kbind (mbox_get_power_state vc addr MBOX_DEVICE_ID_SD 0 0 (es_mbuf s)) (\<lambda>(_, _, _, b).
           let s = on_dev (modify_reg io EMMC_CONTROL1 (\<lambda>r.
                     EMMC_CONTROL1_CLR_CLK_EN (EMMC_CONTROL1_CLR_CLK_INTLEN (EMMC_CONTROL1_CLR_SET_SRST_HC 1 r)))) (s\<lparr>es_mbuf := b\<rparr>);
               (ok, d) = poll_n io EMMC_CONTROL1 (\<lambda>r. EMMC_CONTROL1_GET_SRST_HC r = 0) 1000 (es_dev s); s = s\<lparr>es_dev := d\<rparr>
           in Inr (if ok then ERR_OK else ERR_TIMEOUT, s)))"

definition set_clock :: "'d mmio \<Rightarrow> videocore \<Rightarrow> u32 \<Rightarrow> u32 \<Rightarrow> 'd emmc_state \<Rightarrow> (int \<times> 'd emmc_state) kres" where
  "set_clock io vc addr hz s =
     kbind (emmc_set_clock io vc addr hz (es_dev s, es_mbuf s)) (\<lambda>(err, d, b). Inr (err, s\<lparr>es_dev := d, es_mbuf := b\<rparr>))"

definition enable_clock :: "'d mmio \<Rightarrow> 'd \<Rightarrow> 'd" where
  "enable_clock io d =
     (let (status, d) = read_reg io EMMC_STATUS d;
          d = modify_reg io EMMC_CONTROL1 (EMMC_CONTROL1_CLR_SET_CLK_EN 1) d;
          d = write_reg io EMMC_IRPT_EN 0 d;
          d = write_reg io EMMC_INTERRUPT 0xffffffff d
      in write_reg io EMMC_IRPT_MASK 0xfffffeff d)"

text \<open>A card that answers CMD5 is an SDIO card, which the driver refuses; the command has to time out.\<close>

definition check_sdio :: "'d mmio \<Rightarrow> 'd emmc_state \<Rightarrow> (int \<times> 'd emmc_state) kres" where
  "check_sdio io s =
     kbind (on_card (emmc_cmd5 io) s) (\<lambda>(err, s).
       if err = ERR_OK then Inr (ERR_NOT_IMPLEMENTED, s)
       else if err \<noteq> ERR_TIMEOUT then Inr (err, s)
       else kbind (emmc_reset_cmd io (es_dev s)) (\<lambda>(err, d). Inr (err, s\<lparr>es_dev := d\<rparr>)))"

partial_function (option) acmd41_loop :: "'d mmio \<Rightarrow> u32 \<Rightarrow> bmem \<times> 'd \<Rightarrow> (bmem \<times> 'd) run" where
  "acmd41_loop io resp md =
     (if BIT_IS_SET resp 31 then Some (Inr md)
      else run_bind (Some (emmc_acmd41 io (0x00ff8000 OR BT 28 OR BT 30) resp md)) (\<lambda>(_, resp, md). acmd41_loop io resp md))"

definition wait_card_ready :: "'d mmio \<Rightarrow> 'd emmc_state \<Rightarrow> (int \<times> 'd emmc_state) run" where
  "wait_card_ready io s =
     run_bind (Some (emmc_acmd41 io 0 0 (es_mem s, es_dev s))) (\<lambda>(err, resp, m, d).
       if err \<noteq> ERR_OK then Some (Inr (err, s\<lparr>es_mem := m, es_dev := d\<rparr>))
       else run_bind (acmd41_loop io resp (m, d)) (\<lambda>(m, d). Some (Inr (ERR_OK, s\<lparr>es_mem := m, es_dev := d\<rparr>))))"

text \<open>\<^verbatim>\<open>emmc_device_id\<close> is an array in \<^verbatim>\<open>emmc.c\<close> but declared as a pointer where it is used: the pointer is what the array holds.\<close>

definition device_id_pointer :: "bmem \<Rightarrow> ptr \<Rightarrow> ptr" where
  "device_id_pointer m emmc_device_id = unat (word_at m emmc_device_id) + 2 ^ 32 * unat (word_at m (emmc_device_id + 4))"

text \<open>The addresses of \<^verbatim>\<open>emmc_device_id\<close> and of the buffer on the stack are parameters.\<close>

definition emmc_reset :: "'d mmio \<Rightarrow> videocore \<Rightarrow> u32 \<Rightarrow> ptr \<Rightarrow> ptr \<Rightarrow> 'd emmc_state \<Rightarrow> (int \<times> 'd emmc_state) run" where
  "emmc_reset io vc addr emmc_device_id scr s =
     EMMC_CHECK_ERR (reset_circuit io vc addr s) (\<lambda>s.
     EMMC_CHECK_ERR (set_clock io vc addr EMMC_CLOCK_HZ_SETUP (on_dev (write_reg io EMMC_CONTROL2 0) s)) (\<lambda>s.
     EMMC_CHECK_ERR (on_card (emmc_cmd0 io) (on_dev (enable_clock io) s)) (\<lambda>s.
     EMMC_CHECK_ERR (on_card (emmc_cmd8 io) s) (\<lambda>s.
     EMMC_CHECK_ERR (check_sdio io s) (\<lambda>s.
     run_bind (wait_card_ready io s) (\<lambda>r. EMMC_CHECK_ERR (Inr r) (\<lambda>s.
     EMMC_CHECK_ERR (set_clock io vc addr EMMC_CLOCK_HZ_NORMAL s) (\<lambda>s.
     EMMC_CHECK_ERR (on_card (emmc_cmd2 io (device_id_pointer (es_mem s) emmc_device_id)) s) (\<lambda>s.
     EMMC_CHECK_ERR (kbind (emmc_cmd3 io (es_rca s) (es_mem s, es_dev s)) (\<lambda>(err, r, m, d).
                       Inr (err, s\<lparr>es_rca := r, es_mem := m, es_dev := d\<rparr>))) (\<lambda>s.
     EMMC_CHECK_ERR (on_card (emmc_cmd7 io (es_rca s)) s) (\<lambda>s.
     EMMC_CHECK_ERR (kbind (emmc_cmd13 io (es_rca s) 0 (es_mem s, es_dev s)) (\<lambda>(err, _, m, d).
                       Inr (err, s\<lparr>es_mem := m, es_dev := d\<rparr>))) (\<lambda>s.
     EMMC_CHECK_ERR (on_card (emmc_acmd51 io (es_rca s) scr 8) (on_dev (emmc_set_block_size io EMMC_BLOCK_SIZE) s)) (\<lambda>s.
     EMMC_CHECK_ERR (on_card (emmc_reset_handle_scr io (es_rca s) scr) s) (\<lambda>s. Some (Inr (ERR_OK, s))))))))))))))))"

definition emmc_init :: "'d mmio \<Rightarrow> videocore \<Rightarrow> u32 \<Rightarrow> ptr \<Rightarrow> ptr \<Rightarrow> 'd emmc_state \<Rightarrow> (int \<times> 'd emmc_state) run" where
  "emmc_init io vc addr emmc_device_id scr s =
     (if es_initialized s then Some (Inr (ERR_OK, s))
      else run_bind (emmc_reset io vc addr emmc_device_id scr s) (\<lambda>(err, s).
             Some (Inr (err, if err \<noteq> ERR_OK then s else s\<lparr>es_initialized := True\<rparr>))))"

end
