(* ===== verification/Emmc_card.thy ===== *)
theory Emmc_card
  imports Emmc
begin

text \<open>
  The SD card driver on a card: hardware that answers the commands for one block. With it the driver keeps the contract
  that the image writer of \<^verbatim>\<open>src/fs/fs.c\<close> relies on, so an image written over a file lands in the sectors of the card.
\<close>

section \<open>A controller with a card\<close>

text \<open>Interrupt bits show after \<open>sd_latency\<close> polls. A read command fills the FIFO with the words of a sector; a
  write command takes as many words. When the last word has passed, the bit for completed data is set.\<close>

record sdcard =
  sd_sectors :: "u32 \<Rightarrow> u32 list"
  sd_arg :: u32
  sd_int :: u32
  sd_busy :: nat
  sd_latency :: nat
  sd_fifo :: "u32 list"
  sd_room :: nat
  sd_in :: "u32 list"

definition sd_raise :: "u32 \<Rightarrow> sdcard \<Rightarrow> sdcard" where
  "sd_raise bits d = d\<lparr>sd_int := sd_int d OR bits, sd_busy := sd_latency d\<rparr>"

definition sd_command :: "u32 \<Rightarrow> sdcard \<Rightarrow> sdcard" where
  "sd_command cmdreg d =
     (let idx = drop_bit 24 cmdreg
      in if idx = 17 then sd_raise 0x21 (d\<lparr>sd_fifo := sd_sectors d (sd_arg d)\<rparr>)
         else if idx = 24 then sd_raise 0x11 (d\<lparr>sd_room := 128, sd_in := []\<rparr>)
         else sd_raise 1 d)"

definition sd_regs :: "sdcard mmio" where
  "sd_regs = \<lparr>mm_read = (\<lambda>a d.
       if a = EMMC_INTERRUPT then (if sd_busy d > 0 then (0, d\<lparr>sd_busy := sd_busy d - 1\<rparr>) else (sd_int d, d))
       else if a = EMMC_DATA
       then (case sd_fifo d of [] \<Rightarrow> (0, d)
             | w # ws \<Rightarrow> (w, if ws = [] then sd_raise 2 (d\<lparr>sd_fifo := []\<rparr>) else d\<lparr>sd_fifo := ws\<rparr>))
       else (0, d)),
     mm_write = (\<lambda>a v d.
       if a = EMMC_INTERRUPT then d\<lparr>sd_int := sd_int d AND NOT v\<rparr>
       else if a = EMMC_ARG1 then d\<lparr>sd_arg := v\<rparr>
       else if a = EMMC_CMDTM then sd_command v d
       else if a = EMMC_DATA
       then (if sd_room d = 0 then d
             else if sd_room d = 1
             then sd_raise 2 (d\<lparr>sd_sectors := (sd_sectors d)(sd_arg d := sd_in d @ [v]), sd_room := 0, sd_in := []\<rparr>)
             else d\<lparr>sd_room := sd_room d - 1, sd_in := sd_in d @ [v]\<rparr>)
       else d)\<rparr>"

lemma sd_regs_simps [simp]:
  "read_reg sd_regs EMMC_STATUS d = (0, d)"
  "read_reg sd_regs EMMC_RESP0 d = (0, d)"
  "write_reg sd_regs EMMC_BLKSIZECNT v d = d"
  "write_reg sd_regs EMMC_INTERRUPT v d = d\<lparr>sd_int := sd_int d AND NOT v\<rparr>"
  "write_reg sd_regs EMMC_ARG1 v d = d\<lparr>sd_arg := v\<rparr>"
  "write_reg sd_regs EMMC_CMDTM v d = sd_command v d"
  "sd_busy d = 0 \<Longrightarrow> read_reg sd_regs EMMC_INTERRUPT d = (sd_int d, d)"
  "sd_busy d = Suc n \<Longrightarrow> read_reg sd_regs EMMC_INTERRUPT d = (0, d\<lparr>sd_busy := n\<rparr>)"
  by (simp_all add: sd_regs_def read_reg_def write_reg_def emmc_addresses)

text \<open>A card that waits for a command.\<close>

definition sd_idle :: "sdcard \<Rightarrow> bool" where
  "sd_idle d \<longleftrightarrow> sd_int d = 0 \<and> sd_busy d = 0 \<and> sd_latency d < 10000 \<and> sd_fifo d = [] \<and> sd_room d = 0 \<and>
     (\<forall>s. length (sd_sectors d s) = 128)"

text \<open>The bytes of a block, for the numbers of blocks that fit an \<^verbatim>\<open>int\<close>.\<close>

definition sd_content :: "sdcard \<Rightarrow> int \<Rightarrow> u8 list" where
  "sd_content d blk = (if 0 \<le> blk \<and> blk < 2 ^ 31 then concat (map word_bytes (sd_sectors d (word_of_int blk))) else [])"

section \<open>Words and bytes\<close>

lemma length_word_bytes [simp]: "length (word_bytes w) = 4" by (simp add: word_bytes_def)

lemma word_bytes_word_at: "word_bytes (word_at m p) = map (\<lambda>i. m (p + i)) [0..<4]"
proof -
  have "(ucast (drop_bit (8 * i) (get_unaligned_32_le m p)) :: u8) = m (p + i)" if i: "i \<in> {0, 1, 2, 3}" for i
  proof (rule bit_word_eqI)
    fix n
    assume "n < LENGTH(8)"
    then have n: "n < 8" by simp
    have b: "bit (m a) k = False" if "k \<ge> 8" for a k using that bit_imp_le_length [of "m a" k] by auto
    show "bit (ucast (drop_bit (8 * i) (get_unaligned_32_le m p)) :: u8) n \<longleftrightarrow> bit (m (p + i)) n"
      using n i b by (auto simp: get_unaligned_32_le_def bit_ucast_iff bit_drop_bit_eq bit_or_iff bit_push_bit_iff)
  qed
  from this [of 0] this [of 1] this [of 2] this [of 3] show ?thesis
    by (simp add: word_bytes_def word_at_def upt_rec numeral_3_eq_3)
qed

lemma concat_words: "concat (map (\<lambda>i. word_bytes (word_at m (p + 4 * i))) [0..<n]) = map (\<lambda>i. m (p + i)) [0..<4 * n]"
proof (induction n)
  case 0
  show ?case by simp
next
  case (Suc n)
  have "[0..<4 * n + 4] = [0..<4 * n] @ map (\<lambda>i. i + 4 * n) [0..<4]"
    using upt_add_eq_append [of 0 "4 * n" 4] map_add_upt [of "4 * n" 4] by (simp add: add.commute)
  then have "map (\<lambda>i. m (p + i)) [0..<4 * Suc n] = map (\<lambda>i. m (p + i)) [0..<4 * n] @ map (\<lambda>i. m (p + (i + 4 * n))) [0..<4]"
    by (simp only: mult_Suc_right add.commute [of 4] map_append map_map comp_def)
  moreover have "word_bytes (word_at m (p + 4 * n)) = map (\<lambda>i. m (p + (i + 4 * n))) [0..<4]"
    by (simp only: word_bytes_word_at add.assoc add.commute [of "4 * n"])
  ultimately show ?case using Suc by simp
qed

section \<open>The waits end\<close>

lemma poll_n_ready: "read_reg io a d = (v, d') \<Longrightarrow> ready v \<Longrightarrow> poll_n io a ready (Suc n) d = (True, d')"
  by simp

lemma wait_inhibit [simp]: "emmc_wait_cmd_inhibit sd_regs d = (0, d)" "emmc_wait_dat_inhibit sd_regs d = (0, d)"
proof -
  have z: "EMMC_STATUS_GET_CMD_INHIBIT 0 = 0" "EMMC_STATUS_GET_DAT_INHIBIT 0 = 0"
    by (simp_all add: emmc_fields BF_EXTRACT_zero)
  have p: "poll_n sd_regs EMMC_STATUS r 1000 d = (True, d)" if "r 0" for r
    using poll_n_ready [where io = sd_regs and a = EMMC_STATUS and n = 999 and ready = r, OF sd_regs_simps(1)] that
    by simp
  show "emmc_wait_cmd_inhibit sd_regs d = (0, d)" "emmc_wait_dat_inhibit sd_regs d = (0, d)"
    by (simp_all only: emmc_wait_cmd_inhibit_def emmc_wait_dat_inhibit_def p z Let_def prod.case if_True)
qed

lemma wait_loop_sd:
  assumes "sd_int d AND bits \<noteq> 0" "100 * (sd_busy d + 1) \<le> unat left"
  shows "wait_loop sd_regs EMMC_INTERRUPT 0 bits left d = (Some (sd_int d), d\<lparr>sd_busy := 0\<rparr>)"
  using assms
proof (induction "sd_busy d" arbitrary: d left)
  case 0
  have "left \<ge> 100" using 0(3) by (simp add: word_le_nat_alt)
  moreover have "d\<lparr>sd_busy := 0\<rparr> = d" using 0(1) by simp
  ultimately show ?case using 0(1,2) by (subst wait_loop.simps) (simp add: reg_matches_def)
next
  case (Suc n)
  have l: "left \<ge> 100" "unat (left - 100) = unat left - 100"
    using Suc(4) by (simp_all add: word_le_nat_alt unat_sub)
  let ?d = "d\<lparr>sd_busy := n\<rparr>"
  have "wait_loop sd_regs EMMC_INTERRUPT 0 bits (left - 100) ?d = (Some (sd_int ?d), ?d\<lparr>sd_busy := 0\<rparr>)"
    by (rule Suc(1)) (use Suc(2,3,4) l in \<open>simp_all\<close>)
  then show ?case
    using l Suc(2) [symmetric] by (subst wait_loop.simps) (simp add: reg_matches_def)
qed

lemma wait_sd:
  assumes "sd_int d AND bits \<noteq> 0" "sd_busy d < 10000"
  shows "emmc_wait_reg_value sd_regs EMMC_INTERRUPT 0 bits EMMC_WAIT_TIMEOUT_USEC emmc_mode_blocking d =
    Inr (Some (sd_int d), d\<lparr>sd_busy := 0\<rparr>)"
  using wait_loop_sd [OF assms(1), of EMMC_WAIT_TIMEOUT_USEC] assms(2)
  by (simp add: emmc_wait_reg_value_def emmc_mode_blocking_def EMMC_WAIT_TIMEOUT_USEC_def)

text \<open>The masks that the driver waits for, and the bits that it tests.\<close>

lemma emmc_masks:
  "EMMC_INTERRUPT_MASK_ERR = 0x8000" "EMMC_INTERRUPT_MASK_CMD_DONE = 1"
  "EMMC_INTERRUPT_CLR_SET_ERR 1 0 = 0x8000" "EMMC_INTERRUPT_CLR_SET_WRITE_RDY 1 0x8000 = 0x8010"
  "EMMC_INTERRUPT_CLR_SET_READ_RDY 1 0x8000 = 0x8020" "EMMC_INTERRUPT_CLR_SET_DATA_DONE 1 0x8000 = 0x8002"
  by (simp_all add: emmc_fields BF_MASK_AT_32_def BF_MASK_32_def BF_CLEAR_AND_SET_def BF_CLEAR_def BITS_PLACE_32_def)

lemma process_interrupts_sd:
  assumes "sd_int d AND bits \<noteq> 0" "sd_busy d < 10000" "\<not> bit (sd_int d) 15"
  shows "emmc_wait_process_interrupts sd_regs bits EMMC_WAIT_TIMEOUT_USEC emmc_mode_blocking d =
    Inr (EMMC_CMD_OK, d\<lparr>sd_busy := 0, sd_int := 0\<rparr>)"
proof -
  have "EMMC_INTERRUPT_GET_ERR (sd_int d) = 0" unfolding emmc_fields using BF_EXTRACT_1_bit assms(3) by blast
  then show ?thesis by (simp add: emmc_wait_process_interrupts_def wait_sd [OF assms(1,2)])
qed

section \<open>Data\<close>

lemma sd_data_simps:
  "sd_fifo d = w # ws \<Longrightarrow> ws \<noteq> [] \<Longrightarrow> read_reg sd_regs EMMC_DATA d = (w, d\<lparr>sd_fifo := ws\<rparr>)"
  "sd_fifo d = [w] \<Longrightarrow> read_reg sd_regs EMMC_DATA d = (w, sd_raise 2 (d\<lparr>sd_fifo := []\<rparr>))"
  "sd_room d = Suc (Suc n) \<Longrightarrow> write_reg sd_regs EMMC_DATA v d = d\<lparr>sd_room := Suc n, sd_in := sd_in d @ [v]\<rparr>"
  "sd_room d = Suc 0 \<Longrightarrow> write_reg sd_regs EMMC_DATA v d =
     sd_raise 2 (d\<lparr>sd_sectors := (sd_sectors d)(sd_arg d := sd_in d @ [v]), sd_room := 0, sd_in := []\<rparr>)"
  by (simp_all add: sd_regs_def read_reg_def write_reg_def emmc_addresses)

lemma store_bytes_append: "store_bytes (p + length xs) ys (store_bytes p xs m) = store_bytes p (xs @ ys) m"
  by (rule ext) (auto simp: store_bytes_def nth_append)

lemma read_words_sd:
  "sd_fifo d = ws \<Longrightarrow> ws \<noteq> [] \<Longrightarrow> read_words sd_regs p (length ws) m d =
     (store_bytes p (concat (map word_bytes ws)) m, sd_raise 2 (d\<lparr>sd_fifo := []\<rparr>))"
proof (induction ws arbitrary: p m d)
  case (Cons w ws)
  show ?case
  proof (cases "ws = []")
    case True
    then show ?thesis using Cons.prems(1) by (simp add: sd_data_simps store_word_def)
  next
    case False
    have "read_words sd_regs (p + 4) (length ws) (store_word p w m) (d\<lparr>sd_fifo := ws\<rparr>) =
      (store_bytes (p + 4) (concat (map word_bytes ws)) (store_word p w m), sd_raise 2 (d\<lparr>sd_fifo := []\<rparr>))"
      using Cons.IH [of "d\<lparr>sd_fifo := ws\<rparr>"] False by simp
    then show ?thesis
      using Cons.prems(1) False store_bytes_append [of p "word_bytes w"] by (simp add: sd_data_simps store_word_def)
  qed
qed simp

lemma write_words_sd:
  "sd_room d = n \<Longrightarrow> 0 < n \<Longrightarrow> write_words sd_regs p n m d =
     sd_raise 2 (d\<lparr>sd_sectors := (sd_sectors d)(sd_arg d := sd_in d @ map (\<lambda>i. word_at m (p + 4 * i)) [0..<n]), sd_room := 0, sd_in := []\<rparr>)"
proof (induction n arbitrary: p d)
  case (Suc n)
  show ?case
  proof (cases n)
    case 0
    then show ?thesis using Suc.prems(1) by (simp add: sd_data_simps fun_upd_def)
  next
    case (Suc k)
    let ?d = "d\<lparr>sd_room := n, sd_in := sd_in d @ [word_at m p]\<rparr>"
    have "map (\<lambda>i. word_at m (p + 4 * i)) [0..<Suc n] = word_at m p # map (\<lambda>i. word_at m (p + 4 + 4 * i)) [0..<n]"
      by (simp add: map_upt_Suc add.assoc del: upt_Suc)
    then show ?thesis
      using Suc.IH [of ?d "p + 4"] Suc Suc.prems(1) by (simp add: sd_data_simps sd_raise_def del: upt_Suc)
  qed
qed simp

section \<open>The commands for a block\<close>

lemma block_registers:
  "command_entry sd_commands EMMC_CMD17 = Inr 0x112A0010" "command_entry sd_commands EMMC_CMD24 = Inr 0x182A0000"
  by (simp_all add: command_entry_def emmc_cmds sd_commands_def CMDTM_GEN_def emmc_fields emmc_response_types emmc_trans_types)

lemma block_register_fields:
  "EMMC_CMDTM_GET_CMD_RSPNS_TYPE 0x112A0010 = EMMC_RESPONSE_TYPE_48_BITS" "EMMC_CMDTM_GET_CMD_ISDATA 0x112A0010 = 1"
  "EMMC_CMDTM_GET_TM_DAT_DIR 0x112A0010 = 1"
  "EMMC_CMDTM_GET_CMD_RSPNS_TYPE 0x182A0000 = EMMC_RESPONSE_TYPE_48_BITS" "EMMC_CMDTM_GET_CMD_ISDATA 0x182A0000 = 1"
  "EMMC_CMDTM_GET_TM_DAT_DIR 0x182A0000 = 0"
  by (simp_all add: emmc_fields BF_EXTRACT_def BF_MASK_32_def emmc_response_types)

lemma not_acmd:
  "EMMC_CMD_IS_ACMD EMMC_CMD17 = False" "EMMC_CMD_IS_ACMD EMMC_CMD24 = False"
  "cmd_idx (block_cmd i blk p) = i" "cmd_arg (block_cmd i blk p) = blk"
  by (simp_all add: EMMC_CMD_IS_ACMD_def block_cmd_def emmc_cmd_init_def emmc_cmds)

text \<open>Up to the data: the command is accepted, and the bit that asks for the data is pending.\<close>

lemma issue_block_cmd:
  assumes "sd_idle d" "cmdreg \<in> {0x112A0010, 0x182A0000}"
  shows "emmc_do_issue_cmd sd_regs c cmdreg EMMC_WAIT_TIMEOUT_USEC (m, d) =
    finish_cmd sd_regs c cmdreg EMMC_WAIT_TIMEOUT_USEC (m, (sd_command cmdreg (d\<lparr>sd_arg := cmd_arg c\<rparr>))\<lparr>sd_busy := 0\<rparr>)"
proof -
  let ?d = "sd_command cmdreg (d\<lparr>sd_arg := cmd_arg c\<rparr>)"
  have d: "sd_int ?d \<in> {0x21, 0x11}" "sd_busy ?d < 10000"
    using assms by (auto simp: sd_command_def sd_raise_def sd_idle_def)
  then have i: "sd_int ?d AND 0x8001 \<noteq> 0" "EMMC_INTERRUPT_GET_ERR (sd_int ?d) = 0"
    by (auto simp: emmc_fields BF_EXTRACT_def BF_MASK_32_def)
  show ?thesis
    using wait_sd [OF i(1) d(2)] i(2)
    by (simp add: emmc_do_issue_cmd_def emmc_interrupt_wait_done_or_err_def emmc_masks)
qed

lemma process_blocks_one:
  assumes "num_blocks c = 1" "emmc_wait_process_interrupts io bits t b d = Inr (EMMC_CMD_OK, d1)"
    "emmc_cmd_process_single_block io (databuf c) (block_size c) w (m, d1) = (EMMC_CMD_OK, m2, d2)"
  shows "process_blocks io c w bits t b 0 (m, d) = Inr (EMMC_CMD_OK, m2, d2)"
  by (subst process_blocks.simps) (simp add: assms process_blocks.simps [of io c w bits t b 1])

lemma read_block:
  assumes "sd_idle d"
  shows "emmc_cmd17 sd_regs blk p (m, d) =
    Inr (ERR_OK, store_bytes p (concat (map word_bytes (sd_sectors d blk))) m, d\<lparr>sd_arg := blk\<rparr>)"
proof -
  let ?c = "block_cmd EMMC_CMD17 blk p" and ?ws = "sd_sectors d blk"
  have I: "sd_int d = 0" "sd_busy d = 0" "sd_latency d < 10000" "sd_fifo d = []" "sd_room d = 0" "length ?ws = 128"
    using assms by (simp_all add: sd_idle_def)
  then have ne: "?ws \<noteq> []" by auto
  define d1 where "d1 = d\<lparr>sd_arg := blk, sd_int := 0x20, sd_busy := 0, sd_fifo := ?ws\<rparr>"
  define d2 where "d2 = d1\<lparr>sd_int := 0\<rparr>"
  define d3 where "d3 = sd_raise 2 (d2\<lparr>sd_fifo := []\<rparr>)"
  let ?m = "store_bytes p (concat (map word_bytes ?ws)) m"
  have cmd: "(sd_command 0x112A0010 (d\<lparr>sd_arg := blk\<rparr>))\<lparr>sd_busy := 0, sd_int := sd_int (sd_command 0x112A0010 (d\<lparr>sd_arg := blk\<rparr>)) AND NOT 0xffff0001\<rparr> = d1"
    using I by (simp add: sd_command_def sd_raise_def d1_def)
  have w1: "emmc_wait_process_interrupts sd_regs 0x8020 EMMC_WAIT_TIMEOUT_USEC emmc_mode_blocking d1 = Inr (EMMC_CMD_OK, d2)"
    using process_interrupts_sd [of d1 "0x8020"] by (simp add: d1_def d2_def)
  have rd: "emmc_cmd_process_single_block sd_regs (databuf (?c\<lparr>resp0 := 0\<rparr>)) (block_size (?c\<lparr>resp0 := 0\<rparr>)) False (m, d2) = (EMMC_CMD_OK, ?m, d3)"
    using read_words_sd [of d2 ?ws p m] I ne by (simp add: emmc_cmd_process_single_block_def block_cmd_def d1_def d2_def d3_def)
  have w2: "emmc_wait_process_interrupts sd_regs 0x8002 EMMC_WAIT_TIMEOUT_USEC emmc_mode_blocking d3 = Inr (EMMC_CMD_OK, d\<lparr>sd_arg := blk\<rparr>)"
    using process_interrupts_sd [of d3 "0x8002"] I by (simp add: d1_def d2_def d3_def sd_raise_def)
  have data: "emmc_cmd_process_data sd_regs (?c\<lparr>resp0 := 0\<rparr>) 0x112A0010 EMMC_WAIT_TIMEOUT_USEC emmc_mode_blocking (m, d1) =
      Inr (EMMC_CMD_OK, ?m, d\<lparr>sd_arg := blk\<rparr>)"
    using process_blocks_one [OF _ w1 rd] w2
    by (simp add: emmc_cmd_process_data_def block_register_fields emmc_trans_types emmc_masks block_cmd_def Let_def)
  have fin: "finish_cmd sd_regs ?c 0x112A0010 EMMC_WAIT_TIMEOUT_USEC (m, (sd_command 0x112A0010 (d\<lparr>sd_arg := blk\<rparr>))\<lparr>sd_busy := 0\<rparr>) =
      Inr (EMMC_CMD_OK, ?c\<lparr>resp0 := 0\<rparr>, ?m, d\<lparr>sd_arg := blk\<rparr>)"
    using cmd data by (simp add: finish_cmd_def read_response_def block_register_fields emmc_response_types Let_def)
  show ?thesis
    using I fin issue_block_cmd [OF assms, where cmdreg = "0x112A0010" and c = ?c and m = m]
    by (simp add: emmc_cmd17_def simple_cmd_def emmc_cmd_def not_acmd block_registers emmc_cmd_status_to_err_def emmc_statuses)
qed

lemma write_block:
  assumes "sd_idle d"
  shows "emmc_cmd24 sd_regs blk p (m, d) =
    Inr (ERR_OK, m, d\<lparr>sd_arg := blk, sd_sectors := (sd_sectors d)(blk := map (\<lambda>i. word_at m (p + 4 * i)) [0..<128]), sd_in := []\<rparr>)"
proof -
  let ?c = "block_cmd EMMC_CMD24 blk p" and ?ws = "map (\<lambda>i. word_at m (p + 4 * i)) [0..<128]"
  have I: "sd_int d = 0" "sd_busy d = 0" "sd_latency d < 10000" "sd_fifo d = []" "sd_room d = 0"
    using assms by (simp_all add: sd_idle_def)
  define d1 where "d1 = d\<lparr>sd_arg := blk, sd_int := 0x10, sd_busy := 0, sd_room := 128, sd_in := []\<rparr>"
  define d2 where "d2 = d1\<lparr>sd_int := 0\<rparr>"
  define d3 where "d3 = sd_raise 2 (d2\<lparr>sd_sectors := (sd_sectors d)(blk := ?ws), sd_room := 0, sd_in := []\<rparr>)"
  let ?d = "d\<lparr>sd_arg := blk, sd_sectors := (sd_sectors d)(blk := ?ws), sd_in := []\<rparr>"
  have cmd: "(sd_command 0x182A0000 (d\<lparr>sd_arg := blk\<rparr>))\<lparr>sd_busy := 0, sd_int := sd_int (sd_command 0x182A0000 (d\<lparr>sd_arg := blk\<rparr>)) AND NOT 0xffff0001\<rparr> = d1"
    using I by (simp add: sd_command_def sd_raise_def d1_def)
  have w1: "emmc_wait_process_interrupts sd_regs 0x8010 EMMC_WAIT_TIMEOUT_USEC emmc_mode_blocking d1 = Inr (EMMC_CMD_OK, d2)"
    using process_interrupts_sd [of d1 "0x8010"] by (simp add: d1_def d2_def)
  have rd: "emmc_cmd_process_single_block sd_regs (databuf (?c\<lparr>resp0 := 0\<rparr>)) (block_size (?c\<lparr>resp0 := 0\<rparr>)) True (m, d2) = (EMMC_CMD_OK, m, d3)"
    using write_words_sd [of d2 128 p m] by (simp add: emmc_cmd_process_single_block_def block_cmd_def d1_def d2_def d3_def)
  have w2: "emmc_wait_process_interrupts sd_regs 0x8002 EMMC_WAIT_TIMEOUT_USEC emmc_mode_blocking d3 = Inr (EMMC_CMD_OK, ?d)"
    using process_interrupts_sd [of d3 "0x8002"] I by (simp add: d1_def d2_def d3_def sd_raise_def)
  have data: "emmc_cmd_process_data sd_regs (?c\<lparr>resp0 := 0\<rparr>) 0x182A0000 EMMC_WAIT_TIMEOUT_USEC emmc_mode_blocking (m, d1) = Inr (EMMC_CMD_OK, m, ?d)"
    using process_blocks_one [OF _ w1 rd] w2
    by (simp add: emmc_cmd_process_data_def block_register_fields emmc_trans_types emmc_masks block_cmd_def Let_def)
  have fin: "finish_cmd sd_regs ?c 0x182A0000 EMMC_WAIT_TIMEOUT_USEC (m, (sd_command 0x182A0000 (d\<lparr>sd_arg := blk\<rparr>))\<lparr>sd_busy := 0\<rparr>) =
      Inr (EMMC_CMD_OK, ?c\<lparr>resp0 := 0\<rparr>, m, ?d)"
    using cmd data by (simp add: finish_cmd_def read_response_def block_register_fields emmc_response_types Let_def)
  show ?thesis
    using I fin issue_block_cmd [OF assms, where cmdreg = "0x182A0000" and c = ?c and m = m]
    by (simp add: emmc_cmd24_def simple_cmd_def emmc_cmd_def not_acmd block_registers emmc_cmd_status_to_err_def emmc_statuses)
qed

section \<open>The driver keeps the contract\<close>

lemma sd_content_block:
  "0 \<le> blk \<Longrightarrow> blk < 2 ^ 31 \<Longrightarrow> sd_content d blk = concat (map word_bytes (sd_sectors d (word_of_int blk)))"
  by (simp add: sd_content_def)

lemma length_sd_content:
  assumes "sd_idle d" "0 \<le> blk" "blk < 2 ^ 31"
  shows "length (sd_content d blk) = 512"
  using assms by (simp add: sd_content_block length_concat comp_def sum_list_triv sd_idle_def)

text \<open>Numbers of blocks in the range of \<^verbatim>\<open>int\<close> are different words.\<close>

lemma block_number_eq:
  assumes "0 \<le> i" "i < 2 ^ 31" "0 \<le> j" "j < 2 ^ 31"
  shows "(word_of_int i :: u32) = word_of_int j \<longleftrightarrow> i = j"
proof -
  have u: "uint (word_of_int k :: u32) = k" if "0 \<le> k" "k < 2 ^ 31" for k
  proof -
    have "k < 2 ^ 32" using that(2) by simp
    then show ?thesis using that(1) by (simp add: uint_word_of_int)
  qed
  show ?thesis using u [OF assms(1,2)] u [OF assms(3,4)] by metis
qed

lemma emmc_read_sd:
  assumes "sd_idle d" "0 \<le> blk" "blk < 2 ^ 31"
  shows "emmc_read sd_regs blk n p sz (m, d) = Inr (0, store_bytes p (sd_content d blk) m, d\<lparr>sd_arg := word_of_int blk\<rparr>)"
  using assms by (simp add: emmc_read_def emmc_data_io_def read_block sd_content_block ERR_OK_def)

lemma emmc_write_sd:
  assumes "sd_idle d" "0 \<le> blk" "blk < 2 ^ 31"
  obtains d' where "emmc_write sd_regs blk n p sz (m, d) = Inr (0, m, d')" "sd_idle d'"
    "sd_content d' = (sd_content d)(blk := map (\<lambda>i. m (p + i)) [0..<512])"
proof -
  let ?ws = "map (\<lambda>i. word_at m (p + 4 * i)) [0..<128]"
  let ?d = "d\<lparr>sd_arg := word_of_int blk, sd_sectors := (sd_sectors d)(word_of_int blk := ?ws), sd_in := []\<rparr>"
  have "emmc_write sd_regs blk n p sz (m, d) = Inr (0, m, ?d)"
    using assms(1) by (simp add: emmc_write_def emmc_data_io_def write_block ERR_OK_def)
  moreover have "sd_idle ?d" using assms(1) by (simp add: sd_idle_def)
  moreover have "sd_content ?d = (sd_content d)(blk := map (\<lambda>i. m (p + i)) [0..<512])"
  proof
    fix j
    show "sd_content ?d j = ((sd_content d)(blk := map (\<lambda>i. m (p + i)) [0..<512])) j"
    proof (cases "j = blk")
      case True
      have "sd_content ?d blk = concat (map word_bytes ?ws)" using assms(2,3) by (simp add: sd_content_block)
      then show ?thesis using True concat_words [of m p 128] by (simp add: comp_def)
    next
      case False
      then show ?thesis using block_number_eq [of j blk] assms(2,3) by (auto simp: sd_content_def)
    qed
  qed
  ultimately show thesis by (rule that)
qed

text \<open>The driver as the block device calls it.\<close>

definition sd_op ::
  "(int \<Rightarrow> int \<Rightarrow> ptr \<Rightarrow> int \<Rightarrow> bmem \<times> sdcard \<Rightarrow> (int \<times> bmem \<times> sdcard) kres) \<Rightarrow> sdcard emmc_op" where
  "sd_op f blk n p sz md = (case f blk n p sz md of Inl e \<Rightarrow> (-1, md) | Inr r \<Rightarrow> r)"

lemma emmc_driver_contract: "emmc_contract sd_idle sd_content (sd_op (emmc_read sd_regs)) (sd_op (emmc_write sd_regs))"
  unfolding emmc_contract_def
proof (intro allI impI conjI)
  fix blk p m d
  assume a: "sd_idle d" "0 \<le> blk" "blk < (2 :: int) ^ 31"
  show "length (sd_content d blk) = 512" by (rule length_sd_content [OF a])
  have "sd_idle (d\<lparr>sd_arg := word_of_int blk\<rparr>)" "sd_content (d\<lparr>sd_arg := word_of_int blk\<rparr>) = sd_content d"
    using a(1) by (simp_all add: sd_idle_def sd_content_def fun_eq_iff)
  then show "\<exists>d'. sd_op (emmc_read sd_regs) blk 1 p 512 (m, d) = (0, store_bytes p (sd_content d blk) m, d') \<and>
      sd_idle d' \<and> sd_content d' = sd_content d"
    using emmc_read_sd [OF a] by (simp add: sd_op_def)
  obtain d' where "emmc_write sd_regs blk 1 p 512 (m, d) = Inr (0, m, d')" "sd_idle d'"
    "sd_content d' = (sd_content d)(blk := map (\<lambda>i. m (p + i)) [0..<512])"
    by (rule emmc_write_sd [OF a])
  then show "\<exists>d'. sd_op (emmc_write sd_regs) blk 1 p 512 (m, d) = (0, m, d') \<and> sd_idle d' \<and>
      sd_content d' = (sd_content d)(blk := map (\<lambda>i. m (p + i)) [0..<512])"
    by (auto simp: sd_op_def)
qed

section \<open>An image on the card\<close>

text \<open>The partition of a card behind the driver.\<close>

definition card_partition :: "u64 \<Rightarrow> u64 \<Rightarrow> sdcard block_device" where
  "card_partition start endp = sd_partition (sd_op (emmc_read sd_regs)) (sd_op (emmc_write sd_regs)) start endp"

text \<open>C7 (functional). Writing an image over a file of a FAT32 partition on an SD card, from the file system through the partition, the
  block device and the driver down to the registers of the controller: the sectors of the file's cluster chain get the
  blocks of the image in order, each once, as far as the image and the file reach; every other sector of the card keeps its contents, the
  memory is unchanged, no error is left, and the card waits for the next command. This holds for distinct sectors
  within the driver's \<^verbatim>\<open>int\<close> range that do not hold the FAT entries of the chain.\<close>

theorem image_reaches_sd_card:
  assumes "sd_idle d0"
    "cluster_chain boot (device_reader (card_partition start endp) fb (m, d0)) cs" "hd cs = fat32_dentry_get_cluster dm da"
    "fat32_get_sectors_per_cluster boot \<noteq> 0"
    "sz = (fat32_dentry_get_file_size dm da + fat32_get_logical_sector_size boot - 1) div fat32_get_logical_sector_size boot"
    "unat sz \<le> unat (fat32_get_sectors_per_cluster boot) * length cs"
    "secs = map snd (chain_sectors boot cs)" "distinct (map (\<lambda>s. unat (start + s)) secs)"
    "\<forall>s \<in> set secs \<union> fat_entry_sector boot ` set cs. unat (start + s) < 2 ^ 31"
    "\<forall>s \<in> set secs. \<forall>c \<in> set cs. unat (start + s) \<noteq> unat (start + fat_entry_sector boot c)"
  shows "\<exists>c. fat32_iterate_file_sectors boot (\<lambda>c. device_reader (card_partition start endp) fb (wi_mem c, wi_dev c)) dm da
      (write_image_per_sector (card_partition start endp) e 512) \<lparr>wi_src = p, wi_err = ERR_OK, wi_mem = m, wi_dev = d0\<rparr> =
        Some (Inr c) \<and> wi_err c = ERR_OK \<and> wi_mem c = m \<and> sd_idle (wi_dev c) \<and>
      (\<forall>i < unat sz. p + 512 * i < e \<longrightarrow>
         sd_content (wi_dev c) (int (unat (start + secs ! i))) = image_block m (p + 512 * i)) \<and>
      (\<forall>k. k \<notin> (\<lambda>s. int (unat (start + s))) ` set (take (unat sz) secs) \<longrightarrow>
         sd_content (wi_dev c) k = sd_content d0 k)"
  unfolding card_partition_def
  by (rule image_lands_in_file [OF emmc_driver_contract assms(2-10) [unfolded card_partition_def] assms(1)])

section \<open>Application commands\<close>

text \<open>The table of application commands is indexed with the command itself, whose bit 31 is set.\<close>

lemma acmd_not_issued:
  assumes "EMMC_CMD_IS_ACMD (cmd_idx c)" "emmc_cmd io c t md = Inr (status, c', md')"
  shows "status \<noteq> EMMC_CMD_OK"
proof -
  have "bit (cmd_idx c) 31"
  proof (rule ccontr)
    assume b: "\<not> bit (cmd_idx c) 31"
    have "cmd_idx c AND 2 ^ 31 = 0"
      using and_exp_eq_0_iff_not_bit [of "cmd_idx c" 31] b by blast
    then show False using assms(1) by (simp add: EMMC_CMD_IS_ACMD_def)
  qed
  then have "bit (unat (cmd_idx c)) 31" by (simp add: bit_unsigned_iff)
  then have "odd (unat (cmd_idx c) div 2 ^ 31)" unfolding bit_iff_odd .
  then have "60 \<le> unat (cmd_idx c)" by (cases "unat (cmd_idx c) < 60") simp_all
  moreover have "length sd_acommands = 60" by (simp add: sd_acommands_def)
  ultimately have "command_entry sd_acommands (cmd_idx c) = Inl ''emmc_cmd: index outside of the table''"
    by (simp add: command_entry_def)
  then show ?thesis
    using assms by (auto simp: emmc_cmd_def Let_def kbind_eq_Inr split: prod.splits if_splits)
qed

text \<open>No application command succeeds, so the card never reports ready and the initialisation of a card never succeeds.\<close>

lemma cmd_idx_init [simp]: "cmd_idx (emmc_cmd_init i a) = i" by (simp add: emmc_cmd_init_def)

lemma acmd41_fails:
  assumes "emmc_acmd41 io arg resp md = Inr (err, resp', md')"
  shows "err \<noteq> ERR_OK"
proof -
  obtain status c' md'' where "emmc_cmd io (emmc_cmd_init EMMC_ACMD41 arg) EMMC_WAIT_TIMEOUT_USEC md = Inr (status, c', md'')"
    "emmc_cmd_status_to_err status = Inr err"
    using assms unfolding emmc_acmd41_def simple_cmd_def by (fastforce simp: kbind_eq_Inr)
  moreover from this(1) have "status \<noteq> EMMC_CMD_OK"
    by (rule acmd_not_issued [rotated]) (simp add: EMMC_CMD_IS_ACMD_def EMMC_ACMD41_def)
  moreover have "status = 1 \<or> status = 2" if "status \<noteq> 0" "0 \<le> status" "status < 3" using that by presburger
  ultimately show ?thesis
    by (auto simp: emmc_cmd_status_to_err_def EMMC_CMD_OK_def ERR_OK_def ERR_GENERIC_def ERR_TIMEOUT_def split: if_splits)
qed

lemma EMMC_CHECK_ERR_ok:
  "EMMC_CHECK_ERR r f = Some (Inr (ERR_OK, s')) \<Longrightarrow> \<exists>s. r = Inr (ERR_OK, s) \<and> f s = Some (Inr (ERR_OK, s'))"
  by (auto simp: EMMC_CHECK_ERR_def run_bind_def split: sum.splits if_splits)

lemma wait_card_ready_fails: "wait_card_ready io s \<noteq> Some (Inr (ERR_OK, s'))"
  using acmd41_fails [of io 0 0 "(es_mem s, es_dev s)"]
  by (auto simp: wait_card_ready_def run_bind_def split: sum.splits if_splits)


section \<open>A card with a file\<close>

text \<open>A card whose sector 9 holds the allocation table of a file of two clusters.\<close>

definition sample_sdcard :: sdcard where
  "sample_sdcard = \<lparr>sd_sectors = (\<lambda>_. replicate 128 0)(9 := [0, 0, 3, 0x0fffffff] @ replicate 124 0), sd_arg = 0, sd_int = 0,
     sd_busy = 0, sd_latency = 3, sd_fifo = [], sd_room = 0, sd_in = []\<rparr>"

lemma sample_sdcard_idle: "sd_idle sample_sdcard" by (simp add: sd_idle_def sample_sdcard_def)

lemma sample_sdcard_content:
  "sd_content sample_sdcard 9 = sample_fat" "sd_content sample_sdcard 12 = replicate 512 0"
proof -
  have w: "word_bytes 0 = [0, 0, 0, 0]" "word_bytes 3 = [3, 0, 0, 0]" "word_bytes 0x0fffffff = [0xff, 0xff, 0xff, 0x0f]"
    by (simp_all add: word_bytes_def upt_rec)
  have r: "concat (replicate n [0, 0, 0, 0]) = replicate (4 * n) (0 :: u8)" for n
    by (induction n) (simp_all add: eval_nat_numeral)
  have "sd_content sample_sdcard 9 = concat (map word_bytes ([0, 0, 3, 0x0fffffff] @ replicate 124 0))"
    by (simp only: sd_content_def) (simp add: sample_sdcard_def)
  also have "\<dots> = [0, 0, 0, 0] @ [0, 0, 0, 0] @ [3, 0, 0, 0] @ [0xff, 0xff, 0xff, 0x0f] @ concat (replicate 124 [0, 0, 0, 0])"
    by (simp only: map_append list.map map_replicate w concat_append concat.simps append.assoc append_Nil)
  also have "concat (replicate 124 [0, 0, 0, 0]) = replicate 496 (0 :: u8)" by (subst r) simp
  also have "[0, 0, 0, 0] @ [0, 0, 0, 0] @ xs = replicate 8 (0 :: u8) @ xs" for xs
    by (simp add: eval_nat_numeral)
  finally show "sd_content sample_sdcard 9 = sample_fat" by (simp add: sample_fat_def)
  have "sd_content sample_sdcard 12 = concat (map word_bytes (replicate 128 0))"
    by (simp only: sd_content_def) (simp add: sample_sdcard_def)
  also have "\<dots> = replicate 512 0" by (simp only: map_replicate w) (subst r, simp)
  finally show "sd_content sample_sdcard 12 = replicate 512 0" .
qed

theorem image_reaches_sd_card_witness:
  "\<exists>c. fat32_iterate_file_sectors sample_boot_sector
       (\<lambda>c. device_reader (card_partition 8 100) 0 (wi_mem c, wi_dev c)) sample_dentry 0
      (write_image_per_sector (card_partition 8 100) 6000 512)
      \<lparr>wi_src = 5000, wi_err = ERR_OK, wi_mem = (\<lambda>_. 7), wi_dev = sample_sdcard\<rparr> = Some (Inr c) \<and>
    wi_err c = ERR_OK \<and> sd_content (wi_dev c) 10 = replicate 512 7 \<and>
    sd_content (wi_dev c) 11 = replicate 512 7 \<and> sd_content (wi_dev c) 12 = replicate 512 0"
proof -
  let ?b = "card_partition 8 100" and ?m = "\<lambda>_. 7 :: u8"
  have rd: "device_reader ?b 0 (?m, sample_sdcard) 1 = Inr sample_fat"
    using sd_partition_read [OF emmc_driver_contract, of 8 1 sample_sdcard 100 0 ?m] sample_sdcard_idle
    by (simp add: card_partition_def sample_sdcard_content)
  have ch: "cluster_chain sample_boot_sector (device_reader ?b 0 (?m, sample_sdcard)) [2, 3]"
    by (rule sample_chain) (fact rd)
  have secs: "[2, 3] = map snd (chain_sectors sample_boot_sector [2, 3])" unfolding sample_file by simp
  obtain c where c: "fat32_iterate_file_sectors sample_boot_sector
       (\<lambda>c. device_reader ?b 0 (wi_mem c, wi_dev c)) sample_dentry 0 (write_image_per_sector ?b 6000 512)
      \<lparr>wi_src = 5000, wi_err = ERR_OK, wi_mem = ?m, wi_dev = sample_sdcard\<rparr> = Some (Inr c)" "wi_err c = ERR_OK"
    and in_file: "\<forall>i < unat (2 :: u32). 5000 + 512 * i < 6000 \<longrightarrow>
      sd_content (wi_dev c) (int (unat (8 + [2, 3] ! i :: u64))) = image_block ?m (5000 + 512 * i)"
    and out: "\<forall>k. k \<notin> (\<lambda>s. int (unat (8 + s :: u64))) ` set (take (unat (2 :: u32)) [2, 3]) \<longrightarrow>
      sd_content (wi_dev c) k = sd_content sample_sdcard k"
    using image_reaches_sd_card [OF sample_sdcard_idle ch _ _ sample_size _ secs, where e = 6000 and p = 5000]
    by (auto simp: sample_file sample_boot sample_entry_sectors)
  have "sd_content (wi_dev c) 10 = image_block ?m 5000" "sd_content (wi_dev c) 11 = image_block ?m 5512"
    using in_file [rule_format, of 0] in_file [rule_format, of 1] by simp_all
  moreover have "sd_content (wi_dev c) 12 = sd_content sample_sdcard 12"
    using out [rule_format, of 12] by simp
  ultimately show ?thesis
    using c by (auto simp: image_block_def sample_sdcard_content map_replicate_const)
qed

end
