(* ===== verification/Ringbuf.thy ===== *)
theory Ringbuf
  imports Stringlib
begin

text \<open>
  The ring buffer of \<^verbatim>\<open>src/ringbuf.c\<close> over the byte memory, and the interface \<open>char_queue\<close> that
  the character pipe relies on. A length is the value of a non-negative C \<^verbatim>\<open>int\<close>, and a pointer
  difference is one of addresses that \<open>ring_ok\<close> orders.
\<close>

section \<open>Operations\<close>

record ringbuf =
  rb_buf :: ptr
  rb_buf_end :: ptr
  write_ptr :: ptr
  read_ptr :: ptr
  read_is_ahead :: bool

definition ringbuf_init :: "ptr \<Rightarrow> nat \<Rightarrow> ringbuf" where
  "ringbuf_init buf sz =
     \<lparr>rb_buf = buf, rb_buf_end = buf + sz, write_ptr = buf, read_ptr = buf, read_is_ahead = False\<rparr>"

fun ring_memcpy :: "ptr \<Rightarrow> ptr \<Rightarrow> nat \<Rightarrow> bmem \<Rightarrow> bmem" where
  "ring_memcpy d s 0 m = m"
| "ring_memcpy d s (Suc n) m = ring_memcpy (d + 1) (s + 1) n (m(d := m s))"

definition ringbuf_read :: "ringbuf \<Rightarrow> ptr \<Rightarrow> nat \<Rightarrow> bmem \<Rightarrow> nat \<times> ringbuf \<times> bmem" where
  "ringbuf_read r dst sz m =
     (if read_is_ahead r
      then let io_sz = min (rb_buf_end r - read_ptr r) sz;
               m = ring_memcpy dst (read_ptr r) io_sz m;
               progress = io_sz;
               r = r\<lparr>read_ptr := read_ptr r + progress\<rparr>;
               io_sz = min (write_ptr r - rb_buf r) (sz - progress)
           in if io_sz \<noteq> 0
              then (progress + io_sz, r\<lparr>read_is_ahead := False, read_ptr := rb_buf r + io_sz\<rparr>,
                    ring_memcpy (dst + progress) (rb_buf r) io_sz m)
              else (progress, r, m)
      else let io_sz = min (write_ptr r - read_ptr r) sz
           in (io_sz, r\<lparr>read_ptr := read_ptr r + io_sz\<rparr>, ring_memcpy dst (read_ptr r) io_sz m))"

definition ringbuf_write :: "ringbuf \<Rightarrow> ptr \<Rightarrow> nat \<Rightarrow> bmem \<Rightarrow> nat \<times> ringbuf \<times> bmem" where
  "ringbuf_write r src sz m =
     (if read_is_ahead r
      then let io_sz = min (read_ptr r - write_ptr r) sz
           in (io_sz, r, ring_memcpy (write_ptr r) src io_sz m)
      else let io_sz = min (rb_buf_end r - write_ptr r) sz;
               m = ring_memcpy (write_ptr r) src io_sz m;
               r = r\<lparr>write_ptr := write_ptr r + io_sz\<rparr>;
               progress = io_sz;
               io_sz = min (read_ptr r - rb_buf r) (sz - progress)
           in if io_sz \<noteq> 0
              then (progress + io_sz, r\<lparr>write_ptr := rb_buf r + io_sz, read_is_ahead := True\<rparr>,
                    ring_memcpy (rb_buf r) (src + progress) io_sz m)
              else (progress, r, m))"

section \<open>What the buffer holds\<close>

definition ring_ok :: "ringbuf \<Rightarrow> bool" where
  "ring_ok r \<longleftrightarrow> rb_buf r \<le> read_ptr r \<and> read_ptr r \<le> rb_buf_end r \<and> rb_buf r \<le> write_ptr r \<and>
     write_ptr r \<le> rb_buf_end r \<and>
     (if read_is_ahead r then write_ptr r \<le> read_ptr r else read_ptr r \<le> write_ptr r)"

definition mem_bytes :: "bmem \<Rightarrow> ptr \<Rightarrow> ptr \<Rightarrow> u8 list" where
  "mem_bytes m a b = map m [a ..< b]"

definition ring_contents :: "ringbuf \<Rightarrow> bmem \<Rightarrow> u8 list" where
  "ring_contents r m =
     (if read_is_ahead r then mem_bytes m (read_ptr r) (rb_buf_end r) @ mem_bytes m (rb_buf r) (write_ptr r)
      else mem_bytes m (read_ptr r) (write_ptr r))"

text \<open>The free bytes, and an area of memory outside the buffer.\<close>

definition ring_room :: "ringbuf \<Rightarrow> nat" where
  "ring_room r =
     (if read_is_ahead r then read_ptr r - write_ptr r
      else (rb_buf_end r - write_ptr r) + (read_ptr r - rb_buf r))"

definition outside :: "ringbuf \<Rightarrow> ptr \<Rightarrow> nat \<Rightarrow> bool" where
  "outside r a n \<longleftrightarrow> a + n \<le> rb_buf r \<or> rb_buf_end r \<le> a"

lemma ring_memcpy_eq:
  assumes "d + n \<le> s \<or> s + n \<le> d"
  shows "ring_memcpy d s n m = (\<lambda>a. if d \<le> a \<and> a < d + n then m (s + (a - d)) else m a)"
  using assms
proof (induction n arbitrary: d s m)
  case 0
  then show ?case by (auto simp: fun_eq_iff)
next
  case (Suc n)
  then have "d + 1 + n \<le> s + 1 \<or> s + 1 + n \<le> d + 1" by linarith
  note IH = Suc.IH [OF this, of "m(d := m s)"]
  show ?case
  proof
    fix a
    have "s + 1 + (a - (d + 1)) = s + (a - d)" "s + (a - d) \<noteq> d" if "d + 1 \<le> a" "a < d + 1 + n"
      using that Suc.prems by linarith+
    then show "ring_memcpy d s (Suc n) m a = (if d \<le> a \<and> a < d + Suc n then m (s + (a - d)) else m a)"
      unfolding ring_memcpy.simps IH by (cases "a = d") auto
  qed
qed

lemma length_mem_bytes [simp]: "length (mem_bytes m a b) = b - a"
  by (simp add: mem_bytes_def)

lemma nth_mem_bytes [simp]: "i < b - a \<Longrightarrow> mem_bytes m a b ! i = m (a + i)"
  by (simp add: mem_bytes_def)

lemma take_mem_bytes: "take n (mem_bytes m a b) = mem_bytes m a (min b (a + n))"
  by (rule nth_equalityI) auto

lemma drop_mem_bytes: "drop n (mem_bytes m a b) = mem_bytes m (a + n) b"
  by (rule nth_equalityI) (auto simp: add.assoc)

lemma mem_bytes_append: "a \<le> b \<Longrightarrow> b \<le> c \<Longrightarrow> mem_bytes m a b @ mem_bytes m b c = mem_bytes m a c"
  unfolding mem_bytes_def map_append [symmetric] by (metis le_iff_add upt_add_eq_append)

lemma mem_bytes_cong: "(\<And>i. a \<le> i \<Longrightarrow> i < b \<Longrightarrow> m i = m' i) \<Longrightarrow> mem_bytes m a b = mem_bytes m' a b"
  by (simp add: mem_bytes_def)

lemma mem_bytes_empty [simp]: "b \<le> a \<Longrightarrow> mem_bytes m a b = []"
  by (simp add: mem_bytes_def)

lemma mem_bytes_one [simp]: "mem_bytes m a (Suc a) = [m a]"
  by (simp add: mem_bytes_def)

lemma mem_bytes_memcpy:
  assumes "d + n \<le> s \<or> s + n \<le> d"
  shows "mem_bytes (ring_memcpy d s n m) d (d + n) = mem_bytes m s (s + n)"
    "b \<le> d \<or> d + n \<le> a \<Longrightarrow> mem_bytes (ring_memcpy d s n m) a b = mem_bytes m a b"
  by (rule nth_equalityI) (auto simp: ring_memcpy_eq [OF assms] intro!: mem_bytes_cong)

text \<open>Reading and writing once the lengths of the two transfers are named.\<close>

lemma ringbuf_read_spec:
  assumes ok: "ring_ok r" and out: "outside r dst sz" and run: "ringbuf_read r dst sz m = (n, r', m')"
  shows "n = min sz (length (ring_contents r m)) \<and> mem_bytes m' dst (dst + n) = take n (ring_contents r m) \<and>
    ring_contents r' m' = drop n (ring_contents r m) \<and> ring_ok r' \<and> rb_buf r' = rb_buf r \<and> rb_buf_end r' = rb_buf_end r"
proof -
  define rp where "rp = read_ptr r"
  define wp where "wp = write_ptr r"
  define b where "b = rb_buf r"
  define e where "e = rb_buf_end r"
  note defs = rp_def [symmetric] wp_def [symmetric] b_def [symmetric] e_def [symmetric]
  have bounds: "b \<le> rp" "rp \<le> e" "b \<le> wp" "wp \<le> e" "dst + sz \<le> b \<or> e \<le> dst"
    using ok out unfolding ring_ok_def outside_def defs by auto
  show ?thesis
  proof (cases "read_is_ahead r")
    case False
    then have le: "rp \<le> wp" using ok unfolding ring_ok_def defs by simp
    define i where "i = min (wp - rp) sz"
    have i: "rp + i \<le> wp" "i \<le> sz" using le by (auto simp: i_def)
    have sep: "dst + i \<le> rp \<or> rp + i \<le> dst" using bounds le i by linarith
    have res: "n = i" "r' = r\<lparr>read_ptr := rp + i\<rparr>" "m' = ring_memcpy dst rp i m"
      using run False unfolding ringbuf_read_def defs i_def by (auto simp: Let_def)
    have "mem_bytes m' (rp + i) wp = mem_bytes m (rp + i) wp"
      unfolding res by (rule mem_bytes_memcpy(2) [OF sep]) (use bounds le i in linarith)
    moreover have "mem_bytes m' dst (dst + i) = mem_bytes m rp (rp + i)"
      unfolding res by (rule mem_bytes_memcpy(1) [OF sep])
    moreover have "min wp (rp + i) = rp + i" using i le by linarith
    ultimately have "mem_bytes m' dst (dst + i) = take i (ring_contents r m)"
      "ring_contents r' m' = drop i (ring_contents r m)" "ring_ok r'"
      using False bounds le i res(2) by (simp_all add: ring_contents_def ring_ok_def defs take_mem_bytes drop_mem_bytes)
    moreover have "i = min sz (length (ring_contents r m))"
      using False by (simp add: i_def ring_contents_def defs min.commute)
    ultimately show ?thesis using res(1,2) by (simp add: defs)
  next
    case True
    then have le: "wp \<le> rp" using ok unfolding ring_ok_def defs by simp
    define k where "k = min (e - rp) sz"
    define j where "j = min (wp - b) (sz - k)"
    have k: "rp + k \<le> e" "k \<le> sz" and j: "b + j \<le> wp" "j \<le> sz - k"
      using bounds by (auto simp: k_def j_def)
    have sep: "dst + k \<le> rp \<or> rp + k \<le> dst" and sep': "dst + k + j \<le> b \<or> b + j \<le> dst + k"
      using bounds le k j by linarith+
    define m1 where "m1 = ring_memcpy dst rp k m"
    define m2 where "m2 = ring_memcpy (dst + k) b j m1"
    have m1: "mem_bytes m1 x y = mem_bytes m x y" if "b \<le> x" "y \<le> e" for x y
      unfolding m1_def by (rule mem_bytes_memcpy(2) [OF sep]) (use that bounds k in linarith)
    have m2: "mem_bytes m2 x y = mem_bytes m x y" if "b \<le> x" "y \<le> e" for x y
    proof -
      have "mem_bytes m2 x y = mem_bytes m1 x y"
        unfolding m2_def by (rule mem_bytes_memcpy(2) [OF sep']) (use that bounds k j in linarith)
      then show ?thesis using m1 [OF that] by simp
    qed
    have d1: "mem_bytes m1 dst (dst + k) = mem_bytes m rp (rp + k)"
      unfolding m1_def by (rule mem_bytes_memcpy(1) [OF sep])
    have "mem_bytes m2 dst (dst + k) = mem_bytes m1 dst (dst + k)"
      unfolding m2_def by (rule mem_bytes_memcpy(2) [OF sep']) simp
    moreover have "mem_bytes m2 (dst + k) (dst + k + j) = mem_bytes m1 b (b + j)"
      unfolding m2_def by (rule mem_bytes_memcpy(1) [OF sep'])
    moreover have "mem_bytes m1 b (b + j) = mem_bytes m b (b + j)"
      by (rule m1) (use bounds j in linarith)+
    ultimately have d2: "mem_bytes m2 dst (dst + k + j) = mem_bytes m rp (rp + k) @ mem_bytes m b (b + j)"
      using d1 mem_bytes_append [of dst "dst + k" "dst + k + j" m2] by simp
    have cont: "ring_contents r m = mem_bytes m rp e @ mem_bytes m b wp"
      using True by (simp add: ring_contents_def defs)
    have step: "(n, r', m') = (if j \<noteq> 0 then (k + j, r\<lparr>read_is_ahead := False, read_ptr := b + j\<rparr>, m2)
        else (k, r\<lparr>read_ptr := rp + k\<rparr>, m1))"
      using run True by (simp add: ringbuf_read_def Let_def defs k_def j_def m1_def m2_def cong: if_cong)
    have mins: "min e (rp + k) = rp + k" "min wp (b + j) = b + j" using k j bounds by linarith+
    show ?thesis
    proof (cases "j = 0")
      case j0: True
      then have full: "k = sz \<or> wp = b \<and> k = e - rp" using bounds unfolding j_def k_def by auto
      have res: "n = k" "r' = r\<lparr>read_ptr := rp + k\<rparr>" "m' = m1"
        using step j0 by simp_all
      have m1': "mem_bytes m1 (rp + k) e = mem_bytes m (rp + k) e" "mem_bytes m1 b wp = mem_bytes m b wp"
        using m1 bounds by auto
      have tail: "take (k - (e - rp)) (mem_bytes m b wp) = []" "drop (k - (e - rp)) (mem_bytes m b wp) = mem_bytes m b wp"
        using k by simp_all
      have "mem_bytes m' dst (dst + n) = take n (ring_contents r m)"
        unfolding cont res take_append length_mem_bytes tail by (simp add: d1 take_mem_bytes mins)
      moreover have "ring_contents r' m' = drop n (ring_contents r m)"
        unfolding cont res drop_append length_mem_bytes tail using True
        by (simp add: ring_contents_def defs m1' drop_mem_bytes)
      moreover have "ring_ok r'" unfolding ring_ok_def res using True bounds le k by (simp add: defs)
      moreover have "n = min sz (length (ring_contents r m))" unfolding cont res using full k bounds by auto
      ultimately show ?thesis by (simp add: res(2))
    next
      case j1: False
      then have ke: "e = rp + k" using bounds unfolding j_def k_def by auto
      have res: "n = k + j" "r' = r\<lparr>read_is_ahead := False, read_ptr := b + j\<rparr>" "m' = m2"
        using step j1 by simp_all
      have m2': "mem_bytes m2 (b + j) wp = mem_bytes m (b + j) wp" using m2 bounds by auto
      have "mem_bytes m' dst (dst + n) = take n (ring_contents r m)"
        unfolding cont res take_append length_mem_bytes by (simp add: d2 ke take_mem_bytes mins add.assoc [symmetric])
      moreover have "ring_contents r' m' = drop n (ring_contents r m)"
        unfolding cont res drop_append length_mem_bytes
        by (simp add: ring_contents_def defs m2' drop_mem_bytes ke)
      moreover have "ring_ok r'" unfolding ring_ok_def res using bounds le j by (simp add: defs)
      moreover have "n = min sz (length (ring_contents r m))"
        unfolding cont res length_append length_mem_bytes using ke k j_def by linarith
      ultimately show ?thesis by (simp add: res(2))
    qed
  qed
qed

lemma ringbuf_write_spec:
  assumes ok: "ring_ok r" and out: "outside r src sz" and na: "\<not> read_is_ahead r"
    and run: "ringbuf_write r src sz m = (n, r', m')"
  shows "n = min sz (ring_room r) \<and> ring_contents r' m' = ring_contents r m @ mem_bytes m src (src + n) \<and>
    ring_ok r' \<and> rb_buf r' = rb_buf r \<and> rb_buf_end r' = rb_buf_end r"
proof -
  define rp where "rp = read_ptr r"
  define wp where "wp = write_ptr r"
  define b where "b = rb_buf r"
  define e where "e = rb_buf_end r"
  note defs = rp_def [symmetric] wp_def [symmetric] b_def [symmetric] e_def [symmetric]
  have bounds: "b \<le> rp" "rp \<le> wp" "wp \<le> e" "src + sz \<le> b \<or> e \<le> src"
    using ok out na unfolding ring_ok_def outside_def defs by auto
  define k where "k = min (e - wp) sz"
  define j where "j = min (rp - b) (sz - k)"
  have k: "wp + k \<le> e" "k \<le> sz" and j: "b + j \<le> rp" "j \<le> sz - k"
    using bounds by (auto simp: k_def j_def)
  have sep: "wp + k \<le> src \<or> src + k \<le> wp" and sep': "b + j \<le> src + k \<or> src + k + j \<le> b"
    using bounds k j by linarith+
  define m1 where "m1 = ring_memcpy wp src k m"
  define m2 where "m2 = ring_memcpy b (src + k) j m1"
  have "mem_bytes m1 rp wp = mem_bytes m rp wp"
    unfolding m1_def by (rule mem_bytes_memcpy(2) [OF sep]) simp
  moreover have "mem_bytes m1 wp (wp + k) = mem_bytes m src (src + k)"
    unfolding m1_def by (rule mem_bytes_memcpy(1) [OF sep])
  ultimately have c1: "mem_bytes m1 rp (wp + k) = mem_bytes m rp wp @ mem_bytes m src (src + k)"
    using mem_bytes_append [of rp wp "wp + k" m1] bounds by simp
  have s1: "mem_bytes m1 (src + k) (src + k + j) = mem_bytes m (src + k) (src + k + j)"
    unfolding m1_def by (rule mem_bytes_memcpy(2) [OF sep]) (use bounds k j in linarith)
  have "mem_bytes m2 rp (wp + k) = mem_bytes m1 rp (wp + k)"
    unfolding m2_def by (rule mem_bytes_memcpy(2) [OF sep']) (use bounds j in linarith)
  moreover have "mem_bytes m2 b (b + j) = mem_bytes m1 (src + k) (src + k + j)"
    unfolding m2_def by (rule mem_bytes_memcpy(1) [OF sep'])
  ultimately have c2: "mem_bytes m2 rp (wp + k) @ mem_bytes m2 b (b + j) = mem_bytes m rp wp @ mem_bytes m src (src + k + j)"
    using c1 s1 mem_bytes_append [of src "src + k" "src + k + j" m] by simp
  have cont: "ring_contents r m = mem_bytes m rp wp" "ring_room r = (e - wp) + (rp - b)"
    using na by (simp_all add: ring_contents_def ring_room_def defs)
  have n: "k + j = min sz ((e - wp) + (rp - b))" using k_def j_def by linarith
  have step: "(n, r', m') = (if j \<noteq> 0 then (k + j, r\<lparr>write_ptr := b + j, read_is_ahead := True\<rparr>, m2)
      else (k, r\<lparr>write_ptr := wp + k\<rparr>, m1))"
    using run na by (simp add: ringbuf_write_def Let_def defs k_def j_def m1_def m2_def cong: if_cong)
  show ?thesis
  proof (cases "j = 0")
    case True
    have "n = k" "r' = r\<lparr>write_ptr := wp + k\<rparr>" "m' = m1"
      using step True by simp_all
    then show ?thesis using na bounds k c1 n True cont by (simp add: ring_contents_def ring_ok_def defs)
  next
    case False
    then have ke: "wp + k = e" using bounds unfolding j_def k_def by auto
    have "n = k + j" "r' = r\<lparr>write_ptr := b + j, read_is_ahead := True\<rparr>" "m' = m2"
      using step False by simp_all
    then show ?thesis using na bounds k j c2 n ke cont by (simp add: ring_contents_def ring_ok_def defs add.assoc)
  qed
qed

lemma ringbuf_init_ok: "ring_ok (ringbuf_init buf sz)" "ring_contents (ringbuf_init buf sz) m = []"
  by (simp_all add: ring_ok_def ringbuf_init_def ring_contents_def)

section \<open>The queue interface\<close>

text \<open>A run of operations: pushes that the queue is ready for and pops of a queue that is not empty. Its
  output is what was popped.\<close>

datatype qop = Push u8 | Pop

fun queue_run :: "('q \<Rightarrow> bool) \<Rightarrow> (u8 \<Rightarrow> 'q \<Rightarrow> 'q) \<Rightarrow> ('q \<Rightarrow> (u8 \<times> 'q) option) \<Rightarrow> qop list \<Rightarrow> 'q \<Rightarrow> (u8 list \<times> 'q) option" where
  "queue_run ready push pop [] q = Some ([], q)"
| "queue_run ready push pop (Push c # ops) q =
     (if ready q then queue_run ready push pop ops (push c q) else None)"
| "queue_run ready push pop (Pop # ops) q =
     (case pop q of None \<Rightarrow> None
      | Some (c, q) \<Rightarrow> map_option (\<lambda>(out, q). (c # out, q)) (queue_run ready push pop ops q))"

fun pushed :: "qop list \<Rightarrow> u8 list" where
  "pushed [] = []"
| "pushed (Push c # ops) = c # pushed ops"
| "pushed (Pop # ops) = pushed ops"

locale char_queue =
  fixes invar :: "'q \<Rightarrow> bool"
    and contents :: "'q \<Rightarrow> u8 list"
    and ready :: "'q \<Rightarrow> bool"
    and push :: "u8 \<Rightarrow> 'q \<Rightarrow> 'q"
    and pop :: "'q \<Rightarrow> (u8 \<times> 'q) option"
  assumes invar_push: "invar q \<Longrightarrow> ready q \<Longrightarrow> invar (push c q)"
    and contents_push: "invar q \<Longrightarrow> ready q \<Longrightarrow> contents (push c q) = contents q @ [c]"
    and pop_None: "invar q \<Longrightarrow> contents q = [] \<Longrightarrow> pop q = None"
    and pop_Some: "invar q \<Longrightarrow> contents q = c # cs \<Longrightarrow> \<exists>q'. pop q = Some (c, q') \<and> invar q' \<and> contents q' = cs"
begin

lemma pop_cases:
  assumes "invar q" "pop q = Some (c, q')"
  shows "invar q' \<and> contents q = c # contents q'"
proof (cases "contents q")
  case Nil
  then show ?thesis using pop_None [OF assms(1)] assms(2) by simp
next
  case (Cons d ds)
  then show ?thesis using pop_Some [OF assms(1) Cons] assms(2) by auto
qed

lemma run_fifo:
  "invar q \<Longrightarrow> queue_run ready push pop ops q = Some (out, q') \<Longrightarrow>
   invar q' \<and> contents q @ pushed ops = out @ contents q'"
proof (induction ops arbitrary: q out)
  case Nil
  then show ?case by simp
next
  case (Cons op ops)
  show ?case
  proof (cases op)
    case (Push c)
    then have r: "ready q" "queue_run ready push pop ops (push c q) = Some (out, q')"
      using Cons.prems(2) by (auto split: if_splits)
    then show ?thesis
      using Cons.IH [OF invar_push [OF Cons.prems(1) r(1)] r(2)] contents_push [OF Cons.prems(1) r(1), of c]
      by (simp add: Push)
  next
    case Pop
    then obtain c q1 out' where r: "pop q = Some (c, q1)" "queue_run ready push pop ops q1 = Some (out', q')" "out = c # out'"
      using Cons.prems(2) by (auto split: option.splits)
    note p = pop_cases [OF Cons.prems(1) r(1)]
    then show ?thesis using Cons.IH [OF _ r(2)] r(3) by (simp add: Pop)
  qed
qed

end

end
