(* ===== verification/Pipe.thy ===== *)
theory Pipe
  imports Sched Ringbuf
begin

text \<open>
  The character pipe of \<^verbatim>\<open>src/pipe.c\<close>: a ring buffer, and a wait flag of the scheduler that tells
  the reader of new characters. The lock is held with interrupts disabled and changes nothing else on
  one CPU. \<open>c\<close> is the address of the local character variable.
\<close>

section \<open>Operations\<close>

record pipe =
  pipe_waitflag :: ptr
  pipe_ringbuf :: ringbuf

type_synonym pipe_state = "pipe \<times> bmem \<times> sys"

definition pipe_init :: "ptr \<Rightarrow> ptr \<Rightarrow> nat \<Rightarrow> pipe" where
  "pipe_init flag buf bufsize = \<lparr>pipe_waitflag = flag, pipe_ringbuf = ringbuf_init buf bufsize\<rparr>"

definition pipe_write_char :: "ptr \<Rightarrow> u8 \<Rightarrow> ringbuf \<times> bmem \<Rightarrow> ringbuf \<times> bmem" where
  "pipe_write_char c ch = (\<lambda>(r, m). let (_, r, m) = ringbuf_write r c 1 (m(c := ch)) in (r, m))"

definition pipe_push :: "ptr \<Rightarrow> u8 \<Rightarrow> pipe_state \<Rightarrow> pipe_state" where
  "pipe_push c ch = (\<lambda>(p, m, s).
     let (r, m) = pipe_write_char c ch (pipe_ringbuf p, m)
     in (p\<lparr>pipe_ringbuf := r\<rparr>, m, wakeup_waitflag (pipe_waitflag p) s))"

text \<open>What \<^verbatim>\<open>pipe_pop\<close> does once \<^verbatim>\<open>wait_on_waitflag\<close> has returned: the buffer must hold a
  character.\<close>

definition pipe_read_char :: "ptr \<Rightarrow> ringbuf \<times> bmem \<Rightarrow> (u8 \<times> ringbuf \<times> bmem) option" where
  "pipe_read_char c = (\<lambda>(r, m).
     let (n, r, m) = ringbuf_read r c 1 m in if n \<noteq> 1 then None else Some (m c, r, m))"

definition pipe_pop_take :: "ptr \<Rightarrow> pipe_state \<Rightarrow> (u8 \<times> pipe_state) kres" where
  "pipe_pop_take c = (\<lambda>(p, m, s).
     case pipe_read_char c (pipe_ringbuf p, m) of
       None \<Rightarrow> Inl ''pl011_rx_pipe_pop should wait until char appears in buf''
     | Some (ch, r, m) \<Rightarrow> Inr (ch, p\<lparr>pipe_ringbuf := r\<rparr>, m, s))"

text \<open>\<^verbatim>\<open>wait_on_waitflag\<close> returns at once when it leaves the task that called it running, and
  otherwise when the scheduler picks the task again: then \<open>Inl\<close> is the state another task runs in.\<close>

definition pipe_pop :: "u64 \<Rightarrow> ptr \<Rightarrow> pipe_state \<Rightarrow> (pipe_state + u8 \<times> pipe_state) kres option" where
  "pipe_pop now c = (\<lambda>(p, m, s).
     obind (wait_on_waitflag now (pipe_waitflag p) s) (\<lambda>s'.
       if current s' = current s
       then (case pipe_pop_take c (p, m, s') of Inl e \<Rightarrow> Some (Inl e) | Inr r \<Rightarrow> Some (Inr (Inr r)))
       else Some (Inr (Inl (p, m, s')))))"

section \<open>The ring buffer as a queue\<close>

definition pipe_queue_ok :: "ptr \<Rightarrow> ringbuf \<times> bmem \<Rightarrow> bool" where
  "pipe_queue_ok c = (\<lambda>(r, m). ring_ok r \<and> outside r c 1)"

definition pipe_queue_ready :: "ringbuf \<times> bmem \<Rightarrow> bool" where
  "pipe_queue_ready = (\<lambda>(r, m). \<not> read_is_ahead r \<and> 0 < ring_room r)"

definition pipe_queue_contents :: "ringbuf \<times> bmem \<Rightarrow> u8 list" where
  "pipe_queue_contents = (\<lambda>(r, m). ring_contents r m)"

lemma ring_contents_cong:
  assumes "ring_ok r" "outside r c 1"
  shows "ring_contents r (m(c := ch)) = ring_contents r m"
  using assms by (auto simp: ring_contents_def ring_ok_def outside_def intro!: mem_bytes_cong split: if_splits)

lemma outside_same: "rb_buf r' = rb_buf r \<Longrightarrow> rb_buf_end r' = rb_buf_end r \<Longrightarrow> outside r' c n \<longleftrightarrow> outside r c n"
  by (simp add: outside_def)

lemma pipe_write_char_queue:
  assumes "pipe_queue_ok c q" "pipe_queue_ready q"
  shows "pipe_queue_ok c (pipe_write_char c ch q) \<and>
    pipe_queue_contents (pipe_write_char c ch q) = pipe_queue_contents q @ [ch]"
proof -
  obtain r m where q: "q = (r, m)" by fastforce
  obtain n r' m' where w: "ringbuf_write r c 1 (m(c := ch)) = (n, r', m')" by (metis prod_cases3)
  have h: "ring_ok r" "outside r c 1" "\<not> read_is_ahead r" "0 < ring_room r"
    using assms by (auto simp: q pipe_queue_ok_def pipe_queue_ready_def)
  note spec = ringbuf_write_spec [OF h(1-3) w]
  then have "n = 1" using h(4) by linarith
  then show ?thesis
    using spec ring_contents_cong [OF h(1,2)] outside_same [of r' r c 1] h(2) w
    by (simp add: q pipe_write_char_def pipe_queue_ok_def pipe_queue_contents_def)
qed

lemma pipe_read_char_queue:
  assumes "pipe_queue_ok c q"
  shows "case pipe_queue_contents q of [] \<Rightarrow> pipe_read_char c q = None
    | ch # chs \<Rightarrow> \<exists>q'. pipe_read_char c q = Some (ch, q') \<and> pipe_queue_ok c q' \<and> pipe_queue_contents q' = chs"
proof -
  obtain r m where q: "q = (r, m)" by fastforce
  obtain n r' m' where w: "ringbuf_read r c 1 m = (n, r', m')" by (metis prod_cases3)
  have h: "ring_ok r" "outside r c 1" using assms by (auto simp: q pipe_queue_ok_def)
  note spec = ringbuf_read_spec [OF h w]
  show ?thesis
  proof (cases "ring_contents r m")
    case Nil
    then show ?thesis using spec w by (simp add: q pipe_queue_contents_def pipe_read_char_def)
  next
    case (Cons ch chs)
    then have n: "n = 1" using spec by simp
    then have "m' c = ch" using spec Cons by auto
    then show ?thesis
      using spec w Cons n outside_same [of r' r c 1] h(2)
      by (simp add: q pipe_queue_contents_def pipe_read_char_def pipe_queue_ok_def)
  qed
qed

interpretation pipe_queue: char_queue "pipe_queue_ok c" pipe_queue_contents pipe_queue_ready "pipe_write_char c" "pipe_read_char c" for c
proof (unfold_locales, goal_cases)
  case (1 q ch)
  then show ?case using pipe_write_char_queue by blast
next
  case (2 q ch)
  then show ?case using pipe_write_char_queue by blast
next
  case (3 q)
  then show ?case using pipe_read_char_queue [of c q] by simp
next
  case (4 q ch chs)
  then show ?case using pipe_read_char_queue [of c q] by simp
qed

lemma pipe_write_char_room:
  assumes "pipe_queue_ok c (r, m)" "pipe_queue_ready (r, m)" "write_ptr r + 2 \<le> rb_buf_end r" "ring_contents r m = []"
  shows "pipe_queue_ready (pipe_write_char c ch (r, m))"
  using assms
  by (auto simp: pipe_queue_ok_def pipe_queue_ready_def pipe_write_char_def ringbuf_write_def Let_def ring_room_def
      ring_ok_def ring_contents_def mem_bytes_def)

section \<open>Properties\<close>

text \<open>C37 (functional). The ring buffer of a pipe is a first-in first-out queue as long as it has not
  wrapped at a write: in every run of pushes and pops from the initial state the popped characters,
  followed by the characters still in the buffer, are the pushed ones in order.\<close>

theorem pipe_fifo:
  assumes "outside (ringbuf_init buf sz) c 1"
    "queue_run pipe_queue_ready (pipe_write_char c) (pipe_read_char c) ops (ringbuf_init buf sz, m) = Some (out, q)"
  shows "pushed ops = out @ pipe_queue_contents q"
proof -
  have "pipe_queue_ok c (ringbuf_init buf sz, m)"
    using assms(1) ringbuf_init_ok by (simp add: pipe_queue_ok_def)
  from pipe_queue.run_fifo [OF this assms(2)] show ?thesis
    using ringbuf_init_ok by (simp add: pipe_queue_contents_def)
qed

theorem pipe_fifo_witness:
  "\<exists>q. queue_run pipe_queue_ready (pipe_write_char 50) (pipe_read_char 50) [Push 65, Push 66, Pop, Push 67, Pop]
      (ringbuf_init 100 2, \<lambda>_. 0) = Some ([65, 66], q) \<and> pipe_queue_contents q = [67]"
proof -
  have init: "outside (ringbuf_init 100 2) 50 1" by (simp add: outside_def ringbuf_init_def)
  have "\<exists>q. queue_run pipe_queue_ready (pipe_write_char 50) (pipe_read_char 50) [Push 65, Push 66, Pop, Push 67, Pop]
      (ringbuf_init 100 2, \<lambda>_. 0) = Some ([65, 66], q)"
    by (simp add: pipe_write_char_def pipe_read_char_def pipe_queue_ready_def ringbuf_init_def ring_room_def
        ringbuf_write_def ringbuf_read_def Let_def)
  then show ?thesis using pipe_fifo [OF init] by fastforce
qed

text \<open>Once a write has wrapped round, \<^verbatim>\<open>ringbuf_write\<close> reports bytes as written that are
  never read: it returns the number of bytes that fit and leaves the contents as they were.\<close>

theorem ringbuf_write_ahead_lost:
  assumes "ring_ok r" "outside r src sz" "read_is_ahead r"
  shows "\<exists>m'. ringbuf_write r src sz m = (min (ring_room r) sz, r, m') \<and> ring_contents r m' = ring_contents r m"
proof -
  let ?n = "min (read_ptr r - write_ptr r) sz"
  have sep: "write_ptr r + ?n \<le> src \<or> src + ?n \<le> write_ptr r"
    using assms by (auto simp: ring_ok_def outside_def)
  have keep: "mem_bytes (ring_memcpy (write_ptr r) src ?n m) a b = mem_bytes m a b"
    if "b \<le> write_ptr r \<or> read_ptr r \<le> a" for a b
    by (rule mem_bytes_memcpy(2) [OF sep]) (use that assms in \<open>auto simp: ring_ok_def\<close>)
  show ?thesis
    using assms keep [of "write_ptr r" "rb_buf r"] keep [of "rb_buf_end r" "read_ptr r"]
    by (simp add: ringbuf_write_def ring_room_def ring_contents_def Let_def)
qed

text \<open>Four bytes at 100 of which the first is written again while the reader stands at the third.\<close>

theorem ringbuf_write_ahead_lost_witness:
  "\<exists>m'. ringbuf_write \<lparr>rb_buf = 100, rb_buf_end = 104, write_ptr = 101, read_ptr = 103, read_is_ahead = True\<rparr> 50 2 (\<lambda>_. 7) =
     (2, \<lparr>rb_buf = 100, rb_buf_end = 104, write_ptr = 101, read_ptr = 103, read_is_ahead = True\<rparr>, m') \<and>
   ring_contents \<lparr>rb_buf = 100, rb_buf_end = 104, write_ptr = 101, read_ptr = 103, read_is_ahead = True\<rparr> m' = [7, 7]"
  using ringbuf_write_ahead_lost
    [of "\<lparr>rb_buf = 100, rb_buf_end = 104, write_ptr = 101, read_ptr = 103, read_is_ahead = True\<rparr>" 50 2 "\<lambda>_. 7"]
  by (auto simp: ring_ok_def outside_def ring_room_def ring_contents_def mem_bytes_def upt_conv_Cons)

text \<open>One wait flag stands for any number of characters: after two pushes and one pop the
  second pop puts the running task into the list of tasks that wait for the flag and calls the
  scheduler, although the buffer still holds the second character.\<close>

theorem pipe_second_pop_waits:
  assumes "ring_ok (pipe_ringbuf p)" "outside (pipe_ringbuf p) c 1" "\<not> read_is_ahead (pipe_ringbuf p)"
    "write_ptr (pipe_ringbuf p) + 2 \<le> rb_buf_end (pipe_ringbuf p)" "ring_contents (pipe_ringbuf p) m = []"
    "pipe_push c ch1 (p, m, s) = st1" "pipe_push c ch2 st1 = st2"
  shows "\<exists>st3. pipe_pop now c st2 = Some (Inr (Inr (ch1, st3))) \<and>
    ring_contents (pipe_ringbuf (fst st3)) (fst (snd st3)) = [ch2] \<and>
    wait_on_waitflag now (pipe_waitflag p) (snd (snd st3)) =
      schedule now (sched_queue_flagwait_task (current s)
        (upd_task (current s) (waitflag_update (\<lambda>_. pipe_waitflag p)) (snd (snd st3))))"
proof -
  let ?q = "(pipe_ringbuf p, m)"
  have q0: "pipe_queue_ok c ?q" "pipe_queue_ready ?q"
    using assms(1-4) by (simp_all add: pipe_queue_ok_def pipe_queue_ready_def ring_room_def)
  let ?q1 = "pipe_write_char c ch1 ?q"
  have q1: "pipe_queue_ok c ?q1" "pipe_queue_contents ?q1 = [ch1]"
    using pipe_write_char_queue [OF q0] assms(5) by (simp_all add: pipe_queue_contents_def)
  have r1: "pipe_queue_ready ?q1"
    using pipe_write_char_room [OF q0, of ch1] assms(3-5) by simp
  let ?q2 = "pipe_write_char c ch2 ?q1"
  have q2: "pipe_queue_ok c ?q2" "pipe_queue_contents ?q2 = [ch1, ch2]"
    using pipe_write_char_queue [OF q1(1) r1] q1(2) by simp_all
  obtain q3 where q3: "pipe_read_char c ?q2 = Some (ch1, q3)" "pipe_queue_contents q3 = [ch2]"
    using pipe_queue.pop_Some [OF q2] by blast
  let ?s2 = "wakeup_waitflag (pipe_waitflag p) (wakeup_waitflag (pipe_waitflag p) s)"
  let ?s3 = "?s2\<lparr>cells := (cells ?s2)(pipe_waitflag p := 0)\<rparr>"
  have st2: "st2 = (p\<lparr>pipe_ringbuf := fst ?q2\<rparr>, snd ?q2, ?s2)"
    using assms(6,7) by (auto simp: pipe_push_def split: prod.splits)
  have "pipe_pop now c st2 = Some (Inr (Inr (ch1, p\<lparr>pipe_ringbuf := fst q3\<rparr>, snd q3, ?s3)))"
    using q3(1) by (simp add: st2 pipe_pop_def pipe_pop_take_def wait_on_waitflag_def wakeup_waitflag_def
        with_irq_disabled_def obind_def split: prod.splits)
  moreover have "wait_on_waitflag now (pipe_waitflag p) ?s3 = schedule now (sched_queue_flagwait_task (current s)
      (upd_task (current s) (waitflag_update (\<lambda>_. pipe_waitflag p)) ?s3))"
    by (simp add: wait_on_waitflag_def Let_def wakeup_waitflag_def with_irq_disabled_def)
  ultimately show ?thesis using q3(2) by (auto simp: pipe_queue_contents_def split: prod.splits)
qed

theorem pipe_second_pop_waits_witness:
  "\<forall>s now. \<exists>st3. pipe_pop now 50 (pipe_push 50 66 (pipe_push 50 65 (pipe_init 8 100 64, \<lambda>_. 0, s))) =
      Some (Inr (Inr (65, st3))) \<and> ring_contents (pipe_ringbuf (fst st3)) (fst (snd st3)) = [66]"
proof (intro allI)
  fix s :: sys and now
  have "ring_ok (pipe_ringbuf (pipe_init 8 100 64))" "outside (pipe_ringbuf (pipe_init 8 100 64)) 50 1"
    "\<not> read_is_ahead (pipe_ringbuf (pipe_init 8 100 64))"
    "write_ptr (pipe_ringbuf (pipe_init 8 100 64)) + 2 \<le> rb_buf_end (pipe_ringbuf (pipe_init 8 100 64))"
    "ring_contents (pipe_ringbuf (pipe_init 8 100 64)) (\<lambda>_. 0) = []"
    by (simp_all add: pipe_init_def ringbuf_init_ok outside_def) (simp_all add: ringbuf_init_def)
  from pipe_second_pop_waits [OF this refl refl, where ?ch1.0 = 65 and ?ch2.0 = 66 and s = s and now = now]
  show "\<exists>st3. pipe_pop now 50 (pipe_push 50 66 (pipe_push 50 65 (pipe_init 8 100 64, \<lambda>_. 0, s))) =
      Some (Inr (Inr (65, st3))) \<and> ring_contents (pipe_ringbuf (fst st3)) (fst (snd st3)) = [66]"
    by blast
qed

end
