(* ===== verification/Gpio.thy ===== *)
theory Gpio
  imports Prelude
begin

text \<open>
  The pin driver of \<^verbatim>\<open>src/board/bcm2835/bcm2835_gpio.c\<close> with the register accesses of
  \<^verbatim>\<open>bcm2835_gpio_access.S\<close>. The state is the list of all register writes so far, the newest last;
  what a register read returns is a function of it, the parameter \<open>world\<close>, so that a device at the other
  end of the pins is any such function. Delays change nothing. \<open>pin_level\<close> reads from the writes what
  the set and clear registers drive an output pin to.
\<close>

unbundle bit_operations_syntax

section \<open>Registers\<close>

type_synonym writes = "(nat \<times> u32) list"
type_synonym world = "writes \<Rightarrow> nat \<Rightarrow> u32"

definition GPIO_BASE :: nat where "GPIO_BASE = 0x3f000000 + 0x200000"
definition GPIO_REG_GPFSEL0 :: nat where "GPIO_REG_GPFSEL0 = GPIO_BASE"
definition GPIO_REG_GPSET0 :: nat where "GPIO_REG_GPSET0 = GPIO_BASE + 0x1c"
definition GPIO_REG_GPCLR0 :: nat where "GPIO_REG_GPCLR0 = GPIO_BASE + 0x28"
definition GPIO_REG_GPLEV0 :: nat where "GPIO_REG_GPLEV0 = GPIO_BASE + 0x34"
definition GPIO_REG_GPEDS0 :: nat where "GPIO_REG_GPEDS0 = GPIO_BASE + 0x40"
definition GPIO_REG_GPREN0 :: nat where "GPIO_REG_GPREN0 = GPIO_BASE + 0x4c"
definition GPIO_REG_GPFEN0 :: nat where "GPIO_REG_GPFEN0 = GPIO_BASE + 0x58"
definition GPIO_REG_GPHEN0 :: nat where "GPIO_REG_GPHEN0 = GPIO_BASE + 0x64"
definition GPIO_REG_GPLEN0 :: nat where "GPIO_REG_GPLEN0 = GPIO_BASE + 0x70"
definition GPIO_REG_GPAREN0 :: nat where "GPIO_REG_GPAREN0 = GPIO_BASE + 0x7c"
definition GPIO_REG_GPAFEN0 :: nat where "GPIO_REG_GPAFEN0 = GPIO_BASE + 0x88"
definition GPIO_REG_GPPUD :: nat where "GPIO_REG_GPPUD = GPIO_BASE + 0x94"
definition GPIO_REG_GPPUDCLK0 :: nat where "GPIO_REG_GPPUDCLK0 = GPIO_BASE + 0x98"
definition GPIO_REG_GPPUDCLK1 :: nat where "GPIO_REG_GPPUDCLK1 = GPIO_BASE + 0x9c"

lemmas gpio_reg_defs = GPIO_BASE_def GPIO_REG_GPFSEL0_def GPIO_REG_GPSET0_def GPIO_REG_GPCLR0_def
  GPIO_REG_GPLEV0_def GPIO_REG_GPEDS0_def GPIO_REG_GPREN0_def GPIO_REG_GPFEN0_def GPIO_REG_GPHEN0_def
  GPIO_REG_GPLEN0_def GPIO_REG_GPAREN0_def GPIO_REG_GPAFEN0_def GPIO_REG_GPPUD_def
  GPIO_REG_GPPUDCLK0_def GPIO_REG_GPPUDCLK1_def

definition GPIO_MAX_PIN_IDX :: u32 where "GPIO_MAX_PIN_IDX = 53"
definition GPIO_FUNC_IN :: u32 where "GPIO_FUNC_IN = 0"
definition GPIO_FUNC_OUT :: u32 where "GPIO_FUNC_OUT = 1"
definition GPIO_PULLUPDOWN_EN_PULLDOWN :: u32 where "GPIO_PULLUPDOWN_EN_PULLDOWN = 1"

definition logged_write_reg :: "nat \<Rightarrow> u32 \<Rightarrow> writes \<Rightarrow> writes" where
  "logged_write_reg a v w = w @ [(a, v)]"

section \<open>Operations\<close>

text \<open>\<^verbatim>\<open>GPIO_32PIN_SET_CHEKCED\<close>.\<close>

definition gpio_32pin_set_checked :: "u32 \<Rightarrow> nat \<Rightarrow> writes \<Rightarrow> int \<times> writes" where
  "gpio_32pin_set_checked gpio_num reg0 w =
     (if gpio_num > GPIO_MAX_PIN_IDX then (-1, w)
      else (ERR_OK, logged_write_reg (reg0 + 4 * unat (gpio_num div 32)) (push_bit (unat (gpio_num mod 32)) 1) w))"

definition gpio_set_on :: "u32 \<Rightarrow> writes \<Rightarrow> int \<times> writes" where
  "gpio_set_on gpio_num = gpio_32pin_set_checked gpio_num GPIO_REG_GPSET0"

definition gpio_set_off :: "u32 \<Rightarrow> writes \<Rightarrow> int \<times> writes" where
  "gpio_set_off gpio_num = gpio_32pin_set_checked gpio_num GPIO_REG_GPCLR0"

definition gpio_set_detect_high :: "u32 \<Rightarrow> writes \<Rightarrow> int \<times> writes" where
  "gpio_set_detect_high gpio_num = gpio_32pin_set_checked gpio_num GPIO_REG_GPHEN0"

definition gpio_set_detect_low :: "u32 \<Rightarrow> writes \<Rightarrow> int \<times> writes" where
  "gpio_set_detect_low gpio_num = gpio_32pin_set_checked gpio_num GPIO_REG_GPLEN0"

definition gpio_set_gppudclk :: "u32 \<Rightarrow> writes \<Rightarrow> int \<times> writes" where
  "gpio_set_gppudclk gpio_num = gpio_32pin_set_checked gpio_num GPIO_REG_GPPUDCLK0"

text \<open>The assembly routines: one bit, and a field of three bits.\<close>

definition gpio_read_and_set_64 :: "world \<Rightarrow> nat \<Rightarrow> u32 \<Rightarrow> writes \<Rightarrow> writes" where
  "gpio_read_and_set_64 world reg pin w =
     (let a = reg + 4 * unat (drop_bit 5 pin AND 1)
      in logged_write_reg a (world w a OR push_bit (unat (pin AND 0x1f)) 1) w)"

definition gpio_read_and_set_3 :: "world \<Rightarrow> nat \<Rightarrow> u32 \<Rightarrow> u32 \<Rightarrow> writes \<Rightarrow> writes" where
  "gpio_read_and_set_3 world reg pin mode w =
     (let a = reg + 4 * unat (pin div 10); bitpos = 3 * unat (pin mod 10)
      in logged_write_reg a ((world w a AND NOT (push_bit bitpos 7)) OR push_bit bitpos mode) w)"

definition gpio_read_level_reg :: "world \<Rightarrow> u32 \<Rightarrow> writes \<Rightarrow> u32" where
  "gpio_read_level_reg world pin w = world w (GPIO_REG_GPLEV0 + 4 * unat (drop_bit 5 pin))"

definition gpio_is_set :: "world \<Rightarrow> u32 \<Rightarrow> writes \<Rightarrow> bool" where
  "gpio_is_set world pin w = bit (gpio_read_level_reg world pin w) (unat (pin mod 32))"

definition gpio_set_function :: "world \<Rightarrow> u32 \<Rightarrow> u32 \<Rightarrow> writes \<Rightarrow> int \<times> writes" where
  "gpio_set_function world gpio_num func w =
     (if gpio_num > GPIO_MAX_PIN_IDX then (-1, w)
      else (ERR_OK, gpio_read_and_set_3 world GPIO_REG_GPFSEL0 gpio_num func w))"

definition gpio_set_detect :: "nat \<Rightarrow> world \<Rightarrow> u32 \<Rightarrow> writes \<Rightarrow> int \<times> writes" where
  "gpio_set_detect reg world gpio_num w =
     (if gpio_num > GPIO_MAX_PIN_IDX then (-1, w) else (0, gpio_read_and_set_64 world reg gpio_num w))"

definition gpio_set_detect_rising_edge :: "world \<Rightarrow> u32 \<Rightarrow> writes \<Rightarrow> int \<times> writes" where
  "gpio_set_detect_rising_edge = gpio_set_detect GPIO_REG_GPREN0"

definition gpio_set_detect_falling_edge :: "world \<Rightarrow> u32 \<Rightarrow> writes \<Rightarrow> int \<times> writes" where
  "gpio_set_detect_falling_edge = gpio_set_detect GPIO_REG_GPFEN0"

definition gpio_set_detect_async_rising_edge :: "world \<Rightarrow> u32 \<Rightarrow> writes \<Rightarrow> int \<times> writes" where
  "gpio_set_detect_async_rising_edge = gpio_set_detect GPIO_REG_GPAREN0"

definition gpio_set_detect_async_falling_edge :: "world \<Rightarrow> u32 \<Rightarrow> writes \<Rightarrow> int \<times> writes" where
  "gpio_set_detect_async_falling_edge = gpio_set_detect GPIO_REG_GPAFEN0"

definition gpio_pin_status_triggered :: "world \<Rightarrow> u32 \<Rightarrow> writes \<Rightarrow> int" where
  "gpio_pin_status_triggered world gpio_num w =
     (if world w (GPIO_REG_GPEDS0 + 4 * unat (drop_bit 5 gpio_num)) AND push_bit (unat (gpio_num mod 32)) 1 \<noteq> 0
      then 1 else 0)"

definition gpio_pin_status_clear :: "u32 \<Rightarrow> writes \<Rightarrow> int \<times> writes" where
  "gpio_pin_status_clear gpio_num w =
     (ERR_OK, logged_write_reg (GPIO_REG_GPEDS0 + 4 * unat (drop_bit 5 gpio_num)) (push_bit (unat (gpio_num mod 32)) 1) w)"

definition gpio_set_pullupdown :: "u32 \<Rightarrow> u32 \<Rightarrow> writes \<Rightarrow> int \<times> writes" where
  "gpio_set_pullupdown gpio_num pullupdown w =
     (if gpio_num > GPIO_MAX_PIN_IDX then (-1, w)
      else let w = logged_write_reg GPIO_REG_GPPUD pullupdown w;
               (_, w) = gpio_set_gppudclk gpio_num w;
               w = logged_write_reg GPIO_REG_GPPUD 0 w;
               w = logged_write_reg GPIO_REG_GPPUDCLK0 0 w;
               w = logged_write_reg GPIO_REG_GPPUDCLK1 0 w
           in (ERR_OK, w))"

definition gpio_power_off :: "writes \<Rightarrow> writes" where
  "gpio_power_off w =
     w @ [(GPIO_REG_GPFSEL0, 0), (GPIO_REG_GPFSEL0 + 4, 0), (GPIO_REG_GPFSEL0 + 8, 0),
          (GPIO_REG_GPFSEL0 + 12, 0), (GPIO_REG_GPFSEL0 + 16, 0), (GPIO_REG_GPFSEL0 + 20, 0),
          (GPIO_REG_GPPUD, 0), (GPIO_REG_GPPUDCLK0, 0xffffffff), (GPIO_REG_GPPUDCLK1, 0xffffffff),
          (GPIO_REG_GPPUDCLK0, 0)]"

section \<open>Output levels\<close>

text \<open>A one in a set register drives its pin high, a one in a clear register drives it low.\<close>

definition drive :: "nat \<times> u32 \<Rightarrow> nat \<Rightarrow> bool \<Rightarrow> bool" where
  "drive e pin l =
     (if fst e = GPIO_REG_GPSET0 + 4 * (pin div 32) \<and> bit (snd e) (pin mod 32) then True
      else if fst e = GPIO_REG_GPCLR0 + 4 * (pin div 32) \<and> bit (snd e) (pin mod 32) then False else l)"

definition pin_level :: "writes \<Rightarrow> nat \<Rightarrow> bool" where
  "pin_level w pin = fold (\<lambda>e. drive e pin) w False"

lemma pin_level_snoc: "pin_level (w @ [e]) pin = drive e pin (pin_level w pin)"
  by (simp add: pin_level_def)

lemma valid_pin:
  assumes "p \<le> 53"
  shows "of_nat p \<le> GPIO_MAX_PIN_IDX" "unat (of_nat p div 32 :: u32) = p div 32" "unat (of_nat p mod 32 :: u32) = p mod 32"
proof -
  have u: "unat (of_nat p :: u32) = p" using assms by (simp add: unsigned_of_nat take_bit_nat_eq_self)
  then show "of_nat p \<le> GPIO_MAX_PIN_IDX" using assms by (simp add: GPIO_MAX_PIN_IDX_def word_le_nat_alt)
  show "unat (of_nat p div 32 :: u32) = p div 32" "unat (of_nat p mod 32 :: u32) = p mod 32"
    using u by (simp_all add: unat_div unat_mod)
qed

lemma bit_one_shifted: "q < 32 \<Longrightarrow> p < 32 \<Longrightarrow> bit (2 ^ p :: u32) q \<longleftrightarrow> q = p"
  by (auto simp: bit_simps)

text \<open>Setting a pin changes that pin and no other.\<close>

lemma gpio_set_on_level:
  assumes "p \<le> 53" "q \<le> 53"
  shows "fst (gpio_set_on (of_nat p) w) = ERR_OK"
    "pin_level (snd (gpio_set_on (of_nat p) w)) q = (if q = p then True else pin_level w q)"
proof -
  note v = valid_pin [OF assms(1)]
  show "fst (gpio_set_on (of_nat p) w) = ERR_OK"
    using v(1) by (simp add: linorder_not_less [symmetric] gpio_set_on_def gpio_32pin_set_checked_def)
  have "q = p \<longleftrightarrow> q div 32 = p div 32 \<and> q mod 32 = p mod 32" by (metis mult_div_mod_eq)
  moreover have "p div 32 \<le> 1" "q div 32 \<le> 1" using assms by simp_all
  ultimately show "pin_level (snd (gpio_set_on (of_nat p) w)) q = (if q = p then True else pin_level w q)"
    using v by (auto simp: gpio_set_on_def gpio_32pin_set_checked_def logged_write_reg_def pin_level_snoc drive_def
        bit_one_shifted gpio_reg_defs)
qed

lemma gpio_set_off_level:
  assumes "p \<le> 53" "q \<le> 53"
  shows "fst (gpio_set_off (of_nat p) w) = ERR_OK"
    "pin_level (snd (gpio_set_off (of_nat p) w)) q = (if q = p then False else pin_level w q)"
proof -
  note v = valid_pin [OF assms(1)]
  show "fst (gpio_set_off (of_nat p) w) = ERR_OK"
    using v(1) by (simp add: linorder_not_less [symmetric] gpio_set_off_def gpio_32pin_set_checked_def)
  have "q = p \<longleftrightarrow> q div 32 = p div 32 \<and> q mod 32 = p mod 32" by (metis mult_div_mod_eq)
  moreover have "p div 32 \<le> 1" "q div 32 \<le> 1" using assms by simp_all
  ultimately show "pin_level (snd (gpio_set_off (of_nat p) w)) q = (if q = p then False else pin_level w q)"
    using v by (auto simp: gpio_set_off_def gpio_32pin_set_checked_def logged_write_reg_def pin_level_snoc drive_def
        bit_one_shifted gpio_reg_defs)
qed

end
