(* ===== verification/Gpio_Set.thy ===== *)
theory Gpio_Set
  imports Prelude
begin

text \<open>
  Ownership of pins (\<^verbatim>\<open>src/gpio_set.c\<close>, \<^verbatim>\<open>src/include/gpio_set.h\<close>): a table of 32 sets,
  each the pins of one owner as a bit msk, and the interface \<open>pin_owners\<close> the drivers rely on. An
  owner's key is the list of its bytes without the terminating zero. The lock changes nothing else on
  one CPU.
\<close>

unbundle bit_operations_syntax

section \<open>Operations\<close>

record gpio_set =
  gs_active :: bool
  gs_owner_key :: "u8 list"
  gs_mask :: u64

record gpio_sets =
  gpio_sets :: "gpio_set list"
  gpio_set_active_count :: int
  gpio_set_initialized :: bool

definition NUM_GPIO_SETS :: nat where "NUM_GPIO_SETS = 32"
definition GPIO_SET_OWNER_KEY_LEN :: nat where "GPIO_SET_OWNER_KEY_LEN = 15"
definition GPIO_SET_INVALID_HANDLE :: int where "GPIO_SET_INVALID_HANDLE = -1"

definition zero_gpio_set :: gpio_set where
  "zero_gpio_set = \<lparr>gs_active = False, gs_owner_key = [], gs_mask = 0\<rparr>"

text \<open>The statically zeroed state.\<close>

definition zero_gpio_sets :: gpio_sets where
  "zero_gpio_sets = \<lparr>gpio_sets = replicate NUM_GPIO_SETS zero_gpio_set, gpio_set_active_count = 0,
     gpio_set_initialized = False\<rparr>"

text \<open>\<^verbatim>\<open>memset\<close> gets the number of sets as its length in bytes, which clears the first set only.\<close>

definition gpio_set_init :: "gpio_sets \<Rightarrow> int \<times> gpio_sets" where
  "gpio_set_init s =
     (if gpio_set_initialized s then (ERR_FATAL, s)
      else (ERR_OK, s\<lparr>gpio_sets := (gpio_sets s)[0 := zero_gpio_set], gpio_set_active_count := 0,
                      gpio_set_initialized := True\<rparr>))"

definition gpio_set_get_by_handle :: "int \<Rightarrow> gpio_sets \<Rightarrow> gpio_set option kres" where
  "gpio_set_get_by_handle handle s =
     (if handle < 0 \<or> int NUM_GPIO_SETS \<le> handle then Inl ''gpio_sets out of bounds''
      else let gs = gpio_sets s ! nat handle in Inr (if gs_active gs then Some gs else None))"

fun first_inactive :: "gpio_set list \<Rightarrow> nat" where
  "first_inactive [] = 0"
| "first_inactive (gs # sets) = (if \<not> gs_active gs then 0 else Suc (first_inactive sets))"

text \<open>The result is the code, the handle that is written on success, and the state. When every set is
  active the code would write to the last set and return the handle 32.\<close>

definition gpio_set_request :: "u64 \<Rightarrow> u8 list \<Rightarrow> gpio_sets \<Rightarrow> int \<times> int option \<times> gpio_sets" where
  "gpio_set_request setmask owner_key s =
     (if \<not> gpio_set_initialized s then (ERR_NOT_INIT, None, s)
      else if length owner_key \<noteq> GPIO_SET_OWNER_KEY_LEN then (ERR_INVAL_ARG, None, s)
      else if gpio_set_active_count s = int NUM_GPIO_SETS then (ERR_NO_RESOURCE, None, s)
      else if \<exists>gs \<in> set (gpio_sets s). gs_active gs \<and> gs_mask gs AND setmask \<noteq> 0 then (ERR_BUSY, None, s)
      else let i = first_inactive (gpio_sets s);
               k = min i (NUM_GPIO_SETS - 1)
           in (ERR_OK, Some (int i),
               s\<lparr>gpio_sets := (gpio_sets s)[k := \<lparr>gs_active = True, gs_owner_key = owner_key, gs_mask = setmask\<rparr>],
                 gpio_set_active_count := gpio_set_active_count s + 1\<rparr>))"

text \<open>The owner's key is not looked at.\<close>

definition gpio_set_release :: "int \<Rightarrow> u8 list \<Rightarrow> gpio_sets \<Rightarrow> (int \<times> gpio_sets) kres" where
  "gpio_set_release handle owner_key s =
     kbind (gpio_set_get_by_handle handle s) (\<lambda>gs.
       Inr (if gs = None then (ERR_NOT_FOUND, s)
            else (ERR_OK, s\<lparr>gpio_sets := (gpio_sets s)[nat handle := (gpio_sets s ! nat handle)\<lparr>gs_active := False\<rparr>]\<rparr>)))"

definition gpio_set_get_num_owners :: "u64 \<Rightarrow> gpio_sets \<Rightarrow> int" where
  "gpio_set_get_num_owners setmask s =
     (if \<not> gpio_set_initialized s then ERR_NOT_INIT
      else int (length (filter (\<lambda>gs. gs_mask gs AND setmask \<noteq> 0) (gpio_sets s))))"

text \<open>The number of owners and what is written to a buffer with room for \<open>n\<close> sets.\<close>

definition gpio_set_get_owners :: "u64 \<Rightarrow> nat \<Rightarrow> gpio_sets \<Rightarrow> int \<times> gpio_set list" where
  "gpio_set_get_owners setmask n s =
     (if \<not> gpio_set_initialized s then (ERR_NOT_INIT, [])
      else let out = take n (filter (\<lambda>gs. gs_mask gs AND setmask \<noteq> 0) (gpio_sets s))
           in (int (length out), out))"

section \<open>Pin masks\<close>

text \<open>The shifted \<^verbatim>\<open>1\<close> is a 32-bit \<^verbatim>\<open>int\<close>, which is sign-extended to the msk's width.\<close>

definition gpio_set_mask_add :: "u64 \<Rightarrow> int \<Rightarrow> u64 kres" where
  "gpio_set_mask_add msk gpio_num =
     (if gpio_num < 0 \<or> 32 \<le> gpio_num then Inl ''shift out of range''
      else Inr (msk OR scast (push_bit (nat gpio_num) 1 :: u32)))"

definition gpio_set_checked_request :: "u64 \<Rightarrow> u8 list \<Rightarrow> gpio_sets \<Rightarrow> int \<times> gpio_sets" where
  "gpio_set_checked_request pins owner_key s =
     (case gpio_set_request pins owner_key s of
        (err, Some handle, s) \<Rightarrow> if err \<noteq> ERR_OK then (GPIO_SET_INVALID_HANDLE, s) else (handle, s)
      | (_, None, s) \<Rightarrow> (GPIO_SET_INVALID_HANDLE, s))"

fun mask_add_pins :: "u64 \<Rightarrow> int list \<Rightarrow> u64 kres" where
  "mask_add_pins msk [] = Inr msk"
| "mask_add_pins msk (pin # pins) = kbind (gpio_set_mask_add msk pin) (\<lambda>msk. mask_add_pins msk pins)"

definition gpio_set_request_n_pins :: "int list \<Rightarrow> u8 list \<Rightarrow> gpio_sets \<Rightarrow> (int \<times> gpio_sets) kres" where
  "gpio_set_request_n_pins pins owner_key s =
     kbind (mask_add_pins 0 pins) (\<lambda>msk. Inr (gpio_set_checked_request msk owner_key s))"

definition gpio_set_request_1_pins :: "int \<Rightarrow> u8 list \<Rightarrow> gpio_sets \<Rightarrow> (int \<times> gpio_sets) kres" where
  "gpio_set_request_1_pins gpio_pin owner_key s =
     kbind (gpio_set_mask_add 0 gpio_pin) (\<lambda>pins. Inr (gpio_set_checked_request pins owner_key s))"

definition gpio_set_request_2_pins :: "int \<Rightarrow> int \<Rightarrow> u8 list \<Rightarrow> gpio_sets \<Rightarrow> (int \<times> gpio_sets) kres" where
  "gpio_set_request_2_pins gpio_pin_1 gpio_pin_2 owner_key s =
     kbind (gpio_set_mask_add 0 gpio_pin_1) (\<lambda>pins.
     kbind (gpio_set_mask_add pins gpio_pin_2) (\<lambda>pins. Inr (gpio_set_checked_request pins owner_key s)))"

section \<open>The interface\<close>

text \<open>What an owner gets: a slot that was free, for a msk that no held one meets. \<open>held\<close> maps the slots
  to the masks that are held.\<close>

locale pin_owners =
  fixes invar :: "'s \<Rightarrow> bool"
    and held :: "'s \<Rightarrow> int \<Rightarrow> u64 option"
    and request :: "u64 \<Rightarrow> u8 list \<Rightarrow> 's \<Rightarrow> int \<times> int option \<times> 's"
    and release :: "int \<Rightarrow> u8 list \<Rightarrow> 's \<Rightarrow> (int \<times> 's) kres"
  assumes request_ok: "invar s \<Longrightarrow> request msk key s = (err, Some h, s') \<Longrightarrow>
      invar s' \<and> held s h = None \<and> held s' = (held s)(h \<mapsto> msk) \<and>
      (\<forall>h' msk'. held s h' = Some msk' \<longrightarrow> msk' AND msk = 0)"
    and request_fails: "invar s \<Longrightarrow> request msk key s = (err, None, s') \<Longrightarrow> s' = s"
    and release_ok: "invar s \<Longrightarrow> release h key s = Inr (err, s') \<Longrightarrow> invar s' \<and> held s' = (held s)(h := None)"
begin

definition exclusive :: "'s \<Rightarrow> bool" where
  "exclusive s \<longleftrightarrow> (\<forall>h h' msk msk'. h \<noteq> h' \<longrightarrow> held s h = Some msk \<longrightarrow> held s h' = Some msk' \<longrightarrow> msk AND msk' = 0)"

lemma exclusive_request:
  assumes "invar s" "exclusive s" "request msk key s = (err, oh, s')"
  shows "invar s' \<and> exclusive s'"
proof (cases oh)
  case None
  then show ?thesis using request_fails [OF assms(1)] assms by auto
next
  case (Some h)
  with assms(3) have "request msk key s = (err, Some h, s')" by simp
  from request_ok [OF assms(1) this] have r: "invar s'" "held s' = (held s)(h \<mapsto> msk)"
    "\<And>h' msk'. held s h' = Some msk' \<Longrightarrow> msk' AND msk = 0" by blast+
  have "exclusive s'" unfolding exclusive_def
  proof (intro allI impI)
    fix h1 h2 m1 m2 assume "h1 \<noteq> h2" "held s' h1 = Some m1" "held s' h2 = Some m2"
    then show "m1 AND m2 = 0"
      using assms(2) r(3) [of h1 m1] r(3) [of h2 m2] unfolding r(2) exclusive_def
      by (auto simp: and.commute split: if_splits)
  qed
  with r(1) show ?thesis by simp
qed

lemma exclusive_release:
  assumes "invar s" "exclusive s" "release h key s = Inr (err, s')"
  shows "invar s' \<and> exclusive s'"
  using release_ok [OF assms(1,3)] assms(2) by (auto simp: exclusive_def split: if_splits)

end

section \<open>The table of sets provides it\<close>

definition num_active :: "gpio_sets \<Rightarrow> nat" where
  "num_active s = length (filter gs_active (gpio_sets s))"

definition gpio_sets_ok :: "gpio_sets \<Rightarrow> bool" where
  "gpio_sets_ok s \<longleftrightarrow> length (gpio_sets s) = NUM_GPIO_SETS \<and> int (num_active s) \<le> gpio_set_active_count s \<and>
     gpio_set_active_count s \<le> int NUM_GPIO_SETS"

definition held_mask :: "gpio_sets \<Rightarrow> int \<Rightarrow> u64 option" where
  "held_mask s h =
     (if 0 \<le> h \<and> nat h < length (gpio_sets s) \<and> gs_active (gpio_sets s ! nat h)
      then Some (gs_mask (gpio_sets s ! nat h)) else None)"

lemma first_inactive_le: "first_inactive xs \<le> length xs"
  by (induction xs) auto

lemma first_inactive_eq: "first_inactive xs = length xs \<longleftrightarrow> (\<forall>x \<in> set xs. gs_active x)"
  by (induction xs) auto

lemma first_inactive_nth: "first_inactive xs < length xs \<Longrightarrow> \<not> gs_active (xs ! first_inactive xs)"
  by (induction xs) auto

lemma filter_update_length:
  "i < length xs \<Longrightarrow> length (filter P (xs[i := x])) + (if P (xs ! i) then 1 else 0) =
    length (filter P xs) + (if P x then 1 else 0)"
proof (induction xs arbitrary: i)
  case Nil
  then show ?case by simp
next
  case (Cons y ys)
  then show ?case by (cases i) (use Cons.IH in force)+
qed

lemma gpio_set_request_ok:
  assumes "gpio_sets_ok s" "gpio_set_request msk key s = (err, Some h, s')"
  shows "err = ERR_OK \<and> gpio_sets_ok s' \<and> held_mask s h = None \<and> held_mask s' = (held_mask s)(h \<mapsto> msk) \<and>
    (\<forall>h' msk'. held_mask s h' = Some msk' \<longrightarrow> msk' AND msk = 0)"
proof -
  let ?xs = "gpio_sets s" and ?i = "first_inactive (gpio_sets s)"
  let ?new = "\<lparr>gs_active = True, gs_owner_key = key, gs_mask = msk\<rparr>"
  have len: "length ?xs = NUM_GPIO_SETS" and cnt: "int (num_active s) \<le> gpio_set_active_count s"
    "gpio_set_active_count s \<le> int NUM_GPIO_SETS"
    using assms(1) by (simp_all add: gpio_sets_ok_def)
  have ne: "gpio_set_active_count s \<noteq> int NUM_GPIO_SETS"
    and free: "\<And>gs. gs \<in> set ?xs \<Longrightarrow> gs_active gs \<Longrightarrow> gs_mask gs AND msk = 0"
    and res: "err = ERR_OK" "h = int ?i"
      "s' = s\<lparr>gpio_sets := ?xs[min ?i (NUM_GPIO_SETS - 1) := ?new], gpio_set_active_count := gpio_set_active_count s + 1\<rparr>"
    using assms(2) by (auto simp: gpio_set_request_def Let_def split: if_splits)
  have "num_active s < length ?xs" using cnt ne len by simp
  then have "?i \<noteq> length ?xs" unfolding first_inactive_eq num_active_def by (metis filter_True less_irrefl)
  then have i: "?i < length ?xs" using first_inactive_le [of ?xs] by simp
  then have s': "s' = s\<lparr>gpio_sets := ?xs[?i := ?new], gpio_set_active_count := gpio_set_active_count s + 1\<rparr>"
    using res(3) len by (simp add: min_absorb1)
  have "num_active s' = num_active s + 1"
    using filter_update_length [OF i, of gs_active ?new] first_inactive_nth [OF i] by (simp add: num_active_def s')
  then have "gpio_sets_ok s'" using cnt ne len by (simp add: gpio_sets_ok_def s')
  moreover have "held_mask s h = None" using first_inactive_nth [OF i] by (simp add: held_mask_def res(2))
  moreover have "held_mask s' = (held_mask s)(h \<mapsto> msk)"
    using i by (auto simp: held_mask_def res(2) s' fun_eq_iff nth_list_update)
  moreover have "msk' AND msk = 0" if "held_mask s h' = Some msk'" for h' msk'
    using that free by (auto simp: held_mask_def split: if_splits)
  ultimately show ?thesis using res(1) by blast
qed

lemma gpio_set_release_ok:
  assumes "gpio_sets_ok s" "gpio_set_release h key s = Inr (err, s')"
  shows "gpio_sets_ok s' \<and> held_mask s' = (held_mask s)(h := None)"
proof -
  let ?xs = "gpio_sets s" and ?x = "gpio_sets s ! nat h"
  have h: "0 \<le> h" "nat h < length ?xs" and len: "length ?xs = NUM_GPIO_SETS"
    using assms by (auto simp: gpio_set_release_def gpio_set_get_by_handle_def kbind_def gpio_sets_ok_def split: if_splits)
  show ?thesis
  proof (cases "gs_active ?x")
    case False
    then show ?thesis using assms h
      by (auto simp: gpio_set_release_def gpio_set_get_by_handle_def kbind_def held_mask_def Let_def split: if_splits)
  next
    case True
    then have s': "s' = s\<lparr>gpio_sets := ?xs[nat h := ?x\<lparr>gs_active := False\<rparr>]\<rparr>"
      using assms h by (auto simp: gpio_set_release_def gpio_set_get_by_handle_def kbind_def Let_def split: if_splits)
    have "num_active s' + 1 = num_active s"
      using filter_update_length [OF h(2), of gs_active "?x\<lparr>gs_active := False\<rparr>"] True by (simp add: num_active_def s')
    moreover have "held_mask s' = (held_mask s)(h := None)"
      using h by (auto simp: held_mask_def s' fun_eq_iff nth_list_update)
    ultimately show ?thesis using assms(1) len by (simp add: gpio_sets_ok_def s')
  qed
qed

interpretation gpio: pin_owners gpio_sets_ok held_mask gpio_set_request gpio_set_release
proof (unfold_locales, goal_cases)
  case (1 s msk key err h s')
  then show ?case using gpio_set_request_ok by blast
next
  case (2 s msk key err s')
  then show ?case by (auto simp: gpio_set_request_def Let_def split: if_splits)
next
  case (3 s h key err s')
  then show ?case using gpio_set_release_ok by blast
qed

section \<open>Reachable states\<close>

inductive gpio_reach :: "gpio_sets \<Rightarrow> bool" where
  init: "gpio_set_init zero_gpio_sets = (err, s) \<Longrightarrow> gpio_reach s"
| request: "gpio_reach s \<Longrightarrow> gpio_set_request msk key s = (err, oh, s') \<Longrightarrow> gpio_reach s'"
| release: "gpio_reach s \<Longrightarrow> gpio_set_release h key s = Inr (err, s') \<Longrightarrow> gpio_reach s'"

lemma gpio_reach_exclusive: "gpio_reach s \<Longrightarrow> gpio_sets_ok s \<and> gpio.exclusive s"
proof (induction rule: gpio_reach.induct)
  case (init err s)
  then have "s = zero_gpio_sets\<lparr>gpio_set_initialized := True\<rparr>"
    by (simp add: gpio_set_init_def zero_gpio_sets_def NUM_GPIO_SETS_def)
      (simp add: numeral_eq_Suc)
  then have "gpio_sets_ok s" "\<And>h. held_mask s h = None"
    by (auto simp: gpio_sets_ok_def num_active_def held_mask_def zero_gpio_sets_def zero_gpio_set_def)
  then show ?case by (simp add: gpio.exclusive_def)
next
  case (request s msk key err oh s')
  then show ?case using gpio.exclusive_request by blast
next
  case (release s h key err s')
  then show ?case using gpio.exclusive_release by blast
qed

lemma gpio_set_count_monotone:
  assumes "gpio_set_release h key s = Inr (err, s')"
  shows "gpio_set_active_count s' = gpio_set_active_count s" "gpio_set_initialized s' = gpio_set_initialized s"
  using assms by (auto simp: gpio_set_release_def gpio_set_get_by_handle_def kbind_def Let_def split: if_splits)

section \<open>Properties\<close>

text \<open>C13 (invariant). No pin has two owners: in every state reached from \<^verbatim>\<open>gpio_set_init\<close> by
  requests and releases, whatever their arguments, the masks of two active sets have no pin in common,
  and at most as many sets are active as the counter says, which never exceeds the table.\<close>

theorem gpio_owners_exclusive:
  assumes "gpio_reach s" "i < 32" "j < 32" "i \<noteq> j" "gs_active (gpio_sets s ! i)" "gs_active (gpio_sets s ! j)"
  shows "gs_mask (gpio_sets s ! i) AND gs_mask (gpio_sets s ! j) = 0 \<and>
    int (length (filter gs_active (gpio_sets s))) \<le> gpio_set_active_count s \<and> gpio_set_active_count s \<le> 32"
proof -
  have ok: "gpio_sets_ok s" "gpio.exclusive s" using gpio_reach_exclusive [OF assms(1)] by simp_all
  then have "held_mask s (int i) = Some (gs_mask (gpio_sets s ! i))" "held_mask s (int j) = Some (gs_mask (gpio_sets s ! j))"
    using assms by (simp_all add: held_mask_def gpio_sets_ok_def NUM_GPIO_SETS_def)
  then have "gs_mask (gpio_sets s ! i) AND gs_mask (gpio_sets s ! j) = 0"
    using ok(2) assms(4) unfolding gpio.exclusive_def by (metis of_nat_eq_iff)
  then show ?thesis using ok(1) unfolding gpio_sets_ok_def num_active_def NUM_GPIO_SETS_def by simp
qed

definition sample_key :: "u8 list" where
  "sample_key = replicate 15 75"

lemma gpio_reach_two:
  "\<exists>s. gpio_reach s \<and> gs_active (gpio_sets s ! 0) \<and> gs_active (gpio_sets s ! 1) \<and>
     gs_mask (gpio_sets s ! 0) = 5 \<and> gs_mask (gpio_sets s ! 1) = 10"
proof -
  obtain err s0 where s0: "gpio_set_init zero_gpio_sets = (err, s0)" by fastforce
  then have s0': "s0 = zero_gpio_sets\<lparr>gpio_set_initialized := True\<rparr>"
    by (simp add: gpio_set_init_def zero_gpio_sets_def NUM_GPIO_SETS_def) (simp add: numeral_eq_Suc)
  obtain e1 h1 s1 where s1: "gpio_set_request 5 sample_key s0 = (e1, h1, s1)" by (metis prod_cases3)
  obtain e2 h2 s2 where s2: "gpio_set_request 10 sample_key s1 = (e2, h2, s2)" by (metis prod_cases3)
  have reach: "gpio_reach s2" by (rule gpio_reach.request [OF gpio_reach.request [OF gpio_reach.init [OF s0] s1] s2])
  have "replicate NUM_GPIO_SETS zero_gpio_set = zero_gpio_set # zero_gpio_set # replicate 30 zero_gpio_set"
    by (simp add: NUM_GPIO_SETS_def numeral_eq_Suc)
  with s1 s2 s0' have "gs_active (gpio_sets s2 ! 0) \<and> gs_active (gpio_sets s2 ! 1) \<and>
     gs_mask (gpio_sets s2 ! 0) = 5 \<and> gs_mask (gpio_sets s2 ! 1) = 10"
    by (auto simp: gpio_set_request_def zero_gpio_sets_def NUM_GPIO_SETS_def GPIO_SET_OWNER_KEY_LEN_def sample_key_def
        zero_gpio_set_def Let_def)
  with reach show ?thesis by blast
qed

theorem gpio_owners_exclusive_witness:
  "\<exists>s. gpio_reach s \<and> gs_mask (gpio_sets s ! 0) AND gs_mask (gpio_sets s ! 1) = 0 \<and>
     int (length (filter gs_active (gpio_sets s))) \<le> gpio_set_active_count s"
proof -
  obtain s where s: "gpio_reach s" "gs_active (gpio_sets s ! 0)" "gs_active (gpio_sets s ! 1)"
    using gpio_reach_two by blast
  have "gs_mask (gpio_sets s ! 0) AND gs_mask (gpio_sets s ! 1) = 0 \<and>
    int (length (filter gs_active (gpio_sets s))) \<le> gpio_set_active_count s \<and> gpio_set_active_count s \<le> 32"
    by (rule gpio_owners_exclusive) (use s in simp_all)
  with s(1) show ?thesis by blast
qed

text \<open>Releasing a set does not give back its place: once the counter has reached the size of
  the table, every request fails with \<open>ERR_NO_RESOURCE\<close> (or an earlier argument error), also after
  any release.\<close>

theorem gpio_table_exhausted:
  assumes "gpio_set_active_count s = 32" "gpio_set_initialized s" "gpio_set_release h key s = Inr (err, s')"
    "length owner_key = 15"
  shows "gpio_set_request pins owner_key s' = (ERR_NO_RESOURCE, None, s')"
  using gpio_set_count_monotone [OF assms(3)] assms(1,2,4)
  by (simp add: gpio_set_request_def NUM_GPIO_SETS_def GPIO_SET_OWNER_KEY_LEN_def)

theorem gpio_table_exhausted_witness:
  "\<exists>s'. gpio_set_release 3 sample_key \<lparr>gpio_sets = replicate 32 \<lparr>gs_active = True, gs_owner_key = sample_key, gs_mask = 0\<rparr>,
       gpio_set_active_count = 32, gpio_set_initialized = True\<rparr> = Inr (ERR_OK, s') \<and>
     gpio_set_request 8 sample_key s' = (ERR_NO_RESOURCE, None, s')"
proof -
  let ?s = "\<lparr>gpio_sets = replicate 32 \<lparr>gs_active = True, gs_owner_key = sample_key, gs_mask = 0\<rparr>,
       gpio_set_active_count = 32, gpio_set_initialized = True\<rparr>"
  have rel: "gpio_set_release 3 sample_key ?s = Inr (ERR_OK, ?s\<lparr>gpio_sets :=
      (gpio_sets ?s)[3 := \<lparr>gs_active = False, gs_owner_key = sample_key, gs_mask = 0\<rparr>]\<rparr>)"
    by (simp add: gpio_set_release_def gpio_set_get_by_handle_def NUM_GPIO_SETS_def Let_def)
  show ?thesis
    using gpio_table_exhausted [of ?s 3 sample_key _ _ sample_key 8] rel by (simp add: sample_key_def)
qed

end
