(* ===== verification/Spi_Emulated.thy ===== *)
theory Spi_Emulated
  imports Gpio Gpio_Set Linked_List
begin

text \<open>
  SPI on plain pins (\<^verbatim>\<open>src/spi/spi_emulated.c\<close>): the master that drives clock and data, the
  slave that samples them, and the pool of devices. A byte that the C code leaves uninitialised is a
  parameter. Delays and verbose output are left out. What a slave's loop reads from the level register
  is the list of its samples.
\<close>

section \<open>Devices\<close>

datatype spi_mode = SPI_EMU_MODE_MASTER | SPI_EMU_MODE_SLAVE

record spi_emulated_dev =
  sclk_gpio_pin :: int
  mosi_gpio_pin :: int
  miso_gpio_pin :: int
  ce0_gpio_pin :: int
  ce1_gpio_pin :: int
  clk_half_period :: int
  gpio_set_handle :: int
  gpio_set_key :: "u8 list"
  spi_mode :: spi_mode
  spi_name :: "u8 list"

text \<open>A pin number as the \<^verbatim>\<open>uint32_t\<close> argument of the pin driver.\<close>

definition pin_on :: "int \<Rightarrow> writes \<Rightarrow> writes" where
  "pin_on p w = snd (gpio_set_on (word_of_int p) w)"

definition pin_off :: "int \<Rightarrow> writes \<Rightarrow> writes" where
  "pin_off p w = snd (gpio_set_off (word_of_int p) w)"

definition spi_emulated_ce0_set :: "spi_emulated_dev \<Rightarrow> writes \<Rightarrow> writes" where
  "spi_emulated_ce0_set d w = (if ce0_gpio_pin d \<noteq> -1 then pin_on (ce0_gpio_pin d) w else w)"

definition spi_emulated_ce0_clear :: "spi_emulated_dev \<Rightarrow> writes \<Rightarrow> writes" where
  "spi_emulated_ce0_clear d w = (if ce0_gpio_pin d \<noteq> -1 then pin_off (ce0_gpio_pin d) w else w)"

section \<open>The master\<close>

definition PULSE_SCLK :: "world \<Rightarrow> spi_emulated_dev \<Rightarrow> u8 \<Rightarrow> writes \<Rightarrow> u8 \<times> writes" where
  "PULSE_SCLK world d bit_out w =
     (let w = pin_on (sclk_gpio_pin d) w;
          bit_out = (if miso_gpio_pin d \<noteq> -1 then of_bool (gpio_is_set world (word_of_int (miso_gpio_pin d)) w) else bit_out)
      in (bit_out, pin_off (sclk_gpio_pin d) w))"

definition spi_emulated_xmit_bit :: "world \<Rightarrow> spi_emulated_dev \<Rightarrow> u8 \<Rightarrow> u8 \<Rightarrow> writes \<Rightarrow> int \<times> u8 \<times> writes" where
  "spi_emulated_xmit_bit world d bit_in bit_out w =
     (let w = (if mosi_gpio_pin d \<noteq> -1
               then (if bit_in \<noteq> 0 then pin_on (mosi_gpio_pin d) w else pin_off (mosi_gpio_pin d) w) else w);
          (bit_out, w) = PULSE_SCLK world d bit_out w
      in (ERR_OK, bit_out, w))"

text \<open>The loop over the bits of a byte, most significant first: the code, the bits read so far, the
  variable the last bit was read to and the writes.\<close>

fun xmit_bits :: "world \<Rightarrow> spi_emulated_dev \<Rightarrow> u8 \<Rightarrow> nat list \<Rightarrow> u8 \<Rightarrow> u8 \<Rightarrow> writes \<Rightarrow> int \<times> u8 \<times> u8 \<times> writes" where
  "xmit_bits world d byte_in [] c out w = (ERR_OK, out, c, w)"
| "xmit_bits world d byte_in (i # is) c out w =
     (let (err, c, w) = spi_emulated_xmit_bit world d (drop_bit (7 - i) byte_in AND 1) c w
      in if err \<noteq> 0 then (err, out, c, w)
         else xmit_bits world d byte_in is c (push_bit 1 out OR c) w)"

definition spi_emulated_xmit_byte :: "world \<Rightarrow> spi_emulated_dev \<Rightarrow> u8 \<Rightarrow> u8 \<Rightarrow> writes \<Rightarrow> int \<times> u8 \<times> writes" where
  "spi_emulated_xmit_byte world d byte_in c w =
     (let w = spi_emulated_ce0_clear d w;
          (err, out, c, w) = xmit_bits world d byte_in [0 ..< 8] c 0 w
      in if err \<noteq> 0 then (err, out, w) else (ERR_OK, out, spi_emulated_ce0_set d w))"

fun xmit_bytes :: "world \<Rightarrow> spi_emulated_dev \<Rightarrow> u8 list \<Rightarrow> u8 \<Rightarrow> u8 \<Rightarrow> writes \<Rightarrow> int \<times> u8 list \<times> writes" where
  "xmit_bytes world d [] c out w = (ERR_OK, [], w)"
| "xmit_bytes world d (b # bs) c out w =
     (let (st, out, c, w) = xmit_bits world d b [0 ..< 8] c out w
      in if st \<noteq> 0 then (st, [], w)
         else let (st, outs, w) = xmit_bytes world d bs c out w in (st, out # outs, w))"

text \<open>The bytes that are read are returned; the code stores them when it was given a buffer.\<close>

definition spi_emulated_xmit :: "world \<Rightarrow> spi_emulated_dev \<Rightarrow> u8 list \<Rightarrow> u8 \<Rightarrow> u8 \<Rightarrow> writes \<Rightarrow> int \<times> u8 list \<times> writes" where
  "spi_emulated_xmit world d bytes_in c out w =
     (let w = spi_emulated_ce0_clear d w;
          (st, outs, w) = xmit_bytes world d bytes_in c out w
      in if st \<noteq> 0 then (st, outs, w) else (ERR_OK, outs, spi_emulated_ce0_set d w))"

definition spi_emulated_xmit_dma :: int where "spi_emulated_xmit_dma = ERR_NOT_IMPLEMENTED"
definition spi_emulated_slave_xmit_dma :: int where "spi_emulated_slave_xmit_dma = ERR_NOT_IMPLEMENTED"

section \<open>The slave\<close>

datatype slave_state = STATE_WAIT_CE0 | STATE_EXPECT_SCLK_DROP | STATE_EXPECT_SCLK_RIZE

text \<open>The tests for the chip select inside the cases of the \<^verbatim>\<open>switch\<close> cannot succeed, since the loop
  has tested the same sample before.\<close>

definition slave_switch :: "u32 \<Rightarrow> nat \<Rightarrow> u32 \<Rightarrow> slave_state \<Rightarrow> u8 \<Rightarrow> nat \<Rightarrow> slave_state \<times> u8 \<times> nat" where
  "slave_switch mask_sclk mosi_shift gpio_level state byte i =
     (case state of
        STATE_WAIT_CE0 \<Rightarrow>
          (if gpio_level AND mask_sclk = 0 then STATE_EXPECT_SCLK_RIZE else STATE_EXPECT_SCLK_DROP, byte, i)
      | STATE_EXPECT_SCLK_RIZE \<Rightarrow>
          if gpio_level AND mask_sclk \<noteq> 0
          then (STATE_EXPECT_SCLK_DROP, byte OR push_bit (7 - i) (ucast (drop_bit mosi_shift gpio_level AND 1)), i + 1)
          else (state, byte, i)
      | STATE_EXPECT_SCLK_DROP \<Rightarrow>
          (if gpio_level AND mask_sclk = 0 then STATE_EXPECT_SCLK_RIZE else state, byte, i))"

fun slave_byte_loop :: "u32 \<Rightarrow> u32 \<Rightarrow> nat \<Rightarrow> u32 list \<Rightarrow> slave_state \<Rightarrow> u8 \<Rightarrow> nat \<Rightarrow> (u8 \<times> u32 list) option" where
  "slave_byte_loop mask_ce0 mask_sclk mosi_shift [] state byte i = None"
| "slave_byte_loop mask_ce0 mask_sclk mosi_shift (gpio_level # levels) state byte i =
     (if gpio_level AND mask_ce0 \<noteq> 0
      then (if i \<noteq> 0 then slave_byte_loop mask_ce0 mask_sclk mosi_shift levels state 0 0
            else slave_byte_loop mask_ce0 mask_sclk mosi_shift levels state byte i)
      else let (state, byte, i) = slave_switch mask_sclk mosi_shift gpio_level state byte i
           in if i = 8 then Some (byte, levels)
              else slave_byte_loop mask_ce0 mask_sclk mosi_shift levels state byte i)"

text \<open>\<open>None\<close> when the samples end while the loop still waits; the pins are below 32.\<close>

definition spi_emulated_slave_xmit_byte :: "spi_emulated_dev \<Rightarrow> u32 list \<Rightarrow> (u8 \<times> u32 list) option" where
  "spi_emulated_slave_xmit_byte d levels =
     slave_byte_loop (push_bit (nat (ce0_gpio_pin d)) 1) (push_bit (nat (sclk_gpio_pin d)) 1) (nat (mosi_gpio_pin d))
       levels STATE_WAIT_CE0 0 0"

text \<open>The other slave routine waits for a high chip select and reads one sample per bit. Its answer is
  written to the master's data pin.\<close>

fun spi_emulated_slave_wait_ce0 :: "nat \<Rightarrow> u32 list \<Rightarrow> u32 list option" where
  "spi_emulated_slave_wait_ce0 ce0 [] = None"
| "spi_emulated_slave_wait_ce0 ce0 (l # ls) = (if bit l ce0 then Some ls else spi_emulated_slave_wait_ce0 ce0 ls)"

definition spi_emulated_slave_xmit_bit ::
  "spi_emulated_dev \<Rightarrow> u8 \<Rightarrow> u8 \<Rightarrow> u32 list \<Rightarrow> writes \<Rightarrow> (u8 \<times> u32 list \<times> writes) option" where
  "spi_emulated_slave_xmit_bit d bit_in bit_out levels w =
     (let w' = (if miso_gpio_pin d \<noteq> -1
                then (if bit_in \<noteq> 0 then pin_on (mosi_gpio_pin d) w else pin_off (mosi_gpio_pin d) w) else w)
      in if mosi_gpio_pin d \<noteq> -1
         then (case levels of [] \<Rightarrow> None
               | l # ls \<Rightarrow> Some (if bit l (nat (mosi_gpio_pin d)) then 1 else 0, ls, w'))
         else Some (bit_out, levels, w'))"

fun slave_xmit_bits ::
  "spi_emulated_dev \<Rightarrow> u8 \<Rightarrow> nat list \<Rightarrow> u8 \<Rightarrow> u8 \<Rightarrow> u32 list \<Rightarrow> writes \<Rightarrow> (u8 \<times> u8 \<times> u32 list \<times> writes) option" where
  "slave_xmit_bits d b [] mosi_bit from_mosi levels w = Some (from_mosi, mosi_bit, levels, w)"
| "slave_xmit_bits d b (i # is) mosi_bit from_mosi levels w =
     (case spi_emulated_slave_xmit_bit d (drop_bit (7 - i) b AND 1) mosi_bit levels w of
        None \<Rightarrow> None
      | Some (mosi_bit, levels, w) \<Rightarrow> slave_xmit_bits d b is mosi_bit (push_bit 1 from_mosi OR mosi_bit) levels w)"

fun spi_emulated_slave_xmit ::
  "spi_emulated_dev \<Rightarrow> u8 list \<Rightarrow> u8 \<Rightarrow> u8 \<Rightarrow> u32 list \<Rightarrow> writes \<Rightarrow> (int \<times> u8 list \<times> u32 list \<times> writes) option" where
  "spi_emulated_slave_xmit d [] mosi_bit from_mosi levels w = Some (ERR_OK, [], levels, w)"
| "spi_emulated_slave_xmit d (b # bs) mosi_bit from_mosi levels w =
     (case spi_emulated_slave_wait_ce0 (nat (ce0_gpio_pin d)) levels of
        None \<Rightarrow> None
      | Some levels \<Rightarrow>
          (case slave_xmit_bits d b [0 ..< 8] mosi_bit from_mosi levels w of
             None \<Rightarrow> None
           | Some (from_mosi, mosi_bit, levels, w) \<Rightarrow>
               map_option (\<lambda>(st, outs, levels, w). (st, from_mosi # outs, levels, w))
                 (spi_emulated_slave_xmit d bs mosi_bit from_mosi levels w)))"

section \<open>Allocation\<close>

text \<open>The pool: the two lists of the list heap, the heads and the nodes of the four array entries by
  address, the entries, the key counter, the table of pin owners and the register writes.\<close>

record spi_pool =
  sp_lh :: list_heap
  spi_emulated_free :: ptr
  spi_emulated_active :: ptr
  spi_nodes :: "ptr list"
  spi_devs :: "ptr \<Rightarrow> spi_emulated_dev"
  init_counter :: int
  sp_gpio :: gpio_sets
  sp_writes :: writes
  spi_emulated_initialized :: bool

text \<open>\<open>SPI_EMU_GPIO_K0\<close> to \<open>SPI_EMU_GPIO_K5\<close>.\<close>

definition spie_gpio_set_key :: "nat \<Rightarrow> u8 list" where
  "spie_gpio_set_key n = [83, 80, 73, 95, 69, 77, 85, 95, 71, 80, 73, 79, 95, 75, 48 + of_nat n]"

definition spi_emulated_get_gpioset_key :: "spi_pool \<Rightarrow> u8 list option \<times> spi_pool" where
  "spi_emulated_get_gpioset_key s =
     (let n = init_counter s
      in (if 0 \<le> n \<and> n \<le> 5 then Some (spie_gpio_set_key (nat n)) else None, s\<lparr>init_counter := n + 1\<rparr>))"

definition spi_emulated_alloc :: "spi_pool \<Rightarrow> ptr \<times> spi_pool" where
  "spi_emulated_alloc s =
     (let dev = list_next_entry_or_null (spi_emulated_free s) (sp_lh s)
      in if dev \<noteq> NULL then (dev, s\<lparr>sp_lh := list_move dev (spi_emulated_active s) (sp_lh s)\<rparr>) else (dev, s))"

definition spi_emulated_release :: "ptr \<Rightarrow> spi_pool \<Rightarrow> spi_pool" where
  "spi_emulated_release dev s = s\<lparr>sp_lh := list_move dev (spi_emulated_free s) (sp_lh s)\<rparr>"

definition set_function :: "world \<Rightarrow> int \<Rightarrow> u32 \<Rightarrow> writes \<Rightarrow> writes" where
  "set_function world p func w = snd (gpio_set_function world (word_of_int p) func w)"

definition spi_gpio_set_master :: "world \<Rightarrow> int \<Rightarrow> int \<Rightarrow> int \<Rightarrow> int \<Rightarrow> int \<Rightarrow> writes \<Rightarrow> writes" where
  "spi_gpio_set_master world sclk mosi miso ce0 ce1 w =
     (let w = set_function world sclk GPIO_FUNC_OUT w;
          w = (if mosi \<noteq> -1 then set_function world mosi GPIO_FUNC_OUT w else w);
          w = (if miso \<noteq> -1 then set_function world miso GPIO_FUNC_IN w else w);
          w = (if ce0 \<noteq> -1 then pin_on ce0 (set_function world ce0 GPIO_FUNC_OUT w) else w);
          w = (if ce1 \<noteq> -1 then pin_on ce1 (set_function world ce1 GPIO_FUNC_OUT w) else w)
      in pin_off mosi (pin_off sclk w))"

definition slave_input :: "world \<Rightarrow> int \<Rightarrow> writes \<Rightarrow> writes" where
  "slave_input world p w =
     snd (gpio_set_pullupdown (word_of_int p) GPIO_PULLUPDOWN_EN_PULLDOWN (set_function world p GPIO_FUNC_IN w))"

definition spi_gpio_set_slave :: "world \<Rightarrow> int \<Rightarrow> int \<Rightarrow> int \<Rightarrow> int \<Rightarrow> int \<Rightarrow> writes \<Rightarrow> writes" where
  "spi_gpio_set_slave world sclk mosi miso ce0 ce1 w =
     (let w = slave_input world sclk w;
          w = (if mosi \<noteq> -1 then slave_input world mosi w else w);
          w = (if miso \<noteq> -1 then set_function world miso GPIO_FUNC_OUT w else w);
          w = (if ce0 \<noteq> -1 then slave_input world ce0 w else w)
      in if ce1 \<noteq> -1 then slave_input world ce1 w else w)"

text \<open>\<open>Inl\<close> is an error pointer, \<open>Inr\<close> the device. The mode is one of the two the code accepts.\<close>

definition spi_allocate_emulated ::
  "world \<Rightarrow> u8 list \<Rightarrow> int \<Rightarrow> int \<Rightarrow> int \<Rightarrow> int \<Rightarrow> int \<Rightarrow> spi_mode \<Rightarrow> spi_pool \<Rightarrow> ((int + ptr) \<times> spi_pool) kres" where
  "spi_allocate_emulated world name sclk mosi miso ce0 ce1 mode s =
     (let (dev, s) = spi_emulated_alloc s
      in if dev = NULL then Inr (Inl ERR_NO_RESOURCE, s)
         else let pins = sclk # filter (\<lambda>p. p \<noteq> -1) [mosi, miso, ce0, ce1];
                  (key, s) = spi_emulated_get_gpioset_key s
              in case key of
                   None \<Rightarrow> Inr (Inl ERR_NO_RESOURCE, spi_emulated_release dev s)
                 | Some key \<Rightarrow>
                     kbind (gpio_set_request_n_pins pins key (sp_gpio s)) (\<lambda>(handle, g).
                       let s = s\<lparr>sp_gpio := g\<rparr>
                       in if handle = GPIO_SET_INVALID_HANDLE then Inr (Inl ERR_BUSY, spi_emulated_release dev s)
                          else let w = (case mode of
                                          SPI_EMU_MODE_MASTER \<Rightarrow> spi_gpio_set_master world sclk mosi miso ce0 ce1 (sp_writes s)
                                        | SPI_EMU_MODE_SLAVE \<Rightarrow> spi_gpio_set_slave world sclk mosi miso ce0 ce1 (sp_writes s));
                                   d = \<lparr>sclk_gpio_pin = sclk, mosi_gpio_pin = mosi, miso_gpio_pin = miso,
                                        ce0_gpio_pin = ce0, ce1_gpio_pin = ce1, clk_half_period = 1,
                                        gpio_set_handle = handle, gpio_set_key = key, spi_mode = mode,
                                        spi_name = take 15 name\<rparr>
                               in Inr (Inr dev, s\<lparr>sp_writes := w, spi_devs := (spi_devs s)(dev := d)\<rparr>)))"

definition SPI_GPIO_OFF :: "world \<Rightarrow> int \<Rightarrow> writes \<Rightarrow> writes" where
  "SPI_GPIO_OFF world p w = (if p \<noteq> -1 then set_function world p GPIO_FUNC_OUT (pin_off p w) else w)"

definition spi_deallocate_emulated :: "world \<Rightarrow> ptr \<Rightarrow> spi_pool \<Rightarrow> (int \<times> spi_pool) kres" where
  "spi_deallocate_emulated world dev s =
     (let d = spi_devs s dev;
          w = SPI_GPIO_OFF world (ce1_gpio_pin d) (SPI_GPIO_OFF world (ce0_gpio_pin d)
                (SPI_GPIO_OFF world (miso_gpio_pin d) (SPI_GPIO_OFF world (mosi_gpio_pin d)
                  (SPI_GPIO_OFF world (sclk_gpio_pin d) (sp_writes s)))));
          s = s\<lparr>sp_writes := w\<rparr>
      in kbind (gpio_set_release (gpio_set_handle d) (gpio_set_key d) (sp_gpio s)) (\<lambda>(err, g).
           let s = s\<lparr>sp_gpio := g\<rparr>
           in Inr (if err \<noteq> ERR_OK then (err, s) else (ERR_OK, spi_emulated_release dev s))))"

definition zero_spi_dev :: spi_emulated_dev where
  "zero_spi_dev = \<lparr>sclk_gpio_pin = 0, mosi_gpio_pin = 0, miso_gpio_pin = 0, ce0_gpio_pin = 0, ce1_gpio_pin = 0,
     clk_half_period = 0, gpio_set_handle = 0, gpio_set_key = [], spi_mode = SPI_EMU_MODE_MASTER, spi_name = []\<rparr>"

definition spi_emulated_init :: "spi_pool \<Rightarrow> spi_pool" where
  "spi_emulated_init s =
     s\<lparr>init_counter := 0, spi_devs := (\<lambda>p. if p \<in> set (spi_nodes s) then zero_spi_dev else spi_devs s p),
       sp_lh := fold (\<lambda>n h. list_add n (spi_emulated_free s) h) (spi_nodes s) (sp_lh s),
       spi_emulated_initialized := True\<rparr>"

definition spi_emulated_set_clk :: "ptr \<Rightarrow> int \<Rightarrow> spi_pool \<Rightarrow> spi_pool" where
  "spi_emulated_set_clk dev val s =
     s\<lparr>spi_devs := (spi_devs s)(dev := (spi_devs s dev)\<lparr>clk_half_period := val\<rparr>)\<rparr>"

section \<open>What the slave sees\<close>

text \<open>The slave only looks at chip select, clock and data; \<open>view\<close> is what it sees of a sample and
  \<open>slave_view\<close> its loop over what it sees.\<close>

type_synonym view = "bool \<times> bool \<times> bool"

fun slave_view :: "view list \<Rightarrow> slave_state \<Rightarrow> u8 \<Rightarrow> nat \<Rightarrow> u8 option" where
  "slave_view [] st byte i = None"
| "slave_view ((ce0, sclk, mosi) # vs) st byte i =
     (if ce0 then (if i \<noteq> 0 then slave_view vs st 0 0 else slave_view vs st byte i)
      else (case st of
              STATE_WAIT_CE0 \<Rightarrow>
                if i = 8 then Some byte
                else slave_view vs (if \<not> sclk then STATE_EXPECT_SCLK_RIZE else STATE_EXPECT_SCLK_DROP) byte i
            | STATE_EXPECT_SCLK_RIZE \<Rightarrow>
                if sclk
                then let byte = byte OR push_bit (7 - i) (of_bool mosi)
                     in if i + 1 = 8 then Some byte else slave_view vs STATE_EXPECT_SCLK_DROP byte (i + 1)
                else if i = 8 then Some byte else slave_view vs st byte i
            | STATE_EXPECT_SCLK_DROP \<Rightarrow>
                if i = 8 then Some byte
                else slave_view vs (if \<not> sclk then STATE_EXPECT_SCLK_RIZE else st) byte i))"

definition view :: "spi_emulated_dev \<Rightarrow> u32 \<Rightarrow> view" where
  "view d l = (bit l (nat (ce0_gpio_pin d)), bit l (nat (sclk_gpio_pin d)), bit l (nat (mosi_gpio_pin d)))"

lemma and_one_shifted: "(l :: u32) AND push_bit n 1 = 0 \<longleftrightarrow> \<not> bit l n"
proof -
  have "l AND push_bit n 1 = (if bit l n then push_bit n 1 else 0)"
    by (rule bit_eqI) (auto simp: bit_simps)
  moreover have "push_bit n 1 \<noteq> (0 :: u32)" if "bit l n"
  proof -
    have "n < 32" using bit_imp_le_length [OF that] by simp
    then show ?thesis by simp
  qed
  ultimately show ?thesis by auto
qed

lemma sampled_bit: "ucast (drop_bit n (l :: u32) AND 1) = (of_bool (bit l n) :: u8)"
  by (rule bit_eqI) (auto simp: bit_simps and_one_eq even_drop_bit_iff_not_bit)

lemma slave_byte_loop_view:
  "map_option fst (slave_byte_loop (push_bit (nat (ce0_gpio_pin d)) 1) (push_bit (nat (sclk_gpio_pin d)) 1)
     (nat (mosi_gpio_pin d)) ls st byte i) = slave_view (map (view d) ls) st byte i"
proof (induction ls arbitrary: st byte i)
  case Nil
  then show ?case by simp
next
  case (Cons l ls)
  then show ?case
    by (cases st) (simp_all add: view_def slave_switch_def and_one_shifted sampled_bit Let_def del: push_bit_of_1)
qed

section \<open>What the master drives\<close>

definition bank0 :: "writes \<Rightarrow> u32" where
  "bank0 w = horner_sum of_bool 2 (map (pin_level w) [0 ..< 32])"

lemma bit_bank0: "p < 32 \<Longrightarrow> bit (bank0 w) p \<longleftrightarrow> pin_level w p"
  by (simp add: bank0_def bit_horner_sum_bit_word_iff)

text \<open>The level register after each of the writes \<open>es\<close> that follow \<open>w\<close>.\<close>

fun levels_after :: "writes \<Rightarrow> writes \<Rightarrow> u32 list" where
  "levels_after w [] = []"
| "levels_after w (e # es) = bank0 (w @ [e]) # levels_after (w @ [e]) es"

lemma levels_after_append: "levels_after w (es @ fs) = levels_after w es @ levels_after (w @ es) fs"
  by (induction w es rule: levels_after.induct) simp_all

lemma length_levels_after [simp]: "length (levels_after w es) = length es"
  by (induction w es rule: levels_after.induct) simp_all

text \<open>Each sample is seen once or more.\<close>

fun repeated :: "'a list \<Rightarrow> nat list \<Rightarrow> 'a list" where
  "repeated (x # xs) (n # ns) = replicate (Suc n) x @ repeated xs ns"
| "repeated _ _ = []"

lemma map_repeated: "map f (repeated xs ns) = repeated (map f xs) ns"
  by (induction xs ns rule: repeated.induct) simp_all

lemma repeated_append:
  "length xs = length ns \<Longrightarrow> repeated (xs @ ys) (ns @ ms) = repeated xs ns @ repeated ys ms"
  by (induction xs ns rule: list_induct2) simp_all

lemma pin_on_writes:
  assumes "p < 32" "q < 32"
  shows "\<exists>e. pin_on (int p) w = w @ [e] \<and> (pin_level (w @ [e]) q \<longleftrightarrow> (if q = p then True else pin_level w q))"
proof -
  have "pin_on (int p) w = snd (gpio_set_on (of_nat p) w)" by (simp add: pin_on_def)
  moreover obtain e where "snd (gpio_set_on (of_nat p :: u32) w) = w @ [e]"
    using valid_pin(1) [of p] assms by (auto simp: gpio_set_on_def gpio_32pin_set_checked_def logged_write_reg_def linorder_not_less [symmetric])
  ultimately show ?thesis using gpio_set_on_level(2) [of p q w] assms by auto
qed

lemma pin_off_writes:
  assumes "p < 32" "q < 32"
  shows "\<exists>e. pin_off (int p) w = w @ [e] \<and> (pin_level (w @ [e]) q \<longleftrightarrow> (if q = p then False else pin_level w q))"
proof -
  have "pin_off (int p) w = snd (gpio_set_off (of_nat p) w)" by (simp add: pin_off_def)
  moreover obtain e where "snd (gpio_set_off (of_nat p :: u32) w) = w @ [e]"
    using valid_pin(1) [of p] assms by (auto simp: gpio_set_off_def gpio_32pin_set_checked_def logged_write_reg_def linorder_not_less [symmetric])
  ultimately show ?thesis using gpio_set_off_level(2) [of p q w] assms by auto
qed

text \<open>The event of a write and the levels behind it.\<close>

lemma pin_on_event:
  assumes "p < 32"
  obtains e where "pin_on (int p) w = w @ [e]"
    "\<And>q. q < 32 \<Longrightarrow> pin_level (w @ [e]) q \<longleftrightarrow> (if q = p then True else pin_level w q)"
  using pin_on_writes [OF assms] assms by (metis same_append_eq)

lemma pin_off_event:
  assumes "p < 32"
  obtains e where "pin_off (int p) w = w @ [e]"
    "\<And>q. q < 32 \<Longrightarrow> pin_level (w @ [e]) q \<longleftrightarrow> (if q = p then False else pin_level w q)"
  using pin_off_writes [OF assms] assms by (metis same_append_eq)

text \<open>A device on three different pins of the first bank.\<close>

definition spi_wired :: "spi_emulated_dev \<Rightarrow> nat \<Rightarrow> nat \<Rightarrow> nat \<Rightarrow> bool" where
  "spi_wired d c k m \<longleftrightarrow> c < 32 \<and> k < 32 \<and> m < 32 \<and> distinct [c, k, m] \<and>
     ce0_gpio_pin d = int c \<and> sclk_gpio_pin d = int k \<and> mosi_gpio_pin d = int m"

lemma view_bank0:
  assumes "spi_wired d c k m"
  shows "view d (bank0 w) = (pin_level w c, pin_level w k, pin_level w m)"
  using assms by (simp add: spi_wired_def view_def bit_bank0)

definition bit_views :: "bool \<Rightarrow> view list" where
  "bit_views b = [(False, False, b), (False, True, b), (False, False, b)]"

lemma xmit_bit_views:
  assumes d: "spi_wired d c k m" and low: "\<not> pin_level w c" "\<not> pin_level w k"
  shows "\<exists>es co'. spi_emulated_xmit_bit world d b co w = (ERR_OK, co', w @ es) \<and>
    map (view d) (levels_after w es) = bit_views (b \<noteq> 0) \<and> \<not> pin_level (w @ es) c \<and> \<not> pin_level (w @ es) k"
proof -
  have pins: "c < 32" "k < 32" "m < 32" "c \<noteq> k" "c \<noteq> m" "k \<noteq> m" "mosi_gpio_pin d = int m" "sclk_gpio_pin d = int k"
    using d by (auto simp: spi_wired_def)
  obtain e1 where e1: "(if b \<noteq> 0 then pin_on (int m) w else pin_off (int m) w) = w @ [e1]"
    "\<And>q. q < 32 \<Longrightarrow> pin_level (w @ [e1]) q \<longleftrightarrow> (if q = m then b \<noteq> 0 else pin_level w q)"
  proof (cases "b \<noteq> 0")
    case True
    obtain e where "pin_on (int m) w = w @ [e]"
      "\<And>q. q < 32 \<Longrightarrow> pin_level (w @ [e]) q \<longleftrightarrow> (if q = m then True else pin_level w q)"
      by (rule pin_on_event [OF pins(3)]) blast
    then show ?thesis using True that [of e] by simp
  next
    case False
    obtain e where "pin_off (int m) w = w @ [e]"
      "\<And>q. q < 32 \<Longrightarrow> pin_level (w @ [e]) q \<longleftrightarrow> (if q = m then False else pin_level w q)"
      by (rule pin_off_event [OF pins(3)]) blast
    then show ?thesis using False that [of e] by simp
  qed
  let ?w1 = "w @ [e1]"
  obtain e2 where e2: "pin_on (int k) ?w1 = ?w1 @ [e2]"
    "\<And>q. q < 32 \<Longrightarrow> pin_level (?w1 @ [e2]) q \<longleftrightarrow> (if q = k then True else pin_level ?w1 q)"
    by (rule pin_on_event [OF pins(2)]) blast
  let ?w2 = "?w1 @ [e2]"
  obtain e3 where e3: "pin_off (int k) ?w2 = ?w2 @ [e3]"
    "\<And>q. q < 32 \<Longrightarrow> pin_level (?w2 @ [e3]) q \<longleftrightarrow> (if q = k then False else pin_level ?w2 q)"
    by (rule pin_off_event [OF pins(2)]) blast
  have "\<exists>co'. spi_emulated_xmit_bit world d b co w = (ERR_OK, co', w @ [e1, e2, e3])"
    using pins(7,8) e1(1) e2(1) e3(1) by (auto simp: spi_emulated_xmit_bit_def PULSE_SCLK_def Let_def split: if_splits)
  moreover have "map (view d) (levels_after w [e1, e2, e3]) = bit_views (b \<noteq> 0)"
    using pins(1-6) low e1(2) e2(2) e3(2) by (simp add: view_bank0 [OF d] bit_views_def)
  moreover have "\<not> pin_level (w @ [e1, e2, e3]) c" "\<not> pin_level (w @ [e1, e2, e3]) k"
    using pins(1-6) low e1(2) e2(2) e3(2) by simp_all
  ultimately show ?thesis by blast
qed

lemma xmit_bits_views:
  assumes d: "spi_wired d c k m" and low: "\<not> pin_level w c" "\<not> pin_level w k"
  shows "\<exists>es out' co'. xmit_bits world d b is co out w = (ERR_OK, out', co', w @ es) \<and>
    map (view d) (levels_after w es) = concat (map (\<lambda>i. bit_views (bit b (7 - i))) is) \<and>
    \<not> pin_level (w @ es) c \<and> \<not> pin_level (w @ es) k"
  using low
proof (induction "is" arbitrary: co out w)
  case Nil
  then show ?case by simp
next
  case (Cons i "is")
  have nz: "drop_bit (7 - i) b AND 1 \<noteq> 0 \<longleftrightarrow> bit b (7 - i)"
    by (simp add: bit_iff_odd_drop_bit odd_iff_mod_2_eq_one and_one_eq)
  obtain es1 co1 where one: "spi_emulated_xmit_bit world d (drop_bit (7 - i) b AND 1) co w = (ERR_OK, co1, w @ es1)"
    "map (view d) (levels_after w es1) = bit_views (bit b (7 - i))" "\<not> pin_level (w @ es1) c" "\<not> pin_level (w @ es1) k"
    using xmit_bit_views [OF d Cons.prems, of world "drop_bit (7 - i) b AND 1" co] unfolding nz by blast
  obtain es2 out' co' where rest: "xmit_bits world d b is co1 (push_bit 1 out OR co1) (w @ es1) = (ERR_OK, out', co', (w @ es1) @ es2)"
    "map (view d) (levels_after (w @ es1) es2) = concat (map (\<lambda>i. bit_views (bit b (7 - i))) is)"
    "\<not> pin_level ((w @ es1) @ es2) c" "\<not> pin_level ((w @ es1) @ es2) k"
    using Cons.IH [OF one(3,4), of co1 "push_bit 1 out OR co1"] by blast
  have "xmit_bits world d b (i # is) co out w = (ERR_OK, out', co', w @ (es1 @ es2))"
    using one(1) rest(1) by (simp add: err_defs)
  moreover have "map (view d) (levels_after w (es1 @ es2)) = concat (map (\<lambda>i. bit_views (bit b (7 - i))) (i # is))"
    using one(2) rest(2) by (simp add: levels_after_append)
  ultimately show ?case using rest(3,4) by (metis append.assoc)
qed

lemma slave_rize_low: "i \<noteq> 8 \<Longrightarrow>
  slave_view (replicate n (False, False, b) @ vs) STATE_EXPECT_SCLK_RIZE byte i = slave_view vs STATE_EXPECT_SCLK_RIZE byte i"
  by (induction n) simp_all

lemma slave_drop_high: "i \<noteq> 8 \<Longrightarrow>
  slave_view (replicate n (False, True, b) @ vs) STATE_EXPECT_SCLK_DROP byte i = slave_view vs STATE_EXPECT_SCLK_DROP byte i"
  by (induction n) simp_all

lemma slave_bit:
  assumes "i < 8"
  shows "slave_view (repeated (bit_views b @ xs) (n1 # n2 # n3 # ns) @ vs) STATE_EXPECT_SCLK_RIZE byte i =
    (if i = 7 then Some (byte OR push_bit (7 - i) (of_bool b))
     else slave_view (repeated xs ns @ vs) STATE_EXPECT_SCLK_RIZE (byte OR push_bit (7 - i) (of_bool b)) (i + 1))"
  using assms by (simp add: bit_views_def slave_rize_low slave_drop_high)

lemma slave_bits:
  assumes "i \<le> 7" "length ns = 3 * (8 - i)"
  shows "slave_view (repeated (concat (map (\<lambda>i. bit_views (bit b (7 - i))) [i ..< 8])) ns @ vs) STATE_EXPECT_SCLK_RIZE byte i =
    Some (fold (\<lambda>i a. a OR push_bit (7 - i) (of_bool (bit b (7 - i)))) [i ..< 8] byte)"
  using assms
proof (induction "7 - i" arbitrary: i ns byte)
  case 0
  then have "i = 7" by simp
  moreover obtain n1 n2 n3 where "ns = [n1, n2, n3]"
    using 0 \<open>i = 7\<close> by (auto simp: length_Suc_conv numeral_eq_Suc)
  ultimately show ?case using slave_bit [of 7 "bit b 0" "[]" n1 n2 n3 "[]" vs byte] by (simp add: upt_conv_Cons)
next
  case (Suc j)
  obtain n1 n2 n3 ns' where ns: "ns = n1 # n2 # n3 # ns'" "length ns' = 3 * (8 - Suc i)"
  proof -
    have "length ns = Suc (Suc (Suc (3 * (8 - Suc i))))" using Suc.prems Suc.hyps(2) by simp
    then show ?thesis using that by (auto simp: length_Suc_conv)
  qed
  have "[i ..< 8] = i # [Suc i ..< 8]" using Suc.hyps(2) by (simp add: upt_conv_Cons)
  moreover have "i \<noteq> 7" "i < 8" using Suc.hyps(2) by simp_all
  ultimately show ?case
    using slave_bit [of i "bit b (7 - i)" _ n1 n2 n3 ns' vs byte] Suc.hyps(1) [of "Suc i" ns'] Suc.hyps(2) ns
    by simp
qed

lemma byte_of_bits: "fold (\<lambda>i a. a OR push_bit (7 - i) (of_bool (bit b (7 - i)))) [0 ..< 8] 0 = (b :: u8)"
proof (rule bit_eqI)
  fix n assume "possible_bit TYPE(u8) n"
  then have "n < 8" by simp
  then consider "n = 0" | "n = 1" | "n = 2" | "n = 3" | "n = 4" | "n = 5" | "n = 6" | "n = 7" by linarith
  then show "bit (fold (\<lambda>i a. a OR push_bit (7 - i) (of_bool (bit b (7 - i)))) [0 ..< 8] (0 :: u8)) n = bit b n"
    by cases (simp_all add: upt_rec bit_simps)
qed

section \<open>Properties\<close>

text \<open>C15 (roundtrip). The emulated slave receives what the emulated master sends: whatever byte the
  master transmits, a slave on the same three pins that samples the levels often enough to see the level
  after each write at least once, any number of times each, returns that byte. This holds for any
  behaviour of the other pins.\<close>

theorem spi_master_slave_roundtrip:
  assumes "spi_wired d c k m" "\<not> pin_level w k" "spi_emulated_xmit_byte world d b co w = (err, out, w @ es)"
    "length ns = length es"
  shows "err = ERR_OK \<and>
    (\<exists>rest. spi_emulated_slave_xmit_byte d (repeated (levels_after w es) ns @ later) = Some (b, rest))"
proof -
  have pins: "c < 32" "c \<noteq> k" "c \<noteq> m" "ce0_gpio_pin d = int c" "k < 32" using assms(1) by (auto simp: spi_wired_def)
  obtain e0 where e0: "pin_off (int c) w = w @ [e0]"
    "\<And>q. q < 32 \<Longrightarrow> pin_level (w @ [e0]) q \<longleftrightarrow> (if q = c then False else pin_level w q)"
    by (rule pin_off_event [OF pins(1)]) blast
  have low: "\<not> pin_level (w @ [e0]) c" "\<not> pin_level (w @ [e0]) k" using e0(2) pins assms(2) by simp_all
  obtain es1 out' co' where bits: "xmit_bits world d b [0 ..< 8] co 0 (w @ [e0]) = (ERR_OK, out', co', (w @ [e0]) @ es1)"
    "map (view d) (levels_after (w @ [e0]) es1) = concat (map (\<lambda>i. bit_views (bit b (7 - i))) [0 ..< 8])"
    using xmit_bits_views [OF assms(1) low, of world b "[0 ..< 8]" co 0] by blast
  obtain e2 where e2: "pin_on (int c) ((w @ [e0]) @ es1) = ((w @ [e0]) @ es1) @ [e2]"
    by (rule pin_on_event [OF pins(1)]) blast
  have "spi_emulated_xmit_byte world d b co w = (ERR_OK, out', w @ (e0 # es1 @ [e2]))"
    using e0(1) bits(1) e2 pins(4)
    by (simp add: spi_emulated_xmit_byte_def spi_emulated_ce0_clear_def spi_emulated_ce0_set_def Let_def err_defs)
  then have es: "es = e0 # es1 @ [e2]" "err = ERR_OK" using assms(3) by simp_all
  have len1: "length es1 = 24"
  proof -
    have "length es1 = length (map (view d) (levels_after (w @ [e0]) es1))"
      by (simp add: length_levels_after)
    then show ?thesis unfolding bits(2) by (simp add: bit_views_def length_concat sum_list_triv comp_def)
  qed
  obtain n0 ns1 ns2 where ns: "ns = n0 # ns1 @ ns2" "length ns1 = 24"
  proof -
    obtain n0 t where "ns = n0 # t" "length t = 25" using assms(4) es len1 by (cases ns) auto
    then show ?thesis using that [of n0 "take 24 t" "drop 24 t"] by simp
  qed
  have v0: "view d (bank0 (w @ [e0])) = (False, False, pin_level (w @ [e0]) m)"
    using view_bank0 [OF assms(1)] low by simp
  obtain tail where views: "map (view d) (repeated (levels_after w es) ns @ later) =
      replicate (Suc n0) (False, False, pin_level (w @ [e0]) m) @
      repeated (concat (map (\<lambda>i. bit_views (bit b (7 - i))) [0 ..< 8])) ns1 @ tail"
  proof -
    have "length (levels_after (w @ [e0]) es1) = length ns1" using len1 ns(2) by (simp add: length_levels_after)
    then have "repeated (levels_after w es) ns = replicate (Suc n0) (bank0 (w @ [e0])) @
        repeated (levels_after (w @ [e0]) es1) ns1 @ repeated (levels_after (w @ e0 # es1) [e2]) ns2"
      unfolding es(1) ns(1) by (simp add: levels_after_append repeated_append len1 ns(2))
    then show ?thesis using that by (simp add: map_repeated bits(2) v0 map_replicate)
  qed
  have "slave_view (map (view d) (repeated (levels_after w es) ns @ later)) STATE_WAIT_CE0 0 0 = Some b"
    unfolding views using slave_bits [of 0 ns1 b tail 0] ns(2) byte_of_bits [of b]
    by (simp add: slave_rize_low)
  then show ?thesis
    unfolding slave_byte_loop_view [symmetric] spi_emulated_slave_xmit_byte_def using es(2) by auto
qed

definition sample_spi_dev :: spi_emulated_dev where
  "sample_spi_dev = zero_spi_dev\<lparr>sclk_gpio_pin := 21, mosi_gpio_pin := 20, miso_gpio_pin := 19, ce0_gpio_pin := 18\<rparr>"

theorem spi_master_slave_roundtrip_witness:
  "\<exists>out es rest. spi_emulated_xmit_byte (\<lambda>_ _. 0) sample_spi_dev 0x5a 0 [] = (ERR_OK, out, es) \<and>
     spi_emulated_slave_xmit_byte sample_spi_dev (repeated (levels_after [] es) (replicate (length es) 2)) = Some (0x5a, rest)"
proof -
  have wired: "spi_wired sample_spi_dev 18 21 20"
    by (simp add: spi_wired_def sample_spi_dev_def)
  obtain err out es where run: "spi_emulated_xmit_byte (\<lambda>_ _. 0) sample_spi_dev 0x5a 0 [] = (err, out, [] @ es)"
    by (metis append_Nil prod_cases3)
  have "\<not> pin_level [] 21" by (simp add: pin_level_def)
  from spi_master_slave_roundtrip [OF wired this run, of "replicate (length es) 2" "[]"] run
  show ?thesis by auto
qed

text \<open>The other slave routine answers on the wrong pin: it drives the master's data line, which
  is its input, with the bits it is to send, and never writes to its own output line.\<close>

theorem spi_slave_answers_on_mosi:
  assumes "spi_wired d c k m" "miso_gpio_pin d = int q" "q < 32" "q \<noteq> m"
    "spi_emulated_slave_xmit_bit d bit_in bit_out levels w = Some (b, ls, w')"
  shows "(pin_level w' m \<longleftrightarrow> bit_in \<noteq> 0) \<and> (pin_level w' q \<longleftrightarrow> pin_level w q)"
proof -
  have m: "m < 32" "mosi_gpio_pin d = int m" using assms(1) by (simp_all add: spi_wired_def)
  have w': "w' = (if bit_in \<noteq> 0 then pin_on (int m) w else pin_off (int m) w)"
    using assms(2,5) m(2) by (auto simp: spi_emulated_slave_xmit_bit_def Let_def split: list.splits)
  obtain e where "pin_on (int m) w = w @ [e]"
    "\<And>q. q < 32 \<Longrightarrow> pin_level (w @ [e]) q \<longleftrightarrow> (if q = m then True else pin_level w q)"
    by (rule pin_on_event [OF m(1)]) blast
  moreover obtain e' where "pin_off (int m) w = w @ [e']"
    "\<And>q. q < 32 \<Longrightarrow> pin_level (w @ [e']) q \<longleftrightarrow> (if q = m then False else pin_level w q)"
    by (rule pin_off_event [OF m(1)]) blast
  ultimately show ?thesis using m(1) assms(3,4) by (simp add: w')
qed

theorem spi_slave_answers_on_mosi_witness:
  "\<exists>b ls w'. spi_emulated_slave_xmit_bit sample_spi_dev 1 0 [0] [] = Some (b, ls, w') \<and>
     pin_level w' 20 \<and> \<not> pin_level w' 19"
proof -
  have wired: "spi_wired sample_spi_dev 18 21 20"
    by (simp add: spi_wired_def sample_spi_dev_def)
  obtain b ls w' where run: "spi_emulated_slave_xmit_bit sample_spi_dev 1 0 [0] [] = Some (b, ls, w')"
    by (simp add: spi_emulated_slave_xmit_bit_def sample_spi_dev_def)
  have "(pin_level w' 20 \<longleftrightarrow> (1 :: u8) \<noteq> 0) \<and> (pin_level w' 19 \<longleftrightarrow> pin_level [] 19)"
    by (rule spi_slave_answers_on_mosi [OF wired _ _ _ run]) (simp_all add: sample_spi_dev_def)
  then show ?thesis using run by (simp add: pin_level_def)
qed

end
