(* ===== verification/Shiftreg.thy ===== *)
theory Shiftreg
  imports Spi_Emulated
begin

text \<open>
  The shift register driver of \<^verbatim>\<open>src/shiftreg.c\<close> over the pin driver. Delays change nothing.
\<close>

section \<open>Operations\<close>

record shiftreg =
  sr_ser :: int
  sr_srclk :: int
  sr_rclk :: int
  sr_srclr :: int
  sr_ce :: int
  sr_delay_ms :: int

definition SHIFTREG_INIT_PIN_DISABLED :: int where "SHIFTREG_INIT_PIN_DISABLED = -1"

definition SRCLK_PULSE :: "shiftreg \<Rightarrow> writes \<Rightarrow> writes" where
  "SRCLK_PULSE sr w = pin_off (sr_srclk sr) (pin_on (sr_srclk sr) w)"

definition RCLK_PULSE :: "shiftreg \<Rightarrow> writes \<Rightarrow> writes" where
  "RCLK_PULSE sr w = pin_on (sr_rclk sr) (pin_off (sr_rclk sr) w)"

definition PUSH_BIT :: "shiftreg \<Rightarrow> u8 \<Rightarrow> writes \<Rightarrow> writes" where
  "PUSH_BIT sr b w = SRCLK_PULSE sr (if b \<noteq> 0 then pin_on (sr_ser sr) w else pin_off (sr_ser sr) w)"

text \<open>The state is the static register, \<open>None\<close> before its initialisation, and the register writes; the
  result says whether a register is returned.\<close>

definition shiftreg_init ::
  "world \<Rightarrow> int \<Rightarrow> int \<Rightarrow> int \<Rightarrow> int \<Rightarrow> int \<Rightarrow> int \<Rightarrow> shiftreg option \<times> writes \<Rightarrow> bool \<times> shiftreg option \<times> writes" where
  "shiftreg_init world clk_wait ser srclk rclk srclr ce s =
     (if ser = SHIFTREG_INIT_PIN_DISABLED \<or> srclk = SHIFTREG_INIT_PIN_DISABLED \<or> rclk = SHIFTREG_INIT_PIN_DISABLED
      then (False, s)
      else let w = set_function world ser GPIO_FUNC_OUT (snd s);
               w = set_function world rclk GPIO_FUNC_OUT w;
               w = set_function world srclk GPIO_FUNC_OUT w;
               w = pin_off rclk (pin_off rclk (pin_off ser w))
           in (True, Some \<lparr>sr_ser = ser, sr_srclk = srclk, sr_rclk = rclk, sr_srclr = srclr, sr_ce = ce,
                           sr_delay_ms = clk_wait\<rparr>, w))"

text \<open>\<^verbatim>\<open>CHECK_INITIALIZED\<close>: \<open>sr\<close> is the argument, a null pointer for \<open>None\<close>.\<close>

definition checked :: "bool \<Rightarrow> shiftreg option \<Rightarrow> (shiftreg \<Rightarrow> writes \<Rightarrow> writes) \<Rightarrow> writes \<Rightarrow> int \<times> writes" where
  "checked initialized sr f w = (case sr of Some sr \<Rightarrow> if initialized then (0, f sr w) else (-1, w) | None \<Rightarrow> (-1, w))"

definition shiftreg_push_bit :: "bool \<Rightarrow> shiftreg option \<Rightarrow> u8 \<Rightarrow> writes \<Rightarrow> int \<times> writes" where
  "shiftreg_push_bit initialized sr b = checked initialized sr (\<lambda>sr. PUSH_BIT sr b)"

fun push_bits :: "shiftreg \<Rightarrow> u8 \<Rightarrow> nat list \<Rightarrow> writes \<Rightarrow> writes" where
  "push_bits sr byte [] w = w"
| "push_bits sr byte (i # is) w = push_bits sr byte is (PUSH_BIT sr (drop_bit (7 - i) byte AND 1) w)"

definition shiftreg_push_byte :: "bool \<Rightarrow> shiftreg option \<Rightarrow> u8 \<Rightarrow> writes \<Rightarrow> int \<times> writes" where
  "shiftreg_push_byte initialized sr byte = checked initialized sr (\<lambda>sr. push_bits sr byte [0 ..< 8])"

definition shiftreg_pulse_rclk :: "bool \<Rightarrow> shiftreg option \<Rightarrow> writes \<Rightarrow> int \<times> writes" where
  "shiftreg_pulse_rclk initialized sr = checked initialized sr RCLK_PULSE"

section \<open>The chip\<close>

text \<open>A shift register of eight stages takes in the serial input at every rising edge of its clock.\<close>

fun shift_stages :: "nat \<Rightarrow> nat \<Rightarrow> u8 \<Rightarrow> writes \<Rightarrow> writes \<Rightarrow> u8" where
  "shift_stages ser clk reg w [] = reg"
| "shift_stages ser clk reg w (e # es) =
     shift_stages ser clk
       (if \<not> pin_level w clk \<and> pin_level (w @ [e]) clk then push_bit 1 reg OR of_bool (pin_level (w @ [e]) ser) else reg)
       (w @ [e]) es"

lemma shift_stages_append:
  "shift_stages ser clk reg w (es @ fs) = shift_stages ser clk (shift_stages ser clk reg w es) (w @ es) fs"
  by (induction ser clk reg w es rule: shift_stages.induct) simp_all

lemma push_bit_shifts:
  assumes "k < 32" "s < 32" "k \<noteq> s" "sr_ser sr = int s" "sr_srclk sr = int k" "\<not> pin_level w k"
  shows "\<exists>es. PUSH_BIT sr b w = w @ es \<and> \<not> pin_level (w @ es) k \<and>
    shift_stages s k reg w es = push_bit 1 reg OR of_bool (b \<noteq> 0)"
proof -
  obtain e1 where e1: "(if b \<noteq> 0 then pin_on (int s) w else pin_off (int s) w) = w @ [e1]"
    "\<And>q. q < 32 \<Longrightarrow> pin_level (w @ [e1]) q \<longleftrightarrow> (if q = s then b \<noteq> 0 else pin_level w q)"
  proof (cases "b \<noteq> 0")
    case True
    obtain e where "pin_on (int s) w = w @ [e]"
      "\<And>q. q < 32 \<Longrightarrow> pin_level (w @ [e]) q \<longleftrightarrow> (if q = s then True else pin_level w q)"
      by (rule pin_on_event [OF assms(2)]) blast
    then show ?thesis using True that [of e] by simp
  next
    case False
    obtain e where "pin_off (int s) w = w @ [e]"
      "\<And>q. q < 32 \<Longrightarrow> pin_level (w @ [e]) q \<longleftrightarrow> (if q = s then False else pin_level w q)"
      by (rule pin_off_event [OF assms(2)]) blast
    then show ?thesis using False that [of e] by simp
  qed
  obtain e2 where e2: "pin_on (int k) (w @ [e1]) = (w @ [e1]) @ [e2]"
    "\<And>q. q < 32 \<Longrightarrow> pin_level ((w @ [e1]) @ [e2]) q \<longleftrightarrow> (if q = k then True else pin_level (w @ [e1]) q)"
    by (rule pin_on_event [OF assms(1)]) blast
  obtain e3 where e3: "pin_off (int k) ((w @ [e1]) @ [e2]) = ((w @ [e1]) @ [e2]) @ [e3]"
    "\<And>q. q < 32 \<Longrightarrow> pin_level (((w @ [e1]) @ [e2]) @ [e3]) q \<longleftrightarrow> (if q = k then False else pin_level ((w @ [e1]) @ [e2]) q)"
    by (rule pin_off_event [OF assms(1)]) blast
  have "PUSH_BIT sr b w = w @ [e1, e2, e3]"
    using e2(1) e3(1) unfolding PUSH_BIT_def SRCLK_PULSE_def assms(4,5) e1(1) by simp
  then show ?thesis using assms e1(2) e2(2) e3(2) by (intro exI [of _ "[e1, e2, e3]"]) simp
qed

lemma push_bits_shifts:
  assumes "k < 32" "s < 32" "k \<noteq> s" "sr_ser sr = int s" "sr_srclk sr = int k"
  shows "\<not> pin_level w k \<Longrightarrow> \<exists>es. push_bits sr byte is w = w @ es \<and>
    shift_stages s k reg w es = fold (\<lambda>i r. push_bit 1 r OR of_bool (bit byte (7 - i))) is reg"
proof (induction "is" arbitrary: w reg)
  case Nil
  then show ?case by simp
next
  case (Cons i "is")
  have nz: "drop_bit (7 - i) byte AND 1 \<noteq> 0 \<longleftrightarrow> bit byte (7 - i)"
    by (simp add: bit_iff_odd_drop_bit odd_iff_mod_2_eq_one and_one_eq)
  obtain es where es: "PUSH_BIT sr (drop_bit (7 - i) byte AND 1) w = w @ es" "\<not> pin_level (w @ es) k"
    "shift_stages s k reg w es = push_bit 1 reg OR of_bool (bit byte (7 - i))"
    using push_bit_shifts [OF assms Cons.prems, of "drop_bit (7 - i) byte AND 1" reg] unfolding nz by blast
  obtain fs where "push_bits sr byte is (w @ es) = (w @ es) @ fs"
    "shift_stages s k (shift_stages s k reg w es) (w @ es) fs =
      fold (\<lambda>i r. push_bit 1 r OR of_bool (bit byte (7 - i))) is (shift_stages s k reg w es)"
    using Cons.IH [OF es(2)] by blast
  then show ?case using es(1,3) by (intro exI [of _ "es @ fs"]) (simp add: shift_stages_append)
qed

lemma byte_shifted_in:
  "fold (\<lambda>i r. push_bit 1 r OR of_bool (bit b (7 - i))) [0 ..< 8] (r :: u8) = b"
proof -
  define st :: "u8 \<Rightarrow> bool \<Rightarrow> u8" where "st = (\<lambda>r c. push_bit 1 r OR of_bool c)"
  have st: "bit (st r c) n = (if n = 0 then c else bit r (n - 1))" if "n < 8" for r c n
    using that unfolding st_def by (simp add: bit_or_iff bit_push_bit_iff bit_of_bool_iff del: One_nat_def)
  have "fold (\<lambda>i r. st r (bit b (7 - i))) [0 ..< 8] r = b"
  proof (rule bit_eqI)
    fix n assume "possible_bit TYPE(8 word) n"
    then have "n < 8" by simp
    then consider "n = 0" | "n = 1" | "n = 2" | "n = 3" | "n = 4" | "n = 5" | "n = 6" | "n = 7" by linarith
    then show "bit (fold (\<lambda>i r. st r (bit b (7 - i))) [0 ..< 8] r) n = bit b n"
      by cases (simp_all add: upt_rec st)
  qed
  then show ?thesis unfolding st_def .
qed

section \<open>Properties\<close>



end
