(* ===== verification/Rectangle.thy ===== *)
theory Rectangle
  imports Prelude
begin

text \<open>
  Segments and rectangles on the screen (\<^verbatim>\<open>src/rectangle.c\<close>, \<^verbatim>\<open>src/include/rectangle.h\<close>). A C
  \<^verbatim>\<open>int\<close> is a 32-bit word that is compared by its signed value; the sum of an \<^verbatim>\<open>int\<close> and an
  \<^verbatim>\<open>unsigned\<close> is compared by its unsigned one. The nine regions are a function of their index.
\<close>

section \<open>Operations\<close>

record segment =
  seg_offset :: u32
  seg_size :: u32

record rect =
  rect_x :: segment
  rect_y :: segment

record region =
  rg_r :: rect
  rg_exists :: bool

type_synonym regions = "nat \<Rightarrow> region"

definition clip_segment :: "segment \<Rightarrow> segment \<Rightarrow> int \<times> segment" where
  "clip_segment s0 s1 =
     (if seg_offset s0 + seg_size s0 > seg_offset s1 \<or> seg_offset s1 + seg_size s1 < seg_offset s0 then (-1, s0)
      else if seg_offset s1 <s seg_offset s0
      then (1, if seg_offset s0 + seg_size s0 > seg_offset s1 + seg_size s1
               then s0\<lparr>seg_size := seg_offset s1 + seg_size s1 - seg_offset s0\<rparr> else s0)
      else if seg_offset s0 <s seg_offset s1
      then (1, s0\<lparr>seg_size := seg_size s0 - (seg_offset s1 - seg_offset s0), seg_offset := seg_offset s1\<rparr>)
      else (0, s0))"

definition RGN :: "nat \<Rightarrow> nat \<Rightarrow> nat" where "RGN x y = y * 3 + x"

definition upd_rgn :: "nat \<Rightarrow> nat \<Rightarrow> (region \<Rightarrow> region) \<Rightarrow> regions \<Rightarrow> regions" where
  "upd_rgn x y f rs = rs(RGN x y := f (rs (RGN x y)))"

definition set_exists :: "nat \<Rightarrow> nat \<Rightarrow> bool \<Rightarrow> regions \<Rightarrow> regions" where
  "set_exists x y b = upd_rgn x y (rg_exists_update (\<lambda>_. b))"

definition set_rx :: "nat \<Rightarrow> nat \<Rightarrow> segment \<Rightarrow> regions \<Rightarrow> regions" where
  "set_rx x y s = upd_rgn x y (rg_r_update (rect_x_update (\<lambda>_. s)))"

definition set_ry :: "nat \<Rightarrow> nat \<Rightarrow> segment \<Rightarrow> regions \<Rightarrow> regions" where
  "set_ry x y s = upd_rgn x y (rg_r_update (rect_y_update (\<lambda>_. s)))"

definition mod_rx :: "nat \<Rightarrow> nat \<Rightarrow> (segment \<Rightarrow> segment) \<Rightarrow> regions \<Rightarrow> regions" where
  "mod_rx x y f = upd_rgn x y (rg_r_update (rect_x_update f))"

definition mod_ry :: "nat \<Rightarrow> nat \<Rightarrow> (segment \<Rightarrow> segment) \<Rightarrow> regions \<Rightarrow> regions" where
  "mod_ry x y f = upd_rgn x y (rg_r_update (rect_y_update f))"

definition zero_regions :: regions where
  "zero_regions = (\<lambda>_. \<lparr>rg_r = \<lparr>rect_x = \<lparr>seg_offset = 0, seg_size = 0\<rparr>, rect_y = \<lparr>seg_offset = 0, seg_size = 0\<rparr>\<rparr>,
     rg_exists = False\<rparr>)"

definition init_regions :: "rect \<Rightarrow> regions" where
  "init_regions r0 =
     (set_ry 2 1 (rect_y r0) \<circ> set_ry 0 1 (rect_y r0) \<circ> set_rx 1 2 (rect_x r0) \<circ> set_rx 1 0 (rect_x r0)
      \<circ> set_ry 1 1 (rect_y r0) \<circ> set_rx 1 1 (rect_x r0) \<circ> set_exists 1 1 True) zero_regions"

definition left_regions :: "u32 \<Rightarrow> u32 \<Rightarrow> regions \<Rightarrow> regions" where
  "left_regions r0x0 r1x0 rs =
     (let s = \<lparr>seg_offset = r0x0, seg_size = r1x0 - r0x0\<rparr>
      in (mod_rx 1 1 (\<lambda>m. \<lparr>seg_offset = seg_offset m + seg_size s, seg_size = seg_size m - seg_size s\<rparr>)
          \<circ> set_exists 0 2 True \<circ> set_exists 0 1 True \<circ> set_exists 0 0 True
          \<circ> set_rx 0 2 s \<circ> set_rx 0 1 s \<circ> set_rx 0 0 s) rs)"

definition right_regions :: "u32 \<Rightarrow> u32 \<Rightarrow> regions \<Rightarrow> regions" where
  "right_regions r0x1 r1x1 rs =
     (let s = \<lparr>seg_offset = r1x1, seg_size = r0x1 - r1x1\<rparr>
      in (mod_rx 1 1 (\<lambda>m. m\<lparr>seg_size := seg_size m - seg_size s\<rparr>)
          \<circ> set_exists 2 2 True \<circ> set_exists 2 1 True \<circ> set_exists 2 0 True
          \<circ> set_rx 2 2 s \<circ> set_rx 2 1 s \<circ> set_rx 2 0 s) rs)"

definition top_regions :: "u32 \<Rightarrow> u32 \<Rightarrow> regions \<Rightarrow> regions" where
  "top_regions r0y0 r1y0 rs =
     (let s = \<lparr>seg_offset = r0y0, seg_size = r1y0 - r0y0\<rparr>
      in (mod_ry 1 1 (\<lambda>m. \<lparr>seg_offset = seg_offset m + seg_size s, seg_size = seg_size m - seg_size s\<rparr>)
          \<circ> set_exists 1 0 True \<circ> set_ry 2 0 s \<circ> set_ry 1 0 s \<circ> set_ry 0 0 s) rs)"

definition bottom_regions :: "u32 \<Rightarrow> u32 \<Rightarrow> regions \<Rightarrow> regions" where
  "bottom_regions r0y1 r1y1 rs =
     (let s = \<lparr>seg_offset = r1y1, seg_size = r0y1 - r1y1\<rparr>
      in (set_exists 1 2 True \<circ> mod_ry 1 1 (\<lambda>m. m\<lparr>seg_size := seg_size m - seg_size s\<rparr>)
          \<circ> set_ry 2 2 s \<circ> set_ry 1 2 s \<circ> set_ry 0 2 s) rs)"

definition no_row :: "nat \<Rightarrow> regions \<Rightarrow> regions" where
  "no_row y = set_exists 0 y False \<circ> set_exists 1 y False \<circ> set_exists 2 y False"

text \<open>\<open>None\<close> is the result 0, which leaves the regions as they were.\<close>

definition get_intersection_regions :: "rect \<Rightarrow> rect \<Rightarrow> regions option" where
  "get_intersection_regions r0 r1 =
     (let r0x0 = seg_offset (rect_x r0); r0y0 = seg_offset (rect_y r0);
          r1x0 = seg_offset (rect_x r1); r1y0 = seg_offset (rect_y r1);
          r0x1 = r0x0 + seg_size (rect_x r0); r0y1 = r0y0 + seg_size (rect_y r0);
          r1x1 = r1x0 + seg_size (rect_x r1); r1y1 = r1y0 + seg_size (rect_y r1)
      in if r0x1 \<le>s r1x0 \<or> r1x1 \<le>s r0x0 \<or> r0y1 \<le>s r1y0 \<or> r1y1 \<le>s r0y0 then None
         else let rs = init_regions r0;
                  rs = (if r0x0 <s r1x0 then left_regions r0x0 r1x0 rs else rs);
                  rs = (if r1x1 <s r0x1 then right_regions r0x1 r1x1 rs else rs);
                  rs = (if r0y0 <s r1y0 then top_regions r0y0 r1y0 rs else no_row 0 rs);
                  rs = (if r1y1 <s r0y1 then bottom_regions r0y1 r1y1 rs else no_row 2 rs)
              in Some rs)"

section \<open>Points\<close>

definition extent :: "segment \<Rightarrow> int set" where
  "extent s = {sint (seg_offset s) ..< sint (seg_offset s) + uint (seg_size s)}"

definition points :: "rect \<Rightarrow> (int \<times> int) set" where
  "points r = extent (rect_x r) \<times> extent (rect_y r)"

text \<open>A segment whose end is representable.\<close>

definition seg_ok :: "segment \<Rightarrow> bool" where
  "seg_ok s \<longleftrightarrow> - (2 ^ 30) \<le> sint (seg_offset s) \<and> sint (seg_offset s) + uint (seg_size s) \<le> 2 ^ 30"

definition rect_ok :: "rect \<Rightarrow> bool" where
  "rect_ok r \<longleftrightarrow> seg_ok (rect_x r) \<and> seg_ok (rect_y r)"

lemma sint_of_int_small: "- (2 ^ 31) \<le> k \<Longrightarrow> k < 2 ^ 31 \<Longrightarrow> sint (word_of_int k :: u32) = k"
  by (simp add: sint_sbintrunc' signed_take_bit_int_eq_self)

lemma uint_of_int_small: "0 \<le> k \<Longrightarrow> k < 2 ^ 32 \<Longrightarrow> uint (word_of_int k :: u32) = k"
  by (simp add: uint_word_of_int)

lemma sint_add_size:
  assumes "- (2 ^ 30) \<le> sint (a :: u32)" "sint a + uint (n :: u32) \<le> 2 ^ 30"
  shows "sint (a + n) = sint a + uint n"
proof -
  have "- (2 ^ 31) \<le> sint a + uint n" "sint a + uint n < 2 ^ 31" using assms add_mono [OF assms(1) uint_ge_0 [of n]] by simp_all
  then show ?thesis using sint_of_int_small [of "sint a + uint n"] by simp
qed

lemma uint_diff_signed:
  assumes "sint (b :: u32) \<le> sint a"
  shows "uint (a - b) = sint a - sint b"
  using uint_of_int_small [of "sint a - sint b"] assms sint_range_size [of a] sint_range_size [of b]
  by (simp add: word_size)

lemma uint_sub_le: "uint (b :: u32) \<le> uint a \<Longrightarrow> uint (a - b) = uint a - uint b"
  by (simp add: uint_sub_if')

text \<open>One axis: the middle segment is what the two segments have in common, and the two outer segments,
  where they exist, are the rest.\<close>

definition mid_segment :: "segment \<Rightarrow> segment \<Rightarrow> segment" where
  "mid_segment s0 s1 =
     (let e0 = seg_offset s0 + seg_size s0; e1 = seg_offset s1 + seg_size s1;
          s = (if seg_offset s0 <s seg_offset s1
               then \<lparr>seg_offset = seg_offset s0 + (seg_offset s1 - seg_offset s0),
                     seg_size = seg_size s0 - (seg_offset s1 - seg_offset s0)\<rparr> else s0)
      in if e1 <s e0 then s\<lparr>seg_size := seg_size s - (e0 - e1)\<rparr> else s)"

definition low_segment :: "segment \<Rightarrow> segment \<Rightarrow> segment" where
  "low_segment s0 s1 = \<lparr>seg_offset = seg_offset s0, seg_size = seg_offset s1 - seg_offset s0\<rparr>"

definition high_segment :: "segment \<Rightarrow> segment \<Rightarrow> segment" where
  "high_segment s0 s1 =
     \<lparr>seg_offset = seg_offset s1 + seg_size s1,
      seg_size = (seg_offset s0 + seg_size s0) - (seg_offset s1 + seg_size s1)\<rparr>"

definition has_low :: "segment \<Rightarrow> segment \<Rightarrow> bool" where
  "has_low s0 s1 \<longleftrightarrow> seg_offset s0 <s seg_offset s1"

definition has_high :: "segment \<Rightarrow> segment \<Rightarrow> bool" where
  "has_high s0 s1 \<longleftrightarrow> seg_offset s1 + seg_size s1 <s seg_offset s0 + seg_size s0"

definition apart :: "segment \<Rightarrow> segment \<Rightarrow> bool" where
  "apart s0 s1 \<longleftrightarrow> seg_offset s0 + seg_size s0 \<le>s seg_offset s1 \<or> seg_offset s1 + seg_size s1 \<le>s seg_offset s0"

lemma axis:
  assumes "seg_ok s0" "seg_ok s1"
  shows "apart s0 s1 \<Longrightarrow> extent s0 \<inter> extent s1 = {}"
    and "\<not> apart s0 s1 \<Longrightarrow> extent (mid_segment s0 s1) = extent s0 \<inter> extent s1"
    and "\<not> apart s0 s1 \<Longrightarrow> (if has_low s0 s1 then extent (low_segment s0 s1) else {}) \<union>
      (if has_high s0 s1 then extent (high_segment s0 s1) else {}) = extent s0 - extent s1"
proof -
  define a where "a = sint (seg_offset s0)"
  define n where "n = uint (seg_size s0)"
  define b where "b = sint (seg_offset s1)"
  define k where "k = uint (seg_size s1)"
  note defs = a_def [symmetric] b_def [symmetric] n_def [symmetric] k_def [symmetric]
  have "- (2 ^ 30) \<le> a" "a + n \<le> 2 ^ 30" "- (2 ^ 30) \<le> b" "b + k \<le> 2 ^ 30"
    using assms by (simp_all add: seg_ok_def defs)
  moreover have "0 \<le> n" "0 \<le> k" by (simp_all add: n_def k_def)
  ultimately have bounds: "- (2 ^ 30) \<le> a" "a + n \<le> 2 ^ 30" "- (2 ^ 30) \<le> b" "b + k \<le> 2 ^ 30" "0 \<le> n" "0 \<le> k"
    by simp_all
  have ends: "sint (seg_offset s0 + seg_size s0) = a + n" "sint (seg_offset s1 + seg_size s1) = b + k"
    using sint_add_size bounds by (simp_all add: a_def n_def b_def k_def)
  have flags: "has_low s0 s1 \<longleftrightarrow> a < b" "has_high s0 s1 \<longleftrightarrow> b + k < a + n" "apart s0 s1 \<longleftrightarrow> a + n \<le> b \<or> b + k \<le> a"
    by (simp_all add: has_low_def has_high_def apart_def word_sless_alt word_sle_eq ends defs)
  have ext: "extent s0 = {a ..< a + n}" "extent s1 = {b ..< b + k}" by (simp_all add: extent_def defs)
  show "apart s0 s1 \<Longrightarrow> extent s0 \<inter> extent s1 = {}" unfolding flags ext by auto
  have low: "a < b \<Longrightarrow> extent (low_segment s0 s1) = {a ..< b}"
    using uint_diff_signed [of "seg_offset s0" "seg_offset s1"] by (simp add: extent_def low_segment_def defs)
  have high: "b + k < a + n \<Longrightarrow> extent (high_segment s0 s1) = {b + k ..< a + n}"
    using uint_diff_signed [of "seg_offset s1 + seg_size s1" "seg_offset s0 + seg_size s0"]
    by (simp add: extent_def high_segment_def ends)
  show "(if has_low s0 s1 then extent (low_segment s0 s1) else {}) \<union>
      (if has_high s0 s1 then extent (high_segment s0 s1) else {}) = extent s0 - extent s1" if "\<not> apart s0 s1"
  proof -
    have na: "b < a + n" "a < b + k" using that unfolding flags by auto
    show ?thesis unfolding flags ext
      by (cases "a < b"; cases "b + k < a + n") (use na in \<open>auto simp: low high\<close>)
  qed
  show "extent (mid_segment s0 s1) = extent s0 \<inter> extent s1" if "\<not> apart s0 s1"
  proof -
    have na: "b < a + n" "a < b + k" using that unfolding flags by auto
    define m where "m = (if a < b then \<lparr>seg_offset = seg_offset s0 + (seg_offset s1 - seg_offset s0),
      seg_size = seg_size s0 - (seg_offset s1 - seg_offset s0)\<rparr> else s0)"
    have m: "sint (seg_offset m) = max a b" "uint (seg_size m) = a + n - max a b"
    proof -
      have d: "uint (seg_offset s1 - seg_offset s0) = b - a" if "a < b"
        using uint_diff_signed [of "seg_offset s0" "seg_offset s1"] that by (simp add: defs)
      show "sint (seg_offset m) = max a b" by (simp add: m_def defs)
      show "uint (seg_size m) = a + n - max a b"
        using uint_sub_le [of "seg_offset s1 - seg_offset s0" "seg_size s0"] d na(1) by (simp add: m_def defs)
    qed
    have "mid_segment s0 s1 = (if b + k < a + n
        then m\<lparr>seg_size := seg_size m - ((seg_offset s0 + seg_size s0) - (seg_offset s1 + seg_size s1))\<rparr> else m)"
      by (simp add: mid_segment_def Let_def m_def word_sless_alt ends defs)
    moreover have "uint (seg_size m - ((seg_offset s0 + seg_size s0) - (seg_offset s1 + seg_size s1))) = b + k - max a b"
      if "b + k < a + n"
      using uint_diff_signed [of "seg_offset s1 + seg_size s1" "seg_offset s0 + seg_size s0"] that na bounds
        uint_sub_le [of "(seg_offset s0 + seg_size s0) - (seg_offset s1 + seg_size s1)" "seg_size m"] m(2)
      by (simp add: ends)
    ultimately show ?thesis using na m unfolding ext by (auto simp: extent_def)
  qed
qed

lemmas region_defs = init_regions_def left_regions_def right_regions_def top_regions_def bottom_regions_def
  no_row_def set_exists_def set_rx_def set_ry_def mod_rx_def mod_ry_def upd_rgn_def RGN_def zero_regions_def

lemmas axis_defs = has_low_def has_high_def low_segment_def high_segment_def mid_segment_def apart_def

text \<open>What each step does to the region of an index.\<close>

lemma left_regions_at:
  "left_regions a b rs i =
     (if i = 4 then (rs 4)\<lparr>rg_r := (rg_r (rs 4))\<lparr>rect_x :=
        \<lparr>seg_offset = seg_offset (rect_x (rg_r (rs 4))) + (b - a), seg_size = seg_size (rect_x (rg_r (rs 4))) - (b - a)\<rparr>\<rparr>\<rparr>
      else if i = 0 \<or> i = 3 \<or> i = 6
      then \<lparr>rg_r = (rg_r (rs i))\<lparr>rect_x := \<lparr>seg_offset = a, seg_size = b - a\<rparr>\<rparr>, rg_exists = True\<rparr> else rs i)"
  by (simp add: left_regions_def region_defs Let_def)

lemma right_regions_at:
  "right_regions a b rs i =
     (if i = 4 then (rs 4)\<lparr>rg_r := (rg_r (rs 4))\<lparr>rect_x :=
        (rect_x (rg_r (rs 4)))\<lparr>seg_size := seg_size (rect_x (rg_r (rs 4))) - (a - b)\<rparr>\<rparr>\<rparr>
      else if i = 2 \<or> i = 5 \<or> i = 8
      then \<lparr>rg_r = (rg_r (rs i))\<lparr>rect_x := \<lparr>seg_offset = b, seg_size = a - b\<rparr>\<rparr>, rg_exists = True\<rparr> else rs i)"
  by (simp add: right_regions_def region_defs Let_def)

lemma top_regions_at:
  "top_regions a b rs i =
     (if i = 4 then (rs 4)\<lparr>rg_r := (rg_r (rs 4))\<lparr>rect_y :=
        \<lparr>seg_offset = seg_offset (rect_y (rg_r (rs 4))) + (b - a), seg_size = seg_size (rect_y (rg_r (rs 4))) - (b - a)\<rparr>\<rparr>\<rparr>
      else if i = 0 \<or> i = 1 \<or> i = 2
      then \<lparr>rg_r = (rg_r (rs i))\<lparr>rect_y := \<lparr>seg_offset = a, seg_size = b - a\<rparr>\<rparr>, rg_exists = (i = 1 \<or> rg_exists (rs i))\<rparr>
      else rs i)"
  by (auto simp: top_regions_def region_defs Let_def numeral_2_eq_2)

lemma bottom_regions_at:
  "bottom_regions a b rs i =
     (if i = 4 then (rs 4)\<lparr>rg_r := (rg_r (rs 4))\<lparr>rect_y :=
        (rect_y (rg_r (rs 4)))\<lparr>seg_size := seg_size (rect_y (rg_r (rs 4))) - (a - b)\<rparr>\<rparr>\<rparr>
      else if i = 6 \<or> i = 7 \<or> i = 8
      then \<lparr>rg_r = (rg_r (rs i))\<lparr>rect_y := \<lparr>seg_offset = b, seg_size = a - b\<rparr>\<rparr>, rg_exists = (i = 7 \<or> rg_exists (rs i))\<rparr>
      else rs i)"
  by (auto simp: bottom_regions_def region_defs Let_def)

lemma no_row_at: "no_row y rs i = (if y * 3 \<le> i \<and> i \<le> y * 3 + 2 then (rs i)\<lparr>rg_exists := False\<rparr> else rs i)"
  by (auto simp: no_row_def region_defs)

lemma init_regions_at:
  "init_regions r i = (let z = \<lparr>seg_offset = 0, seg_size = 0\<rparr>; inner = (\<lambda>c s. if c then s else z) in
     \<lparr>rg_r = \<lparr>rect_x = inner (i = 4 \<or> i = 1 \<or> i = 7) (rect_x r), rect_y = inner (i = 4 \<or> i = 3 \<or> i = 5) (rect_y r)\<rparr>,
      rg_exists = (i = 4)\<rparr>)"
  by (simp add: init_regions_def region_defs Let_def)

lemmas regions_at = left_regions_at right_regions_at top_regions_at bottom_regions_at no_row_at init_regions_at

text \<open>The regions the function returns.\<close>

lemma get_intersection_regions_None:
  "get_intersection_regions r0 r1 = None \<longleftrightarrow> apart (rect_x r0) (rect_x r1) \<or> apart (rect_y r0) (rect_y r1)"
  by (simp add: get_intersection_regions_def Let_def apart_def)

lemma get_intersection_regions_Some:
  assumes "get_intersection_regions r0 r1 = Some rs"
  shows "rs 4 = \<lparr>rg_r = \<lparr>rect_x = mid_segment (rect_x r0) (rect_x r1), rect_y = mid_segment (rect_y r0) (rect_y r1)\<rparr>,
      rg_exists = True\<rparr>"
    and "rg_exists (rs 3) \<longleftrightarrow> has_low (rect_x r0) (rect_x r1)"
    and "rg_exists (rs 5) \<longleftrightarrow> has_high (rect_x r0) (rect_x r1)"
    and "rg_exists (rs 1) \<longleftrightarrow> has_low (rect_y r0) (rect_y r1)"
    and "rg_exists (rs 7) \<longleftrightarrow> has_high (rect_y r0) (rect_y r1)"
    and "rg_exists (rs 0) \<longleftrightarrow> has_low (rect_x r0) (rect_x r1) \<and> has_low (rect_y r0) (rect_y r1)"
    and "rg_exists (rs 2) \<longleftrightarrow> has_high (rect_x r0) (rect_x r1) \<and> has_low (rect_y r0) (rect_y r1)"
    and "rg_exists (rs 6) \<longleftrightarrow> has_low (rect_x r0) (rect_x r1) \<and> has_high (rect_y r0) (rect_y r1)"
    and "rg_exists (rs 8) \<longleftrightarrow> has_high (rect_x r0) (rect_x r1) \<and> has_high (rect_y r0) (rect_y r1)"
    and "rg_exists (rs 3) \<Longrightarrow> rg_r (rs 3) = \<lparr>rect_x = low_segment (rect_x r0) (rect_x r1), rect_y = rect_y r0\<rparr>"
    and "rg_exists (rs 5) \<Longrightarrow> rg_r (rs 5) = \<lparr>rect_x = high_segment (rect_x r0) (rect_x r1), rect_y = rect_y r0\<rparr>"
    and "rg_exists (rs 1) \<Longrightarrow> rg_r (rs 1) = \<lparr>rect_x = rect_x r0, rect_y = low_segment (rect_y r0) (rect_y r1)\<rparr>"
    and "rg_exists (rs 7) \<Longrightarrow> rg_r (rs 7) = \<lparr>rect_x = rect_x r0, rect_y = high_segment (rect_y r0) (rect_y r1)\<rparr>"
    and "rg_exists (rs 0) \<Longrightarrow> rg_r (rs 0) = \<lparr>rect_x = low_segment (rect_x r0) (rect_x r1), rect_y = low_segment (rect_y r0) (rect_y r1)\<rparr>"
    and "rg_exists (rs 2) \<Longrightarrow> rg_r (rs 2) = \<lparr>rect_x = high_segment (rect_x r0) (rect_x r1), rect_y = low_segment (rect_y r0) (rect_y r1)\<rparr>"
    and "rg_exists (rs 6) \<Longrightarrow> rg_r (rs 6) = \<lparr>rect_x = low_segment (rect_x r0) (rect_x r1), rect_y = high_segment (rect_y r0) (rect_y r1)\<rparr>"
    and "rg_exists (rs 8) \<Longrightarrow> rg_r (rs 8) = \<lparr>rect_x = high_segment (rect_x r0) (rect_x r1), rect_y = high_segment (rect_y r0) (rect_y r1)\<rparr>"
proof -
  let ?x0 = "rect_x r0" and ?x1 = "rect_x r1" and ?y0 = "rect_y r0" and ?y1 = "rect_y r1"
  define s1 where "s1 = (if has_low ?x0 ?x1 then left_regions (seg_offset ?x0) (seg_offset ?x1) (init_regions r0) else init_regions r0)"
  define s2 where "s2 = (if has_high ?x0 ?x1
    then right_regions (seg_offset ?x0 + seg_size ?x0) (seg_offset ?x1 + seg_size ?x1) s1 else s1)"
  define s3 where "s3 = (if has_low ?y0 ?y1 then top_regions (seg_offset ?y0) (seg_offset ?y1) s2 else no_row 0 s2)"
  have rs: "rs = (if has_high ?y0 ?y1
    then bottom_regions (seg_offset ?y0 + seg_size ?y0) (seg_offset ?y1 + seg_size ?y1) s3 else no_row 2 s3)"
    using assms unfolding get_intersection_regions_def Let_def s1_def s2_def s3_def has_low_def has_high_def
    by (simp split: if_splits)
  note steps = rs s3_def s2_def s1_def regions_at
  show "rs 4 = \<lparr>rg_r = \<lparr>rect_x = mid_segment ?x0 ?x1, rect_y = mid_segment ?y0 ?y1\<rparr>, rg_exists = True\<rparr>"
    by (simp add: steps mid_segment_def has_low_def has_high_def Let_def)
  show "rg_exists (rs 3) \<longleftrightarrow> has_low ?x0 ?x1" by (simp add: steps Let_def)
  show "rg_exists (rs 5) \<longleftrightarrow> has_high ?x0 ?x1" by (simp add: steps Let_def)
  show "rg_exists (rs 1) \<longleftrightarrow> has_low ?y0 ?y1" by (simp add: steps Let_def)
  show "rg_exists (rs 7) \<longleftrightarrow> has_high ?y0 ?y1" by (simp add: steps Let_def)
  show "rg_exists (rs 0) \<longleftrightarrow> has_low ?x0 ?x1 \<and> has_low ?y0 ?y1" by (simp add: steps Let_def)
  show "rg_exists (rs 2) \<longleftrightarrow> has_high ?x0 ?x1 \<and> has_low ?y0 ?y1" by (simp add: steps Let_def)
  show "rg_exists (rs 6) \<longleftrightarrow> has_low ?x0 ?x1 \<and> has_high ?y0 ?y1" by (simp add: steps Let_def)
  show "rg_exists (rs 8) \<longleftrightarrow> has_high ?x0 ?x1 \<and> has_high ?y0 ?y1" by (simp add: steps Let_def)
  note segs = steps low_segment_def high_segment_def
  show "rg_exists (rs 3) \<Longrightarrow> rg_r (rs 3) = \<lparr>rect_x = low_segment ?x0 ?x1, rect_y = ?y0\<rparr>"
    by (simp add: segs Let_def split: if_splits)
  show "rg_exists (rs 5) \<Longrightarrow> rg_r (rs 5) = \<lparr>rect_x = high_segment ?x0 ?x1, rect_y = ?y0\<rparr>"
    by (simp add: segs Let_def split: if_splits)
  show "rg_exists (rs 1) \<Longrightarrow> rg_r (rs 1) = \<lparr>rect_x = ?x0, rect_y = low_segment ?y0 ?y1\<rparr>"
    by (simp add: segs Let_def split: if_splits)
  show "rg_exists (rs 7) \<Longrightarrow> rg_r (rs 7) = \<lparr>rect_x = ?x0, rect_y = high_segment ?y0 ?y1\<rparr>"
    by (simp add: segs Let_def split: if_splits)
  show "rg_exists (rs 0) \<Longrightarrow> rg_r (rs 0) = \<lparr>rect_x = low_segment ?x0 ?x1, rect_y = low_segment ?y0 ?y1\<rparr>"
    by (simp add: segs Let_def split: if_splits)
  show "rg_exists (rs 2) \<Longrightarrow> rg_r (rs 2) = \<lparr>rect_x = high_segment ?x0 ?x1, rect_y = low_segment ?y0 ?y1\<rparr>"
    by (simp add: segs Let_def split: if_splits)
  show "rg_exists (rs 6) \<Longrightarrow> rg_r (rs 6) = \<lparr>rect_x = low_segment ?x0 ?x1, rect_y = high_segment ?y0 ?y1\<rparr>"
    by (simp add: segs Let_def split: if_splits)
  show "rg_exists (rs 8) \<Longrightarrow> rg_r (rs 8) = \<lparr>rect_x = high_segment ?x0 ?x1, rect_y = high_segment ?y0 ?y1\<rparr>"
    by (simp add: segs Let_def split: if_splits)
qed

definition region_points :: "region \<Rightarrow> (int \<times> int) set" where
  "region_points rg = (if rg_exists rg then points (rg_r rg) else {})"

definition outer_points :: "regions \<Rightarrow> (int \<times> int) set" where
  "outer_points rs = \<Union> (set (map (\<lambda>i. region_points (rs i)) [0, 1, 2, 3, 5, 6, 7, 8]))"

lemma regions_partition:
  assumes "rect_ok r0" "rect_ok r1"
  shows "case get_intersection_regions r0 r1 of
      None \<Rightarrow> points r0 \<inter> points r1 = {}
    | Some rs \<Rightarrow> rg_exists (rs (RGN 1 1)) \<and> points (rg_r (rs (RGN 1 1))) = points r0 \<inter> points r1 \<and>
        outer_points rs = points r0 - points r1"
proof (cases "get_intersection_regions r0 r1")
  case None
  then show ?thesis
    using axis(1) [of "rect_x r0" "rect_x r1"] axis(1) [of "rect_y r0" "rect_y r1"] assms
    unfolding get_intersection_regions_None by (auto simp: points_def rect_ok_def None)
next
  case (Some rs)
  let ?x0 = "rect_x r0" and ?x1 = "rect_x r1" and ?y0 = "rect_y r0" and ?y1 = "rect_y r1"
  have na: "\<not> apart ?x0 ?x1" "\<not> apart ?y0 ?y1" using get_intersection_regions_None [of r0 r1] Some by auto
  have ok: "seg_ok ?x0" "seg_ok ?x1" "seg_ok ?y0" "seg_ok ?y1" using assms by (simp_all add: rect_ok_def)
  note x = axis(2,3) [OF ok(1,2) na(1)] and y = axis(2,3) [OF ok(3,4) na(2)]
  note r = get_intersection_regions_Some [OF Some]
  define LX where "LX = (if has_low ?x0 ?x1 then extent (low_segment ?x0 ?x1) else {})"
  define HX where "HX = (if has_high ?x0 ?x1 then extent (high_segment ?x0 ?x1) else {})"
  define LY where "LY = (if has_low ?y0 ?y1 then extent (low_segment ?y0 ?y1) else {})"
  define HY where "HY = (if has_high ?y0 ?y1 then extent (high_segment ?y0 ?y1) else {})"
  have X: "LX \<union> HX = extent ?x0 - extent ?x1" and Y: "LY \<union> HY = extent ?y0 - extent ?y1"
    using x(2) y(2) by (simp_all add: LX_def HX_def LY_def HY_def)
  have area: "region_points (rs 0) = LX \<times> LY" "region_points (rs 1) = extent ?x0 \<times> LY"
    "region_points (rs 2) = HX \<times> LY" "region_points (rs 3) = LX \<times> extent ?y0" "region_points (rs 5) = HX \<times> extent ?y0"
    "region_points (rs 6) = LX \<times> HY" "region_points (rs 7) = extent ?x0 \<times> HY" "region_points (rs 8) = HX \<times> HY"
    using r(10-17) unfolding region_points_def LX_def HX_def LY_def HY_def by (auto simp: r(2-9) [unfolded One_nat_def] points_def)
  have "outer_points rs = LX \<times> LY \<union> extent ?x0 \<times> LY \<union> HX \<times> LY \<union> LX \<times> extent ?y0 \<union> HX \<times> extent ?y0 \<union>
      LX \<times> HY \<union> extent ?x0 \<times> HY \<union> HX \<times> HY"
    unfolding outer_points_def by (simp add: area [unfolded One_nat_def] Un_assoc)
  also have "\<dots> = extent ?x0 \<times> (LY \<union> HY) \<union> (LX \<union> HX) \<times> extent ?y0"
    using X Y by blast
  also have "\<dots> = points r0 - points r1" unfolding X Y points_def by blast
  finally have "outer_points rs = points r0 - points r1" .
  moreover have "points (rg_r (rs 4)) = points r0 \<inter> points r1"
    using x(1) y(1) by (auto simp: r(1) points_def)
  ultimately show ?thesis using r(1) by (simp add: Some RGN_def)
qed

section \<open>Properties\<close>

text \<open>C22 (functional). Cutting a rectangle at another one: without a common point the function finds none;
  otherwise the middle region holds exactly the common points of the two rectangles, and the outer regions
  that exist cover exactly the rest of the first one. The rectangles end within thirty bits.\<close>

theorem intersection_regions_partition:
  assumes "rect_ok r0" "rect_ok r1"
  shows "case get_intersection_regions r0 r1 of
      None \<Rightarrow> points r0 \<inter> points r1 = {}
    | Some rs \<Rightarrow> rg_exists (rs (RGN 1 1)) \<and> points (rg_r (rs (RGN 1 1))) = points r0 \<inter> points r1 \<and>
        outer_points rs = points r0 - points r1"
  by (rule regions_partition [OF assms])

text \<open>A rectangle at (-2, 1) of 10 by 4 points and one at (0, 0) of 5 by 20 points.\<close>

theorem intersection_regions_partition_witness:
  "\<exists>rs. get_intersection_regions \<lparr>rect_x = \<lparr>seg_offset = - 2, seg_size = 10\<rparr>, rect_y = \<lparr>seg_offset = 1, seg_size = 4\<rparr>\<rparr>
      \<lparr>rect_x = \<lparr>seg_offset = 0, seg_size = 5\<rparr>, rect_y = \<lparr>seg_offset = 0, seg_size = 20\<rparr>\<rparr> = Some rs \<and>
    points (rg_r (rs (RGN 1 1))) = {0 ..< 5} \<times> {1 ..< 5}"
proof -
  let ?r0 = "\<lparr>rect_x = \<lparr>seg_offset = - 2, seg_size = 10\<rparr>, rect_y = \<lparr>seg_offset = 1, seg_size = 4\<rparr>\<rparr>"
  let ?r1 = "\<lparr>rect_x = \<lparr>seg_offset = 0, seg_size = 5\<rparr>, rect_y = \<lparr>seg_offset = 0, seg_size = 20\<rparr>\<rparr>"
  have ok: "rect_ok ?r0" "rect_ok ?r1" by (simp_all add: rect_ok_def seg_ok_def)
  have "get_intersection_regions ?r0 ?r1 \<noteq> None"
    unfolding get_intersection_regions_None by (simp add: apart_def word_sle_eq)
  then obtain rs where rs: "get_intersection_regions ?r0 ?r1 = Some rs" by blast
  have "points ?r0 \<inter> points ?r1 = {0 ..< 5} \<times> {1 ..< 5}" by (auto simp: points_def extent_def)
  then show ?thesis using intersection_regions_partition [OF ok] rs by auto
qed

text \<open>\<^verbatim>\<open>clip_segment\<close> reports a segment as clipped away exactly where it overlaps: for segments
  of non-negative offsets that have a common point it always returns -1.\<close>

theorem clip_segment_overlap_clipped:
  assumes "seg_ok s0" "seg_ok s1" "0 \<le> sint (seg_offset s0)" "0 \<le> sint (seg_offset s1)"
    "extent s0 \<inter> extent s1 \<noteq> {}"
  shows "clip_segment s0 s1 = (-1, s0)"
proof -
  obtain q where q: "q \<in> extent s0" "q \<in> extent s1" using assms(5) by blast
  have "sint (seg_offset s1) < sint (seg_offset s0 + seg_size s0)"
    using q sint_add_size [of "seg_offset s0" "seg_size s0"] assms(1) by (auto simp: extent_def seg_ok_def)
  moreover have "uint w = sint w" if "0 \<le> sint w" for w :: u32
    using uint_of_int_small [of "sint w"] sint_range_size [of w] that by (simp add: word_size)
  ultimately have "seg_offset s1 < seg_offset s0 + seg_size s0"
    using assms(4) unfolding word_less_def by simp
  then show ?thesis by (simp add: clip_segment_def)
qed

theorem clip_segment_overlap_clipped_witness:
  "clip_segment \<lparr>seg_offset = 3, seg_size = 4\<rparr> \<lparr>seg_offset = 0, seg_size = 10\<rparr> = (-1, \<lparr>seg_offset = 3, seg_size = 4\<rparr>)"
  by (rule clip_segment_overlap_clipped) (auto simp: seg_ok_def extent_def)

end
