(* ===== verification/Vcanvas.thy ===== *)
theory Vcanvas
  imports Rectangle Mbox Stringlib
begin

text \<open>
  The frame buffer canvas and its viewports (\<^verbatim>\<open>src/vcanvas.c\<close>, \<^verbatim>\<open>src/include/vcanvas.h\<close>). The
  frame buffer and the font are in the byte memory; a pixel is the little-endian word at its address. An \<^verbatim>\<open>int\<close> is
  a 32-bit word; where the code compares an \<^verbatim>\<open>int\<close> with an \<^verbatim>\<open>unsigned\<close>, the comparison is unsigned, as in C.
  The font is a parameter (\<^verbatim>\<open>bins_get_start_font\<close> is the address of a linked-in file). A glyph mask is
  defined for widths from 1 to 32, where the shift is.
\<close>

section \<open>Words in memory\<close>

definition load32 :: "bmem \<Rightarrow> ptr \<Rightarrow> u32" where
  "load32 m a = ucast (m a) OR push_bit 8 (ucast (m (a + 1))) OR push_bit 16 (ucast (m (a + 2)))
     OR push_bit 24 (ucast (m (a + 3)))"

definition store32 :: "ptr \<Rightarrow> u32 \<Rightarrow> bmem \<Rightarrow> bmem" where
  "store32 a v m = m(a := ucast v, a + 1 := ucast (drop_bit 8 v), a + 2 := ucast (drop_bit 16 v),
     a + 3 := ucast (drop_bit 24 v))"

section \<open>The canvas\<close>

record fb =
  fb_addr :: u32
  fb_width :: u32
  fb_height :: u32
  fb_pitch :: u32
  fb_pixel_size :: u32

record viewport =
  pos_x :: u32
  pos_y :: u32
  size_x :: u32
  size_y :: u32

text \<open>\<open>viewports\<close> holds the first \<^verbatim>\<open>num_viewports\<close> entries of the array of that name; a viewport
  is named by its index.\<close>

record vcanvas =
  initialization_key :: u32
  vc_fb :: fb
  vc_fg_color :: u32
  vc_bg_color :: u32
  vc_tabwidth :: u32
  viewports :: "viewport list"

definition MAX_VIEWPORTS :: nat where "MAX_VIEWPORTS = 16"

definition VCANVAS_INITIALIZED_KEY :: u32 where "VCANVAS_INITIALIZED_KEY = 0xffaadead"

definition vcanvas_is_initialized :: "vcanvas \<Rightarrow> bool" where
  "vcanvas_is_initialized c \<longleftrightarrow> initialization_key c = VCANVAS_INITIALIZED_KEY"

definition vcanvas_set_initialized :: "vcanvas \<Rightarrow> vcanvas" where
  "vcanvas_set_initialized c = c\<lparr>initialization_key := VCANVAS_INITIALIZED_KEY\<rparr>"

text \<open>\<open>junk\<close> is the content of the uninitialised result, which the code copies also where the call has failed.\<close>

definition vcanvas_init ::
  "videocore \<Rightarrow> u32 \<Rightarrow> mbox_set_fb_res \<Rightarrow> u32 \<Rightarrow> u32 \<Rightarrow> vcanvas \<times> mbuf \<Rightarrow> (vcanvas \<times> mbuf) kres" where
  "vcanvas_init vc addr junk w h cb =
     (let (c, b) = cb;
          args = \<lparr>psize_x = w, psize_y = h, vsize_x = w, vsize_y = h, voffset_x = 0, voffset_y = 0,
                  arg_depth = 32, pixel_order = 1\<rparr>
      in if vcanvas_is_initialized c then Inl ''Trying to initialize vcanvas twice''
         else kbind (mbox_set_fb vc addr args junk b) (\<lambda>(ret, res, b).
           Inr (vcanvas_set_initialized
                  (c\<lparr>vc_fb := \<lparr>fb_addr = res_fb_addr res, fb_width = res_fb_width res, fb_height = res_fb_height res,
                              fb_pitch = res_fb_pitch res, fb_pixel_size = res_fb_pixel_size res\<rparr>,
                     vc_tabwidth := 4, viewports := []\<rparr>), b)))"

definition vcanvas_get_width_height :: "vcanvas \<Rightarrow> u32 \<times> u32" where
  "vcanvas_get_width_height c = (fb_width (vc_fb c), fb_height (vc_fb c))"

definition fb_get_pixel_addr :: "fb \<Rightarrow> u32 \<Rightarrow> u32 \<Rightarrow> ptr" where
  "fb_get_pixel_addr f x y = unat (fb_addr f) + unat (y * fb_pitch f) + unat (x * fb_pixel_size f)"

definition vcanvas_set_fg_color :: "u32 \<Rightarrow> vcanvas \<Rightarrow> vcanvas" where
  "vcanvas_set_fg_color v c = c\<lparr>vc_fg_color := v\<rparr>"

definition vcanvas_set_bg_color :: "u32 \<Rightarrow> vcanvas \<Rightarrow> vcanvas" where
  "vcanvas_set_bg_color v c = c\<lparr>vc_bg_color := v\<rparr>"

text \<open>The loop over \<^verbatim>\<open>_x\<close> and \<^verbatim>\<open>_y\<close> with its signed bounds; the ends are minima of unsigned values.\<close>

definition int_range :: "u32 \<Rightarrow> u32 \<Rightarrow> u32 list" where
  "int_range a b = map word_of_int [sint a .. sint b - 1]"

definition vcanvas_fill_rect :: "fb \<Rightarrow> u32 \<Rightarrow> u32 \<Rightarrow> u32 \<Rightarrow> u32 \<Rightarrow> u32 \<Rightarrow> bmem \<Rightarrow> bmem" where
  "vcanvas_fill_rect f x y sx sy rgba =
     (let xend = min (x + sx) (fb_width f);
          yend = min (y + sy) (fb_height f)
      in fold (\<lambda>x'. fold (\<lambda>y'. store32 (unat (fb_addr f) + unat (x' * fb_pixel_size f) + unat (y' * fb_pitch f)) rgba)
                (int_range y yend)) (int_range x xend))"

definition vcanvas_make_viewport :: "u32 \<Rightarrow> u32 \<Rightarrow> u32 \<Rightarrow> u32 \<Rightarrow> vcanvas \<Rightarrow> nat option \<times> vcanvas" where
  "vcanvas_make_viewport x y sx sy c =
     (if length (viewports c) \<ge> MAX_VIEWPORTS then (None, c)
      else (Some (length (viewports c)),
            c\<lparr>viewports := viewports c @ [\<lparr>pos_x = x, pos_y = y, size_x = sx, size_y = sy\<rparr>]\<rparr>))"

definition viewport_fill_rect :: "fb \<Rightarrow> viewport \<Rightarrow> u32 \<Rightarrow> u32 \<Rightarrow> u32 \<Rightarrow> u32 \<Rightarrow> u32 \<Rightarrow> bmem \<Rightarrow> bmem" where
  "viewport_fill_rect f v x y sx sy color m =
     (if x \<ge> size_x v \<or> y \<ge> size_y v then m
      else let x' = pos_x v + x;
               y' = pos_y v + y;
               sx' = (if x + sx > size_x v then size_x v - x else sx);
               sy' = (if y + sy > size_y v then size_y v - y else sy)
           in vcanvas_fill_rect f x' y' sx' sy' color m)"

definition viewport_fill :: "fb \<Rightarrow> viewport \<Rightarrow> u32 \<Rightarrow> bmem \<Rightarrow> bmem" where
  "viewport_fill f v color = viewport_fill_rect f v 0 0 (size_x v) (size_y v) color"

section \<open>Glyphs\<close>

definition psf_headersize :: "bmem \<Rightarrow> ptr \<Rightarrow> u32" where "psf_headersize m font = load32 m (font + 8)"
definition psf_numglyph :: "bmem \<Rightarrow> ptr \<Rightarrow> u32" where "psf_numglyph m font = load32 m (font + 16)"
definition psf_bytesperglyph :: "bmem \<Rightarrow> ptr \<Rightarrow> u32" where "psf_bytesperglyph m font = load32 m (font + 20)"
definition psf_height :: "bmem \<Rightarrow> ptr \<Rightarrow> u32" where "psf_height m font = load32 m (font + 24)"
definition psf_width :: "bmem \<Rightarrow> ptr \<Rightarrow> u32" where "psf_width m font = load32 m (font + 28)"

definition font_get_glyph :: "bmem \<Rightarrow> ptr \<Rightarrow> u8 \<Rightarrow> ptr" where
  "font_get_glyph m font c =
     (let glyph_idx = (if ucast c < psf_numglyph m font then ucast c else 0)
      in font + unat (psf_headersize m font) + unat (glyph_idx * psf_bytesperglyph m font))"

fun glyph_line :: "fb \<Rightarrow> ptr \<Rightarrow> u32 \<Rightarrow> u32 \<Rightarrow> u32 \<Rightarrow> u32 \<Rightarrow> nat \<Rightarrow> u32 \<Rightarrow> u32 \<Rightarrow> bmem \<Rightarrow> bmem" where
  "glyph_line f glyph x y fg bg 0 x' msk m = m"
| "glyph_line f glyph x y fg bg (Suc n) x' msk m =
     glyph_line f glyph x y fg bg n (x' + 1) (signed_drop_bit 1 msk)
       (store32 (fb_get_pixel_addr f (x + x') y) (if ucast (m glyph) AND msk \<noteq> 0 then fg else bg) m)"

fun glyph_lines ::
  "fb \<Rightarrow> ptr \<Rightarrow> u32 \<Rightarrow> u32 \<Rightarrow> u32 \<Rightarrow> u32 \<Rightarrow> u32 \<Rightarrow> u32 \<Rightarrow> nat \<Rightarrow> u32 \<Rightarrow> ptr \<Rightarrow> bmem \<Rightarrow> bmem" where
  "glyph_lines f font x y fg bg limit_x bytes_per_line 0 y' glyph m = m"
| "glyph_lines f font x y fg bg limit_x bytes_per_line (Suc n) y' glyph m =
     glyph_lines f font x y fg bg limit_x bytes_per_line n (y' + 1) (glyph + unat bytes_per_line)
       (glyph_line f glyph x (y + y') fg bg (unat limit_x) 0 (push_bit (unat (psf_width m font - 1)) 1) m)"

definition vcanvas_draw_glyph ::
  "fb \<Rightarrow> ptr \<Rightarrow> ptr \<Rightarrow> u32 \<Rightarrow> u32 \<Rightarrow> u32 \<Rightarrow> u32 \<Rightarrow> u32 \<Rightarrow> u32 \<Rightarrow> bmem \<Rightarrow> bmem" where
  "vcanvas_draw_glyph f font glyph x y max_size_x max_size_y fg bg m =
     (let limit_x = min (psf_width m font) max_size_x;
          limit_y = min (psf_height m font) max_size_y;
          bytes_per_line = (psf_width m font + 7) div 8
      in glyph_lines f font x y fg bg limit_x bytes_per_line (unat limit_y) 0 glyph m)"

definition CONSOLE_CHAR_BACKSPACE :: u8 where "CONSOLE_CHAR_BACKSPACE = 0x08"
definition CONSOLE_CHAR_HORIZONTAL_TAB :: u8 where "CONSOLE_CHAR_HORIZONTAL_TAB = 0x09"
definition CONSOLE_CHAR_LINEFEED :: u8 where "CONSOLE_CHAR_LINEFEED = 0x0a"
definition CONSOLE_CHAR_CARRIAGE_RETURN :: u8 where "CONSOLE_CHAR_CARRIAGE_RETURN = 0x0d"

definition vcanvas_putc :: "vcanvas \<Rightarrow> ptr \<Rightarrow> u8 \<Rightarrow> u32 \<times> u32 \<times> bmem \<Rightarrow> u32 \<times> u32 \<times> bmem" where
  "vcanvas_putc c font chr s =
     (let (x, y, m) = s; glyph = font_get_glyph m font chr
      in if chr = CONSOLE_CHAR_CARRIAGE_RETURN then (0, y, m)
         else if chr = CONSOLE_CHAR_LINEFEED then (0, y + 1, m)
         else if chr = CONSOLE_CHAR_HORIZONTAL_TAB then (x + vc_tabwidth c, y, m)
         else if chr = CONSOLE_CHAR_BACKSPACE then (if 0 <s x then x - 1 else x, y, m)
         else (x + 1, y,
               vcanvas_draw_glyph (vc_fb c) font glyph (x * psf_width m font) (y * psf_height m font)
                 (psf_width m font) (psf_height m font) (vc_fg_color c) (vc_bg_color c) m))"

partial_function (option) puts_loop ::
  "vcanvas \<Rightarrow> ptr \<Rightarrow> u32 \<Rightarrow> u32 \<Rightarrow> ptr \<Rightarrow> u32 \<times> u32 \<times> bmem \<Rightarrow> (u32 \<times> u32 \<times> bmem) option" where
  "puts_loop c font width_limit height_limit s xym =
     (let (x, y, m) = xym
      in if m s = 0 then Some xym
         else if x \<ge> width_limit - 1
         then if y \<ge> height_limit - 1 then Some xym
              else puts_loop c font width_limit height_limit (s + 1) (vcanvas_putc c font (m s) (0, y + 1, m))
         else puts_loop c font width_limit height_limit (s + 1) (vcanvas_putc c font (m s) xym))"

text \<open>The addresses of the cursor are checked by the code and not otherwise used by the model.\<close>

definition vcanvas_puts ::
  "vcanvas \<Rightarrow> ptr \<Rightarrow> ptr \<Rightarrow> ptr \<Rightarrow> ptr \<Rightarrow> u32 \<times> u32 \<times> bmem \<Rightarrow> (u32 \<times> u32 \<times> bmem) kres option" where
  "vcanvas_puts c font x_ptr y_ptr s xym =
     (let m = snd (snd xym)
      in if x_ptr = NULL \<or> y_ptr = NULL \<or> s = NULL then Some (Inl ''vcanvas_puts: some args not provided.'')
         else map_option Inr (puts_loop c font (fb_width (vc_fb c) div (psf_width m font + 1))
                (fb_height (vc_fb c) div (psf_height m font + 1)) s xym))"

section \<open>The picture\<close>

text \<open>One pixel of the picture from four characters of its text; the fourth byte of \<open>pixel\<close> is never assigned.\<close>

definition HEADER_PIXEL :: "u8 list \<Rightarrow> u8 list" where
  "HEADER_PIXEL d =
     (let v = (\<lambda>i. (ucast (d ! i) :: u32) - 33)
      in [ucast (push_bit 2 (v 0) OR signed_drop_bit 4 (v 1)),
          ucast (push_bit 4 (v 1 AND 0xf) OR signed_drop_bit 2 (v 2)),
          ucast (push_bit 6 (v 2 AND 0x3) OR v 3)])"

fun picture_line :: "u8 \<Rightarrow> nat \<Rightarrow> u8 list \<times> ptr \<times> bmem \<Rightarrow> u8 list \<times> ptr \<times> bmem" where
  "picture_line junk 0 s = s"
| "picture_line junk (Suc n) s =
     (let (d, p, m) = s; px = HEADER_PIXEL d
      in picture_line junk n (drop 4 d, p + 4, m(p := px ! 0, p + 1 := px ! 1, p + 2 := px ! 2, p + 3 := junk)))"

fun picture_lines :: "u32 \<Rightarrow> u8 \<Rightarrow> u32 \<Rightarrow> nat \<Rightarrow> u8 list \<times> ptr \<times> bmem \<Rightarrow> u8 list \<times> ptr \<times> bmem" where
  "picture_lines pitch junk homer_width 0 s = s"
| "picture_lines pitch junk homer_width (Suc n) s =
     (let (d, p, m) = picture_line junk (unat homer_width) s
      in picture_lines pitch junk homer_width n (d, p + unat (pitch - homer_width * 4), m))"

definition vcanvas_showpicture :: "fb \<Rightarrow> u32 \<Rightarrow> u32 \<Rightarrow> u8 list \<Rightarrow> u8 \<Rightarrow> bmem \<Rightarrow> bmem" where
  "vcanvas_showpicture f homer_width homer_height homer_data junk m =
     (let p = unat (fb_addr f) + unat ((fb_height f - homer_height) div 2 * fb_pitch f + (fb_width f - homer_width) * 2)
      in snd (snd (picture_lines (fb_pitch f) junk homer_width (unat homer_height) (homer_data, p, m))))"

section \<open>Text and copies in a viewport\<close>

definition viewport_draw_char ::
  "fb \<Rightarrow> ptr \<Rightarrow> viewport \<Rightarrow> u32 \<Rightarrow> u32 \<Rightarrow> u32 \<Rightarrow> u32 \<Rightarrow> u8 \<Rightarrow> bmem \<Rightarrow> bmem" where
  "viewport_draw_char f font v x y fg bg c m =
     (if x \<ge> size_x v \<or> y \<ge> size_y v then m
      else let sx = (if x + psf_width m font > size_x v then size_x v - x else psf_width m font);
               sy = (if y + psf_height m font > size_y v then size_y v - y else psf_height m font)
           in vcanvas_draw_glyph f font (font_get_glyph m font c) (pos_x v + x) (pos_y v + y) sx sy fg bg m)"

text \<open>The loop of \<^verbatim>\<open>viewport_draw_text\<close>: \<open>textlen\<close> is converted to \<^verbatim>\<open>unsigned\<close> by the comparison, so it bounds
  the loop; \<open>char_idx\<close> runs up to it.\<close>

function draw_text_loop ::
  "fb \<Rightarrow> ptr \<Rightarrow> viewport \<Rightarrow> u32 \<Rightarrow> u32 \<Rightarrow> u32 \<Rightarrow> u32 \<Rightarrow> u32 \<Rightarrow> ptr \<Rightarrow> u32 \<Rightarrow> bmem \<Rightarrow> bmem" where
  "draw_text_loop f font v x y fg bg textlen c char_idx m =
     (if m c \<noteq> 0 \<and> char_idx < textlen
      then let rx = x + char_idx * psf_width m font; ry = y
           in if rx \<ge> size_x v \<or> ry \<ge> size_y v then m
              else draw_text_loop f font v x y fg bg textlen (c + 1) (char_idx + 1)
                     (viewport_draw_char f font v rx ry fg bg (m c) m)
      else m)"
  by pat_completeness auto
termination
  by (relation "measure (\<lambda>(f, font, v, x, y, fg, bg, textlen, c, char_idx, m). unat textlen - unat char_idx)")
    (auto simp: unat_Suc_less word_less_nat_alt intro!: diff_less_mono2)

declare draw_text_loop.simps [simp del]

definition viewport_draw_text ::
  "fb \<Rightarrow> ptr \<Rightarrow> viewport \<Rightarrow> u32 \<Rightarrow> u32 \<Rightarrow> u32 \<Rightarrow> u32 \<Rightarrow> ptr \<Rightarrow> u32 \<Rightarrow> bmem \<Rightarrow> bmem" where
  "viewport_draw_text f font v x y fg bg text textlen m =
     (if x \<ge> size_x v \<or> y \<ge> size_y v then m else draw_text_loop f font v x y fg bg textlen text 0 m)"

definition vcanvas_get_fontsize :: "ptr \<Rightarrow> bmem \<Rightarrow> (u32 \<times> u32) option" where
  "vcanvas_get_fontsize font m = (if font = NULL then None else Some (psf_width m font, psf_height m font))"

fun copy_lines :: "u32 \<Rightarrow> nat \<Rightarrow> nat \<Rightarrow> ptr \<Rightarrow> ptr \<Rightarrow> bmem \<Rightarrow> bmem kres" where
  "copy_lines pitch len 0 dst src m = Inr m"
| "copy_lines pitch len (Suc n) dst src m =
     kbind (memcpy dst src len m) (copy_lines pitch len n (dst + unat pitch) (src + unat pitch))"

definition viewport_copy_rect_unsafe ::
  "fb \<Rightarrow> viewport \<Rightarrow> u32 \<Rightarrow> u32 \<Rightarrow> u32 \<Rightarrow> u32 \<Rightarrow> u32 \<Rightarrow> u32 \<Rightarrow> bmem \<Rightarrow> bmem kres" where
  "viewport_copy_rect_unsafe f v x0 y0 sx sy x1 y1 =
     (let src = fb_get_pixel_addr f (pos_x v + x0) (pos_y v + y0);
          dst = fb_get_pixel_addr f (pos_x v + x1) (pos_y v + y1)
      in copy_lines (fb_pitch f) (unat (sx * fb_pixel_size f)) (nat (sint sy)) dst src)"

definition fill_region :: "fb \<Rightarrow> viewport \<Rightarrow> u32 \<Rightarrow> u32 \<Rightarrow> u32 \<Rightarrow> u32 \<Rightarrow> u32 \<Rightarrow> region \<Rightarrow> bmem \<Rightarrow> bmem" where
  "fill_region f v x0 y0 x1 y1 bg ir m =
     (if rg_exists ir \<and> seg_size (rect_x (rg_r ir)) \<noteq> 0 \<and> seg_size (rect_y (rg_r ir)) \<noteq> 0
      then viewport_fill_rect f v (seg_offset (rect_x (rg_r ir)) - x0 + x1) (seg_offset (rect_y (rg_r ir)) - y0 + y1)
             (seg_size (rect_x (rg_r ir))) (seg_size (rect_y (rg_r ir))) bg m
      else m)"

definition viewport_copy_rect ::
  "fb \<Rightarrow> u32 \<Rightarrow> viewport \<Rightarrow> u32 \<Rightarrow> u32 \<Rightarrow> u32 \<Rightarrow> u32 \<Rightarrow> u32 \<Rightarrow> u32 \<Rightarrow> bmem \<Rightarrow> bmem kres" where
  "viewport_copy_rect f bg v x0 y0 sx sy x1 y1 m =
     (let r0 = \<lparr>rect_x = \<lparr>seg_offset = x0, seg_size = sx\<rparr>, rect_y = \<lparr>seg_offset = y0, seg_size = sy\<rparr>\<rparr>;
          r1 = \<lparr>rect_x = \<lparr>seg_offset = 0, seg_size = size_x v\<rparr>, rect_y = \<lparr>seg_offset = 0, seg_size = size_y v\<rparr>\<rparr>
      in case get_intersection_regions r0 r1 of
           None \<Rightarrow> Inr (viewport_fill_rect f v x1 y1 sx sy bg m)
         | Some rs \<Rightarrow>
             let m = fold (\<lambda>i. fill_region f v x0 y0 x1 y1 bg (rs i)) [0, 1, 2, 3, 5, 6, 7, 8] m;
                 r = rg_r (rs (RGN 1 1))
             in viewport_copy_rect_unsafe f v (seg_offset (rect_x r)) (seg_offset (rect_y r))
                  (seg_size (rect_x r)) (seg_size (rect_y r))
                  (seg_offset (rect_x r) - x0 + x1) (seg_offset (rect_y r) - y0 + y1) m)"


section \<open>Pixels\<close>

text \<open>A frame buffer of 4-byte pixels whose lines do not overlap and whose size is a 32-bit number.\<close>

definition fb_ok :: "fb \<Rightarrow> bool" where
  "fb_ok f \<longleftrightarrow> fb_pixel_size f = 4 \<and> 0 < fb_width f \<and> 4 * unat (fb_width f) \<le> unat (fb_pitch f) \<and>
     unat (fb_height f) * unat (fb_pitch f) < 2 ^ 32"

definition pix :: "fb \<Rightarrow> nat \<times> nat \<Rightarrow> ptr" where
  "pix f p = unat (fb_addr f) + snd p * unat (fb_pitch f) + 4 * fst p"

definition pixel_bytes :: "fb \<Rightarrow> nat \<times> nat \<Rightarrow> ptr set" where
  "pixel_bytes f p = {pix f p ..< pix f p + 4}"

definition on_screen :: "fb \<Rightarrow> (nat \<times> nat) set" where
  "on_screen f = {..< unat (fb_width f)} \<times> {..< unat (fb_height f)}"

text \<open>\<open>paints f A col m m'\<close>: \<open>m'\<close> shows the colours \<open>col\<close> in \<open>A\<close> and is \<open>m\<close> in every other byte.\<close>

definition paints :: "fb \<Rightarrow> (nat \<times> nat) set \<Rightarrow> (nat \<times> nat \<Rightarrow> u32) \<Rightarrow> bmem \<Rightarrow> bmem \<Rightarrow> bool" where
  "paints f A col m m' \<longleftrightarrow> (\<forall>p \<in> A. load32 m' (pix f p) = col p) \<and>
     (\<forall>a. a \<notin> (\<Union>p \<in> A. pixel_bytes f p) \<longrightarrow> m' a = m a)"

lemma load32_store32: "load32 (store32 a v m) a = v"
proof (rule bit_word_eqI)
  fix n
  assume "n < LENGTH(32)"
  then have "n < 8 \<or> 8 \<le> n \<and> n < 16 \<or> 16 \<le> n \<and> n < 24 \<or> 24 \<le> n \<and> n < 32" by simp linarith
  then show "bit (load32 (store32 a v m) a) n = bit v n"
    by (elim disjE) (auto simp: load32_def store32_def bit_simps)
qed

lemma store32_other: "b \<notin> {a ..< a + 4} \<Longrightarrow> store32 a v m b = m b"
  by (auto simp: store32_def)

lemma load32_cong: "(\<And>b. b \<in> {a ..< a + 4} \<Longrightarrow> m b = m' b) \<Longrightarrow> load32 m a = load32 m' a"
  by (simp add: load32_def)

lemma load32_shift:
  assumes "\<And>k. k < 4 \<Longrightarrow> m (a + k) = m' (b + k)"
  shows "load32 m a = load32 m' b"
  using assms [of 0] assms [of 1] assms [of 2] assms [of 3] by (simp add: load32_def)

lemma on_screen_bounds:
  assumes "fb_ok f" "(x, y) \<in> on_screen f"
  shows "4 * x + 4 \<le> unat (fb_pitch f)" and "y * unat (fb_pitch f) + unat (fb_pitch f) < 2 ^ 32"
proof -
  show "4 * x + 4 \<le> unat (fb_pitch f)" using assms by (auto simp: fb_ok_def on_screen_def)
  have "Suc y * unat (fb_pitch f) \<le> unat (fb_height f) * unat (fb_pitch f)"
    using assms(2) by (intro mult_le_mono1) (auto simp: on_screen_def)
  then show "y * unat (fb_pitch f) + unat (fb_pitch f) < 2 ^ 32" using assms(1) by (simp add: fb_ok_def)
qed

lemma pixel_bytes_disjoint:
  assumes "fb_ok f" "p \<in> on_screen f" "q \<in> on_screen f" "p \<noteq> q"
  shows "pixel_bytes f p \<inter> pixel_bytes f q = {}"
proof -
  obtain x y x' y' where pq: "p = (x, y)" "q = (x', y')" by (cases p, cases q)
  note b = on_screen_bounds(1) [OF assms(1)]
  have w: "4 * x + 4 \<le> unat (fb_pitch f)" "4 * x' + 4 \<le> unat (fb_pitch f)" using b assms(2,3) by (auto simp: pq)
  have line: "y1 * unat (fb_pitch f) + unat (fb_pitch f) \<le> y2 * unat (fb_pitch f)" if "y1 < y2" for y1 y2 :: nat
    using that mult_le_mono1 [of "Suc y1" y2 "unat (fb_pitch f)"] by simp
  consider "y < y'" | "y' < y" | "y = y'" "x \<noteq> x'" using assms(4) pq by force
  then show ?thesis
  proof cases
    case 1
    then show ?thesis using line [of y y'] w by (auto simp: pixel_bytes_def pix_def pq)
  next
    case 2
    then show ?thesis using line [of y' y] w by (auto simp: pixel_bytes_def pix_def pq)
  next
    case 3
    then show ?thesis by (auto simp: pixel_bytes_def pix_def pq)
  qed
qed

lemma paintsD: "paints f A col m m' \<Longrightarrow> p \<in> A \<Longrightarrow> load32 m' (pix f p) = col p"
  by (simp add: paints_def)

lemma paints_empty: "paints f {} col m m"
  by (simp add: paints_def)

lemma paints_store: "col p = v \<Longrightarrow> a = pix f p \<Longrightarrow> paints f {p} col m (store32 a v m)"
  by (auto simp: paints_def load32_store32 store32_other pixel_bytes_def)

lemma paints_keeps:
  assumes "fb_ok f" "A \<subseteq> on_screen f" "p \<in> on_screen f - A" "paints f A col m m'"
  shows "load32 m' (pix f p) = load32 m (pix f p)"
proof (rule load32_cong)
  fix b
  assume b: "b \<in> {pix f p ..< pix f p + 4}"
  have "b \<notin> pixel_bytes f q" if "q \<in> A" for q
  proof -
    have "q \<in> on_screen f" "p \<noteq> q" using that assms(2,3) by auto
    then have "pixel_bytes f p \<inter> pixel_bytes f q = {}" using pixel_bytes_disjoint assms(1,3) by blast
    moreover have "b \<in> pixel_bytes f p" using b by (simp add: pixel_bytes_def)
    ultimately show ?thesis by blast
  qed
  then show "m' b = m b" using assms(4) by (auto simp: paints_def)
qed

lemma paints_trans:
  assumes "fb_ok f" "A \<subseteq> on_screen f" "B \<subseteq> on_screen f" "paints f A col m m1" "paints f B col m1 m2"
  shows "paints f (A \<union> B) col m m2"
proof -
  have "load32 m2 (pix f p) = col p" if "p \<in> A" "p \<notin> B" for p
    using paints_keeps [OF assms(1,3) _ assms(5), of p] that assms(2,4) by (auto simp: paints_def)
  then show ?thesis using assms(4,5) by (auto simp: paints_def)
qed

lemma paints_fold:
  assumes "fb_ok f" "\<And>i m. i \<in> set is \<Longrightarrow> paints f (A i) col m (g i m)" "\<And>i. i \<in> set is \<Longrightarrow> A i \<subseteq> on_screen f"
  shows "paints f (\<Union>i \<in> set is. A i) col m (fold g is m)"
  using assms(2,3)
proof (induction "is" arbitrary: m)
  case (Cons i "is")
  have "paints f (A i) col m (g i m)" "paints f (\<Union>i \<in> set is. A i) col (g i m) (fold g is (g i m))"
    using Cons by auto
  moreover have "A i \<subseteq> on_screen f" "(\<Union>i \<in> set is. A i) \<subseteq> on_screen f" using Cons.prems(2) by auto
  ultimately have "paints f (A i \<union> (\<Union>i \<in> set is. A i)) col m (fold g is (g i m))" by (intro paints_trans [OF assms(1)])
  then show ?case by simp
qed (simp add: paints_empty)


section \<open>Filling\<close>

lemma sint_u32_small:
  assumes "unat (w :: u32) < 2 ^ 31"
  shows "sint w = int (unat w)"
proof -
  have "int (unat w) < 2 ^ 31" using assms by (metis of_nat_less_iff of_nat_numeral of_nat_power)
  then have "uint w < 2 ^ 31" by simp
  moreover have "- (2 ^ 31) \<le> uint w" using uint_ge_0 [of w] by (rule order_trans [rotated]) simp
  ultimately show ?thesis using sint_of_int_small [of "uint w"] by simp
qed

lemma upto_ints: "[int a .. int b - 1] = map int [a ..< b]"
proof (cases "a \<le> b")
  case True
  then show ?thesis
    by (induction b rule: dec_induct) (simp_all add: upto_rec2 [of _ "int _"] upt_Suc_append)
qed simp

lemma int_range_eq:
  assumes "unat a < 2 ^ 31" "unat b < 2 ^ 31"
  shows "int_range a b = map of_nat [unat a ..< unat b]"
  unfolding int_range_def sint_u32_small [OF assms(1)] sint_u32_small [OF assms(2)] upto_ints by (simp add: comp_def)

lemma unat_pixel:
  assumes "fb_ok f" "(x, y) \<in> on_screen f"
  shows "unat (of_nat x * fb_pixel_size f) = 4 * x" and "unat (of_nat y * fb_pitch f) = y * unat (fb_pitch f)"
proof -
  have p: "unat (fb_pitch f) < 2 ^ 32" "0 < unat (fb_pitch f)"
    using unsigned_less [of "fb_pitch f"] assms(1) by (auto simp: fb_ok_def word_less_nat_alt)
  have b: "4 * x < 2 ^ 32" "y * unat (fb_pitch f) < 2 ^ 32" using on_screen_bounds [OF assms] p by linarith+
  have "y * 1 \<le> y * unat (fb_pitch f)" using p by (intro mult_le_mono2) simp
  then have "x < 2 ^ 32" "y < 2 ^ 32" using b by linarith+
  then have "unat (of_nat x :: u32) = x" "unat (of_nat y :: u32) = y" by (simp_all add: unat_of_nat take_bit_nat_eq_self)
  then have "unat ((of_nat x :: u32) * 4) = 4 * x" "unat (of_nat y * fb_pitch f) = y * unat (fb_pitch f)"
    using b by (simp_all add: unat_word_ariths)
  then show "unat (of_nat x * fb_pixel_size f) = 4 * x" "unat (of_nat y * fb_pitch f) = y * unat (fb_pitch f)"
    using assms(1) by (simp_all add: fb_ok_def)
qed

text \<open>The pixels of the rectangle of \<open>sx\<close> by \<open>sy\<close> pixels whose top left corner is \<open>(x, y)\<close>.\<close>

definition area :: "nat \<Rightarrow> nat \<Rightarrow> nat \<Rightarrow> nat \<Rightarrow> (nat \<times> nat) set" where
  "area x y sx sy = {x ..< x + sx} \<times> {y ..< y + sy}"

lemma fb_small:
  assumes "fb_ok f"
  shows "unat (fb_width f) < 2 ^ 31" "unat (fb_height f) < 2 ^ 31"
proof -
  have p: "unat (fb_pitch f) < 2 ^ 32" "4 \<le> unat (fb_pitch f)"
    using unsigned_less [of "fb_pitch f"] assms by (auto simp: fb_ok_def word_less_nat_alt)
  show "unat (fb_width f) < 2 ^ 31" using assms p(1) by (simp add: fb_ok_def)
  have "unat (fb_height f) * 4 \<le> unat (fb_height f) * unat (fb_pitch f)" using p(2) by (intro mult_le_mono2)
  also have "\<dots> < 2 ^ 32" using assms by (simp add: fb_ok_def)
  finally show "unat (fb_height f) < 2 ^ 31" by simp
qed

lemma vcanvas_fill_rect_paints:
  assumes "fb_ok f" "unat x < 2 ^ 31" "unat y < 2 ^ 31" "unat x + unat sx < 2 ^ 32" "unat y + unat sy < 2 ^ 32"
  shows "paints f (area (unat x) (unat y) (unat sx) (unat sy) \<inter> on_screen f) (\<lambda>_. c) m (vcanvas_fill_rect f x y sx sy c m)"
proof -
  note w = fb_small [OF assms(1)]
  define xe where "xe = min (unat x + unat sx) (unat (fb_width f))"
  define ye where "ye = min (unat y + unat sy) (unat (fb_height f))"
  have e: "unat (min (x + sx) (fb_width f)) = xe" "unat (min (y + sy) (fb_height f)) = ye" 
    using assms(4,5) by (simp_all add: xe_def ye_def min_def word_le_nat_alt unat_word_ariths)
  have "xe < 2 ^ 31" "ye < 2 ^ 31" using w by (simp_all add: xe_def ye_def)
  then have r: "int_range x (min (x + sx) (fb_width f)) = map of_nat [unat x ..< xe]"
    "int_range y (min (y + sy) (fb_height f)) = map of_nat [unat y ..< ye]"
    using int_range_eq assms(2,3) by (simp_all add: e)
  let ?st = "\<lambda>x' y'. store32 (unat (fb_addr f) + unat (of_nat x' * fb_pixel_size f) + unat (of_nat y' * fb_pitch f)) c"
  have st: "paints f {(x', y')} (\<lambda>_. c) m (?st x' y' m)" "{(x', y')} \<subseteq> on_screen f"
    if "x' < xe" "y' < ye" for x' y' m
  proof -
    have on: "(x', y') \<in> on_screen f" using that by (simp add: on_screen_def xe_def ye_def)
    then show "{(x', y')} \<subseteq> on_screen f" by simp
    show "paints f {(x', y')} (\<lambda>_. c) m (?st x' y' m)"
      by (rule paints_store) (simp_all add: pix_def unat_pixel [OF assms(1) on])
  qed
  have col: "paints f (\<Union>y' \<in> set [unat y ..< ye]. {(x', y')}) (\<lambda>_. c) m (fold (?st x') [unat y ..< ye] m)"
    if "x' \<in> set [unat x ..< xe]" for x' m
    by (rule paints_fold [OF assms(1)]) (use st that in auto)
  have "paints f (\<Union>x' \<in> set [unat x ..< xe]. \<Union>y' \<in> set [unat y ..< ye]. {(x', y')}) (\<lambda>_. c) m
      (fold (\<lambda>x'. fold (?st x') [unat y ..< ye]) [unat x ..< xe] m)"
    by (rule paints_fold [OF assms(1) col]) (use st in auto)
  moreover have "(\<Union>x' \<in> set [unat x ..< xe]. \<Union>y' \<in> set [unat y ..< ye]. {(x', y')}) =
      area (unat x) (unat y) (unat sx) (unat sy) \<inter> on_screen f"
    by (auto simp: area_def on_screen_def xe_def ye_def)
  ultimately show ?thesis by (simp add: vcanvas_fill_rect_def Let_def r fold_map comp_def)
qed


definition view :: "viewport \<Rightarrow> (nat \<times> nat) set" where
  "view v = area (unat (pos_x v)) (unat (pos_y v)) (unat (size_x v)) (unat (size_y v))"

definition view_small :: "viewport \<Rightarrow> bool" where
  "view_small v \<longleftrightarrow> unat (pos_x v) + unat (size_x v) < 2 ^ 31 \<and> unat (pos_y v) + unat (size_y v) < 2 ^ 31"

text \<open>One axis of the clipping: a position inside the viewport and a length cut to the viewport's size.\<close>

lemma clip_axis:
  assumes "unat p + unat room < 2 ^ 31" "unat x + unat s < 2 ^ 32" "x < room"
  shows "unat (p + x) = unat p + unat x"
    and "unat (if x + s > room then room - x else s :: u32) = min (unat s) (unat room - unat x)"
proof -
  have lt: "unat x < unat room" using assms(3) by (simp add: word_less_nat_alt)
  then show "unat (p + x) = unat p + unat x" using assms(1) by (simp add: unat_word_ariths)
  have "unat (x + s) = unat x + unat s" using assms(2) by (simp add: unat_word_ariths)
  moreover have "unat (room - x) = unat room - unat x" using lt by (simp add: unat_sub word_le_nat_alt)
  ultimately show "unat (if x + s > room then room - x else s) = min (unat s) (unat room - unat x)"
    using lt by (auto simp: word_less_nat_alt min_def)
qed

lemma viewport_fill_rect_paints_view:
  assumes "fb_ok f" "view_small v" "unat x + unat sx < 2 ^ 32" "unat y + unat sy < 2 ^ 32"
  shows "paints f (area (unat (pos_x v) + unat x) (unat (pos_y v) + unat y) (unat sx) (unat sy) \<inter> view v \<inter> on_screen f)
    (\<lambda>_. c) m (viewport_fill_rect f v x y sx sy c m)"
proof (cases "x \<ge> size_x v \<or> y \<ge> size_y v")
  case True
  then have "area (unat (pos_x v) + unat x) (unat (pos_y v) + unat y) (unat sx) (unat sy) \<inter> view v = {}"
    by (auto simp: area_def view_def word_le_nat_alt)
  then show ?thesis using True by (simp add: viewport_fill_rect_def paints_empty)
next
  case False
  then have lt: "x < size_x v" "y < size_y v" by (simp_all add: not_le)
  define sx' where "sx' = (if x + sx > size_x v then size_x v - x else sx)"
  define sy' where "sy' = (if y + sy > size_y v then size_y v - y else sy)"
  note X = clip_axis [of "pos_x v" "size_x v" x sx, folded sx'_def] and Y = clip_axis [of "pos_y v" "size_y v" y sy, folded sy'_def]
  have e: "unat (pos_x v + x) = unat (pos_x v) + unat x" "unat sx' = min (unat sx) (unat (size_x v) - unat x)"
    "unat (pos_y v + y) = unat (pos_y v) + unat y" "unat sy' = min (unat sy) (unat (size_y v) - unat y)"
    using X Y assms lt by (simp_all add: view_small_def)
  have l: "unat x < unat (size_x v)" "unat y < unat (size_y v)" using lt by (simp_all add: word_less_nat_alt)
  have A: "area (unat (pos_x v) + unat x) (unat (pos_y v) + unat y) (unat sx') (unat sy') =
      area (unat (pos_x v) + unat x) (unat (pos_y v) + unat y) (unat sx) (unat sy) \<inter> view v"
    unfolding e(2,4) by (auto simp: area_def view_def)
  have "paints f (area (unat (pos_x v + x)) (unat (pos_y v + y)) (unat sx') (unat sy') \<inter> on_screen f) (\<lambda>_. c) m
      (vcanvas_fill_rect f (pos_x v + x) (pos_y v + y) sx' sy' c m)"
    by (rule vcanvas_fill_rect_paints) (use assms(1,2) l in \<open>auto simp: e view_small_def\<close>)
  moreover have "viewport_fill_rect f v x y sx sy c m = vcanvas_fill_rect f (pos_x v + x) (pos_y v + y) sx' sy' c m"
    unfolding viewport_fill_rect_def Let_def sx'_def sy'_def using False by simp
  ultimately show ?thesis by (simp only: e(1,3) A)
qed

section \<open>Glyphs drawn\<close>

text \<open>No byte of the screen is in the font's header or in the lines of a glyph.\<close>

definition apart_from_screen :: "fb \<Rightarrow> ptr \<Rightarrow> nat \<Rightarrow> bool" where
  "apart_from_screen f a n \<longleftrightarrow> (\<forall>p \<in> on_screen f. pixel_bytes f p \<inter> {a ..< a + n} = {})"

lemma paints_reads:
  assumes "paints f A col m m'" "A \<subseteq> on_screen f" "apart_from_screen f a n" "b \<in> {a ..< a + n}"
  shows "m' b = m b"
proof -
  have "b \<notin> (\<Union>p \<in> A. pixel_bytes f p)" using assms(2-4) unfolding apart_from_screen_def by blast
  then show ?thesis using assms(1) by (simp add: paints_def)
qed

definition glyph_colour :: "bmem \<Rightarrow> ptr \<Rightarrow> nat \<Rightarrow> nat \<Rightarrow> u32 \<Rightarrow> u32 \<Rightarrow> nat \<Rightarrow> nat \<Rightarrow> nat \<times> nat \<Rightarrow> u32" where
  "glyph_colour m g line w fg bg X Y p = (if bit (m (g + line * (snd p - Y))) (w - 1 - (fst p - X)) then fg else bg)"

lemma signed_drop_bit_push: "k < 30 \<Longrightarrow> signed_drop_bit 1 (push_bit (Suc k) 1 :: u32) = push_bit k 1"
  by (rule bit_word_eqI) (auto simp: bit_simps)

lemma and_push_bit_1: "k < 32 \<Longrightarrow> (ucast (b :: u8) :: u32) AND push_bit k 1 \<noteq> 0 \<longleftrightarrow> bit b k"
  using and_exp_eq_0_iff_not_bit [of "ucast b :: u32" k] by (simp add: push_bit_eq_mult bit_simps)

lemma glyph_line_paints:
  assumes "fb_ok f" "area X Y lim 1 \<subseteq> on_screen f" "unat x = X" "unat y = Y" "w \<le> 31" "1 \<le> w"
    "apart_from_screen f g 1" "lim \<le> w" "i + n \<le> lim"
  shows "paints f (area (X + i) Y n 1) (\<lambda>p. if bit (m g) (w - 1 - (fst p - X)) then fg else bg) m
    (glyph_line f g x y fg bg n (of_nat i) (push_bit (w - 1 - i) 1) m)"
  using assms(9)
proof (induction n arbitrary: i m)
  case (Suc n)
  let ?col = "\<lambda>p. if bit (m g) (w - 1 - (fst p - X)) then fg else bg"
  let ?v = "if ucast (m g) AND push_bit (w - 1 - i) 1 \<noteq> (0 :: u32) then fg else bg"
  let ?m = "store32 (fb_get_pixel_addr f (x + of_nat i) y) ?v m"
  have on: "(X + i, Y) \<in> on_screen f" using assms(2) Suc.prems by (auto simp: area_def)
  have xy: "x + of_nat i = of_nat (X + i)" "y = of_nat Y" using assms(3,4) by auto
  have st: "paints f {(X + i, Y)} ?col m ?m"
  proof (rule paints_store)
    show "fb_get_pixel_addr f (x + of_nat i) y = pix f (X + i, Y)"
      unfolding fb_get_pixel_addr_def xy unat_pixel [OF assms(1) on] by (simp add: pix_def)
    show "?col (X + i, Y) = ?v" using and_push_bit_1 [of "w - 1 - i" "m g"] assms(5,6) by simp
  qed
  have g: "?m g = m g" using paints_reads [OF st _ assms(7), of g] on by simp
  show ?case
  proof (cases n)
    case 0
    have "area (X + i) Y (Suc n) 1 = {(X + i, Y)}" using 0 by (auto simp: area_def)
    then show ?thesis using st 0 by simp
  next
    case (Suc k)
    then have i: "Suc i + n \<le> lim" "w - 1 - i = Suc (w - 1 - Suc i)" using Suc.prems assms(8) by linarith+
    have "paints f (area (X + Suc i) Y n 1) ?col ?m
        (glyph_line f g x y fg bg n (of_nat (Suc i)) (push_bit (w - 1 - Suc i) 1) ?m)"
      using Suc.IH [OF i(1), of ?m] unfolding g .
    then have "paints f ({(X + i, Y)} \<union> area (X + Suc i) Y n 1) ?col m
        (glyph_line f g x y fg bg n (of_nat (Suc i)) (push_bit (w - 1 - Suc i) 1) ?m)"
      using on assms(2) i(1) by (intro paints_trans [OF assms(1) _ _ st]) (auto simp: area_def)
    moreover have "{(X + i, Y)} \<union> area (X + Suc i) Y n 1 = area (X + i) Y (Suc n) 1" by (auto simp: area_def)
    moreover have "signed_drop_bit 1 (push_bit (w - 1 - i) 1 :: u32) = push_bit (w - 1 - Suc i) 1"
      unfolding i(2) by (rule signed_drop_bit_push) (use assms(5) in linarith)
    ultimately show ?thesis by (simp add: add.commute)
  qed
qed (simp add: area_def paints_empty)


lemma paints_cong: "paints f A col m m' \<Longrightarrow> (\<And>p. p \<in> A \<Longrightarrow> col p = col' p) \<Longrightarrow> paints f A col' m m'"
  by (simp add: paints_def)

lemma glyph_lines_paints:
  assumes "fb_ok f" "area X Y w h \<subseteq> on_screen f" "unat x = X" "unat y = Y" "w \<le> 31" "1 \<le> w"
    "psf_width m0 font = of_nat w0" "w \<le> w0" "w0 \<le> 31"
    "apart_from_screen f g (unat k * h)" "1 \<le> unat k" "apart_from_screen f font 32" "j + n \<le> h" "unat lim = w"
    "\<forall>a \<in> {g ..< g + unat k * h} \<union> {font ..< font + 32}. m a = m0 a"
  shows "paints f (area X (Y + j) w n) (glyph_colour m0 g (unat k) w0 fg bg X Y) m
    (glyph_lines f font x y fg bg lim k n (of_nat j) (g + unat k * j) m)"
  using assms(13,15)
proof (induction n arbitrary: j m)
  case (Suc n)
  let ?l = "glyph_line f (g + unat k * j) x (y + of_nat j) fg bg (unat lim) 0 (push_bit (unat (psf_width m font - 1)) 1) m"
  have pw: "psf_width m font = of_nat w0"
    using Suc.prems(2) assms(7) by (simp add: psf_width_def load32_def)
  have w0: "unat (psf_width m font - 1) = w0 - 1"
  proof -
    have "(1 :: nat) \<le> w0" "w0 \<le> 31" using assms(6,8,9) by simp_all
    then have "unat (of_nat w0 :: u32) = w0" by (simp add: unat_of_nat take_bit_nat_eq_self)
    then show ?thesis using \<open>1 \<le> w0\<close> unfolding pw by (subst unat_sub) (simp_all add: word_le_nat_alt)
  qed
  have row: "area X (Y + j) w 1 \<subseteq> on_screen f" using assms(2) Suc.prems(1) by (auto simp: area_def)
  have yj: "unat (y + of_nat j) = Y + j"
  proof -
    have "(X, Y + j) \<in> on_screen f" using row assms(6) by (auto simp: area_def)
    then have "Y + j < 2 ^ 31" using fb_small(2) [OF assms(1)] by (auto simp: on_screen_def)
    then show ?thesis using assms(4) by (auto simp: unat_word_ariths unat_of_nat take_bit_nat_eq_self)
  qed
  have "unat k * Suc j \<le> unat k * h" using Suc.prems(1) by (intro mult_le_mono2) simp
  then have gj: "g + unat k * j \<in> {g ..< g + unat k * h}"
    using assms(11) by (simp only: mult_Suc_right atLeastLessThan_iff) linarith
  have "{g + unat k * j ..< g + unat k * j + 1} \<subseteq> {g ..< g + unat k * h}" using gj by auto
  then have "apart_from_screen f (g + unat k * j) 1" using assms(10) unfolding apart_from_screen_def by blast
  then have "paints f (area (X + 0) (Y + j) w 1) (\<lambda>p. if bit (m (g + unat k * j)) (w0 - 1 - (fst p - X)) then fg else bg) m ?l"
    using glyph_line_paints [where g = "g + unat k * j" and i = 0 and n = w and m = m and fg = fg and bg = bg,
        OF assms(1) row assms(3) yj assms(9) _ _ assms(8)] assms(6,8,14)
    by (simp add: w0)
  then have line: "paints f (area X (Y + j) w 1) (glyph_colour m0 g (unat k) w0 fg bg X Y) m ?l"
    unfolding add_0_right by (rule paints_cong) (use Suc.prems gj in \<open>auto simp: glyph_colour_def area_def\<close>)
  have same: "\<forall>a \<in> {g ..< g + unat k * h} \<union> {font ..< font + 32}. ?l a = m0 a"
    using paints_reads [OF line row assms(10)] paints_reads [OF line row assms(12)] Suc.prems(2) by (metis UnE)
  have "paints f (area X (Y + Suc j) w n) (glyph_colour m0 g (unat k) w0 fg bg X Y) ?l
      (glyph_lines f font x y fg bg lim k n (of_nat (Suc j)) (g + unat k * Suc j) ?l)"
    by (rule Suc.IH) (use Suc.prems(1) same in auto)
  then have "paints f (area X (Y + j) w 1 \<union> area X (Y + Suc j) w n) (glyph_colour m0 g (unat k) w0 fg bg X Y) m
      (glyph_lines f font x y fg bg lim k n (of_nat (Suc j)) (g + unat k * Suc j) ?l)"
    using row assms(2) Suc.prems(1) by (intro paints_trans [OF assms(1) _ _ line]) (auto simp: area_def)
  moreover have "area X (Y + j) w 1 \<union> area X (Y + Suc j) w n = area X (Y + j) w (Suc n)" by (auto simp: area_def)
  ultimately show ?case by (simp add: ac_simps)
qed (simp add: area_def paints_empty)

text \<open>The pixels of a character at \<open>(x, y)\<close> of the viewport, as far as they are inside it.\<close>

lemma viewport_draw_char_paints:
  assumes "fb_ok f" "view v \<subseteq> on_screen f" "view_small v" "x < size_x v" "y < size_y v"
    "1 \<le> psf_width m font" "psf_width m font \<le> 31" "unat (psf_height m font) < 2 ^ 31"
    "apart_from_screen f (font_get_glyph m font c) ((unat (psf_width m font) + 7) div 8 * unat (psf_height m font))"
    "apart_from_screen f font 32"
  shows "paints f
    (area (unat (pos_x v) + unat x) (unat (pos_y v) + unat y) (unat (psf_width m font)) (unat (psf_height m font)) \<inter> view v)
    (glyph_colour m (font_get_glyph m font c) ((unat (psf_width m font) + 7) div 8) (unat (psf_width m font)) fg bg
       (unat (pos_x v) + unat x) (unat (pos_y v) + unat y))
    m (viewport_draw_char f font v x y fg bg c m)"
proof -
  let ?k = "(psf_width m font + 7) div 8"
  define w0 where "w0 = unat (psf_width m font)"
  define h0 where "h0 = unat (psf_height m font)"
  define sx where "sx = (if x + psf_width m font > size_x v then size_x v - x else psf_width m font)"
  define sy where "sy = (if y + psf_height m font > size_y v then size_y v - y else psf_height m font)"
  have w0: "1 \<le> w0" "w0 \<le> 31" using assms(6,7) by (simp_all add: w0_def word_le_nat_alt)
  have vs: "unat (pos_x v) + unat (size_x v) < 2 ^ 31" "unat (pos_y v) + unat (size_y v) < 2 ^ 31"
    using assms(3) by (simp_all add: view_small_def)
  have l: "unat x < unat (size_x v)" "unat y < unat (size_y v)" using assms(4,5) by (simp_all add: word_less_nat_alt)
  have nw: "unat x + unat (psf_width m font) < 2 ^ 32" "unat y + unat (psf_height m font) < 2 ^ 32"
    using l vs w0(2) assms(8) by (simp_all add: w0_def)
  have e: "unat (pos_x v + x) = unat (pos_x v) + unat x" "unat sx = min w0 (unat (size_x v) - unat x)"
    "unat (pos_y v + y) = unat (pos_y v) + unat y" "unat sy = min h0 (unat (size_y v) - unat y)"
    unfolding sx_def sy_def w0_def h0_def
    using clip_axis [OF vs(1) nw(1) assms(4)] clip_axis [OF vs(2) nw(2) assms(5)] by simp_all
  define w where "w = unat sx"
  define h where "h = unat sy"
  have wh: "1 \<le> w" "w \<le> w0" "h \<le> h0" using w0(1) l by (simp_all add: w_def h_def e)
  have lims: "unat (min (psf_width m font) sx) = w" "unat (min (psf_height m font) sy) = h"
    using wh by (simp_all add: w_def h_def w0_def h0_def min_def word_le_nat_alt)
  have bpl: "unat ((psf_width m font + 7) div 8) = (w0 + 7) div 8" "1 \<le> (w0 + 7) div 8"
  proof -
    have "unat (psf_width m font + 7) = w0 + 7" using w0(2) by (simp add: unat_word_ariths w0_def)
    then show "unat ((psf_width m font + 7) div 8) = (w0 + 7) div 8" by (simp add: unat_div)
    show "1 \<le> (w0 + 7) div 8" using w0(1) by simp
  qed
  have A: "area (unat (pos_x v) + unat x) (unat (pos_y v) + unat y) w0 h0 \<inter> view v =
      area (unat (pos_x v) + unat x) (unat (pos_y v) + unat y) w h"
    unfolding w_def h_def e by (auto simp: area_def view_def)
  have "paints f (area (unat (pos_x v) + unat x) (unat (pos_y v) + unat y + 0) w h)
     (glyph_colour m (font_get_glyph m font c) (unat ?k) w0 fg bg (unat (pos_x v) + unat x) (unat (pos_y v) + unat y)) m
     (glyph_lines f font (pos_x v + x) (pos_y v + y) fg bg (min (psf_width m font) sx) ?k h (of_nat 0)
       (font_get_glyph m font c + unat ?k * 0) m)"
  proof (rule glyph_lines_paints [OF assms(1)])
    show "area (unat (pos_x v) + unat x) (unat (pos_y v) + unat y) w h \<subseteq> on_screen f" using A assms(2) by blast
    show "w \<le> 31" using wh w0 by simp
    show "psf_width m font = of_nat w0" by (simp add: w0_def)
    have "(w0 + 7) div 8 * h \<le> (w0 + 7) div 8 * h0" using wh(3) by (rule mult_le_mono2)
    then have "{a ..< a + (w0 + 7) div 8 * h} \<subseteq> {a ..< a + (w0 + 7) div 8 * h0}" for a by auto
    then show "apart_from_screen f (font_get_glyph m font c) (unat ?k * h)"
      using assms(9) unfolding apart_from_screen_def bpl(1) w0_def h0_def by blast
    show "1 \<le> unat ?k" using bpl by simp
  qed (use e wh w0 lims assms(10) in simp_all)
  then show ?thesis
    using assms(4,5) [unfolded not_le [symmetric]] unfolding w0_def [symmetric] h0_def [symmetric] A
    by (simp add: viewport_draw_char_def vcanvas_draw_glyph_def Let_def lims(2) bpl(1)
        sx_def [symmetric] sy_def [symmetric])
qed


section \<open>Copying\<close>

lemma pix_next_line: "pix f (x, Suc y) = pix f (x, y) + unat (fb_pitch f)"
  by (simp add: pix_def)

text \<open>Line \<open>Y\<close> of the screen from \<open>X\<close> on, \<open>w\<close> pixels.\<close>

lemma line_bytes: "(\<Union>p \<in> area X Y w 1. pixel_bytes f p) = {pix f (X, Y) ..< pix f (X, Y) + 4 * w}"
proof -
  have "(\<Union>i < w. {b + 4 * i ..< b + 4 * i + 4}) = {b ..< b + 4 * w}" for b :: nat
    by (induction w) (auto simp: lessThan_Suc)
  moreover have "(\<Union>p \<in> area X Y w 1. pixel_bytes f p) = (\<Union>i < w. {pix f (X, Y) + 4 * i ..< pix f (X, Y) + 4 * i + 4})"
  proof -
    have "area X Y w 1 = (\<lambda>i. (X + i, Y)) ` {..< w}" by (force simp: area_def image_iff le_iff_add)
    then show ?thesis by (simp add: pixel_bytes_def pix_def algebra_simps)
  qed
  ultimately show ?thesis by simp
qed

lemma lines_apart:
  assumes "fb_ok f" "area X0 Y0 w 1 \<subseteq> on_screen f" "area X1 Y1 w 1 \<subseteq> on_screen f" "Y0 \<noteq> Y1"
  shows "{pix f (X0, Y0) ..< pix f (X0, Y0) + 4 * w} \<inter> {pix f (X1, Y1) ..< pix f (X1, Y1) + 4 * w} = {}"
proof -
  have "pixel_bytes f p \<inter> pixel_bytes f q = {}" if "p \<in> area X0 Y0 w 1" "q \<in> area X1 Y1 w 1" for p q
  proof (rule pixel_bytes_disjoint [OF assms(1)])
    show "p \<noteq> q" using that assms(4) by (auto simp: area_def)
  qed (use that assms(2,3) in auto)
  then show ?thesis unfolding line_bytes [symmetric] by blast
qed

lemma line_copy_paints:
  assumes "fb_ok f" "area X0 Y0 w 1 \<subseteq> on_screen f" "area X1 Y1 w 1 \<subseteq> on_screen f" "Y0 \<noteq> Y1"
  obtains m' where "memcpy (pix f (X1, Y1)) (pix f (X0, Y0)) (4 * w) m = Inr m'"
    "paints f (area X1 Y1 w 1) (\<lambda>p. load32 m (pix f (X0 + (fst p - X1), Y0))) m m'"
proof
  let ?d = "pix f (X1, Y1)" and ?s = "pix f (X0, Y0)"
  have "?d \<le> ?s \<or> ?s + 4 * w \<le> ?d"
  proof (rule ccontr)
    assume "\<not> ?thesis"
    then have "?d \<in> {?s ..< ?s + 4 * w} \<inter> {?d ..< ?d + 4 * w}" by auto
    then show False using lines_apart [OF assms] by blast
  qed
  then show "memcpy ?d ?s (4 * w) m = Inr (bytes_copied ?d ?s (4 * w) m)" by (rule memcpy_eq)
  show "paints f (area X1 Y1 w 1) (\<lambda>p. load32 m (pix f (X0 + (fst p - X1), Y0))) m (bytes_copied ?d ?s (4 * w) m)"
    unfolding paints_def
  proof (intro conjI ballI allI impI)
    fix a
    assume "a \<notin> (\<Union>p \<in> area X1 Y1 w 1. pixel_bytes f p)"
    then show "bytes_copied ?d ?s (4 * w) m a = m a" unfolding line_bytes by (auto simp: bytes_copied_def)
  next
    fix p
    assume "p \<in> area X1 Y1 w 1"
    then obtain i where p: "p = (X1 + i, Y1)" "i < w" by (force simp: area_def le_iff_add)
    have "bytes_copied ?d ?s (4 * w) m (?d + k) = m (?s + k)" if "k < 4 * w" for k using that by (simp add: bytes_copied_def)
    moreover have "pix f p = ?d + 4 * i" "pix f (X0 + (fst p - X1), Y0) = ?s + 4 * i" by (simp_all add: pix_def p)
    ultimately show "load32 (bytes_copied ?d ?s (4 * w) m) (pix f p) = load32 m (pix f (X0 + (fst p - X1), Y0))"
      using p(2) by (auto intro!: load32_shift simp: add.assoc)
  qed
qed

lemma copy_lines_paints:
  assumes "fb_ok f" "area X0 Y0 w h \<subseteq> on_screen f" "area X1 Y1 w h \<subseteq> on_screen f"
    "{Y0 ..< Y0 + h} \<inter> {Y1 ..< Y1 + h} = {}"
    "\<forall>q \<in> area X0 Y0 w h. load32 m (pix f q) = load32 m0 (pix f q)"
  shows "\<exists>m'. copy_lines (fb_pitch f) (4 * w) h (pix f (X1, Y1)) (pix f (X0, Y0)) m = Inr m' \<and>
    paints f (area X1 Y1 w h) (\<lambda>p. load32 m0 (pix f (X0 + (fst p - X1), Y0 + (snd p - Y1)))) m m'"
  using assms(2-5)
proof (induction h arbitrary: Y0 Y1 m)
  case (Suc h)
  let ?col = "\<lambda>p. load32 m0 (pix f (X0 + (fst p - X1), Y0 + (snd p - Y1)))"
  have first: "area X0 Y0 w 1 \<subseteq> area X0 Y0 w (Suc h)" "area X1 Y1 w 1 \<subseteq> area X1 Y1 w (Suc h)"
    "area X0 (Suc Y0) w h \<subseteq> area X0 Y0 w (Suc h)" "area X1 (Suc Y1) w h \<subseteq> area X1 Y1 w (Suc h)"
    by (auto simp: area_def)
  have "Y0 \<noteq> Y1" using Suc.prems(3) by auto
  then obtain m1 where m1: "memcpy (pix f (X1, Y1)) (pix f (X0, Y0)) (4 * w) m = Inr m1"
    "paints f (area X1 Y1 w 1) (\<lambda>p. load32 m (pix f (X0 + (fst p - X1), Y0))) m m1"
    using line_copy_paints [OF assms(1), of X0 Y0 w X1 Y1 m] Suc.prems(1,2) first by (metis order_trans)
  have p1: "paints f (area X1 Y1 w 1) ?col m m1"
  proof (rule paints_cong [OF m1(2)])
    fix p
    assume "p \<in> area X1 Y1 w 1"
    then have "snd p = Y1" "(X0 + (fst p - X1), Y0) \<in> area X0 Y0 w (Suc h)" by (auto simp: area_def)
    then show "load32 m (pix f (X0 + (fst p - X1), Y0)) = ?col p" using Suc.prems(4) by simp
  qed
  have "load32 m1 (pix f q) = load32 m0 (pix f q)" if "q \<in> area X0 (Suc Y0) w h" for q
  proof -
    have "q \<in> on_screen f - area X1 Y1 w 1" "q \<in> area X0 Y0 w (Suc h)"
      using that Suc.prems(1,3) first(3) by (auto simp: area_def)
    then show ?thesis using paints_keeps [OF assms(1) _ _ p1] Suc.prems(2,4) first(2) by (metis order_trans)
  qed
  moreover have "{Suc Y0 ..< Suc Y0 + h} \<inter> {Suc Y1 ..< Suc Y1 + h} = {}" using Suc.prems(3) by auto
  ultimately obtain m' where m': "copy_lines (fb_pitch f) (4 * w) h (pix f (X1, Suc Y1)) (pix f (X0, Suc Y0)) m1 = Inr m'"
    "paints f (area X1 (Suc Y1) w h) (\<lambda>p. load32 m0 (pix f (X0 + (fst p - X1), Suc Y0 + (snd p - Suc Y1)))) m1 m'"
    using Suc.IH [of "Suc Y0" "Suc Y1" m1] Suc.prems(1,2) first(3,4) by blast
  have "paints f (area X1 (Suc Y1) w h) ?col m1 m'"
  proof (rule paints_cong [OF m'(2)])
    fix p
    assume "p \<in> area X1 (Suc Y1) w h"
    then have "Suc Y0 + (snd p - Suc Y1) = Y0 + (snd p - Y1)" by (auto simp: area_def)
    then show "load32 m0 (pix f (X0 + (fst p - X1), Suc Y0 + (snd p - Suc Y1))) = ?col p" by (simp only:)
  qed
  then have "paints f (area X1 Y1 w 1 \<union> area X1 (Suc Y1) w h) ?col m m'"
    using Suc.prems(2) first by (intro paints_trans [OF assms(1) _ _ p1]) auto
  moreover have "area X1 Y1 w 1 \<union> area X1 (Suc Y1) w h = area X1 Y1 w (Suc h)" by (auto simp: area_def)
  ultimately show ?case using m1(1) m'(1) by (simp add: pix_next_line)
qed (simp add: area_def paints_empty)


section \<open>Copying with clipping\<close>

lemma not_apart_meet:
  assumes "seg_ok s0" "seg_ok s1" "\<not> apart s0 s1" "0 < uint (seg_size s0)" "0 < uint (seg_size s1)"
  shows "extent s0 \<inter> extent s1 \<noteq> {}"
proof -
  have ends: "sint (seg_offset s0 + seg_size s0) = sint (seg_offset s0) + uint (seg_size s0)"
    "sint (seg_offset s1 + seg_size s1) = sint (seg_offset s1) + uint (seg_size s1)"
    using assms(1,2) by (simp_all add: seg_ok_def sint_add_size)
  have "max (sint (seg_offset s0)) (sint (seg_offset s1)) \<in> extent s0 \<inter> extent s1"
    using assms(3-5) by (auto simp: extent_def apart_def word_sle_eq ends)
  then show ?thesis by blast
qed

text \<open>The rectangle that a call to \<^verbatim>\<open>viewport_copy_rect\<close> reads, and the pixel that a point of it is copied to.\<close>

definition src_rect :: "u32 \<Rightarrow> u32 \<Rightarrow> u32 \<Rightarrow> u32 \<Rightarrow> rect" where
  "src_rect x0 y0 sx sy =
     \<lparr>rect_x = \<lparr>seg_offset = x0, seg_size = sx\<rparr>, rect_y = \<lparr>seg_offset = y0, seg_size = sy\<rparr>\<rparr>"

definition view_rect :: "viewport \<Rightarrow> rect" where
  "view_rect v = src_rect 0 0 (size_x v) (size_y v)"

definition dest :: "viewport \<Rightarrow> u32 \<Rightarrow> u32 \<Rightarrow> u32 \<Rightarrow> u32 \<Rightarrow> int \<times> int \<Rightarrow> nat \<times> nat" where
  "dest v x0 y0 x1 y1 q =
     (unat (pos_x v) + unat x1 + nat (fst q - sint x0), unat (pos_y v) + unat y1 + nat (snd q - sint y0))"

text \<open>A sub-rectangle of the source: its translated corner as the code computes it, and its pixels.\<close>

lemma dest_offset:
  assumes "sint x0 \<le> sint (a :: u32)" "sint a - sint x0 + int (unat x1) < 2 ^ 32"
  shows "unat (a - x0 + x1) = nat (sint a - sint x0) + unat x1"
proof -
  have "uint (a - x0) = sint a - sint x0" by (rule uint_diff_signed [OF assms(1)])
  then have d: "unat (a - x0) = nat (sint a - sint x0)" by (simp flip: nat_uint_eq)
  have "nat (sint a - sint x0) + unat x1 = nat (sint a - sint x0 + int (unat x1))"
    using assms(1) by (simp only: nat_add_distrib nat_int diff_ge_0_iff_ge of_nat_0_le_iff)
  then have "unat (a - x0) + unat x1 < 2 ^ 32" unfolding d using assms by (simp only: nat_less_iff) simp
  then show ?thesis using d by (simp add: unat_word_ariths)
qed

lemma dest_points:
  assumes "\<And>a. a \<in> extent (rect_x r) \<Longrightarrow> sint x0 \<le> a" "\<And>b. b \<in> extent (rect_y r) \<Longrightarrow> sint y0 \<le> b"
    "0 < uint (seg_size (rect_x r))" "0 < uint (seg_size (rect_y r))"
  shows "dest v x0 y0 x1 y1 ` points r =
    area (unat (pos_x v) + unat x1 + nat (sint (seg_offset (rect_x r)) - sint x0))
      (unat (pos_y v) + unat y1 + nat (sint (seg_offset (rect_y r)) - sint y0))
      (unat (seg_size (rect_x r))) (unat (seg_size (rect_y r)))"
proof -
  define a n b k where defs: "a = sint (seg_offset (rect_x r))" "n = unat (seg_size (rect_x r))"
    "b = sint (seg_offset (rect_y r))" "k = unat (seg_size (rect_y r))"
  have nk: "uint (seg_size (rect_x r)) = int n" "uint (seg_size (rect_y r)) = int k" by (simp_all add: defs)
  have "a \<in> extent (rect_x r)" "b \<in> extent (rect_y r)" using assms(3,4) by (simp_all add: extent_def defs)
  then have le: "sint x0 \<le> a" "sint y0 \<le> b" using assms(1,2) by blast+
  have 1: "(\<lambda>i. p + nat (i - c)) ` {a ..< a + int n} = {p + nat (a - c) ..< p + nat (a - c) + n}"
    if "c \<le> a" for p n :: nat and a c :: int
  proof
    show "{p + nat (a - c) ..< p + nat (a - c) + n} \<subseteq> (\<lambda>i. p + nat (i - c)) ` {a ..< a + int n}"
    proof
      fix q
      assume q: "q \<in> {p + nat (a - c) ..< p + nat (a - c) + n}"
      then have "q = p + nat ((int q - int p + c) - c)" "int q - int p + c \<in> {a ..< a + int n}" using that by auto
      then show "q \<in> (\<lambda>i. p + nat (i - c)) ` {a ..< a + int n}" by blast
    qed
  qed (use that in auto)
  have "dest v x0 y0 x1 y1 ` points r = (\<lambda>i. unat (pos_x v) + unat x1 + nat (i - sint x0)) ` {a ..< a + int n} \<times>
      (\<lambda>j. unat (pos_y v) + unat y1 + nat (j - sint y0)) ` {b ..< b + int k}"
    unfolding points_def extent_def nk defs(1,3) [symmetric] by (force simp: dest_def)
  then show ?thesis unfolding 1 [OF le(1)] 1 [OF le(2)] by (simp add: area_def defs)
qed


text \<open>The outer regions are filled with the background, pixel by pixel of their translation.\<close>

lemma fill_region_paints:
  assumes "fb_ok f" "view_small v" "view v \<subseteq> on_screen f"
    "points (rg_r ir) \<subseteq> points (src_rect x0 y0 sx sy) \<or> \<not> rg_exists ir"
    "unat x1 + unat sx \<le> unat (size_x v)" "unat y1 + unat sy \<le> unat (size_y v)"
  shows "paints f (dest v x0 y0 x1 y1 ` region_points ir) (\<lambda>_. bg) m (fill_region f v x0 y0 x1 y1 bg ir m)"
proof (cases "rg_exists ir \<and> seg_size (rect_x (rg_r ir)) \<noteq> 0 \<and> seg_size (rect_y (rg_r ir)) \<noteq> 0")
  case False
  then have "region_points ir = {}" by (auto simp: region_points_def points_def extent_def)
  then show ?thesis using False by (auto simp: fill_region_def paints_empty)
next
  case True
  let ?X = "rect_x (rg_r ir)" and ?Y = "rect_y (rg_r ir)"
  define ox oy n k where "ox = sint (seg_offset ?X)" "oy = sint (seg_offset ?Y)"
    "n = unat (seg_size ?X)" "k = unat (seg_size ?Y)"
  note defs = this
  have ext: "extent ?X = {ox ..< ox + int n}" "extent ?Y = {oy ..< oy + int k}" by (simp_all add: extent_def defs)
  have pos: "0 < n" "0 < k" using True by (simp_all add: defs unat_gt_0)
  have "extent ?X \<times> extent ?Y \<subseteq> {sint x0 ..< sint x0 + int (unat sx)} \<times> {sint y0 ..< sint y0 + int (unat sy)}"
    using assms(4) True by (simp add: points_def src_rect_def extent_def)
  then have sub: "{ox ..< ox + int n} \<subseteq> {sint x0 ..< sint x0 + int (unat sx)}"
    "{oy ..< oy + int k} \<subseteq> {sint y0 ..< sint y0 + int (unat sy)}"
    using pos unfolding ext by (auto simp: times_subset_iff)
  have b: "sint x0 \<le> ox" "ox + int n \<le> sint x0 + int (unat sx)" "sint y0 \<le> oy" "oy + int k \<le> sint y0 + int (unat sy)"
    using sub pos by (simp_all add: ivl_subset)
  have small: "unat (size_x v) < 2 ^ 31" "unat (size_y v) < 2 ^ 31" using assms(2) by (simp_all add: view_small_def)
  have lt: "ox - sint x0 + int (unat x1) < 2 ^ 32" "oy - sint y0 + int (unat y1) < 2 ^ 32"
  proof -
    have "ox - sint x0 + int (unat x1) < int (unat (size_x v))" "oy - sint y0 + int (unat y1) < int (unat (size_y v))"
      using b pos assms(5,6) by linarith+
    moreover have "int (unat (size_x v)) < 2 ^ 32" "int (unat (size_y v)) < 2 ^ 32"
      using uint_lt2p [of "size_x v"] uint_lt2p [of "size_y v"] by simp_all
    ultimately show "ox - sint x0 + int (unat x1) < 2 ^ 32" "oy - sint y0 + int (unat y1) < 2 ^ 32" by linarith+
  qed
  have off: "unat (seg_offset ?X - x0 + x1) = nat (ox - sint x0) + unat x1"
    "unat (seg_offset ?Y - y0 + y1) = nat (oy - sint y0) + unat y1"
    unfolding defs(1,2) by (rule dest_offset; use b lt in \<open>simp only: defs\<close>)+
  let ?A = "area (unat (pos_x v) + unat x1 + nat (ox - sint x0)) (unat (pos_y v) + unat y1 + nat (oy - sint y0)) n k"
  have img: "dest v x0 y0 x1 y1 ` region_points ir = ?A"
  proof -
    have pts: "region_points ir = points (rg_r ir)" using True by (simp add: region_points_def)
    have up: "0 < uint (seg_size ?X)" "0 < uint (seg_size ?Y)" unfolding uint_nat using pos by (simp_all only: defs of_nat_0_less_iff)
    show ?thesis unfolding pts defs
      by (rule dest_points [OF _ _ up]) (use b in \<open>simp_all add: ext\<close>)
  qed
  have nb: "nat (ox - sint x0) + n \<le> unat sx" "nat (oy - sint y0) + k \<le> unat sy" using b by linarith+
  then have "?A \<subseteq> view v" using assms(5,6) by (auto simp: area_def view_def)
  then have A: "?A \<inter> view v \<inter> on_screen f = ?A" using assms(3) by blast
  have at: "unat (pos_x v) + unat (seg_offset ?X - x0 + x1) = unat (pos_x v) + unat x1 + nat (ox - sint x0)"
    "unat (pos_y v) + unat (seg_offset ?Y - y0 + y1) = unat (pos_y v) + unat y1 + nat (oy - sint y0)"
    by (simp_all add: off)
  have "paints f (area (unat (pos_x v) + unat (seg_offset ?X - x0 + x1)) (unat (pos_y v) + unat (seg_offset ?Y - y0 + y1)) n k
      \<inter> view v \<inter> on_screen f) (\<lambda>_. bg) m
      (viewport_fill_rect f v (seg_offset ?X - x0 + x1) (seg_offset ?Y - y0 + y1) (seg_size ?X) (seg_size ?Y) bg m)"
    unfolding defs(3,4)
    by (rule viewport_fill_rect_paints_view [OF assms(1,2)])
      (use nb small assms(5,6) in \<open>simp_all add: off defs(3,4) [symmetric]\<close>)
  then show ?thesis using True unfolding img at A by (simp add: fill_region_def)
qed









text \<open>What a copy shows at a pixel of its destination: the pixel it comes from, or the background outside the viewport.\<close>

definition source :: "viewport \<Rightarrow> u32 \<Rightarrow> u32 \<Rightarrow> u32 \<Rightarrow> u32 \<Rightarrow> nat \<times> nat \<Rightarrow> int \<times> int" where
  "source v x0 y0 x1 y1 p =
     (int (fst p) - int (unat (pos_x v)) - int (unat x1) + sint x0, int (snd p) - int (unat (pos_y v)) - int (unat y1) + sint y0)"

definition copied_colour :: "fb \<Rightarrow> viewport \<Rightarrow> u32 \<Rightarrow> u32 \<Rightarrow> u32 \<Rightarrow> u32 \<Rightarrow> u32 \<Rightarrow> bmem \<Rightarrow> nat \<times> nat \<Rightarrow> u32" where
  "copied_colour f v x0 y0 x1 y1 bg m p =
     (let (i, j) = source v x0 y0 x1 y1 p
      in if 0 \<le> i \<and> i < uint (size_x v) \<and> 0 \<le> j \<and> j < uint (size_y v)
         then load32 m (pix f (unat (pos_x v) + nat i, unat (pos_y v) + nat j)) else bg)"

lemma source_dest:
  "sint x0 \<le> fst q \<Longrightarrow> sint y0 \<le> snd q \<Longrightarrow> source v x0 y0 x1 y1 (dest v x0 y0 x1 y1 q) = q"
  by (cases q) (simp add: source_def dest_def)

lemma points_src_rect:
  "(i, j) \<in> points (src_rect x0 y0 sx sy) \<longleftrightarrow>
     sint x0 \<le> i \<and> i < sint x0 + uint sx \<and> sint y0 \<le> j \<and> j < sint y0 + uint sy"
  by (auto simp: points_def extent_def src_rect_def)

lemma copied_colour_dest:
  assumes "q \<in> points (src_rect x0 y0 sx sy)"
  shows "copied_colour f v x0 y0 x1 y1 bg m (dest v x0 y0 x1 y1 q) =
    (if q \<in> points (view_rect v) then load32 m (pix f (unat (pos_x v) + nat (fst q), unat (pos_y v) + nat (snd q))) else bg)"
proof (cases q)
  case (Pair i j)
  then have "source v x0 y0 x1 y1 (dest v x0 y0 x1 y1 q) = (i, j)"
    using assms source_dest [of x0 q y0] by (simp add: points_src_rect)
  then show ?thesis by (auto simp: copied_colour_def view_rect_def points_src_rect Pair)
qed


text \<open>The address of a pixel whose coordinates are 32-bit words.\<close>

lemma fb_get_pixel_addr_pix:
  assumes "fb_ok f" "unat x = X" "unat y = Y" "(X, Y) \<in> on_screen f"
  shows "fb_get_pixel_addr f x y = pix f (X, Y)"
  using unat_pixel [OF assms(1,4)] assms(2,3) by (auto simp: fb_get_pixel_addr_def pix_def)

lemma unat_offset:
  assumes "0 \<le> sint (a :: u32)"
  shows "unat a = nat (sint a)"
proof -
  have "uint a = sint a" using assms uint_of_int_small [of "sint a"] sint_range_size [of a] by (simp add: word_size)
  then show ?thesis by (metis nat_uint_eq)
qed

lemma unat_add_u32: "unat (p :: u32) + unat q < 2 ^ 32 \<Longrightarrow> unat (p + q) = unat p + unat q"
  by (simp add: unat_word_ariths)

text \<open>The copy of the middle region: \<open>r\<close> is inside the source and inside the viewport.\<close>

lemma copy_middle_paints:
  fixes r :: rect
  defines "a \<equiv> sint (seg_offset (rect_x r))" and "b \<equiv> sint (seg_offset (rect_y r))"
    and "w \<equiv> unat (seg_size (rect_x r))" and "h \<equiv> unat (seg_size (rect_y r))"
  assumes "fb_ok f" "view v \<subseteq> on_screen f" "view_small v"
    "0 \<le> a" "0 \<le> b" "a + int w \<le> uint (size_x v)" "b + int h \<le> uint (size_y v)" "0 < w" "0 < h"
    "sint x0 \<le> a" "sint y0 \<le> b" "a - sint x0 + int w + uint x1 \<le> uint (size_x v)"
    "b - sint y0 + int h + uint y1 \<le> uint (size_y v)"
    "{b ..< b + int h} \<inter> {b - sint y0 + uint y1 ..< b - sint y0 + uint y1 + int h} = {}"
    "\<forall>q \<in> area (unat (pos_x v) + nat a) (unat (pos_y v) + nat b) w h. load32 m (pix f q) = load32 m0 (pix f q)"
  shows "\<exists>m'. viewport_copy_rect_unsafe f v (seg_offset (rect_x r)) (seg_offset (rect_y r)) (seg_size (rect_x r))
      (seg_size (rect_y r)) (seg_offset (rect_x r) - x0 + x1) (seg_offset (rect_y r) - y0 + y1) m = Inr m' \<and>
    paints f (area (unat (pos_x v) + unat x1 + nat (a - sint x0)) (unat (pos_y v) + unat y1 + nat (b - sint y0)) w h)
      (\<lambda>p. load32 m0 (pix f (unat (pos_x v) + nat a + (fst p - (unat (pos_x v) + unat x1 + nat (a - sint x0))),
        unat (pos_y v) + nat b + (snd p - (unat (pos_y v) + unat y1 + nat (b - sint y0)))))) m m'"
proof -
  let ?P = "unat (pos_x v)" and ?Q = "unat (pos_y v)" and ?ox = "seg_offset (rect_x r)" and ?oy = "seg_offset (rect_y r)"
  define U V where "U = unat x1 + nat (a - sint x0)" and "V = unat y1 + nat (b - sint y0)"
  have X: "nat a + w \<le> unat (size_x v)" "nat b + h \<le> unat (size_y v)" "U + w \<le> unat (size_x v)" "V + h \<le> unat (size_y v)"
    using assms(8-17) unfolding uint_nat U_def V_def by linarith+
  have small: "?P + unat (size_x v) < 2 ^ 31" "?Q + unat (size_y v) < 2 ^ 31" using assms(7) by (simp_all add: view_small_def)
  have sub: "area (?P + nat a) (?Q + nat b) w h \<subseteq> view v" "area (?P + U) (?Q + V) w h \<subseteq> view v"
    using X by (auto simp: area_def view_def)
  have on: "(?P + nat a, ?Q + nat b) \<in> on_screen f" "(?P + U, ?Q + V) \<in> on_screen f"
  proof -
    have "(?P + nat a, ?Q + nat b) \<in> area (?P + nat a) (?Q + nat b) w h" "(?P + U, ?Q + V) \<in> area (?P + U) (?Q + V) w h"
      using assms(12,13) by (simp_all add: area_def)
    then show "(?P + nat a, ?Q + nat b) \<in> on_screen f" "(?P + U, ?Q + V) \<in> on_screen f" using sub assms(6) by blast+
  qed
  have off: "unat ?ox = nat a" "unat ?oy = nat b" using assms(8,9) unat_offset by (simp_all add: a_def b_def)
  have doff: "unat (?ox - x0 + x1) = U" "unat (?oy - y0 + y1) = V"
    using dest_offset [of x0 ?ox x1] dest_offset [of y0 ?oy y1] assms(14-17) uint_lt2p [of "size_x v"] uint_lt2p [of "size_y v"]
      assms(12,13) by (simp_all add: U_def V_def a_def b_def ac_simps)
  have addr: "fb_get_pixel_addr f (pos_x v + ?ox) (pos_y v + ?oy) = pix f (?P + nat a, ?Q + nat b)"
    "fb_get_pixel_addr f (pos_x v + (?ox - x0 + x1)) (pos_y v + (?oy - y0 + y1)) = pix f (?P + U, ?Q + V)"
  proof -
    have "unat (pos_x v + ?ox) = ?P + nat a" "unat (pos_y v + ?oy) = ?Q + nat b"
      using X small by (simp_all add: unat_add_u32 off)
    then show "fb_get_pixel_addr f (pos_x v + ?ox) (pos_y v + ?oy) = pix f (?P + nat a, ?Q + nat b)"
      by (intro fb_get_pixel_addr_pix [OF assms(5) _ _ on(1)])
    have "unat (pos_x v + (?ox - x0 + x1)) = ?P + U" "unat (pos_y v + (?oy - y0 + y1)) = ?Q + V"
      using X small unat_add_u32 [of "pos_x v" "?ox - x0 + x1"] unat_add_u32 [of "pos_y v" "?oy - y0 + y1"]
      unfolding doff by simp_all
    then show "fb_get_pixel_addr f (pos_x v + (?ox - x0 + x1)) (pos_y v + (?oy - y0 + y1)) = pix f (?P + U, ?Q + V)"
      by (intro fb_get_pixel_addr_pix [OF assms(5) _ _ on(2)])
  qed
  have len: "unat (seg_size (rect_x r) * fb_pixel_size f) = 4 * w" "nat (sint (seg_size (rect_y r))) = h"
  proof -
    have "(?P + nat a + (w - 1), ?Q + nat b) \<in> area (?P + nat a) (?Q + nat b) w h"
      using assms(12,13) by (simp add: area_def)
    then have "(?P + nat a + (w - 1), ?Q + nat b) \<in> on_screen f" using sub(1) assms(6) by blast
    then have "4 * w \<le> unat (fb_pitch f)" using on_screen_bounds(1) [OF assms(5)] assms(12) by fastforce
    moreover have "unat (fb_pitch f) < 2 ^ LENGTH(32)" by (rule unsigned_less)
    ultimately have "4 * w < 2 ^ 32" by simp
    then show "unat (seg_size (rect_x r) * fb_pixel_size f) = 4 * w" using assms(5) by (simp add: fb_ok_def unat_word_ariths w_def)
    show "nat (sint (seg_size (rect_y r))) = h" using sint_u32_small [of "seg_size (rect_y r)"] X small by (simp add: h_def)
  qed
  have rows: "{?Q + nat b ..< ?Q + nat b + h} \<inter> {?Q + V ..< ?Q + V + h} = {}"
  proof (rule ccontr)
    assume "\<not> ?thesis"
    then obtain k where "k \<in> {?Q + nat b ..< ?Q + nat b + h} \<inter> {?Q + V ..< ?Q + V + h}" by blast
    then have "?Q + nat b \<le> k" "k < ?Q + nat b + h" "?Q + V \<le> k" "k < ?Q + V + h" by simp_all
    then have "b \<le> int k - int ?Q" "int k - int ?Q < b + int h" "b - sint y0 + int (unat y1) \<le> int k - int ?Q"
      "int k - int ?Q < b - sint y0 + int (unat y1) + int h"
      using assms(9,15) unfolding V_def by linarith+
    then have "int k - int ?Q \<in> {b ..< b + int h} \<inter> {b - sint y0 + uint y1 ..< b - sint y0 + uint y1 + int h}"
      unfolding uint_nat by simp
    then show False using assms(18) by blast
  qed
  have "\<exists>m'. copy_lines (fb_pitch f) (4 * w) h (pix f (?P + U, ?Q + V)) (pix f (?P + nat a, ?Q + nat b)) m = Inr m' \<and>
    paints f (area (?P + U) (?Q + V) w h)
      (\<lambda>p. load32 m0 (pix f (?P + nat a + (fst p - (?P + U)), ?Q + nat b + (snd p - (?Q + V))))) m m'"
    by (rule copy_lines_paints [OF assms(5) _ _ rows assms(19)]) (use sub assms(6) in auto)
  then show ?thesis unfolding viewport_copy_rect_unsafe_def Let_def addr len U_def V_def by (simp only: add.assoc)
qed







lemma dest_src_rect:
  assumes "0 < uint sx" "0 < uint sy"
  shows "dest v x0 y0 x1 y1 ` points (src_rect x0 y0 sx sy) =
    area (unat (pos_x v) + unat x1) (unat (pos_y v) + unat y1) (unat sx) (unat sy)"
  using dest_points [of "src_rect x0 y0 sx sy" x0 y0 v x1 y1] assms by (simp add: src_rect_def extent_def)

lemma viewport_copy_rect_unfold:
  "viewport_copy_rect f bg v x0 y0 sx sy x1 y1 m =
     (case get_intersection_regions (src_rect x0 y0 sx sy) (view_rect v) of
        None \<Rightarrow> Inr (viewport_fill_rect f v x1 y1 sx sy bg m)
      | Some rs \<Rightarrow>
          viewport_copy_rect_unsafe f v (seg_offset (rect_x (rg_r (rs 4)))) (seg_offset (rect_y (rg_r (rs 4))))
            (seg_size (rect_x (rg_r (rs 4)))) (seg_size (rect_y (rg_r (rs 4))))
            (seg_offset (rect_x (rg_r (rs 4))) - x0 + x1) (seg_offset (rect_y (rg_r (rs 4))) - y0 + y1)
            (fold (\<lambda>i. fill_region f v x0 y0 x1 y1 bg (rs i)) [0, 1, 2, 3, 5, 6, 7, 8] m))"
  by (simp add: viewport_copy_rect_def src_rect_def view_rect_def Let_def RGN_def split: option.split)

text \<open>The fills of the outer regions.\<close>

lemma outer_regions_paint:
  assumes "fb_ok f" "view v \<subseteq> on_screen f" "view_small v" "rect_ok (src_rect x0 y0 sx sy)" "rect_ok (view_rect v)"
    "0 < uint sx" "0 < uint sy" "unat x1 + unat sx \<le> unat (size_x v)" "unat y1 + unat sy \<le> unat (size_y v)"
    "get_intersection_regions (src_rect x0 y0 sx sy) (view_rect v) = Some rs"
  shows "paints f (dest v x0 y0 x1 y1 ` (points (src_rect x0 y0 sx sy) - points (view_rect v)))
    (copied_colour f v x0 y0 x1 y1 bg m0) m
    (fold (\<lambda>i. fill_region f v x0 y0 x1 y1 bg (rs i)) [0, 1, 2, 3, 5, 6, 7, 8] m)"
proof -
  let ?R0 = "src_rect x0 y0 sx sy" and ?dest = "dest v x0 y0 x1 y1" and ?is = "[0, 1, 2, 3, 5, 6, 7, 8] :: nat list"
  have D: "?dest ` points ?R0 \<subseteq> on_screen f"
  proof -
    have "?dest ` points ?R0 \<subseteq> view v"
      unfolding dest_src_rect [OF assms(6,7)] using assms(8,9) by (auto simp: area_def view_def)
    then show ?thesis using assms(2) by blast
  qed
  have parts: "outer_points rs = points ?R0 - points (view_rect v)"
    using regions_partition [OF assms(4,5)] assms(10) by simp
  have outer: "outer_points rs = (\<Union>i \<in> set ?is. region_points (rs i))" by (simp add: outer_points_def)
  have region: "paints f (?dest ` region_points (rs i)) (\<lambda>_. bg) m (fill_region f v x0 y0 x1 y1 bg (rs i) m)"
    "?dest ` region_points (rs i) \<subseteq> on_screen f" if "i \<in> set ?is" for i m
  proof -
    have sub: "region_points (rs i) \<subseteq> points ?R0" using that outer parts by blast
    then have "points (rg_r (rs i)) \<subseteq> points ?R0 \<or> \<not> rg_exists (rs i)" by (auto simp: region_points_def)
    then show "paints f (?dest ` region_points (rs i)) (\<lambda>_. bg) m (fill_region f v x0 y0 x1 y1 bg (rs i) m)"
      by (intro fill_region_paints [OF assms(1,3,2) _ assms(8,9)])
    show "?dest ` region_points (rs i) \<subseteq> on_screen f" using sub D by blast
  qed
  have "paints f (\<Union>i \<in> set ?is. ?dest ` region_points (rs i)) (\<lambda>_. bg) m
      (fold (\<lambda>i. fill_region f v x0 y0 x1 y1 bg (rs i)) ?is m)"
    by (rule paints_fold [OF assms(1) region])
  then have "paints f (?dest ` (points ?R0 - points (view_rect v))) (\<lambda>_. bg) m
      (fold (\<lambda>i. fill_region f v x0 y0 x1 y1 bg (rs i)) ?is m)"
    unfolding parts [symmetric] outer by (simp only: image_UN)
  then show ?thesis by (rule paints_cong) (auto simp: copied_colour_dest)
qed

text \<open>The middle region: where it is in the source and in the viewport.\<close>

lemma middle_region:
  fixes rs :: regions
  defines "r \<equiv> rg_r (rs 4)"
  assumes "rect_ok (src_rect x0 y0 sx sy)" "rect_ok (view_rect v)" "0 < uint sx" "0 < uint sy"
    "0 < uint (size_x v)" "0 < uint (size_y v)"
    "get_intersection_regions (src_rect x0 y0 sx sy) (view_rect v) = Some rs"
  shows "0 < unat (seg_size (rect_x r))" "0 < unat (seg_size (rect_y r))"
    "sint x0 \<le> sint (seg_offset (rect_x r))" "sint y0 \<le> sint (seg_offset (rect_y r))"
    "sint (seg_offset (rect_x r)) + int (unat (seg_size (rect_x r))) \<le> sint x0 + uint sx"
    "sint (seg_offset (rect_y r)) + int (unat (seg_size (rect_y r))) \<le> sint y0 + uint sy"
    "0 \<le> sint (seg_offset (rect_x r))" "0 \<le> sint (seg_offset (rect_y r))"
    "sint (seg_offset (rect_x r)) + int (unat (seg_size (rect_x r))) \<le> uint (size_x v)"
    "sint (seg_offset (rect_y r)) + int (unat (seg_size (rect_y r))) \<le> uint (size_y v)"
proof -
  let ?R0 = "src_rect x0 y0 sx sy" and ?R1 = "view_rect v"
  define a b w h where "a = sint (seg_offset (rect_x r))" "b = sint (seg_offset (rect_y r))"
    "w = unat (seg_size (rect_x r))" "h = unat (seg_size (rect_y r))"
  note defs = this
  have ext: "extent (rect_x r) = {a ..< a + int w}" "extent (rect_y r) = {b ..< b + int h}" by (simp_all add: extent_def defs)
  have na: "\<not> apart (rect_x ?R0) (rect_x ?R1)" "\<not> apart (rect_y ?R0) (rect_y ?R1)"
    using get_intersection_regions_None [of ?R0 ?R1] assms(8) by auto
  have seg: "seg_ok (rect_x ?R0)" "seg_ok (rect_x ?R1)" "seg_ok (rect_y ?R0)" "seg_ok (rect_y ?R1)"
    using assms(2,3) by (simp_all add: rect_ok_def)
  have mid: "extent (rect_x r) = extent (rect_x ?R0) \<inter> extent (rect_x ?R1)"
    "extent (rect_y r) = extent (rect_y ?R0) \<inter> extent (rect_y ?R1)"
    using axis(2) [OF seg(1,2) na(1)] axis(2) [OF seg(3,4) na(2)] get_intersection_regions_Some(1) [OF assms(8)]
    by (simp_all add: r_def)
  have R: "extent (rect_x ?R0) = {sint x0 ..< sint x0 + uint sx}" "extent (rect_y ?R0) = {sint y0 ..< sint y0 + uint sy}"
    "extent (rect_x ?R1) = {0 ..< uint (size_x v)}" "extent (rect_y ?R1) = {0 ..< uint (size_y v)}"
    by (simp_all add: extent_def src_rect_def view_rect_def)
  have "extent (rect_x r) \<noteq> {}" "extent (rect_y r) \<noteq> {}"
    using not_apart_meet [OF seg(1,2) na(1)] not_apart_meet [OF seg(3,4) na(2)] assms(4-7) unfolding mid
    by (simp_all add: src_rect_def view_rect_def)
  then have wh: "0 < w" "0 < h" unfolding ext by simp_all
  have "{a ..< a + int w} \<subseteq> {sint x0 ..< sint x0 + uint sx}" "{a ..< a + int w} \<subseteq> {0 ..< uint (size_x v)}"
    "{b ..< b + int h} \<subseteq> {sint y0 ..< sint y0 + uint sy}" "{b ..< b + int h} \<subseteq> {0 ..< uint (size_y v)}"
    using mid unfolding ext R by simp_all
  then show "0 < unat (seg_size (rect_x r))" "0 < unat (seg_size (rect_y r))"
    "sint x0 \<le> sint (seg_offset (rect_x r))" "sint y0 \<le> sint (seg_offset (rect_y r))"
    "sint (seg_offset (rect_x r)) + int (unat (seg_size (rect_x r))) \<le> sint x0 + uint sx"
    "sint (seg_offset (rect_y r)) + int (unat (seg_size (rect_y r))) \<le> sint y0 + uint sy"
    "0 \<le> sint (seg_offset (rect_x r))" "0 \<le> sint (seg_offset (rect_y r))"
    "sint (seg_offset (rect_x r)) + int (unat (seg_size (rect_x r))) \<le> uint (size_x v)"
    "sint (seg_offset (rect_y r)) + int (unat (seg_size (rect_y r))) \<le> uint (size_y v)"
    unfolding defs [symmetric] using wh by (simp_all only: ivl_subset) linarith+
qed


text \<open>The middle region, copied: rows of the source and of the destination do not meet.\<close>

lemma middle_copy_paints:
  assumes ok: "fb_ok f" and v: "view v \<subseteq> on_screen f" "view_small v"
    and rects: "rect_ok (src_rect x0 y0 sx sy)" "rect_ok (view_rect v)"
    and pos: "0 < uint sx" "0 < uint sy"
    and inside: "unat x1 + unat sx \<le> unat (size_x v)" "unat y1 + unat sy \<le> unat (size_y v)"
    and rows: "{sint y0 ..< sint y0 + uint sy} \<inter> {uint y1 ..< uint y1 + uint sy} = {}"
    and rs: "get_intersection_regions (src_rect x0 y0 sx sy) (view_rect v) = Some rs"
    and m1: "paints f A col m m1" "A \<subseteq> area (unat (pos_x v) + unat x1) (unat (pos_y v) + unat y1) (unat sx) (unat sy)"
  shows "\<exists>m'. viewport_copy_rect_unsafe f v (seg_offset (rect_x (rg_r (rs 4)))) (seg_offset (rect_y (rg_r (rs 4))))
      (seg_size (rect_x (rg_r (rs 4)))) (seg_size (rect_y (rg_r (rs 4))))
      (seg_offset (rect_x (rg_r (rs 4))) - x0 + x1) (seg_offset (rect_y (rg_r (rs 4))) - y0 + y1) m1 = Inr m' \<and>
    paints f (dest v x0 y0 x1 y1 ` (points (src_rect x0 y0 sx sy) \<inter> points (view_rect v)))
      (copied_colour f v x0 y0 x1 y1 bg m) m1 m'"
proof -
  let ?R0 = "src_rect x0 y0 sx sy" and ?R1 = "view_rect v" and ?dest = "dest v x0 y0 x1 y1"
  let ?P = "unat (pos_x v)" and ?Q = "unat (pos_y v)" and ?r = "rg_r (rs 4)"
  let ?D = "area (?P + unat x1) (?Q + unat y1) (unat sx) (unat sy)"
  define a b w h where "a = sint (seg_offset (rect_x ?r))" "b = sint (seg_offset (rect_y ?r))"
    "w = unat (seg_size (rect_x ?r))" "h = unat (seg_size (rect_y ?r))"
  note defs = this
  have ext: "extent (rect_x ?r) = {a ..< a + int w}" "extent (rect_y ?r) = {b ..< b + int h}" by (simp_all add: extent_def defs)
  have mid: "points ?r = points ?R0 \<inter> points ?R1" using regions_partition [OF rects] rs by (simp add: RGN_def)
  have vpos: "0 < uint (size_x v)" "0 < uint (size_y v)" using inside pos unfolding uint_nat by linarith+
  note le = middle_region [OF rects pos vpos rs, folded defs]
  let ?S = "area (?P + nat a) (?Q + nat b) w h"
  let ?M = "area (?P + unat x1 + nat (a - sint x0)) (?Q + unat y1 + nat (b - sint y0)) w h"
  have M: "?dest ` (points ?R0 \<inter> points ?R1) = ?M"
  proof -
    have up: "0 < uint (seg_size (rect_x ?r))" "0 < uint (seg_size (rect_y ?r))"
      unfolding uint_nat using le(1,2) by (simp_all only: defs of_nat_0_less_iff)
    show ?thesis unfolding mid [symmetric] defs by (rule dest_points [OF _ _ up]) (use le in \<open>simp_all add: ext\<close>)
  qed
  have ins: "a - sint x0 + int w + uint x1 \<le> uint (size_x v)" "b - sint y0 + int h + uint y1 \<le> uint (size_y v)"
    using le inside unfolding uint_nat by linarith+
  have disj: "{b ..< b + int h} \<inter> {b - sint y0 + uint y1 ..< b - sint y0 + uint y1 + int h} = {}"
  proof -
    have "{b ..< b + int h} \<subseteq> {sint y0 ..< sint y0 + uint sy}"
      "{b - sint y0 + uint y1 ..< b - sint y0 + uint y1 + int h} \<subseteq> {uint y1 ..< uint y1 + uint sy}" using le by auto
    then show ?thesis using rows by blast
  qed
  have S: "?S \<subseteq> on_screen f - A"
  proof -
    have "nat a + w \<le> unat (size_x v)" "nat b + h \<le> unat (size_y v)" using le unfolding uint_nat by linarith+
    then have "?S \<subseteq> view v" by (auto simp: area_def view_def)
    moreover have "q \<notin> ?D" if q: "q \<in> ?S" for q
    proof
      assume "q \<in> ?D"
      then have "?Q + nat b \<le> snd q" "snd q < ?Q + nat b + h" "?Q + unat y1 \<le> snd q" "snd q < ?Q + unat y1 + unat sy"
        using q by (auto simp: area_def)
      then have "b \<le> int (snd q) - int ?Q" "int (snd q) - int ?Q < b + int h"
        "uint y1 \<le> int (snd q) - int ?Q" "int (snd q) - int ?Q < uint y1 + uint sy"
        using le(8) unfolding uint_nat by linarith+
      then have "int (snd q) - int ?Q \<in> {sint y0 ..< sint y0 + uint sy} \<inter> {uint y1 ..< uint y1 + uint sy}"
        using le(4,6) by auto
      then show False using rows by blast
    qed
    ultimately show ?thesis using v(1) m1(2) by blast
  qed
  have "A \<subseteq> on_screen f"
  proof -
    have "?D \<subseteq> view v" using inside by (auto simp: area_def view_def)
    then show ?thesis using m1(2) v(1) by blast
  qed
  then have keep: "\<forall>q \<in> ?S. load32 m1 (pix f q) = load32 m (pix f q)" using paints_keeps [OF ok _ _ m1(1)] S by blast
  obtain m2 where m2: "viewport_copy_rect_unsafe f v (seg_offset (rect_x ?r)) (seg_offset (rect_y ?r)) (seg_size (rect_x ?r))
      (seg_size (rect_y ?r)) (seg_offset (rect_x ?r) - x0 + x1) (seg_offset (rect_y ?r) - y0 + y1) m1 = Inr m2"
    "paints f ?M (\<lambda>p. load32 m (pix f (?P + nat a + (fst p - (?P + unat x1 + nat (a - sint x0))),
       ?Q + nat b + (snd p - (?Q + unat y1 + nat (b - sint y0)))))) m1 m2"
    using copy_middle_paints [of f v ?r x0 y0 x1 y1 m1 m, folded defs, OF ok v le(7-10) le(1-4) ins disj keep] by blast
  have "paints f ?M (copied_colour f v x0 y0 x1 y1 bg m) m1 m2"
  proof (rule paints_cong [OF m2(2)])
    fix p
    assume p: "p \<in> ?M"
    then obtain i j where q: "p = ?dest (i, j)" "(i, j) \<in> points ?R0" "(i, j) \<in> points ?R1" unfolding M [symmetric] by fast
    then have "(i, j) \<in> points ?r" by (simp add: mid)
    then have "a \<le> i" "b \<le> j" by (auto simp: points_def ext)
    then have e: "?P + nat a + (fst p - (?P + unat x1 + nat (a - sint x0))) = ?P + nat i"
      "?Q + nat b + (snd p - (?Q + unat y1 + nat (b - sint y0))) = ?Q + nat j"
      using le by (simp_all add: q(1) dest_def)
    show "load32 m (pix f (?P + nat a + (fst p - (?P + unat x1 + nat (a - sint x0))),
        ?Q + nat b + (snd p - (?Q + unat y1 + nat (b - sint y0))))) = copied_colour f v x0 y0 x1 y1 bg m p"
      unfolding e using copied_colour_dest [OF q(2)] q(1,3) by simp
  qed
  then show ?thesis using m2(1) unfolding M by blast
qed

lemma viewport_copy_rect_paints:
  assumes ok: "fb_ok f" and v: "view v \<subseteq> on_screen f" "view_small v"
    and rects: "rect_ok (src_rect x0 y0 sx sy)" "rect_ok (view_rect v)"
    and pos: "0 < uint sx" "0 < uint sy"
    and inside: "unat x1 + unat sx \<le> unat (size_x v)" "unat y1 + unat sy \<le> unat (size_y v)"
    and rows: "{sint y0 ..< sint y0 + uint sy} \<inter> {uint y1 ..< uint y1 + uint sy} = {}"
  shows "\<exists>m'. viewport_copy_rect f bg v x0 y0 sx sy x1 y1 m = Inr m' \<and>
    paints f (area (unat (pos_x v) + unat x1) (unat (pos_y v) + unat y1) (unat sx) (unat sy))
      (copied_colour f v x0 y0 x1 y1 bg m) m m'"
proof -
  let ?R0 = "src_rect x0 y0 sx sy" and ?R1 = "view_rect v" and ?dest = "dest v x0 y0 x1 y1"
  let ?D = "area (unat (pos_x v) + unat x1) (unat (pos_y v) + unat y1) (unat sx) (unat sy)"
  let ?col = "copied_colour f v x0 y0 x1 y1 bg m"
  note D = dest_src_rect [OF pos, of v x0 y0 x1 y1]
  have Dview: "?D \<subseteq> view v" using inside by (auto simp: area_def view_def)
  show ?thesis
  proof (cases "get_intersection_regions ?R0 ?R1")
    case None
    have small: "unat (size_x v) < 2 ^ 31" "unat (size_y v) < 2 ^ 31" using v(2) by (simp_all add: view_small_def)
    have none: "points ?R0 \<inter> points ?R1 = {}" using regions_partition [OF rects] None by simp
    have "paints f (?D \<inter> view v \<inter> on_screen f) (\<lambda>_. bg) m (viewport_fill_rect f v x1 y1 sx sy bg m)"
      by (rule viewport_fill_rect_paints_view [OF ok v(2)]) (use inside small in simp_all)
    moreover have "?D \<inter> view v \<inter> on_screen f = ?D" using Dview v(1) by blast
    ultimately have "paints f ?D (\<lambda>_. bg) m (viewport_fill_rect f v x1 y1 sx sy bg m)" by (simp only:)
    then have "paints f ?D ?col m (viewport_fill_rect f v x1 y1 sx sy bg m)"
      unfolding D [symmetric] by (rule paints_cong) (use none in \<open>auto simp: copied_colour_dest\<close>)
    then show ?thesis by (simp add: viewport_copy_rect_unfold None)
  next
    case (Some rs)
    let ?fills = "fold (\<lambda>i. fill_region f v x0 y0 x1 y1 bg (rs i)) [0, 1, 2, 3, 5, 6, 7, 8]"
    note p1 = outer_regions_paint [OF ok v rects pos inside Some, of bg m m]
    have sub: "?dest ` (points ?R0 - points ?R1) \<subseteq> ?D" "?dest ` (points ?R0 \<inter> points ?R1) \<subseteq> ?D" unfolding D [symmetric] by blast+
    obtain m2 where m2: "viewport_copy_rect f bg v x0 y0 sx sy x1 y1 m = Inr m2"
      "paints f (?dest ` (points ?R0 \<inter> points ?R1)) ?col (?fills m) m2"
      using middle_copy_paints [OF ok v rects pos inside rows Some p1 sub(1)] unfolding viewport_copy_rect_unfold Some by auto
    have "?D \<subseteq> on_screen f" using Dview v(1) by blast
    then have "paints f (?dest ` (points ?R0 - points ?R1) \<union> ?dest ` (points ?R0 \<inter> points ?R1)) ?col m m2"
      using paints_trans [OF ok _ _ p1 m2(2)] sub by blast
    moreover have "?dest ` (points ?R0 - points ?R1) \<union> ?dest ` (points ?R0 \<inter> points ?R1) = ?D" unfolding D [symmetric] by blast
    ultimately show ?thesis using m2(1) by simp
  qed
qed


section \<open>Properties\<close>


text \<open>A screen of 16 by 3 pixels at address 4096 and a viewport of 14 by 2 pixels.\<close>

definition sample_fb :: fb where
  "sample_fb = \<lparr>fb_addr = 0x1000, fb_width = 16, fb_height = 3, fb_pitch = 64, fb_pixel_size = 4\<rparr>"

definition sample_view :: viewport where
  "sample_view = \<lparr>pos_x = 1, pos_y = 1, size_x = 14, size_y = 2\<rparr>"

lemma sample_view_fields:
  "pos_x sample_view = 1" "pos_y sample_view = 1" "size_x sample_view = 14" "size_y sample_view = 2"
  by (simp_all add: sample_view_def)

lemma samples_ok: "fb_ok sample_fb" "view_small sample_view" "view sample_view \<subseteq> on_screen sample_fb"
  by (auto simp: fb_ok_def view_small_def view_def on_screen_def area_def sample_fb_def sample_view_def)


text \<open>C21 (functional). A character of a font eight pixels wide: the part of its cell that is inside the viewport shows the glyph of the
  font file, most significant bit first, in the foreground and background colours, and nothing else changes.\<close>

definition psf_bit :: "bmem \<Rightarrow> ptr \<Rightarrow> nat \<Rightarrow> nat \<Rightarrow> nat \<Rightarrow> bool" where
  "psf_bit m g w col row \<longleftrightarrow> bit (m (g + (w + 7) div 8 * row + col div 8)) (7 - col mod 8)"

theorem viewport_draw_char_glyph:
  assumes "fb_ok f" "view v \<subseteq> on_screen f" "view_small v" "x < size_x v" "y < size_y v"
    "psf_width m font = 8" "unat (psf_height m font) < 2 ^ 31"
    "apart_from_screen f (font_get_glyph m font c) (unat (psf_height m font))" "apart_from_screen f font 32"
  shows "paints f (area (unat (pos_x v) + unat x) (unat (pos_y v) + unat y) 8 (unat (psf_height m font)) \<inter> view v)
    (\<lambda>p. if psf_bit m (font_get_glyph m font c) 8 (fst p - (unat (pos_x v) + unat x)) (snd p - (unat (pos_y v) + unat y))
         then fg else bg)
    m (viewport_draw_char f font v x y fg bg c m)"
  using viewport_draw_char_paints [of f v x y m font c fg bg] assms
  by (intro paints_cong [OF viewport_draw_char_paints [of f v x y m font c fg bg, unfolded assms(6), simplified]])
    (auto simp: glyph_colour_def psf_bit_def area_def)

text \<open>A font at address 0 of two glyphs of one line; the line of glyph 1 is the byte 0xa5.\<close>

definition sample_font :: bmem where
  "sample_font = ((\<lambda>_. 0)(8 := 32, 16 := 2, 20 := 1, 24 := 1, 28 := 8, 33 := 0xa5))"

lemma sample_font_fields:
  "psf_width sample_font 0 = 8" "psf_height sample_font 0 = 1" "font_get_glyph sample_font 0 1 = 33"
  by (simp_all add: psf_width_def psf_height_def font_get_glyph_def psf_numglyph_def psf_headersize_def psf_bytesperglyph_def
      load32_def sample_font_def)

lemma sample_apart: "a + n \<le> 4096 \<Longrightarrow> apart_from_screen sample_fb a n"
  by (auto simp: apart_from_screen_def pixel_bytes_def pix_def sample_fb_def)

theorem viewport_draw_char_glyph_witness:
  "load32 (viewport_draw_char sample_fb 0 sample_view 2 0 0xff 0x11 1 sample_font) (pix sample_fb (3, 1)) = 0xff \<and>
   load32 (viewport_draw_char sample_fb 0 sample_view 2 0 0xff 0x11 1 sample_font) (pix sample_fb (4, 1)) = 0x11"
proof -
  have "paints sample_fb (area 3 1 8 1 \<inter> view sample_view)
      (\<lambda>p. if psf_bit sample_font 33 8 (fst p - 3) (snd p - 1) then 0xff else 0x11) sample_font
      (viewport_draw_char sample_fb 0 sample_view 2 0 0xff 0x11 1 sample_font)"
    using viewport_draw_char_glyph [of sample_fb sample_view 2 0 sample_font 0 1 "0xff" "0x11"] samples_ok sample_apart
    by (simp add: sample_font_fields sample_view_fields numeral_3_eq_3)
  note colour = paintsD [OF this]
  have "(3, 1) \<in> area 3 1 8 1 \<inter> view sample_view" "(4, 1) \<in> area 3 1 8 1 \<inter> view sample_view"
    by (simp_all add: area_def view_def sample_view_def)
  note shown = this [THEN colour]
  have "psf_bit sample_font 33 8 0 0" "\<not> psf_bit sample_font 33 8 1 0"
    by (simp_all add: psf_bit_def sample_font_def)
  then show ?thesis using shown by simp
qed

text \<open>Of a font more than eight pixels wide the code reads one byte per line: whatever the glyph, all but the last
  eight columns of a character are background.\<close>

theorem wide_glyph_left_blank:
  assumes "fb_ok f" "view v \<subseteq> on_screen f" "view_small v" "x < size_x v" "y < size_y v"
    "9 \<le> psf_width m font" "psf_width m font \<le> 31" "unat (psf_height m font) < 2 ^ 31"
    "apart_from_screen f (font_get_glyph m font c) ((unat (psf_width m font) + 7) div 8 * unat (psf_height m font))"
    "apart_from_screen f font 32"
    "p \<in> area (unat (pos_x v) + unat x) (unat (pos_y v) + unat y) (unat (psf_width m font) - 8) (unat (psf_height m font)) \<inter> view v"
  shows "load32 (viewport_draw_char f font v x y fg bg c m) (pix f p) = bg"
proof -
  let ?X = "unat (pos_x v) + unat x" and ?Y = "unat (pos_y v) + unat y" and ?w = "unat (psf_width m font)"
  have "1 \<le> psf_width m font" using assms(6) by (rule order_trans [rotated]) simp
  note paint = viewport_draw_char_paints [OF assms(1-5) this assms(7-10), of fg bg]
  have "p \<in> area ?X ?Y ?w (unat (psf_height m font)) \<inter> view v" using assms(11) by (auto simp: area_def)
  then have "load32 (viewport_draw_char f font v x y fg bg c m) (pix f p) =
      glyph_colour m (font_get_glyph m font c) ((?w + 7) div 8) ?w fg bg ?X ?Y p"
    using paint by (auto simp: paints_def)
  moreover have "8 \<le> ?w - 1 - (fst p - ?X)" using assms(11) by (auto simp: area_def)
  then have "\<not> bit (b :: u8) (?w - 1 - (fst p - ?X))" for b using bit_imp_le_length [of b] by fastforce
  ultimately show ?thesis by (simp add: glyph_colour_def)
qed

definition wide_font :: bmem where
  "wide_font = ((\<lambda>_. 0)(8 := 32, 16 := 2, 20 := 2, 24 := 1, 28 := 12, 34 := 0xff, 35 := 0xf0))"

theorem wide_glyph_left_blank_witness:
  "load32 (viewport_draw_char sample_fb 0 sample_view 0 0 0xff 0x11 1 wide_font) (pix sample_fb (2, 1)) = 0x11"
proof (rule wide_glyph_left_blank)
  have f: "psf_width wide_font 0 = 12" "psf_height wide_font 0 = 1" "font_get_glyph wide_font 0 1 = 34"
    by (simp_all add: psf_width_def psf_height_def font_get_glyph_def psf_numglyph_def psf_headersize_def psf_bytesperglyph_def
        load32_def wide_font_def)
  show "9 \<le> psf_width wide_font 0" "psf_width wide_font 0 \<le> 31" "unat (psf_height wide_font 0) < 2 ^ 31"
    by (simp_all add: f)
  show "apart_from_screen sample_fb (font_get_glyph wide_font 0 1)
      ((unat (psf_width wide_font 0) + 7) div 8 * unat (psf_height wide_font 0))"
    "apart_from_screen sample_fb 0 32" by (simp_all add: f sample_apart)
  show "(2, 1) \<in> area (unat (pos_x sample_view) + unat 0) (unat (pos_y sample_view) + unat 0)
      (unat (psf_width wide_font 0) - 8) (unat (psf_height wide_font 0)) \<inter> view sample_view"
    by (simp add: f area_def view_def sample_view_def)
qed (use samples_ok in \<open>simp_all add: sample_view_def\<close>)



end
