(* ===== verification/Viewport_console.thy ===== *)
theory Viewport_console
  imports Vcanvas
begin

text \<open>
  The text console in a viewport (\<^verbatim>\<open>src/viewport_console.c\<close>). \<open>textbuflast\<close> is an offset into the text
  buffer of 4096 characters, which the code moves and writes through without a check: a write outside the
  buffer is \<open>Inl\<close>. The string of \<^verbatim>\<open>puts\<close> is the list of its characters before the terminating zero.
\<close>

section \<open>Operations\<close>

definition VIEWPORT_TEXTBUF_LEN :: nat where "VIEWPORT_TEXTBUF_LEN = 4096"

record textviewport =
  maxchars_x :: u32
  maxchars_y :: u32
  textbuf :: "u8 list"
  textbuflast :: int
  tv_viewport :: viewport
  text_wrapping :: bool
  tv_fg_color :: u32
  tv_bg_color :: u32
  fontsize_x :: u32
  fontsize_y :: u32
  charpos_x :: u32
  charpos_y :: u32
  linenum :: u32
  tabwidth :: u32

text \<open>The canvas, the font and the memory that the drawing operations work on.\<close>

record screen =
  sc_fb :: fb
  sc_bg_color :: u32
  sc_font :: ptr
  sc_mem :: bmem

type_synonym console = "textviewport \<times> screen"

definition textbuf_store :: "u8 \<Rightarrow> textviewport \<Rightarrow> textviewport kres" where
  "textbuf_store c tv =
     (if 0 \<le> textbuflast tv \<and> textbuflast tv < int VIEWPORT_TEXTBUF_LEN
      then Inr (tv\<lparr>textbuf := (textbuf tv)[nat (textbuflast tv) := c]\<rparr>)
      else Inl ''write outside of viewport_textbuf'')"

definition textbuf_append :: "u8 \<Rightarrow> textviewport \<Rightarrow> textviewport kres" where
  "textbuf_append c tv = kbind (textbuf_store c tv) (\<lambda>tv. textbuf_store 0 (tv\<lparr>textbuflast := textbuflast tv + 1\<rparr>))"

definition textviewport_print_char :: "u8 \<Rightarrow> console \<Rightarrow> console" where
  "textviewport_print_char c con =
     (let (tv, s) = con;
          x = charpos_x tv * fontsize_x tv;
          y = charpos_y tv * fontsize_y tv;
          m = viewport_draw_char (sc_fb s) (sc_font s) (tv_viewport tv) x y (tv_fg_color tv) (tv_bg_color tv) c (sc_mem s)
      in (tv\<lparr>charpos_x := charpos_x tv + 1\<rparr>, s\<lparr>sc_mem := m\<rparr>))"

text \<open>One line of the screen moves up by one line; \<open>n\<close> iterations of the loop over \<open>i\<close> are left.\<close>

fun scroll_rows :: "textviewport \<Rightarrow> nat \<Rightarrow> u32 \<Rightarrow> screen \<Rightarrow> screen kres" where
  "scroll_rows tv 0 i s = Inr s"
| "scroll_rows tv (Suc n) i s =
     (let y0 = fontsize_y tv * (i + 1);
          y1 = y0 - fontsize_y tv
      in kbind (viewport_copy_rect (sc_fb s) (sc_bg_color s) (tv_viewport tv) 0 y0
                  (fontsize_x tv * maxchars_x tv) (fontsize_y tv) 0 y1 (sc_mem s))
           (\<lambda>m. scroll_rows tv n (i + 1) (s\<lparr>sc_mem := m\<rparr>)))"

fun scroll_lines :: "nat \<Rightarrow> console \<Rightarrow> console kres" where
  "scroll_lines 0 con = Inr con"
| "scroll_lines (Suc n) con =
     (let (tv, s) = con
      in if charpos_y tv = 0 then Inr con
         else kbind (scroll_rows tv (unat (maxchars_y tv)) 0 s) (\<lambda>s.
                scroll_lines n (tv\<lparr>charpos_y := charpos_y tv - 1\<rparr>, s)))"

definition textviewport_scrolldown :: "u32 \<Rightarrow> console \<Rightarrow> console kres" where
  "textviewport_scrolldown lines = scroll_lines (unat lines)"

definition textviewport_newline :: "console \<Rightarrow> console kres" where
  "textviewport_newline con =
     (let (tv, s) = con; tv = tv\<lparr>charpos_x := 0, charpos_y := charpos_y tv + 1\<rparr>
      in if charpos_y tv = maxchars_y tv then textviewport_scrolldown 1 (tv, s) else Inr (tv, s))"

definition textviewport_backspace :: "console \<Rightarrow> console" where
  "textviewport_backspace con =
     (let (tv, s) = con
      in if charpos_x tv \<noteq> 0
         then let tv = tv\<lparr>charpos_x := charpos_x tv - 1\<rparr>
              in (tv, s\<lparr>sc_mem := viewport_fill_rect (sc_fb s) (tv_viewport tv) (charpos_x tv * fontsize_x tv)
                           (charpos_y tv * fontsize_y tv) (fontsize_x tv) (fontsize_y tv) (tv_bg_color tv) (sc_mem s)\<rparr>)
         else con)"

definition viewport_console_putc :: "u8 \<Rightarrow> console \<Rightarrow> (int \<times> console) kres" where
  "viewport_console_putc c con =
     (let (tv, s) = con
      in if c = CONSOLE_CHAR_HORIZONTAL_TAB then
           kbind (textbuf_append c tv) (\<lambda>tv.
             Inr (ERR_OK, (textviewport_print_char 0x20 ^^ nat (sint (tabwidth tv))) (tv, s)))
         else if c = CONSOLE_CHAR_CARRIAGE_RETURN then Inr (ERR_OK, con)
         else if c = CONSOLE_CHAR_LINEFEED then
           kbind (textbuf_append c tv) (\<lambda>tv. kbind (textviewport_newline (tv, s)) (\<lambda>con. Inr (ERR_OK, con)))
         else if c = CONSOLE_CHAR_BACKSPACE then
           kbind (textbuf_store 0 tv) (\<lambda>tv.
             Inr (ERR_OK, textviewport_backspace (tv\<lparr>textbuflast := textbuflast tv - 1\<rparr>, s)))
         else
           kbind (textbuf_append c tv) (\<lambda>tv.
             kbind (if maxchars_x tv \<le>s charpos_x tv then textviewport_newline (tv, s) else Inr (tv, s)) (\<lambda>con.
               Inr (ERR_OK, textviewport_print_char c con))))"

fun viewport_console_puts :: "u8 list \<Rightarrow> console \<Rightarrow> (int \<times> console) kres" where
  "viewport_console_puts [] con = Inr (ERR_OK, con)"
| "viewport_console_puts (c # str) con =
     kbind (viewport_console_putc c con) (\<lambda>(ret, con).
       if ret \<noteq> 0 then Inr (ret, con) else viewport_console_puts str con)"

text \<open>
  Initialisation. The viewport is the one \<^verbatim>\<open>vcanvas_make_viewport\<close> returns: without one the code follows
  a null pointer, and with a font of no width or height it divides by zero. \<open>hello\<close> is the address of the greeting.
\<close>

definition viewport_console_init ::
  "ptr \<Rightarrow> ptr \<Rightarrow> textviewport \<Rightarrow> vcanvas \<Rightarrow> bmem \<Rightarrow> (int \<times> textviewport \<times> vcanvas \<times> bmem) kres" where
  "viewport_console_init hello font tv c m =
     (let (v, c) = vcanvas_make_viewport 20 20 768 512 c;
          (fx, fy) = (case vcanvas_get_fontsize font m of None \<Rightarrow> (fontsize_x tv, fontsize_y tv) | Some s \<Rightarrow> s)
      in case v of
           None \<Rightarrow> Inl ''null viewport''
         | Some i \<Rightarrow>
             if fx = 0 \<or> fy = 0 then Inl ''division by zero''
             else let vp = viewports c ! i;
                      tv = tv\<lparr>tv_fg_color := 0x00ffffaa, tv_bg_color := 0x00111111, charpos_x := 0, charpos_y := 0,
                              text_wrapping := True, textbuflast := 0, tabwidth := 4, tv_viewport := vp,
                              fontsize_x := fx, fontsize_y := fy, maxchars_x := size_x vp div fx,
                              maxchars_y := size_y vp div fy, linenum := 0\<rparr>;
                      m = viewport_fill (vc_fb c) vp (tv_bg_color tv) m
                  in Inr (0, tv, c, viewport_draw_text (vc_fb c) font vp 0 0 (tv_fg_color tv) (tv_bg_color tv) hello 5 m))"


section \<open>Copies never panic\<close>

lemma memcpy_Inr: "\<exists>m'. memcpy d a n m = Inr m'"
  by (simp add: memcpy_def memcpy_8aligned_def Let_def)

lemma copy_lines_Inr: "\<exists>m'. copy_lines pitch l n d a m = Inr m'"
proof (induction n arbitrary: d a m)
  case (Suc n)
  then show ?case using memcpy_Inr [of d a l m] by auto
qed simp

lemma viewport_copy_rect_Inr: "\<exists>m'. viewport_copy_rect f bg v x0 y0 sx sy x1 y1 m = Inr m'"
  by (auto simp: viewport_copy_rect_def viewport_copy_rect_unsafe_def Let_def copy_lines_Inr split: option.split)

lemma scroll_rows_Inr: "\<exists>s'. scroll_rows tv n i s = Inr s'"
proof (induction n arbitrary: i s)
  case (Suc n)
  obtain m where "viewport_copy_rect (sc_fb s) (sc_bg_color s) (tv_viewport tv) 0 (fontsize_y tv * (i + 1))
      (fontsize_x tv * maxchars_x tv) (fontsize_y tv) 0 (fontsize_y tv * (i + 1) - fontsize_y tv) (sc_mem s) = Inr m"
    using viewport_copy_rect_Inr by blast
  then show ?case using Suc by (simp add: Let_def)
qed simp

section \<open>The cursor and the text buffer\<close>

text \<open>The cursor is on a line of the viewport.\<close>

definition cursor_ok :: "textviewport \<Rightarrow> bool" where
  "cursor_ok tv \<longleftrightarrow> 0 \<le> sint (charpos_y tv) \<and> sint (charpos_y tv) < sint (maxchars_y tv)"

text \<open>The part of a text viewport that printing does not change.\<close>

definition same_layout :: "textviewport \<Rightarrow> textviewport \<Rightarrow> bool" where
  "same_layout tv tv' \<longleftrightarrow> maxchars_x tv' = maxchars_x tv \<and> maxchars_y tv' = maxchars_y tv \<and> tv_viewport tv' = tv_viewport tv \<and>
     fontsize_x tv' = fontsize_x tv \<and> fontsize_y tv' = fontsize_y tv"

text \<open>\<open>textviewport_newline\<close> always returns, on a line of the viewport, and leaves the text buffer alone.\<close>

lemma newline_result:
  "\<exists>tv' s'. textviewport_newline (tv, s) = Inr (tv', s') \<and> textbuflast tv' = textbuflast tv \<and> textbuf tv' = textbuf tv \<and>
     same_layout tv tv' \<and> (cursor_ok tv \<longrightarrow> cursor_ok tv')"
proof (cases "charpos_y tv + 1 = maxchars_y tv")
  case True
  let ?tv = "tv\<lparr>charpos_x := 0, charpos_y := charpos_y tv + 1\<rparr>"
  obtain s' where s': "scroll_rows ?tv (unat (maxchars_y tv)) 0 s = Inr s'" using scroll_rows_Inr by blast
  show ?thesis
  proof (cases "maxchars_y tv = 0")
    case True
    then show ?thesis using \<open>charpos_y tv + 1 = maxchars_y tv\<close>
      by (auto simp: textviewport_newline_def textviewport_scrolldown_def Let_def same_layout_def cursor_ok_def)
  next
    case False
    moreover have "maxchars_y tv - 1 = charpos_y tv" using True by (metis add_diff_cancel_right')
    ultimately show ?thesis using True s'
      by (auto simp: textviewport_newline_def textviewport_scrolldown_def Let_def same_layout_def cursor_ok_def)
  qed
next
  case False
  have "cursor_ok (tv\<lparr>charpos_x := 0, charpos_y := charpos_y tv + 1\<rparr>)" if c: "cursor_ok tv"
  proof -
    have b: "0 \<le> sint (charpos_y tv)" "sint (charpos_y tv) < sint (maxchars_y tv)" using c by (simp_all add: cursor_ok_def)
    have "sint (maxchars_y tv) < 2 ^ 31" using sint_lt [of "maxchars_y tv"] by simp
    then have "sint (charpos_y tv + 1) = sint (charpos_y tv) + 1"
      using sint_of_int_small [of "sint (charpos_y tv) + 1"] b by simp
    moreover from this have "sint (charpos_y tv) + 1 \<noteq> sint (maxchars_y tv)" using False by (metis signed_word_eqI)
    ultimately show ?thesis using b by (simp add: cursor_ok_def)
  qed
  then show ?thesis using False by (auto simp: textviewport_newline_def Let_def same_layout_def)
qed

lemma print_char_keeps:
  "textbuflast (fst (textviewport_print_char c con)) = textbuflast (fst con)"
  "same_layout (fst con) (fst (textviewport_print_char c con))"
  "cursor_ok (fst (textviewport_print_char c con)) = cursor_ok (fst con)"
  by (simp_all add: textviewport_print_char_def Let_def same_layout_def cursor_ok_def split: prod.split)

lemma same_layout_trans: "same_layout a b \<Longrightarrow> same_layout b c \<Longrightarrow> same_layout a c"
  by (simp add: same_layout_def)

lemma print_chars_keep:
  "textbuflast (fst ((textviewport_print_char c ^^ n) con)) = textbuflast (fst con)"
  "same_layout (fst con) (fst ((textviewport_print_char c ^^ n) con))"
  "cursor_ok (fst ((textviewport_print_char c ^^ n) con)) = cursor_ok (fst con)"
proof (induction n)
  case (Suc n)
  { case 1 show ?case using Suc(1) print_char_keeps(1) by simp }
  { case 2 show ?case using Suc(2) print_char_keeps(2) same_layout_trans by fastforce }
  { case 3 show ?case using Suc(3) print_char_keeps(3) by simp }
qed (simp_all add: same_layout_def)

lemma textbuf_append_eq:
  "textbuf_append c tv =
     (if 0 \<le> textbuflast tv \<and> textbuflast tv + 1 < 4096
      then Inr (tv\<lparr>textbuf := (textbuf tv)[nat (textbuflast tv) := c, nat (textbuflast tv + 1) := 0],
                  textbuflast := textbuflast tv + 1\<rparr>)
      else Inl ''write outside of viewport_textbuf'')"
  by (auto simp: textbuf_append_def textbuf_store_def VIEWPORT_TEXTBUF_LEN_def)


text \<open>One character: where the cursor and the text buffer are afterwards, and when the code writes outside the text buffer.\<close>

lemma putc_result:
  assumes "c \<noteq> CONSOLE_CHAR_BACKSPACE" "0 \<le> textbuflast (fst con)"
  shows "if c = CONSOLE_CHAR_CARRIAGE_RETURN then viewport_console_putc c con = Inr (ERR_OK, con)
    else if textbuflast (fst con) + 1 < 4096
    then \<exists>con'. viewport_console_putc c con = Inr (ERR_OK, con') \<and> textbuflast (fst con') = textbuflast (fst con) + 1
    else viewport_console_putc c con = Inl ''write outside of viewport_textbuf''"
proof -
  obtain tv s where con: "con = (tv, s)" by (cases con)
  define tv1 where "tv1 = tv\<lparr>textbuf := (textbuf tv)[nat (textbuflast tv) := c, nat (textbuflast tv + 1) := 0],
    textbuflast := textbuflast tv + 1\<rparr>"
  obtain tv2 s2 where nl: "textviewport_newline (tv1, s) = Inr (tv2, s2)" "textbuflast tv2 = textbuflast tv1"
    using newline_result [of tv1 s] by auto
  have last: "textbuflast tv1 = textbuflast tv + 1" "maxchars_x tv1 = maxchars_x tv" "charpos_x tv1 = charpos_x tv"
    by (simp_all add: tv1_def)
  have app: "textbuf_append c tv =
      (if textbuflast tv + 1 < 4096 then Inr tv1 else Inl ''write outside of viewport_textbuf'')"
    using assms(2) by (simp add: textbuf_append_eq tv1_def con)
  have "CONSOLE_CHAR_CARRIAGE_RETURN \<noteq> CONSOLE_CHAR_HORIZONTAL_TAB"
    by (simp add: CONSOLE_CHAR_CARRIAGE_RETURN_def CONSOLE_CHAR_HORIZONTAL_TAB_def)
  then show ?thesis
    using assms(1) app nl print_char_keeps(1) [of c "(tv1, s)"] print_char_keeps(1) [of c "(tv2, s2)"]
      print_chars_keep(1) [where c = "0x20" and n = "nat (sint (tabwidth tv1))" and con = "(tv1, s)"]
    by (auto simp: viewport_console_putc_def con last simp del: split_paired_Ex)
qed

text \<open>What every step keeps: the layout, and a cursor on a line of the viewport.\<close>

definition keeps :: "textviewport \<Rightarrow> textviewport \<Rightarrow> bool" where
  "keeps tv tv' \<longleftrightarrow> same_layout tv tv' \<and> (cursor_ok tv \<longrightarrow> cursor_ok tv')"

lemma console_keeps_trans: "keeps a b \<Longrightarrow> keeps b c \<Longrightarrow> keeps a c"
  by (auto simp: keeps_def intro: same_layout_trans)

lemma console_keeps_refl: "keeps tv tv"
  by (simp add: keeps_def same_layout_def)

lemma keeps_textbuf: "keeps tv (tv\<lparr>textbuf := b, textbuflast := l\<rparr>)"
  by (simp add: keeps_def same_layout_def cursor_ok_def)

lemma keeps_newline: "textviewport_newline (tv, s) = Inr con \<Longrightarrow> keeps tv (fst con)"
  using newline_result [of tv s] by (auto simp: keeps_def)

lemma keeps_print: "keeps (fst con) (fst ((textviewport_print_char c ^^ n) con))"
  using print_chars_keep(2,3) by (simp add: keeps_def)

lemma keeps_backspace: "keeps tv (fst (textviewport_backspace (tv\<lparr>textbuf := b, textbuflast := l\<rparr>, s)))"
  by (simp add: textviewport_backspace_def Let_def keeps_def same_layout_def cursor_ok_def)

lemma putc_keeps:
  assumes "viewport_console_putc c (tv, s) = Inr (r, con')"
  shows "keeps tv (fst con')"
proof -
  have print: "keeps tv (fst ((textviewport_print_char ch ^^ n) (tv\<lparr>textbuf := b, textbuflast := l\<rparr>, s)))" for ch n b l
    using console_keeps_trans [OF keeps_textbuf] keeps_print by (metis fst_conv)
  have nl: "keeps tv (fst con)" if "textviewport_newline (tv\<lparr>textbuf := b, textbuflast := l\<rparr>, s) = Inr con" for b l con
    using console_keeps_trans [OF keeps_textbuf] keeps_newline [OF that] .
  have nlp: "keeps tv (fst (textviewport_print_char ch con))"
    if "textviewport_newline (tv\<lparr>textbuf := b, textbuflast := l\<rparr>, s) = Inr con" for ch b l con
    using console_keeps_trans [OF nl [OF that]] keeps_print [where con = con and c = ch and n = 1] by simp
  show ?thesis
    using assms print [where n = 1] print nl nlp keeps_backspace [of tv] console_keeps_refl [of tv]
    unfolding viewport_console_putc_def textbuf_append_eq textbuf_store_def
    by (auto simp: kbind_eq_Inr split: if_splits)
qed


lemma puts_keeps:
  "viewport_console_puts str con = Inr (r, con') \<Longrightarrow> keeps (fst con) (fst con')"
proof (induction str arbitrary: con)
  case (Cons c str)
  obtain tv s where con: "con = (tv, s)" by (cases con)
  from Cons.prems obtain r1 con1 where 1: "viewport_console_putc c con = Inr (r1, con1)" by (auto simp: kbind_eq_Inr)
  have k: "keeps (fst con) (fst con1)" using putc_keeps 1 con by fastforce
  show ?case
  proof (cases "r1 = 0")
    case True
    then have "keeps (fst con1) (fst con')" using Cons.IH [of con1] Cons.prems 1 by simp
    with k show ?thesis by (rule console_keeps_trans)
  next
    case False
    then show ?thesis using Cons.prems 1 k by simp
  qed
qed (simp add: console_keeps_refl)

text \<open>The characters that take room in the text buffer.\<close>

abbreviation stored :: "u8 list \<Rightarrow> nat" where
  "stored str \<equiv> length (filter (\<lambda>c. c \<noteq> CONSOLE_CHAR_CARRIAGE_RETURN) str)"

lemma puts_textbuf:
  assumes "CONSOLE_CHAR_BACKSPACE \<notin> set str" "0 \<le> textbuflast (fst con)" "textbuflast (fst con) < 4096"
  shows "(\<exists>con'. viewport_console_puts str con = Inr (ERR_OK, con')) \<longleftrightarrow> textbuflast (fst con) + int (stored str) < 4096"
  using assms
proof (induction str arbitrary: con)
  case (Cons c str)
  note one = putc_result [of c con] and IH = Cons.IH
  consider "c = CONSOLE_CHAR_CARRIAGE_RETURN" | "c \<noteq> CONSOLE_CHAR_CARRIAGE_RETURN" "textbuflast (fst con) + 1 < 4096"
    | "c \<noteq> CONSOLE_CHAR_CARRIAGE_RETURN" "\<not> textbuflast (fst con) + 1 < 4096" by blast
  then show ?case
  proof cases
    case 1
    then have "viewport_console_putc c con = Inr (0, con)" using one Cons.prems by (auto simp: ERR_OK_def)
    then show ?thesis using 1 IH [of con] Cons.prems by simp
  next
    case 2
    then obtain con1 where "viewport_console_putc c con = Inr (ERR_OK, con1)" "textbuflast (fst con1) = textbuflast (fst con) + 1"
      using one Cons.prems by auto
    then show ?thesis using 2 IH [of con1] Cons.prems by (simp add: ERR_OK_def add.assoc)
  next
    case 3
    then show ?thesis using one Cons.prems by auto
  qed
qed simp

section \<open>Properties\<close>


text \<open>A font at address 64, eight pixels wide and sixteen high, and a console that prints one line feed more than it has lines.\<close>

definition console_font :: bmem where
  "console_font = ((\<lambda>_. 0)(72 := 32, 80 := 2, 84 := 16, 88 := 16, 92 := 8))"

lemma console_font_size: "psf_width console_font 64 = 8" "psf_height console_font 64 = 16"
  by (simp_all add: psf_width_def psf_height_def load32_def console_font_def)

definition empty_canvas :: vcanvas where
  "empty_canvas = \<lparr>initialization_key = VCANVAS_INITIALIZED_KEY, vc_fb = sample_fb, vc_fg_color = 0, vc_bg_color = 0,
     vc_tabwidth = 4, viewports = []\<rparr>"


text \<open>The text buffer is written without a bound: from its start, a string without backspaces is printed if and only if it has
  at most 4095 characters that are not carriage returns; with one more the code writes behind the buffer.\<close>

theorem console_textbuf_limit:
  assumes "CONSOLE_CHAR_BACKSPACE \<notin> set str" "textbuflast tv = 0"
  shows "(\<exists>con'. viewport_console_puts str (tv, s) = Inr (ERR_OK, con')) \<longleftrightarrow>
    length (filter (\<lambda>c. c \<noteq> CONSOLE_CHAR_CARRIAGE_RETURN) str) \<le> 4095"
  using puts_textbuf [of str "(tv, s)"] assms by auto

theorem console_textbuf_limit_witness:
  "\<forall>tv s. \<not> (\<exists>con'. viewport_console_puts (replicate 4096 0x41) (tv\<lparr>textbuflast := 0\<rparr>, s) = Inr (ERR_OK, con'))"
proof -
  have "\<not> (\<exists>con'. viewport_console_puts (replicate 4096 0x41) (tv\<lparr>textbuflast := 0\<rparr>, s) = Inr (ERR_OK, con'))" for tv s
  proof -
    have "CONSOLE_CHAR_BACKSPACE \<notin> set (replicate 4096 0x41)" by (simp add: CONSOLE_CHAR_BACKSPACE_def)
    moreover have "filter (\<lambda>c. c \<noteq> CONSOLE_CHAR_CARRIAGE_RETURN) (replicate 4096 0x41) = replicate 4096 0x41"
      by (simp add: filter_id_conv CONSOLE_CHAR_CARRIAGE_RETURN_def)
    ultimately show ?thesis using console_textbuf_limit [of "replicate 4096 0x41" "tv\<lparr>textbuflast := 0\<rparr>" s]
      by (simp only: length_replicate) simp
  qed
  then show ?thesis by blast
qed

end
