(* ===== verification/Console.thy ===== *)
theory Console
  imports Viewport_console
begin

text \<open>
  The registry of console devices (\<^verbatim>\<open>src/console.c\<close>) and the video console (\<^verbatim>\<open>src/video_console.c\<close>). A
  device is a pair of operations on a state that the registry does not look at; no device is a null function
  pointer. The name of a device is its field of 14 bytes; the byte behind it, which the code clears, is padding of the record.
\<close>

section \<open>Devices\<close>

definition MAX_CONSOLE_DEVICES :: nat where "MAX_CONSOLE_DEVICES = 4"
definition MAX_DEVNAME_SIZE :: nat where "MAX_DEVNAME_SIZE = 14"

record 's console_dev =
  dev_puts :: "u8 list \<Rightarrow> 's \<Rightarrow> 's"
  dev_putc :: "u8 \<Rightarrow> 's \<Rightarrow> 's"

record 's console_dev_ent =
  ent_dev :: "'s console_dev option"
  ent_name :: "u8 list"
  ent_enabled :: bool

record 's consoles =
  console_devices :: "'s console_dev_ent list"
  num_console_devices :: nat

definition console_init :: "'s consoles" where
  "console_init = \<lparr>console_devices = replicate MAX_CONSOLE_DEVICES
       \<lparr>ent_dev = None, ent_name = replicate MAX_DEVNAME_SIZE 0, ent_enabled = False\<rparr>,
     num_console_devices = 0\<rparr>"

text \<open>\<^verbatim>\<open>strncpy\<close> of at most 13 characters of the name into its field.\<close>

definition name_field :: "u8 list \<Rightarrow> u8 list \<Rightarrow> u8 list" where
  "name_field devname old = take (MAX_DEVNAME_SIZE - 1) (devname @ replicate MAX_DEVNAME_SIZE 0) @ drop (MAX_DEVNAME_SIZE - 1) old"

definition console_add_device :: "'s console_dev \<Rightarrow> u8 list \<Rightarrow> 's consoles \<Rightarrow> (int \<times> 's consoles) kres" where
  "console_add_device d devname cs =
     (if num_console_devices cs > MAX_CONSOLE_DEVICES then Inl ''Failed to add more console devices.''
      else if num_console_devices cs = MAX_CONSOLE_DEVICES then Inr (-1, cs)
      else if length devname \<ge> MAX_DEVNAME_SIZE then Inr (-1, cs)
      else let n = num_console_devices cs;
               old = ent_name (console_devices cs ! n)
           in Inr (0, cs\<lparr>console_devices := (console_devices cs)
                [n := \<lparr>ent_dev = Some d, ent_name = name_field devname old, ent_enabled = True\<rparr>],
              num_console_devices := n + 1\<rparr>))"

text \<open>The operations without a body in the code.\<close>

definition console_rm_device :: "u8 list \<Rightarrow> 's consoles \<Rightarrow> 's consoles" where "console_rm_device devname cs = cs"
definition console_enable_device :: "u8 list \<Rightarrow> 's consoles \<Rightarrow> 's consoles" where "console_enable_device devname cs = cs"
definition console_disable_device :: "u8 list \<Rightarrow> 's consoles \<Rightarrow> 's consoles" where "console_disable_device devname cs = cs"

fun for_enabled :: "('s console_dev \<Rightarrow> 's \<Rightarrow> 's) \<Rightarrow> 's console_dev_ent list \<Rightarrow> 's \<Rightarrow> 's kres" where
  "for_enabled op [] s = Inr s"
| "for_enabled op (con # cons) s =
     (if ent_enabled con
      then (case ent_dev con of None \<Rightarrow> Inl ''call of a null pointer'' | Some d \<Rightarrow> for_enabled op cons (op d s))
      else for_enabled op cons s)"

definition console_putc :: "u8 \<Rightarrow> 's consoles \<Rightarrow> 's \<Rightarrow> (int \<times> 's) kres" where
  "console_putc ch cs s = kbind (for_enabled (\<lambda>d. dev_putc d ch) (console_devices cs) s) (\<lambda>s. Inr (ERR_OK, s))"

definition console_puts :: "u8 list \<Rightarrow> 's consoles \<Rightarrow> 's \<Rightarrow> (int \<times> 's) kres" where
  "console_puts str cs s = kbind (for_enabled (\<lambda>d. dev_puts d str) (console_devices cs) s) (\<lambda>s. Inr (ERR_OK, s))"

text \<open>\<open>init_viewport\<close> is the call of \<^verbatim>\<open>viewport_console_init\<close>, whose result is 0 whenever it returns.\<close>

definition UART_CONSOLE_NAME :: "u8 list" where "UART_CONSOLE_NAME = [0x75, 0x61, 0x72, 0x74, 0x63, 0x6f, 0x6e]"

definition init_consoles :: "'s console_dev \<Rightarrow> ('s \<Rightarrow> (int \<times> 's) kres) \<Rightarrow> 's \<Rightarrow> ('s consoles \<times> 's) kres" where
  "init_consoles uart init_viewport s =
     kbind (console_add_device uart UART_CONSOLE_NAME console_init) (\<lambda>(ret, cs).
       if ret \<noteq> 0 then Inl ''Failed to add uart console device.''
       else kbind (init_viewport s) (\<lambda>(ret, s).
              if ret \<noteq> 0 then Inl ''Failed to init viewport console device.'' else Inr (cs, s)))"

section \<open>The video console\<close>

record console_screen =
  scr_x :: u32
  scr_y :: u32
  scr_width :: u32
  scr_height :: u32

definition video_console_init :: "vcanvas \<Rightarrow> console_screen \<Rightarrow> int \<times> console_screen" where
  "video_console_init c sc =
     (if \<not> vcanvas_is_initialized c then (-1, sc)
      else (0, \<lparr>scr_x = 0, scr_y = 0, scr_width = fst (vcanvas_get_width_height c), scr_height = snd (vcanvas_get_width_height c)\<rparr>))"

definition video_console_puts ::
  "vcanvas \<Rightarrow> ptr \<Rightarrow> ptr \<Rightarrow> ptr \<Rightarrow> ptr \<Rightarrow> console_screen \<times> bmem \<Rightarrow> (console_screen \<times> bmem) kres option" where
  "video_console_puts c font x_ptr y_ptr str scm =
     (let (sc, m) = scm
      in map_option (\<lambda>r. kbind r (\<lambda>(x, y, m). Inr (sc\<lparr>scr_x := x, scr_y := y\<rparr>, m)))
           (vcanvas_puts c font x_ptr y_ptr str (scr_x sc, scr_y sc, m)))"

definition video_console_putc :: "vcanvas \<Rightarrow> ptr \<Rightarrow> u8 \<Rightarrow> console_screen \<times> bmem \<Rightarrow> console_screen \<times> bmem" where
  "video_console_putc c font chr scm =
     (let (sc, m) = scm; (x, y, m) = vcanvas_putc c font chr (scr_x sc, scr_y sc, m)
      in (sc\<lparr>scr_x := x, scr_y := y\<rparr>, m))"

section \<open>Registered devices\<close>

text \<open>The registry holds the devices of the list \<open>ds\<close> with their names, in the order of their registration.\<close>

definition holds :: "'s consoles \<Rightarrow> ('s console_dev \<times> u8 list) list \<Rightarrow> bool" where
  "holds cs ds \<longleftrightarrow> length ds \<le> MAX_CONSOLE_DEVICES \<and> num_console_devices cs = length ds \<and>
     console_devices cs =
       map (\<lambda>(d, nm). \<lparr>ent_dev = Some d, ent_name = nm @ replicate (MAX_DEVNAME_SIZE - length nm) 0, ent_enabled = True\<rparr>) ds @
       replicate (MAX_CONSOLE_DEVICES - length ds)
         \<lparr>ent_dev = None, ent_name = replicate MAX_DEVNAME_SIZE 0, ent_enabled = False\<rparr>"

text \<open>Registration in sequence; the results are those of the calls.\<close>

fun add_devices :: "('s console_dev \<times> u8 list) list \<Rightarrow> 's consoles \<Rightarrow> (int list \<times> 's consoles) kres" where
  "add_devices [] cs = Inr ([], cs)"
| "add_devices ((d, nm) # ds) cs =
     kbind (console_add_device d nm cs) (\<lambda>(r, cs). kbind (add_devices ds cs) (\<lambda>(rs, cs). Inr (r # rs, cs)))"

lemma holds_init: "holds console_init []"
  by (simp add: holds_def console_init_def)

lemma name_field_eq:
  assumes "length nm < MAX_DEVNAME_SIZE"
  shows "name_field nm (replicate MAX_DEVNAME_SIZE 0) = nm @ replicate (MAX_DEVNAME_SIZE - length nm) 0"
proof -
  have "14 - length nm = Suc (13 - length nm)" using assms by (simp add: MAX_DEVNAME_SIZE_def)
  then show ?thesis using assms by (simp add: name_field_def MAX_DEVNAME_SIZE_def replicate_append_same)
qed

lemma holds_add:
  assumes "holds cs ds" "length ds < MAX_CONSOLE_DEVICES" "length nm < MAX_DEVNAME_SIZE"
  shows "\<exists>cs'. console_add_device d nm cs = Inr (0, cs') \<and> holds cs' (ds @ [(d, nm)])"
proof -
  have old: "ent_name (console_devices cs ! length ds) = replicate MAX_DEVNAME_SIZE 0"
    using assms(1,2) by (simp add: holds_def nth_append)
  have rest: "replicate (MAX_CONSOLE_DEVICES - length ds) e = e # replicate (MAX_CONSOLE_DEVICES - Suc (length ds)) e" for e :: "'a console_dev_ent"
    using assms(2) by (simp add: Suc_diff_Suc flip: replicate_Suc)
  show ?thesis using assms old
    by (simp add: console_add_device_def holds_def Let_def name_field_eq list_update_append rest)
qed

lemma holds_full:
  "holds cs ds \<Longrightarrow> length ds = MAX_CONSOLE_DEVICES \<Longrightarrow> console_add_device d nm cs = Inr (-1, cs)"
  by (simp add: console_add_device_def holds_def)

lemma add_devices_result:
  assumes "holds cs ds0" "\<forall>(d, nm) \<in> set ds. length nm < MAX_DEVNAME_SIZE"
  shows "\<exists>cs'. add_devices ds cs = Inr (replicate (min (length ds) (4 - length ds0)) 0 @
      replicate (length ds - (4 - length ds0)) (-1), cs') \<and> holds cs' (take 4 (ds0 @ ds))"
  using assms
proof (induction ds arbitrary: cs ds0)
  case Nil
  then show ?case by (simp add: holds_def MAX_CONSOLE_DEVICES_def)
next
  case (Cons dn ds)
  obtain d nm where dn: "dn = (d, nm)" by (cases dn)
  have names: "\<forall>(d, nm) \<in> set ds. length nm < MAX_DEVNAME_SIZE" "length nm < MAX_DEVNAME_SIZE" using Cons.prems(2) dn by auto
  have le: "length ds0 \<le> 4" using Cons.prems(1) by (simp add: holds_def MAX_CONSOLE_DEVICES_def)
  show ?case
  proof (cases "length ds0 = 4")
    case True
    then have "console_add_device d nm cs = Inr (-1, cs)" using holds_full [OF Cons.prems(1)] by (simp add: MAX_CONSOLE_DEVICES_def)
    then show ?thesis using Cons.IH [OF Cons.prems(1) names(1)] True by (auto simp: dn)
  next
    case False
    then have lt: "length ds0 < 4" using le by simp
    then obtain cs1 where cs1: "console_add_device d nm cs = Inr (0, cs1)" "holds cs1 (ds0 @ [(d, nm)])"
      using holds_add [OF Cons.prems(1) _ names(2)] by (auto simp: MAX_CONSOLE_DEVICES_def)
    have "4 - length ds0 = Suc (4 - Suc (length ds0))" using lt by simp
    then show ?thesis using Cons.IH [OF cs1(2) names(1)] cs1(1) by (auto simp: dn)
  qed
qed

lemma for_enabled_holds:
  assumes "holds cs ds"
  shows "for_enabled op (console_devices cs) s = Inr (fold (\<lambda>(d, nm). op d) ds s)"
proof -
  have off: "for_enabled op (replicate n e) s = Inr s" if "\<not> ent_enabled e" for n s and e :: "'a console_dev_ent"
    using that by (induction n) simp_all
  have "for_enabled op (map (\<lambda>(d, nm). \<lparr>ent_dev = Some d, ent_name = f nm, ent_enabled = True\<rparr>) ds @ replicate n
      \<lparr>ent_dev = None, ent_name = e, ent_enabled = False\<rparr>) s = Inr (fold (\<lambda>(d, nm). op d) ds s)" for f n e
    by (induction ds arbitrary: s) (auto simp: off)
  then show ?thesis using assms by (simp add: holds_def)
qed

section \<open>Properties\<close>

text \<open>C39 (functional). Registering devices with short enough names accepts the first four and refuses the rest; a character or a
  string that is then written to the console goes to each accepted device exactly once, in the order of registration.\<close>

theorem console_broadcast:
  assumes "\<forall>(d, nm) \<in> set ds. length nm < MAX_DEVNAME_SIZE"
  shows "\<exists>cs. add_devices ds console_init = Inr (replicate (min (length ds) 4) 0 @ replicate (length ds - 4) (-1), cs) \<and>
    console_putc ch cs s = Inr (ERR_OK, fold (\<lambda>(d, nm). dev_putc d ch) (take 4 ds) s) \<and>
    console_puts str cs s = Inr (ERR_OK, fold (\<lambda>(d, nm). dev_puts d str) (take 4 ds) s)"
  using add_devices_result [OF holds_init assms] for_enabled_holds
  by (fastforce simp: console_putc_def console_puts_def)

text \<open>Two devices that write into one log, under their own tags.\<close>

definition logger :: "u8 \<Rightarrow> (u8 \<times> u8) list console_dev" where
  "logger t = \<lparr>dev_puts = (\<lambda>str l. l @ map (Pair t) str), dev_putc = (\<lambda>c l. l @ [(t, c)])\<rparr>"

theorem console_broadcast_witness:
  "\<exists>cs. add_devices [(logger 1, UART_CONSOLE_NAME), (logger 2, [0x76])] console_init = Inr ([0, 0], cs) \<and>
    console_putc 0x41 cs [] = Inr (ERR_OK, [(1, 0x41), (2, 0x41)])"
  using console_broadcast [of "[(logger 1, UART_CONSOLE_NAME), (logger 2, [0x76])]" "0x41" "[]"]
  by (auto simp: UART_CONSOLE_NAME_def MAX_DEVNAME_SIZE_def logger_def numeral_eq_Suc)

end
