(* ===== verification/Dma_memory.thy ===== *)
theory Dma_memory
  imports Kmalloc Linked_List Stringlib "HOL-Library.Multiset"
begin

text \<open>
  The allocator of memory for direct memory access (\<^verbatim>\<open>src/dma_memory.c\<close>, \<^verbatim>\<open>src/include/memory/chunk.h\<close>): five
  areas of chunks of one size each, with a list of free and one of busy chunks. The addresses that the linker
  chooses are a parameter. A chunk record has 24 bytes and its list node is at offset 8. An access outside of an
  array, or to the first entry of an empty list, is \<open>Inl\<close>.
\<close>

section \<open>Areas\<close>

record chunk_area =
  chunks_table :: ptr
  chunks_mem :: ptr
  chunk_sz_log :: nat
  num_chunks :: nat
  free_list :: ptr
  busy_list :: ptr

text \<open>Where the linker puts the array of areas, the chunk records and the chunks of a size, and the bounds of the memory.\<close>

record linkage =
  areas_at :: ptr
  hdr_at :: "nat \<Rightarrow> ptr"
  mem_at :: "nat \<Rightarrow> ptr"
  dma_memory_start :: ptr
  dma_memory_end :: ptr

definition sizeof_chunk :: nat where "sizeof_chunk = 24"

definition chunk_list :: "ptr \<Rightarrow> ptr" where "chunk_list c = c + 8"

definition chunk_of_list :: "ptr \<Rightarrow> ptr" where "chunk_of_list e = e - 8"

text \<open>\<^verbatim>\<open>__CHUNK\<close>: the number of chunks is the size of the array of chunk records, which has \<open>2 ^ k\<close>
  elements whatever the number of chunks in memory.\<close>

definition CHUNK :: "linkage \<Rightarrow> nat \<Rightarrow> nat \<Rightarrow> chunk_area" where
  "CHUNK lk i k = \<lparr>chunks_table = hdr_at lk k, chunks_mem = mem_at lk k, chunk_sz_log = k, num_chunks = 2 ^ k,
     free_list = areas_at lk + 56 * i + 24, busy_list = areas_at lk + 56 * i + 40\<rparr>"

definition area_logs :: "nat list" where "area_logs = [6, 7, 9, 12, 19]"

definition dma_chunk_areas :: "linkage \<Rightarrow> chunk_area list" where
  "dma_chunk_areas lk = map (\<lambda>i. CHUNK lk i (area_logs ! i)) [0..<5]"

definition logsize_to_area_idx :: "nat list" where
  "logsize_to_area_idx = [0, 0, 1, 2, 2, 3, 3, 3, 4, 4, 4, 4, 4, 4]"

record dma =
  dm_lists :: list_heap
  dm_addr :: "ptr \<Rightarrow> ptr"
  dm_mem :: bmem

section \<open>Operations\<close>

text \<open>The comparison is unsigned: a negative difference counts as too big. \<open>Inr None\<close> is \<^verbatim>\<open>NULL\<close>.\<close>

definition chunk_area_get_by_sz :: "linkage \<Rightarrow> int \<Rightarrow> chunk_area option kres" where
  "chunk_area_get_by_sz lk sz =
     (let logsz = int (get_biggest_log2 sz)
      in if logsz - 5 < 0 \<or> logsz - 5 > int (length logsize_to_area_idx) then Inr None
         else if logsz - 5 - 1 < 0 then Inl ''logsize_to_area_idx: index out of range''
         else Inr (Some (dma_chunk_areas lk ! (logsize_to_area_idx ! nat (logsz - 5 - 1)))))"

definition dma_alloc :: "linkage \<Rightarrow> int \<Rightarrow> dma \<Rightarrow> (ptr \<times> dma) kres" where
  "dma_alloc lk sz st =
     kbind (chunk_area_get_by_sz lk sz) (\<lambda>a. case a of
         None \<Rightarrow> Inl ''dma_alloc: size too big''
       | Some a \<Rightarrow>
           let e = list_first_entry (free_list a) (dm_lists st);
               c = chunk_of_list e;
               h = list_add_tail (chunk_list c) (busy_list a) (list_del (chunk_list c) (dm_lists st))
           in if e = free_list a then Inl ''first entry of an empty list''
              else Inr (dm_addr st c, st\<lparr>dm_lists := h, dm_mem := memset (dm_addr st c) 0 (nat sz) (dm_mem st)\<rparr>))"

text \<open>The search for the area of an address; the last area where no other matches.\<close>

fun find_area :: "nat \<Rightarrow> chunk_area list \<Rightarrow> chunk_area \<Rightarrow> ptr \<Rightarrow> chunk_area" where
  "find_area base [] d addr = d"
| "find_area base (a # as) d addr =
     (let base = base + num_chunks a * 2 ^ chunk_sz_log a
      in if addr \<le> base then a else find_area base as a addr)"

definition chunk_get_by_addr :: "linkage \<Rightarrow> ptr \<Rightarrow> dma \<Rightarrow> (ptr \<times> chunk_area) kres" where
  "chunk_get_by_addr lk addr st =
     (if addr < dma_memory_start lk then Inl ''attempt to free area before dma range''
      else if addr \<ge> dma_memory_end lk then Inl ''attempt to free area after dma range''
      else let d = find_area (dma_memory_start lk) (dma_chunk_areas lk) (dma_chunk_areas lk ! 0) addr;
               base_addr = dm_addr st (chunks_table d);
               i = (addr - base_addr) div 2 ^ chunk_sz_log d
           in if addr < base_addr \<or> num_chunks d \<le> i then Inl ''chunks_table: index out of range''
              else Inr (chunks_table d + sizeof_chunk * i, d))"

definition dma_free :: "linkage \<Rightarrow> ptr \<Rightarrow> dma \<Rightarrow> dma kres" where
  "dma_free lk addr st =
     kbind (chunk_get_by_addr lk addr st) (\<lambda>(c, a).
       Inr (st\<lparr>dm_lists := list_add (chunk_list c) (free_list a) (list_del (chunk_list c) (dm_lists st))\<rparr>))"

definition init_chunk :: "chunk_area \<Rightarrow> nat \<Rightarrow> dma \<Rightarrow> dma" where
  "init_chunk a i st =
     (let c = chunks_table a + sizeof_chunk * i;
          h = list_add_tail (chunk_list c) (free_list a) (INIT_LIST_HEAD (chunk_list c) (dm_lists st))
      in st\<lparr>dm_lists := h, dm_addr := (dm_addr st)(c := chunks_mem a + i * 2 ^ chunk_sz_log a)\<rparr>)"

definition init_area :: "chunk_area \<Rightarrow> dma \<Rightarrow> dma" where
  "init_area a st =
     fold (init_chunk a) [0..<num_chunks a]
       (st\<lparr>dm_lists := INIT_LIST_HEAD (busy_list a) (INIT_LIST_HEAD (free_list a) (dm_lists st))\<rparr>)"

definition dma_memory_init :: "linkage \<Rightarrow> dma \<Rightarrow> dma" where
  "dma_memory_init lk st = fold init_area (dma_chunk_areas lk) st"

definition dma_memory_get_start_addr :: "linkage \<Rightarrow> ptr" where
  "dma_memory_get_start_addr lk = dma_memory_start lk"

definition dma_memory_get_end_addr :: "linkage \<Rightarrow> ptr" where
  "dma_memory_get_end_addr lk = dma_memory_end lk"

section \<open>Layout and invariant\<close>

definition node :: "chunk_area \<Rightarrow> nat \<Rightarrow> ptr" where
  "node a i = chunk_list (chunks_table a + sizeof_chunk * i)"

definition area_nodes :: "chunk_area \<Rightarrow> ptr list" where
  "area_nodes a = map (node a) [0..<num_chunks a]"

text \<open>The records of different areas and the array of areas are different objects.\<close>

definition table_range :: "chunk_area \<Rightarrow> ptr set" where
  "table_range a = {chunks_table a ..< chunks_table a + sizeof_chunk * num_chunks a}"

definition layout_ok :: "linkage \<Rightarrow> bool" where
  "layout_ok lk \<longleftrightarrow>
     (\<forall>i < 5. \<forall>j < 5. i \<noteq> j \<longrightarrow> table_range (dma_chunk_areas lk ! i) \<inter> table_range (dma_chunk_areas lk ! j) = {}) \<and>
     (\<forall>i < 5. table_range (dma_chunk_areas lk ! i) \<inter> {areas_at lk ..< areas_at lk + 280} = {})"

definition list_heads :: "linkage \<Rightarrow> nat \<Rightarrow> ptr set" where
  "list_heads lk n = (\<Union>i < n. {free_list (dma_chunk_areas lk ! i), busy_list (dma_chunk_areas lk ! i)})"

lemma disjoint_notin: "A \<inter> B = {} \<Longrightarrow> x \<in> B \<Longrightarrow> x \<notin> A"
  by blast

lemma cover_disjoint:
  "N \<subseteq> insert b (insert f M) \<Longrightarrow> M \<subseteq> A \<union> B \<Longrightarrow> A \<inter> T = {} \<Longrightarrow> B \<inter> T = {} \<Longrightarrow> b \<notin> T \<Longrightarrow> f \<notin> T \<Longrightarrow> N \<inter> T = {}"
  by blast

lemma UN_disjoint: "(\<And>i. i < (n :: nat) \<Longrightarrow> T \<inter> S i = {}) \<Longrightarrow> (\<Union>i < n. S i) \<inter> T = {}"
  by blast

lemma heads_iff:
  "x \<in> list_heads lk n \<longleftrightarrow> (\<exists>i < n. x = free_list (dma_chunk_areas lk ! i) \<or> x = busy_list (dma_chunk_areas lk ! i))"
  by (auto simp: list_heads_def)

lemma area_nth: "i < 5 \<Longrightarrow> dma_chunk_areas lk ! i = CHUNK lk i (area_logs ! i)"
  by (simp add: dma_chunk_areas_def)

lemma node_range: "i < num_chunks a \<Longrightarrow> node a i \<in> table_range a"
  by (auto simp: node_def table_range_def chunk_list_def sizeof_chunk_def)

lemma node_inj: "node a i = node a j \<longleftrightarrow> i = j"
  by (simp add: node_def chunk_list_def sizeof_chunk_def)

lemma heads_range: "n \<le> 5 \<Longrightarrow> list_heads lk n \<subseteq> {areas_at lk ..< areas_at lk + 280}"
  by (auto simp: list_heads_def area_nth CHUNK_def)

lemma head_neq:
  "i < 5 \<Longrightarrow> j < 5 \<Longrightarrow> free_list (dma_chunk_areas lk ! i) = free_list (dma_chunk_areas lk ! j) \<longleftrightarrow> i = j"
  "i < 5 \<Longrightarrow> j < 5 \<Longrightarrow> busy_list (dma_chunk_areas lk ! i) = busy_list (dma_chunk_areas lk ! j) \<longleftrightarrow> i = j"
  "i < 5 \<Longrightarrow> j < 5 \<Longrightarrow> free_list (dma_chunk_areas lk ! i) \<noteq> busy_list (dma_chunk_areas lk ! j)"
  by (auto simp: area_nth CHUNK_def) presburger?

lemma heads_fresh:
  assumes "n < 5"
  shows "free_list (dma_chunk_areas lk ! n) \<notin> list_heads lk n" "busy_list (dma_chunk_areas lk ! n) \<notin> list_heads lk n"
proof -
  have "free_list (dma_chunk_areas lk ! n) \<noteq> free_list (dma_chunk_areas lk ! i)"
    "free_list (dma_chunk_areas lk ! n) \<noteq> busy_list (dma_chunk_areas lk ! i)"
    "busy_list (dma_chunk_areas lk ! n) \<noteq> free_list (dma_chunk_areas lk ! i)"
    "busy_list (dma_chunk_areas lk ! n) \<noteq> busy_list (dma_chunk_areas lk ! i)" if "i < n" for i
    using head_neq(1) [of n i lk] head_neq(2) [of n i lk] head_neq(3) [of n i lk] head_neq(3) [of i n lk]
      that assms by simp_all
  then show "free_list (dma_chunk_areas lk ! n) \<notin> list_heads lk n" "busy_list (dma_chunk_areas lk ! n) \<notin> list_heads lk n"
    by (metis heads_iff)+
qed

section \<open>Initialisation\<close>

lemma init_chunk_rings:
  assumes "rings (dm_lists st) H Q" "free_list a \<in> H" "node a i \<notin> nodes H Q"
  shows "rings (dm_lists (init_chunk a i st)) H (Q(free_list a := Q (free_list a) @ [node a i]))"
proof -
  let ?x = "node a i" and ?b = "free_list a"
  have x: "?x \<notin> H" "?x \<noteq> ?b" using assms(2,3) by (auto simp: nodes_def)
  have "rings (INIT_LIST_HEAD ?x (dm_lists st)) (insert ?x H) (Q(?x := []))"
    by (rule ll.wf_init [OF assms(1,3)])
  then have "rings (list_add_tail ?x ?b (INIT_LIST_HEAD ?x (dm_lists st))) (insert ?x H - {?x})
      ((Q(?x := []))(?b := (Q(?x := [])) ?b @ [?x]))"
    using x assms(2) by (intro ll.attach_tail) auto
  moreover have "insert ?x H - {?x} = H" using x(1) by simp
  ultimately have "rings (dm_lists (init_chunk a i st)) H ((Q(?x := []))(?b := (Q(?x := [])) ?b @ [?x]))"
    by (simp add: init_chunk_def Let_def node_def)
  then show ?thesis by (rule ll.wf_cong) (use x in auto)
qed

lemma init_chunk_addr:
  "dm_addr (init_chunk a i st) =
     (dm_addr st)(chunks_table a + sizeof_chunk * i := chunks_mem a + i * 2 ^ chunk_sz_log a)"
  by (simp add: init_chunk_def Let_def)

lemma init_chunks:
  assumes "rings (dm_lists st) H Q" "free_list a \<in> H" "Q (free_list a) = []" "nodes H Q \<inter> table_range a = {}"
    "n \<le> num_chunks a"
  shows "rings (dm_lists (fold (init_chunk a) [0..<n] st)) H (Q(free_list a := map (node a) [0..<n])) \<and>
    (\<forall>c. dm_addr (fold (init_chunk a) [0..<n] st) c =
       (if c \<in> (\<lambda>k. chunks_table a + sizeof_chunk * k) ` {..<n}
        then chunks_mem a + (c - chunks_table a) div sizeof_chunk * 2 ^ chunk_sz_log a else dm_addr st c))"
  using assms(5)
proof (induction n)
  case 0
  have "Q(free_list a := []) = Q" using assms(3) by auto
  then show ?case using assms(1) by simp
next
  case (Suc n)
  let ?st = "fold (init_chunk a) [0..<n] st" and ?Q = "Q(free_list a := map (node a) [0..<n])"
  have IH: "rings (dm_lists ?st) H ?Q \<and> (\<forall>c. dm_addr ?st c =
       (if c \<in> (\<lambda>k. chunks_table a + sizeof_chunk * k) ` {..<n}
        then chunks_mem a + (c - chunks_table a) div sizeof_chunk * 2 ^ chunk_sz_log a else dm_addr st c))"
    using Suc.IH Suc.prems Suc_leD by blast
  then have r: "rings (dm_lists ?st) H ?Q" by (rule conjunct1)
  have fresh: "node a n \<notin> nodes H ?Q"
  proof -
    have "node a n \<notin> nodes H Q" using node_range [of n a] Suc.prems assms(4) by auto
    moreover have "node a n \<notin> set (map (node a) [0..<n])" by (auto simp: node_inj)
    ultimately show ?thesis by (auto simp: nodes_def split: if_splits)
  qed
  have "rings (dm_lists (init_chunk a n ?st)) H (?Q(free_list a := ?Q (free_list a) @ [node a n]))"
    by (rule init_chunk_rings [OF r assms(2) fresh])
  moreover have "?Q(free_list a := ?Q (free_list a) @ [node a n]) = Q(free_list a := map (node a) [0..<Suc n])" by simp
  ultimately have "rings (dm_lists (fold (init_chunk a) [0..<Suc n] st)) H (Q(free_list a := map (node a) [0..<Suc n]))" by simp
  moreover have "(chunks_table a + sizeof_chunk * n - chunks_table a) div sizeof_chunk = n"
    by (simp add: sizeof_chunk_def)
  then have "\<forall>c. dm_addr (fold (init_chunk a) [0..<Suc n] st) c =
      (if c \<in> (\<lambda>k. chunks_table a + sizeof_chunk * k) ` {..<Suc n}
       then chunks_mem a + (c - chunks_table a) div sizeof_chunk * 2 ^ chunk_sz_log a else dm_addr st c)"
    using IH by (auto simp: init_chunk_addr lessThan_Suc)
  ultimately show ?case by blast
qed

text \<open>The state after the first \<open>n\<close> areas have been initialised.\<close>

definition fresh_areas :: "linkage \<Rightarrow> nat \<Rightarrow> (ptr \<Rightarrow> ptr list) \<Rightarrow> dma \<Rightarrow> bool" where
  "fresh_areas lk n Q st \<longleftrightarrow> rings (dm_lists st) (list_heads lk n) Q \<and>
     (\<forall>i < n. Q (free_list (dma_chunk_areas lk ! i)) = area_nodes (dma_chunk_areas lk ! i) \<and>
        Q (busy_list (dma_chunk_areas lk ! i)) = [] \<and>
        (\<forall>k < num_chunks (dma_chunk_areas lk ! i). dm_addr st (chunks_table (dma_chunk_areas lk ! i) + sizeof_chunk * k) =
           chunks_mem (dma_chunk_areas lk ! i) + k * 2 ^ chunk_sz_log (dma_chunk_areas lk ! i)))"

lemma fresh_nodes:
  assumes "fresh_areas lk n Q st" "n \<le> 5"
  shows "nodes (list_heads lk n) Q \<subseteq> list_heads lk n \<union> (\<Union>i < n. table_range (dma_chunk_areas lk ! i))"
proof
  fix x
  assume "x \<in> nodes (list_heads lk n) Q"
  then obtain i where i: "i < n" "x \<in> list_heads lk n \<or> x \<in> set (area_nodes (dma_chunk_areas lk ! i))"
    using assms(1) by (auto simp: nodes_def list_heads_def fresh_areas_def)
  from i(2) show "x \<in> list_heads lk n \<union> (\<Union>i < n. table_range (dma_chunk_areas lk ! i))"
  proof
    assume "x \<in> set (area_nodes (dma_chunk_areas lk ! i))"
    then obtain k where "k < num_chunks (dma_chunk_areas lk ! i)" "x = node (dma_chunk_areas lk ! i) k"
      by (auto simp: area_nodes_def)
    then have "x \<in> table_range (dma_chunk_areas lk ! i)" using node_range by simp
    then show ?thesis using i(1) by blast
  qed simp
qed

lemma fresh_areas_step:
  assumes "layout_ok lk" "fresh_areas lk n Q st" "n < 5"
  shows "\<exists>Q'. fresh_areas lk (Suc n) Q' (init_area (dma_chunk_areas lk ! n) st)"
proof -
  let ?a = "dma_chunk_areas lk ! n" and ?H = "list_heads lk n"
  let ?f = "free_list ?a" and ?b = "busy_list ?a"
  let ?h = "INIT_LIST_HEAD ?b (INIT_LIST_HEAD ?f (dm_lists st))"
  have H: "list_heads lk (Suc n) = insert ?b (insert ?f ?H)" by (auto simp: list_heads_def lessThan_Suc)
  have sub: "nodes ?H Q \<subseteq> ?H \<union> (\<Union>i < n. table_range (dma_chunk_areas lk ! i))" using fresh_nodes [OF assms(2)] assms(3) by simp
  have apart: "table_range ?a \<inter> table_range (dma_chunk_areas lk ! i) = {}" if "i < n" for i
    using assms(1,3) that by (simp add: layout_ok_def)
  have struct: "table_range (dma_chunk_areas lk ! i) \<inter> {areas_at lk ..< areas_at lk + 280} = {}" if "i \<le> n" for i
    using assms(1,3) that by (simp add: layout_ok_def)
  have fb: "?f \<in> {areas_at lk ..< areas_at lk + 280}" "?b \<in> {areas_at lk ..< areas_at lk + 280}"
    using heads_range [of "Suc n" lk] assms(3) unfolding H by auto
  have new: "?f \<notin> nodes ?H Q" "?b \<notin> nodes ?H Q"
  proof -
    have "?f \<notin> ?H" "?b \<notin> ?H"
      by (rule heads_fresh [OF assms(3)])+
    moreover have "?f \<notin> table_range (dma_chunk_areas lk ! i)" "?b \<notin> table_range (dma_chunk_areas lk ! i)" if "i < n" for i
      using disjoint_notin [OF struct [OF less_imp_le [OF that]]] fb by blast+
    then have "?f \<notin> (\<Union>i < n. table_range (dma_chunk_areas lk ! i))" "?b \<notin> (\<Union>i < n. table_range (dma_chunk_areas lk ! i))"
      by blast+
    ultimately show "?f \<notin> nodes ?H Q" "?b \<notin> nodes ?H Q" using sub by blast+
  qed
  have r1: "rings (INIT_LIST_HEAD ?f (dm_lists st)) (insert ?f ?H) (Q(?f := []))"
    using assms(2) new(1) by (intro ll.wf_init) (simp_all add: fresh_areas_def)
  have neq: "?f \<noteq> ?b" using head_neq(3) assms(3) by simp
  have "?b \<notin> nodes (insert ?f ?H) (Q(?f := []))" using new(2) neq by (auto simp: nodes_def)
  then have r2: "rings ?h (list_heads lk (Suc n)) (Q(?f := [], ?b := []))" unfolding H by (rule ll.wf_init [OF r1])
  define Q2 where "Q2 = Q(?f := [], ?b := [])"
  have "nodes (list_heads lk (Suc n)) Q2 \<subseteq> insert ?b (insert ?f (nodes ?H Q))"
    unfolding H Q2_def by (auto simp: nodes_def split: if_splits)
  then have disj: "nodes (list_heads lk (Suc n)) Q2 \<inter> table_range ?a = {}"
  proof -
    have "?H \<inter> table_range ?a = {}"
    proof -
      have "?H \<subseteq> {areas_at lk ..< areas_at lk + 280}" using heads_range [of n lk] assms(3) by simp
      with struct [OF order_refl] show ?thesis by (metis Int_commute Int_mono order_refl subset_empty)
    qed
    moreover have "(\<Union>i < n. table_range (dma_chunk_areas lk ! i)) \<inter> table_range ?a = {}"
      by (rule UN_disjoint) (rule apart)
    moreover have "?f \<notin> table_range ?a" "?b \<notin> table_range ?a"
      using fb by (simp_all add: disjoint_notin [OF struct [OF order_refl]])
    ultimately show ?thesis by (intro cover_disjoint [OF \<open>nodes (list_heads lk (Suc n)) Q2 \<subseteq> _\<close> sub])
  qed
  have "?f \<in> list_heads lk (Suc n)" "Q2 ?f = []" by (auto simp: H Q2_def)
  note filled = init_chunks [of "st\<lparr>dm_lists := ?h\<rparr>" "list_heads lk (Suc n)" Q2 ?a "num_chunks ?a", OF _ this disj order_refl]
  have st': "init_area ?a st = fold (init_chunk ?a) [0..<num_chunks ?a] (st\<lparr>dm_lists := ?h\<rparr>)" by (simp add: init_area_def)
  have "fresh_areas lk (Suc n) (Q2(?f := area_nodes ?a)) (init_area ?a st)"
    unfolding fresh_areas_def
  proof (intro conjI allI impI)
    show "rings (dm_lists (init_area ?a st)) (list_heads lk (Suc n)) (Q2(?f := area_nodes ?a))"
      using filled r2 by (simp add: st' area_nodes_def Q2_def)
    fix i
    assume i: "i < Suc n"
    let ?ai = "dma_chunk_areas lk ! i"
    have q: "i \<noteq> n \<Longrightarrow> free_list ?ai \<notin> {?f, ?b}" "i \<noteq> n \<Longrightarrow> busy_list ?ai \<notin> {?f, ?b}"
      using head_neq [of i n lk] head_neq(3) [of n i lk] i assms(3) by auto
    show "(Q2(?f := area_nodes ?a)) (free_list ?ai) = area_nodes ?ai" "(Q2(?f := area_nodes ?a)) (busy_list ?ai) = []"
      using q neq i assms(2) by (cases "i = n"; simp add: Q2_def fresh_areas_def)+
    fix k
    assume k: "k < num_chunks ?ai"
    let ?c = "chunks_table ?ai + sizeof_chunk * k"
    show "dm_addr (init_area ?a st) ?c = chunks_mem ?ai + k * 2 ^ chunk_sz_log ?ai"
    proof (cases "i = n")
      case True
      then show ?thesis using filled r2 k by (simp add: st' Q2_def sizeof_chunk_def)
    next
      case False
      have "?c \<in> table_range ?ai" using k by (simp add: table_range_def sizeof_chunk_def)
      then have "?c \<notin> table_range ?a" using apart [of i] False i by auto
      then have "?c \<notin> (\<lambda>k. chunks_table ?a + sizeof_chunk * k) ` {..<num_chunks ?a}"
        by (auto simp: table_range_def sizeof_chunk_def)
      then show ?thesis using filled r2 k assms(2) False i by (simp add: st' Q2_def fresh_areas_def)
    qed
  qed
  then show ?thesis by blast
qed

lemma dma_memory_init_fresh:
  assumes "layout_ok lk"
  shows "\<exists>Q. fresh_areas lk 5 Q (dma_memory_init lk st)"
proof -
  have "\<exists>Q. fresh_areas lk n Q (fold init_area (take n (dma_chunk_areas lk)) st)" if "n \<le> 5" for n
    using that
  proof (induction n)
    case 0
    then show ?case by (simp add: fresh_areas_def list_heads_def rings_def)
  next
    case (Suc n)
    then obtain Q where "fresh_areas lk n Q (fold init_area (take n (dma_chunk_areas lk)) st)" by auto
    moreover have "take (Suc n) (dma_chunk_areas lk) = take n (dma_chunk_areas lk) @ [dma_chunk_areas lk ! n]"
      using Suc.prems by (intro take_Suc_conv_app_nth) (simp add: dma_chunk_areas_def)
    ultimately show ?case using fresh_areas_step [OF assms] Suc.prems by simp
  qed
  from this [of 5] show ?thesis by (simp add: dma_memory_init_def dma_chunk_areas_def)
qed

section \<open>Small blocks\<close>

text \<open>
  The blocks of 33 to 64 bytes come from the first area, whose table has as many records as the memory has
  chunks. \<open>small_ok\<close> relates the state to the set of addresses in use.
\<close>

abbreviation area0 :: "linkage \<Rightarrow> chunk_area" where "area0 lk \<equiv> dma_chunk_areas lk ! 0"

definition small_index :: "linkage \<Rightarrow> ptr \<Rightarrow> nat" where
  "small_index lk e = (e - 8 - hdr_at lk 6) div 24"

definition small_addr :: "linkage \<Rightarrow> ptr \<Rightarrow> ptr" where
  "small_addr lk e = mem_at lk 6 + 64 * small_index lk e"

definition small_ok :: "linkage \<Rightarrow> dma \<Rightarrow> ptr set \<Rightarrow> bool" where
  "small_ok lk st L \<longleftrightarrow>
     (\<exists>Q. rings (dm_lists st) (list_heads lk 5) Q \<and>
          mset (Q (free_list (area0 lk))) + mset (Q (busy_list (area0 lk))) = mset (area_nodes (area0 lk)) \<and>
          L = small_addr lk ` set (Q (busy_list (area0 lk)))) \<and>
     (\<forall>k < 64. dm_addr st (hdr_at lk 6 + 24 * k) = mem_at lk 6 + 64 * k)"

lemma area0_simps [simp]:
  "chunks_table (area0 lk) = hdr_at lk 6" "chunks_mem (area0 lk) = mem_at lk 6" "chunk_sz_log (area0 lk) = 6"
  "num_chunks (area0 lk) = 64"
  by (simp_all add: area_nth CHUNK_def area_logs_def)

lemma small_index_node [simp]: "small_index lk (hdr_at lk 6 + 24 * k + 8) = k"
  by (simp add: small_index_def)

lemma area0_node: "node (area0 lk) k = hdr_at lk 6 + 24 * k + 8"
  by (simp add: node_def chunk_list_def sizeof_chunk_def)

lemma set_area0: "set (area_nodes (area0 lk)) = (\<lambda>k. hdr_at lk 6 + 24 * k + 8) ` {..<64}"
  by (auto simp: area_nodes_def area0_node)

lemma small_addr_inj: "inj_on (small_addr lk) (set (area_nodes (area0 lk)))"
  by (auto simp: inj_on_def set_area0 small_addr_def)

lemma area0_heads: "free_list (area0 lk) \<in> list_heads lk 5" "busy_list (area0 lk) \<in> list_heads lk 5"
  "free_list (area0 lk) \<noteq> busy_list (area0 lk)"
  using head_neq(3) [of 0 0 lk] by (auto simp: heads_iff intro!: exI [of _ 0])

lemma small_area:
  assumes "33 \<le> sz" "sz \<le> 64"
  shows "chunk_area_get_by_sz lk sz = Inr (Some (area0 lk))"
proof -
  have b: "2 ^ (get_biggest_log2 sz - 1) < sz" "sz \<le> 2 ^ get_biggest_log2 sz"
    using get_biggest_log2_bounds [of sz] assms by simp_all
  have "(2::int) ^ (get_biggest_log2 sz - 1) < 2 ^ 6" "(2::int) ^ 5 < 2 ^ get_biggest_log2 sz"
    using b assms by simp_all
  then have "get_biggest_log2 sz - 1 < 6" "5 < get_biggest_log2 sz"
    by (simp_all only: power_strict_increasing_iff one_less_numeral_iff semiring_norm)
  then have "get_biggest_log2 sz = 6" by simp
  then show ?thesis by (simp add: chunk_area_get_by_sz_def logsize_to_area_idx_def)
qed

lemma small_init:
  assumes "layout_ok lk"
  shows "small_ok lk (dma_memory_init lk st) {}"
proof -
  obtain Q where Q: "fresh_areas lk 5 Q (dma_memory_init lk st)" using dma_memory_init_fresh [OF assms] by blast
  then have "rings (dm_lists (dma_memory_init lk st)) (list_heads lk 5) Q" "Q (free_list (area0 lk)) = area_nodes (area0 lk)"
    "Q (busy_list (area0 lk)) = []" by (simp_all add: fresh_areas_def)
  moreover have "\<forall>k < 64. dm_addr (dma_memory_init lk st) (hdr_at lk 6 + 24 * k) = mem_at lk 6 + 64 * k"
  proof (intro allI impI)
    fix k :: nat
    assume "k < 64"
    moreover have "\<forall>k < num_chunks (area0 lk). dm_addr (dma_memory_init lk st) (chunks_table (area0 lk) + sizeof_chunk * k) =
        chunks_mem (area0 lk) + k * 2 ^ chunk_sz_log (area0 lk)"
      using Q unfolding fresh_areas_def by (metis zero_less_numeral)
    ultimately show "dm_addr (dma_memory_init lk st) (hdr_at lk 6 + 24 * k) = mem_at lk 6 + 64 * k"
      by (simp add: sizeof_chunk_def)
  qed
  ultimately show ?thesis unfolding small_ok_def by (intro conjI exI [of _ Q]) simp_all
qed

lemma small_alloc:
  assumes "small_ok lk st L" "33 \<le> sz" "sz \<le> 64"
  shows "if card L < 64
    then \<exists>p st'. dma_alloc lk sz st = Inr (p, st') \<and> p \<notin> L \<and> small_ok lk st' (insert p L) \<and>
      (\<exists>k < 64. p = mem_at lk 6 + 64 * k) \<and> dm_mem st' = memset p 0 (nat sz) (dm_mem st)
    else card L = 64 \<and> dma_alloc lk sz st = Inl ''first entry of an empty list''"
proof -
  let ?f = "free_list (area0 lk)" and ?b = "busy_list (area0 lk)"
  obtain Q where Q: "rings (dm_lists st) (list_heads lk 5) Q"
      "mset (Q ?f) + mset (Q ?b) = mset (area_nodes (area0 lk))" "L = small_addr lk ` set (Q ?b)"
    and ad: "\<forall>k < 64. dm_addr st (hdr_at lk 6 + 24 * k) = mem_at lk 6 + 64 * k"
    using assms(1) by (auto simp: small_ok_def)
  have d: "distinct (Q ?f @ Q ?b)" and sz: "set (Q ?f) \<union> set (Q ?b) = set (area_nodes (area0 lk))"
  proof -
    have "distinct (area_nodes (area0 lk))" by (simp add: area_nodes_def distinct_map inj_on_def node_inj)
    then show "distinct (Q ?f @ Q ?b)" using Q(2) by (metis mset_append mset_eq_imp_distinct_iff)
    show "set (Q ?f) \<union> set (Q ?b) = set (area_nodes (area0 lk))" using Q(2) by (metis set_append mset_append set_mset_mset)
  qed
  have card: "card L = length (Q ?b)"
    using Q(3) sz d by (metis Un_upper2 card_image distinct_append distinct_card inj_on_subset small_addr_inj)
  have len: "length (Q ?f) + length (Q ?b) = 64"
    using arg_cong [OF Q(2), of size] by (simp add: area_nodes_def)
  show ?thesis
  proof (cases "Q ?f")
    case Nil
    then have "list_first_entry ?f (dm_lists st) = ?f"
      using ll.wf_is_empty [OF Q(1) area0_heads(1)] by (simp add: list_first_entry_def list_empty_def)
    then show ?thesis using Nil card len small_area [OF assms(2,3)] by (simp add: dma_alloc_def)
  next
    case (Cons x xs)
    note pop = ll.pop_push_tail [OF Q(1) area0_heads Cons]
    have "x \<in> set (area_nodes (area0 lk))" using Cons sz by auto
    then obtain k where k: "k < 64" "x = hdr_at lk 6 + 24 * k + 8" by (auto simp: set_area0)
    have x: "chunk_list (chunk_of_list x) = x" "dm_addr st (chunk_of_list x) = mem_at lk 6 + 64 * k" "x \<noteq> ?f"
      using k ad ll.head_not_member [OF Q(1) area0_heads(1,1)] Cons by (auto simp: chunk_list_def chunk_of_list_def)
    let ?p = "mem_at lk 6 + 64 * k"
    let ?st = "st\<lparr>dm_lists := list_add_tail x ?b (list_del x (dm_lists st)), dm_mem := memset ?p 0 (nat sz) (dm_mem st)\<rparr>"
    have "dma_alloc lk sz st = Inr (?p, ?st)"
      using x pop(1) small_area [OF assms(2,3)] by (simp add: dma_alloc_def Let_def)
    moreover have "?p = small_addr lk x" using k by (simp add: small_addr_def)
    moreover have "x \<notin> set (Q ?b)" using Cons d by auto
    then have "small_addr lk x \<notin> L"
      using Q(3) sz Cons small_addr_inj [of lk] by (auto simp: inj_on_def)
    moreover have "rings (dm_lists ?st) (list_heads lk 5) (Q(?f := xs, ?b := Q ?b @ [x]))"
      using pop(2) by (simp add: list_del_def)
    then have "small_ok lk ?st (insert (small_addr lk x) L)"
      unfolding small_ok_def using area0_heads(3) [of lk] Q(2,3) ad Cons
      by (intro conjI exI [of _ "Q(?f := xs, ?b := Q ?b @ [x])"]) simp_all
    ultimately show ?thesis using Cons card len k by auto
  qed
qed

lemma find_area_first:
  "as \<noteq> [] \<Longrightarrow> p \<le> base + num_chunks (as ! 0) * 2 ^ chunk_sz_log (as ! 0) \<Longrightarrow> find_area base as d p = as ! 0"
  by (cases as) simp_all

lemma small_free:
  assumes "small_ok lk st L" "p \<in> L" "mem_at lk 6 = dma_memory_start lk" "dma_memory_start lk + 4096 \<le> dma_memory_end lk"
  shows "\<exists>st'. dma_free lk p st = Inr st' \<and> small_ok lk st' (L - {p})"
proof -
  let ?f = "free_list (area0 lk)" and ?b = "busy_list (area0 lk)"
  obtain Q where Q: "rings (dm_lists st) (list_heads lk 5) Q"
      "mset (Q ?f) + mset (Q ?b) = mset (area_nodes (area0 lk))" "L = small_addr lk ` set (Q ?b)"
    and ad: "\<forall>k < 64. dm_addr st (hdr_at lk 6 + 24 * k) = mem_at lk 6 + 64 * k"
    using assms(1) by (auto simp: small_ok_def)
  obtain x where x: "x \<in> set (Q ?b)" "p = small_addr lk x" using assms(2) Q(3) by auto
  have sub: "set (Q ?b) \<subseteq> set (area_nodes (area0 lk))" using Q(2) by (metis Un_upper2 set_append mset_append set_mset_mset)
  then obtain k where k: "k < 64" "x = hdr_at lk 6 + 24 * k + 8" using x(1) by (auto simp: set_area0)
  have p: "p = mem_at lk 6 + 64 * k" using x(2) k by (simp add: small_addr_def)
  have "find_area (dma_memory_start lk) (dma_chunk_areas lk) (area0 lk) p = area0 lk"
  proof (rule find_area_first)
    show "dma_chunk_areas lk \<noteq> []" by (simp add: dma_chunk_areas_def)
    show "p \<le> dma_memory_start lk + num_chunks (area0 lk) * 2 ^ chunk_sz_log (area0 lk)" using p k(1) assms(3) by simp
  qed
  moreover have "dm_addr st (hdr_at lk 6) = mem_at lk 6" using ad by (auto dest: spec [of _ 0])
  ultimately have "chunk_get_by_addr lk p st = Inr (hdr_at lk 6 + 24 * k, area0 lk)"
    using p k(1) assms(3,4) by (simp add: chunk_get_by_addr_def Let_def sizeof_chunk_def)
  then have "dma_free lk p st = Inr (st\<lparr>dm_lists := list_add x ?f (list_del x (dm_lists st))\<rparr>)" (is "_ = Inr ?st")
    using k(2) by (simp add: dma_free_def chunk_list_def)
  moreover have "small_ok lk ?st (L - {p})"
  proof -
    have "rings (dm_lists ?st) (list_heads lk 5) (Q(?b := remove1 x (Q ?b), ?f := x # Q ?f))"
      using ll.move_head [OF Q(1) area0_heads(2,1) _ x(1)] area0_heads(3) [of lk] by (auto simp: list_del_def)
    moreover have "L - {p} = small_addr lk ` set (remove1 x (Q ?b))"
    proof -
      have "distinct (Q ?b)" using ll.wf_distinct [OF Q(1) area0_heads(2)] by simp
      moreover have "inj_on (small_addr lk) (set (Q ?b))" by (rule inj_on_subset [OF small_addr_inj sub])
      ultimately show ?thesis using Q(3) x by (auto simp: inj_on_def)
    qed
    ultimately show ?thesis
      unfolding small_ok_def using area0_heads(3) [of lk] Q(2) ad x(1) subsetD [OF sub x(1)]
      by (intro conjI exI [of _ "Q(?b := remove1 x (Q ?b), ?f := x # Q ?f)"]) simp_all
  qed
  ultimately show ?thesis by blast
qed

text \<open>A client that asks for blocks of 33 to 64 bytes and frees the ones it holds.\<close>

inductive small_client :: "linkage \<Rightarrow> dma \<Rightarrow> ptr set \<Rightarrow> bool" for lk where
  start: "small_client lk (dma_memory_init lk st) {}"
| alloc: "small_client lk st L \<Longrightarrow> 33 \<le> sz \<Longrightarrow> sz \<le> 64 \<Longrightarrow> dma_alloc lk sz st = Inr (p, st') \<Longrightarrow>
    small_client lk st' (insert p L)"
| free: "small_client lk st L \<Longrightarrow> p \<in> L \<Longrightarrow> dma_free lk p st = Inr st' \<Longrightarrow> small_client lk st' (L - {p})"

lemma small_client_ok:
  assumes "small_client lk st L" "layout_ok lk" "mem_at lk 6 = dma_memory_start lk"
    "dma_memory_start lk + 4096 \<le> dma_memory_end lk"
  shows "small_ok lk st L"
  using assms(1)
proof induction
  case (start st)
  then show ?case by (rule small_init [OF assms(2)])
next
  case (alloc st L sz p st')
  then show ?case using small_alloc [of lk st L sz] by (auto split: if_splits)
next
  case (free st L p st')
  then show ?case using small_free [OF _ _ assms(3,4)] by fastforce
qed

lemma small_ok_grid: "small_ok lk st L \<Longrightarrow> q \<in> L \<Longrightarrow> \<exists>k < 64. q = mem_at lk 6 + 64 * k"
proof -
  assume "small_ok lk st L" "q \<in> L"
  then obtain Q where "mset (Q (free_list (area0 lk))) + mset (Q (busy_list (area0 lk))) = mset (area_nodes (area0 lk))"
    and q: "q \<in> small_addr lk ` set (Q (busy_list (area0 lk)))" by (auto simp: small_ok_def)
  then have "set (Q (busy_list (area0 lk))) \<subseteq> set (area_nodes (area0 lk))"
    by (metis Un_upper2 set_append mset_append set_mset_mset)
  with q show ?thesis by (auto simp: set_area0 small_addr_def)
qed

section \<open>Properties\<close>

text \<open>C18 (safety). A program that only asks the DMA allocator for 33 to 64 bytes at a time, in any order with the
  freeing of blocks it holds: while fewer than 64 blocks are in use the allocator answers with a block of the first area
  that overlaps no block in use, and with 64 blocks in use it takes the first entry of an empty list. A block in
  use can always be freed.\<close>

theorem dma_small_blocks_disjoint:
  assumes "small_client lk st L" "layout_ok lk" "mem_at lk 6 = dma_memory_start lk"
    "dma_memory_start lk + 4096 \<le> dma_memory_end lk" "33 \<le> sz" "sz \<le> 64"
  shows "(if card L < 64
      then \<exists>p st'. dma_alloc lk sz st = Inr (p, st') \<and> (\<forall>q \<in> L. {p ..< p + 64} \<inter> {q ..< q + 64} = {}) \<and>
        {p ..< p + nat sz} \<subseteq> {dma_memory_start lk ..< dma_memory_start lk + 4096}
      else card L = 64 \<and> dma_alloc lk sz st = Inl ''first entry of an empty list'') \<and>
    (\<forall>q \<in> L. \<exists>st'. dma_free lk q st = Inr st')"
proof -
  have ok: "small_ok lk st L" by (rule small_client_ok [OF assms(1-4)])
  have apart: "{p ..< p + 64} \<inter> {q ..< q + 64} = {}"
    if "p = mem_at lk 6 + 64 * i" "q = mem_at lk 6 + 64 * j" "p \<noteq> q" for p q i j :: nat
    using that by (cases "i < j") auto
  have "\<forall>q \<in> L. {p ..< p + 64} \<inter> {q ..< q + 64} = {}" if "p \<notin> L" "p = mem_at lk 6 + 64 * k" for p k
    using small_ok_grid [OF ok] apart that by metis
  then show ?thesis
    using small_alloc [OF ok assms(5,6)] small_free [OF ok _ assms(3,4)] assms(3,6) by (fastforce split: if_splits)
qed

definition sample_linkage :: linkage where
  "sample_linkage = \<lparr>areas_at = 100000, hdr_at = (\<lambda>k. 10 ^ 9 * Suc k), mem_at = (\<lambda>k. 10 ^ 12 * Suc k),
     dma_memory_start = 7 * 10 ^ 12, dma_memory_end = 10 ^ 14\<rparr>"

lemma sample_layout: "layout_ok sample_linkage"
proof -
  have five: "(\<forall>i < 5. P i) \<longleftrightarrow> P 0 \<and> P 1 \<and> P 2 \<and> P 3 \<and> P (4 :: nat)" for P :: "nat \<Rightarrow> bool"
    by (auto simp: numeral_eq_Suc less_Suc_eq)
  show ?thesis
    by (simp add: layout_ok_def five area_nth CHUNK_def area_logs_def table_range_def sizeof_chunk_def sample_linkage_def)
qed

theorem dma_small_blocks_disjoint_witness:
  "\<forall>st. \<exists>p st'. dma_alloc sample_linkage 40 (dma_memory_init sample_linkage st) = Inr (p, st')"
proof -
  have "\<exists>p st'. dma_alloc sample_linkage 40 (dma_memory_init sample_linkage st) = Inr (p, st')" for st
  proof -
    have "small_client sample_linkage (dma_memory_init sample_linkage st) {}" by (rule small_client.start)
    from dma_small_blocks_disjoint [OF this sample_layout, of 40] show ?thesis by (auto simp: sample_linkage_def)
  qed
  then show ?thesis by blast
qed

text \<open>The chunk that the allocator picks for 33 to 524288 bytes holds the requested bytes exactly for
  the sizes up to 64, 257 to 512, 1025 to 4096, and above 8192: the index into the table of areas is one too small
  for the others, and \<^verbatim>\<open>memset\<close> then clears memory behind the chunk.\<close>

theorem dma_chunk_big_enough:
  assumes "33 \<le> sz" "sz \<le> 2 ^ 19"
  shows "\<exists>a. chunk_area_get_by_sz lk sz = Inr (Some a) \<and>
    (sz \<le> 2 ^ chunk_sz_log a \<longleftrightarrow> sz \<le> 64 \<or> 256 < sz \<and> sz \<le> 512 \<or> 1024 < sz \<and> sz \<le> 4096 \<or> 8192 < sz)"
proof -
  let ?l = "get_biggest_log2 sz"
  have b: "2 ^ (?l - 1) < sz" "sz \<le> 2 ^ ?l" using get_biggest_log2_bounds [of sz] assms(1) by simp_all
  have "(2::int) ^ (?l - 1) < 2 ^ 19" "(2::int) ^ 5 < 2 ^ ?l" using b assms by simp_all
  then have "?l - 1 < 19" "5 < ?l" by (simp_all only: power_strict_increasing_iff one_less_numeral_iff semiring_norm)
  then have "?l \<in> set [6..<20]" unfolding set_upt atLeastLessThan_iff by linarith
  moreover have "set [6..<20] = {6, 7, 8, 9, 10, 11, 12, 13, 14, 15, 16, 17, 18, 19 :: nat}" by code_simp
  ultimately have "?l \<in> {6, 7, 8, 9, 10, 11, 12, 13, 14, 15, 16, 17, 18, 19}" by blast
  then show ?thesis
    using b by (elim insertE) (simp_all add: chunk_area_get_by_sz_def logsize_to_area_idx_def area_nth CHUNK_def area_logs_def)
qed

theorem dma_chunk_big_enough_witness: 
  "\<exists>a. chunk_area_get_by_sz sample_linkage 100 = Inr (Some a) \<and> \<not> 100 \<le> (2 :: int) ^ chunk_sz_log a"
  using dma_chunk_big_enough [of 100 sample_linkage] by simp

end
