(* ===== verification/Usb_std.thy ===== *)
theory Usb_std
  imports Prelude
begin

text \<open>
  Constants and requests of the USB standard (\<^verbatim>\<open>src/include/usb/usb.h\<close>, \<^verbatim>\<open>src/include/drivers/usb/usb_dev_rq.h\<close>) and the
  bytes of descriptors. A device request is a 64-bit word.
\<close>

section \<open>Constants\<close>

definition USB_RQ_TYPE_HUB_SET_HUB_FEATURE :: u64 where "USB_RQ_TYPE_HUB_SET_HUB_FEATURE = 32"
definition USB_RQ_TYPE_HUB_SET_PORT_FEATURE :: u64 where "USB_RQ_TYPE_HUB_SET_PORT_FEATURE = 35"
definition USB_RQ_TYPE_HUB_GET_HUB_STATUS :: u64 where "USB_RQ_TYPE_HUB_GET_HUB_STATUS = 160"
definition USB_RQ_TYPE_HUB_GET_PORT_STATUS :: u64 where "USB_RQ_TYPE_HUB_GET_PORT_STATUS = 163"
definition USB_HUB_FEATURE_ENABLE :: u64 where "USB_HUB_FEATURE_ENABLE = 1"
definition USB_HUB_FEATURE_RESET :: u64 where "USB_HUB_FEATURE_RESET = 4"
definition USB_HUB_FEATURE_PORT_POWER :: u64 where "USB_HUB_FEATURE_PORT_POWER = 8"
definition USB_HUB_FEATURE_CONNECTION_CHANGE :: u64 where "USB_HUB_FEATURE_CONNECTION_CHANGE = 16"
definition USB_HUB_FEATURE_ENABLE_CHANGE :: u64 where "USB_HUB_FEATURE_ENABLE_CHANGE = 17"
definition USB_HUB_FEATURE_SUSPEND_CHANGE :: u64 where "USB_HUB_FEATURE_SUSPEND_CHANGE = 18"
definition USB_HUB_FEATURE_OVERCURRENT_CHANGE :: u64 where "USB_HUB_FEATURE_OVERCURRENT_CHANGE = 19"
definition USB_HUB_FEATURE_RESET_CHANGE :: u64 where "USB_HUB_FEATURE_RESET_CHANGE = 20"
definition USB_PORT_STATUS_CH_BIT_CONNECTED_CHANGED :: u64 where "USB_PORT_STATUS_CH_BIT_CONNECTED_CHANGED = 0"
definition USB_DESCRIPTOR_TYPE_DEVICE :: u64 where "USB_DESCRIPTOR_TYPE_DEVICE = 1"
definition USB_DESCRIPTOR_TYPE_CONFIGURATION :: u64 where "USB_DESCRIPTOR_TYPE_CONFIGURATION = 2"
definition USB_DESCRIPTOR_TYPE_STRING :: u64 where "USB_DESCRIPTOR_TYPE_STRING = 3"
definition USB_DESCRIPTOR_TYPE_INTERFACE :: u64 where "USB_DESCRIPTOR_TYPE_INTERFACE = 4"
definition USB_DESCRIPTOR_TYPE_ENDPOINT :: u64 where "USB_DESCRIPTOR_TYPE_ENDPOINT = 5"
definition USB_DESCRIPTOR_TYPE_HUB :: u64 where "USB_DESCRIPTOR_TYPE_HUB = 41"
definition USB_RQ_GET_STATUS :: u64 where "USB_RQ_GET_STATUS = 0"
definition USB_RQ_CLEAR_FEATURE :: u64 where "USB_RQ_CLEAR_FEATURE = 1"
definition USB_RQ_SET_FEATURE :: u64 where "USB_RQ_SET_FEATURE = 3"
definition USB_RQ_SET_ADDRESS :: u64 where "USB_RQ_SET_ADDRESS = 5"
definition USB_RQ_GET_DESCRIPTOR :: u64 where "USB_RQ_GET_DESCRIPTOR = 6"
definition USB_RQ_SET_DESCRIPTOR :: u64 where "USB_RQ_SET_DESCRIPTOR = 7"
definition USB_RQ_GET_CONFIGURATION :: u64 where "USB_RQ_GET_CONFIGURATION = 8"
definition USB_RQ_SET_CONFIGURATION :: u64 where "USB_RQ_SET_CONFIGURATION = 9"
definition USB_RQ_GET_INTERFACE :: u64 where "USB_RQ_GET_INTERFACE = 10"
definition USB_RQ_SET_INTERFACE :: u64 where "USB_RQ_SET_INTERFACE = 11"
definition USB_RQ_SYNCH_FRAME :: u64 where "USB_RQ_SYNCH_FRAME = 12"

lemmas usb_constants =
  USB_RQ_TYPE_HUB_SET_HUB_FEATURE_def USB_RQ_TYPE_HUB_SET_PORT_FEATURE_def USB_RQ_TYPE_HUB_GET_HUB_STATUS_def
  USB_RQ_TYPE_HUB_GET_PORT_STATUS_def USB_HUB_FEATURE_ENABLE_def USB_HUB_FEATURE_RESET_def
  USB_HUB_FEATURE_PORT_POWER_def USB_HUB_FEATURE_CONNECTION_CHANGE_def USB_HUB_FEATURE_ENABLE_CHANGE_def
  USB_HUB_FEATURE_SUSPEND_CHANGE_def USB_HUB_FEATURE_OVERCURRENT_CHANGE_def USB_HUB_FEATURE_RESET_CHANGE_def
  USB_PORT_STATUS_CH_BIT_CONNECTED_CHANGED_def USB_DESCRIPTOR_TYPE_DEVICE_def
  USB_DESCRIPTOR_TYPE_CONFIGURATION_def USB_DESCRIPTOR_TYPE_STRING_def USB_DESCRIPTOR_TYPE_INTERFACE_def
  USB_DESCRIPTOR_TYPE_ENDPOINT_def USB_DESCRIPTOR_TYPE_HUB_def USB_RQ_GET_STATUS_def USB_RQ_CLEAR_FEATURE_def
  USB_RQ_SET_FEATURE_def USB_RQ_SET_ADDRESS_def USB_RQ_GET_DESCRIPTOR_def USB_RQ_SET_DESCRIPTOR_def
  USB_RQ_GET_CONFIGURATION_def USB_RQ_SET_CONFIGURATION_def USB_RQ_GET_INTERFACE_def USB_RQ_SET_INTERFACE_def
  USB_RQ_SYNCH_FRAME_def

section \<open>Requests\<close>

definition PUTBITS64 :: "u64 \<Rightarrow> u64 \<Rightarrow> nat \<Rightarrow> u64" where
  "PUTBITS64 v msk sh = push_bit sh (v AND msk)"

definition USB_DEV_RQ_MAKE :: "u64 \<Rightarrow> u64 \<Rightarrow> u64 \<Rightarrow> u64 \<Rightarrow> u64 \<Rightarrow> u64" where
  "USB_DEV_RQ_MAKE typ rq v idx len =
     PUTBITS64 typ 0xff 0 OR PUTBITS64 rq 0xffff 8 OR PUTBITS64 v 0xffff 16 OR PUTBITS64 idx 0xffff 32 OR PUTBITS64 len 0xffff 48"

definition USB_DEV_RQ_GET_TYPE :: "u64 \<Rightarrow> u64" where "USB_DEV_RQ_GET_TYPE r = r AND 0xff"
definition USB_DEV_RQ_GET_RQ :: "u64 \<Rightarrow> u64" where "USB_DEV_RQ_GET_RQ r = drop_bit 8 r AND 0xff"
definition USB_DEV_RQ_GET_VALUE :: "u64 \<Rightarrow> u64" where "USB_DEV_RQ_GET_VALUE r = drop_bit 16 r AND 0xffff"
definition USB_DEV_RQ_GET_INDEX :: "u64 \<Rightarrow> u64" where "USB_DEV_RQ_GET_INDEX r = drop_bit 32 r AND 0xffff"
definition USB_DEV_RQ_GET_LENGTH :: "u64 \<Rightarrow> u64" where "USB_DEV_RQ_GET_LENGTH r = drop_bit 48 r AND 0xffff"

lemmas usb_rq_defs = USB_DEV_RQ_GET_TYPE_def USB_DEV_RQ_GET_RQ_def USB_DEV_RQ_GET_VALUE_def USB_DEV_RQ_GET_INDEX_def
  USB_DEV_RQ_GET_LENGTH_def USB_DEV_RQ_MAKE_def PUTBITS64_def

section \<open>Bytes of descriptors\<close>

definition le16 :: "u16 \<Rightarrow> u8 list" where "le16 x = [ucast x, ucast (drop_bit 8 x)]"

lemma length_le16 [simp]: "length (le16 x) = 2"
  by (simp add: le16_def)

section \<open>Requests keep their fields\<close>

lemma mask_consts64: "(0xff :: u64) = mask 8" "(0xffff :: u64) = mask 16"
  by (simp_all add: mask_eq_exp_minus_1)

lemma less_take_bit_u64: "unat (x :: u64) < 2 ^ n \<Longrightarrow> take_bit n x = x"
  by (metis take_bit_nat_eq_self unsigned_take_bit_eq unsigned_word_eqI)

lemma bit_request:
  assumes "rq < 256" "i < 64"
  shows "bit (USB_DEV_RQ_MAKE typ rq v idx len) i \<longleftrightarrow>
     (if i < 8 then bit typ i else if i < 16 then bit rq (i - 8) else if i < 32 then bit v (i - 16)
      else if i < 48 then bit idx (i - 32) else bit len (i - 48))"
proof -
  have "take_bit 8 rq = rq" using assms(1) by (intro less_take_bit_u64) (simp add: word_less_nat_alt)
  then have "\<not> bit rq j" if "8 \<le> j" for j using that by (metis bit_take_bit_iff not_less)
  then show ?thesis
    using assms(2)
    by (auto simp: usb_rq_defs mask_consts64 bit_or_iff bit_push_bit_iff bit_and_iff bit_mask_iff)
qed

text \<open>The fields of a request read back, cut to their width.\<close>

lemma request_fields:
  assumes "rq < 256"
  shows "USB_DEV_RQ_GET_TYPE (USB_DEV_RQ_MAKE typ rq v idx len) = take_bit 8 typ"
    "USB_DEV_RQ_GET_RQ (USB_DEV_RQ_MAKE typ rq v idx len) = rq"
    "USB_DEV_RQ_GET_VALUE (USB_DEV_RQ_MAKE typ rq v idx len) = take_bit 16 v"
    "USB_DEV_RQ_GET_INDEX (USB_DEV_RQ_MAKE typ rq v idx len) = take_bit 16 idx"
    "USB_DEV_RQ_GET_LENGTH (USB_DEV_RQ_MAKE typ rq v idx len) = take_bit 16 len"
proof -
  have "take_bit 8 rq = rq" using assms by (intro less_take_bit_u64) (simp add: word_less_nat_alt)
  then have rq: "bit rq j \<longleftrightarrow> j < 8 \<and> bit rq j" for j by (metis bit_take_bit_iff)
  note bits = bit_request [OF assms] mask_consts64 bit_and_iff bit_mask_iff bit_drop_bit_eq bit_take_bit_iff
  show "USB_DEV_RQ_GET_TYPE (USB_DEV_RQ_MAKE typ rq v idx len) = take_bit 8 typ"
    by (rule bit_word_eqI) (auto simp: USB_DEV_RQ_GET_TYPE_def bits)
  show "USB_DEV_RQ_GET_RQ (USB_DEV_RQ_MAKE typ rq v idx len) = rq"
    by (rule bit_word_eqI, subst rq) (auto simp: USB_DEV_RQ_GET_RQ_def bits)
  show "USB_DEV_RQ_GET_VALUE (USB_DEV_RQ_MAKE typ rq v idx len) = take_bit 16 v"
    by (rule bit_word_eqI) (auto simp: USB_DEV_RQ_GET_VALUE_def bits)
  show "USB_DEV_RQ_GET_INDEX (USB_DEV_RQ_MAKE typ rq v idx len) = take_bit 16 idx"
    by (rule bit_word_eqI) (auto simp: USB_DEV_RQ_GET_INDEX_def bits)
  show "USB_DEV_RQ_GET_LENGTH (USB_DEV_RQ_MAKE typ rq v idx len) = take_bit 16 len"
    by (rule bit_word_eqI) (auto simp: USB_DEV_RQ_GET_LENGTH_def bits)
qed

end
