(* ===== verification/Dwc2_regs.thy ===== *)
theory Dwc2_regs
  imports Mmio
begin

text \<open>
  Registers of the USB controller that the driver uses (\<^verbatim>\<open>src/board/bcm2835/usb/dwc2_regs.h\<close>,
  \<^verbatim>\<open>dwc2_regs_bits.h\<close>): addresses, bit positions, and accessors of bit fields.
\<close>

section \<open>Addresses\<close>

definition USB_BASE :: ptr where "USB_BASE = 0x3f980000"

definition USB_GOTGCTL :: ptr where "USB_GOTGCTL = USB_BASE + 0x0000"
definition USB_GOTGINT :: ptr where "USB_GOTGINT = USB_BASE + 0x0004"
definition USB_GAHBCFG :: ptr where "USB_GAHBCFG = USB_BASE + 0x0008"
definition USB_GUSBCFG :: ptr where "USB_GUSBCFG = USB_BASE + 0x000c"
definition USB_GRSTCTL :: ptr where "USB_GRSTCTL = USB_BASE + 0x0010"
definition USB_GINTSTS :: ptr where "USB_GINTSTS = USB_BASE + 0x0014"
definition USB_GINTMSK :: ptr where "USB_GINTMSK = USB_BASE + 0x0018"
definition USB_GRXSTSP :: ptr where "USB_GRXSTSP = USB_BASE + 0x0020"
definition USB_GRXFSIZ :: ptr where "USB_GRXFSIZ = USB_BASE + 0x0024"
definition USB_GNPTXFSIZ :: ptr where "USB_GNPTXFSIZ = USB_BASE + 0x0028"
definition USB_GUID :: ptr where "USB_GUID = USB_BASE + 0x003c"
definition USB_GSNPSID :: ptr where "USB_GSNPSID = USB_BASE + 0x0040"
definition USB_GHWCFG2 :: ptr where "USB_GHWCFG2 = USB_BASE + 0x0048"
definition USB_HPTXFSIZ :: ptr where "USB_HPTXFSIZ = USB_BASE + 0x0100"
definition USB_HCFG :: ptr where "USB_HCFG = USB_BASE + 0x0400"
definition USB_HAINT :: ptr where "USB_HAINT = USB_BASE + 0x0414"
definition USB_HAINTMSK :: ptr where "USB_HAINTMSK = USB_BASE + 0x0418"
definition USB_HPRT :: ptr where "USB_HPRT = USB_BASE + 0x0440"
definition USB_HCCHAR0 :: ptr where "USB_HCCHAR0 = USB_BASE + 0x0500"
definition USB_HCSPLT0 :: ptr where "USB_HCSPLT0 = USB_BASE + 0x0504"
definition USB_HCINT0 :: ptr where "USB_HCINT0 = USB_BASE + 0x0508"
definition USB_HCINTMSK0 :: ptr where "USB_HCINTMSK0 = USB_BASE + 0x050c"
definition USB_HCTSIZ0 :: ptr where "USB_HCTSIZ0 = USB_BASE + 0x0510"
definition USB_HCDMA0 :: ptr where "USB_HCDMA0 = USB_BASE + 0x0514"
definition USB_PCGCR :: ptr where "USB_PCGCR = USB_BASE + 0x0e00"

lemmas usb_addresses =
  USB_BASE_def USB_GOTGCTL_def USB_GOTGINT_def USB_GAHBCFG_def USB_GUSBCFG_def USB_GRSTCTL_def USB_GINTSTS_def
  USB_GINTMSK_def USB_GRXSTSP_def USB_GRXFSIZ_def USB_GNPTXFSIZ_def USB_GUID_def USB_GSNPSID_def
  USB_GHWCFG2_def USB_HPTXFSIZ_def USB_HCFG_def USB_HAINT_def USB_HAINTMSK_def USB_HPRT_def USB_HCCHAR0_def
  USB_HCSPLT0_def USB_HCINT0_def USB_HCINTMSK0_def USB_HCTSIZ0_def USB_HCDMA0_def USB_PCGCR_def

section \<open>Bits\<close>

definition USB_GOTGCTL_HST_SET_HNP_EN :: nat where "USB_GOTGCTL_HST_SET_HNP_EN = 10"
definition USB_GUSBCFG_PHY_IF :: nat where "USB_GUSBCFG_PHY_IF = 3"
definition USB_GUSBCFG_ULPI_UTMI_SEL :: nat where "USB_GUSBCFG_ULPI_UTMI_SEL = 4"
definition USB_GUSBCFG_SRP_CAP :: nat where "USB_GUSBCFG_SRP_CAP = 8"
definition USB_GUSBCFG_HNP_CAP :: nat where "USB_GUSBCFG_HNP_CAP = 9"
definition USB_GUSBCFG_ULPI_FS_LS :: nat where "USB_GUSBCFG_ULPI_FS_LS = 17"
definition USB_GUSBCFG_ULPI_CLK_SUS_M :: nat where "USB_GUSBCFG_ULPI_CLK_SUS_M = 19"
definition USB_GUSBCFG_ULPI_EXT_VBUS_DRV :: nat where "USB_GUSBCFG_ULPI_EXT_VBUS_DRV = 20"
definition USB_GUSBCFG_TERM_SEL_DL_PULSE :: nat where "USB_GUSBCFG_TERM_SEL_DL_PULSE = 22"
definition USB_HPRT_CONN_DET :: nat where "USB_HPRT_CONN_DET = 1"
definition USB_HPRT_ENA :: nat where "USB_HPRT_ENA = 2"
definition USB_HPRT_EN_CHNG :: nat where "USB_HPRT_EN_CHNG = 3"
definition USB_HPRT_OVRCURR_CHNG :: nat where "USB_HPRT_OVRCURR_CHNG = 5"
definition USB_HPRT_RES :: nat where "USB_HPRT_RES = 6"
definition USB_HPRT_SUSP :: nat where "USB_HPRT_SUSP = 7"
definition USB_HPRT_PWR :: nat where "USB_HPRT_PWR = 12"

lemmas usb_bits =
  USB_GOTGCTL_HST_SET_HNP_EN_def USB_GUSBCFG_PHY_IF_def USB_GUSBCFG_ULPI_UTMI_SEL_def USB_GUSBCFG_SRP_CAP_def
  USB_GUSBCFG_HNP_CAP_def USB_GUSBCFG_ULPI_FS_LS_def USB_GUSBCFG_ULPI_CLK_SUS_M_def
  USB_GUSBCFG_ULPI_EXT_VBUS_DRV_def USB_GUSBCFG_TERM_SEL_DL_PULSE_def USB_HPRT_CONN_DET_def USB_HPRT_ENA_def
  USB_HPRT_EN_CHNG_def USB_HPRT_OVRCURR_CHNG_def USB_HPRT_RES_def USB_HPRT_SUSP_def USB_HPRT_PWR_def

section \<open>Fields\<close>

definition USB_GAHBCFG_CLR_AHB_SINGLE :: "u32 \<Rightarrow> u32" where "USB_GAHBCFG_CLR_AHB_SINGLE v = BF_CLEAR 23 1 v"
definition USB_GAHBCFG_CLR_GLBL_INTR_EN :: "u32 \<Rightarrow> u32" where "USB_GAHBCFG_CLR_GLBL_INTR_EN v = BF_CLEAR 0 1 v"
definition USB_GAHBCFG_CLR_SET_DMA_EN :: "u32 \<Rightarrow> u32 \<Rightarrow> u32" where "USB_GAHBCFG_CLR_SET_DMA_EN x v = BF_CLEAR_AND_SET 5 1 x v"
definition USB_GAHBCFG_CLR_SET_GLBL_INTR_EN :: "u32 \<Rightarrow> u32 \<Rightarrow> u32" where "USB_GAHBCFG_CLR_SET_GLBL_INTR_EN x v = BF_CLEAR_AND_SET 0 1 x v"
definition USB_GHWCFG2_GET_FSPHY_INTERFACE :: "u32 \<Rightarrow> u32" where "USB_GHWCFG2_GET_FSPHY_INTERFACE v = BF_EXTRACT v 8 2"
definition USB_GHWCFG2_GET_HSPHY_INTERFACE :: "u32 \<Rightarrow> u32" where "USB_GHWCFG2_GET_HSPHY_INTERFACE v = BF_EXTRACT v 6 2"
definition USB_GHWCFG2_GET_MODE :: "u32 \<Rightarrow> u32" where "USB_GHWCFG2_GET_MODE v = BF_EXTRACT v 0 3"
definition USB_GHWCFG2_GET_NUM_HOST_CHAN :: "u32 \<Rightarrow> u32" where "USB_GHWCFG2_GET_NUM_HOST_CHAN v = BF_EXTRACT v 14 4"
definition USB_GINTSTS_CLR_SET_HCHINT :: "u32 \<Rightarrow> u32 \<Rightarrow> u32" where "USB_GINTSTS_CLR_SET_HCHINT x v = BF_CLEAR_AND_SET 25 1 x v"
definition USB_GINTSTS_CLR_SET_PRTINT :: "u32 \<Rightarrow> u32 \<Rightarrow> u32" where "USB_GINTSTS_CLR_SET_PRTINT x v = BF_CLEAR_AND_SET 24 1 x v"
definition USB_GINTSTS_GET_CONIDSTSCHNG :: "u32 \<Rightarrow> u32" where "USB_GINTSTS_GET_CONIDSTSCHNG v = BF_EXTRACT v 28 1"
definition USB_GINTSTS_GET_EOPF :: "u32 \<Rightarrow> u32" where "USB_GINTSTS_GET_EOPF v = BF_EXTRACT v 15 1"
definition USB_GINTSTS_GET_ERLYSUSP :: "u32 \<Rightarrow> u32" where "USB_GINTSTS_GET_ERLYSUSP v = BF_EXTRACT v 10 1"
definition USB_GINTSTS_GET_HCHINT :: "u32 \<Rightarrow> u32" where "USB_GINTSTS_GET_HCHINT v = BF_EXTRACT v 25 1"
definition USB_GINTSTS_GET_LPMTRANRCVD :: "u32 \<Rightarrow> u32" where "USB_GINTSTS_GET_LPMTRANRCVD v = BF_EXTRACT v 27 1"
definition USB_GINTSTS_GET_MODEMIS :: "u32 \<Rightarrow> u32" where "USB_GINTSTS_GET_MODEMIS v = BF_EXTRACT v 1 1"
definition USB_GINTSTS_GET_NPTXFEMP :: "u32 \<Rightarrow> u32" where "USB_GINTSTS_GET_NPTXFEMP v = BF_EXTRACT v 5 1"
definition USB_GINTSTS_GET_OTGINT :: "u32 \<Rightarrow> u32" where "USB_GINTSTS_GET_OTGINT v = BF_EXTRACT v 2 1"
definition USB_GINTSTS_GET_PRTINT :: "u32 \<Rightarrow> u32" where "USB_GINTSTS_GET_PRTINT v = BF_EXTRACT v 24 1"
definition USB_GINTSTS_GET_PTXFEMP :: "u32 \<Rightarrow> u32" where "USB_GINTSTS_GET_PTXFEMP v = BF_EXTRACT v 26 1"
definition USB_GINTSTS_GET_RXFLVL :: "u32 \<Rightarrow> u32" where "USB_GINTSTS_GET_RXFLVL v = BF_EXTRACT v 4 1"
definition USB_GINTSTS_GET_SESSREQINT :: "u32 \<Rightarrow> u32" where "USB_GINTSTS_GET_SESSREQINT v = BF_EXTRACT v 30 1"
definition USB_GINTSTS_GET_SOF :: "u32 \<Rightarrow> u32" where "USB_GINTSTS_GET_SOF v = BF_EXTRACT v 3 1"
definition USB_GINTSTS_GET_USBSUSP :: "u32 \<Rightarrow> u32" where "USB_GINTSTS_GET_USBSUSP v = BF_EXTRACT v 11 1"
definition USB_GOTGINT_GET_DBNCE_DONE :: "u32 \<Rightarrow> u32" where "USB_GOTGINT_GET_DBNCE_DONE v = BF_EXTRACT v 19 1"
definition USB_GRSTCTL_CLR_SET_C_SFT_RST :: "u32 \<Rightarrow> u32 \<Rightarrow> u32" where "USB_GRSTCTL_CLR_SET_C_SFT_RST x v = BF_CLEAR_AND_SET 0 1 x v"
definition USB_GRSTCTL_CLR_SET_RXF_FLSH :: "u32 \<Rightarrow> u32 \<Rightarrow> u32" where "USB_GRSTCTL_CLR_SET_RXF_FLSH x v = BF_CLEAR_AND_SET 4 1 x v"
definition USB_GRSTCTL_CLR_SET_TXF_FLSH :: "u32 \<Rightarrow> u32 \<Rightarrow> u32" where "USB_GRSTCTL_CLR_SET_TXF_FLSH x v = BF_CLEAR_AND_SET 5 1 x v"
definition USB_GRSTCTL_CLR_SET_TXF_NUM :: "u32 \<Rightarrow> u32 \<Rightarrow> u32" where "USB_GRSTCTL_CLR_SET_TXF_NUM x v = BF_CLEAR_AND_SET 6 5 x v"
definition USB_GRSTCTL_GET_AHB_IDLE :: "u32 \<Rightarrow> u32" where "USB_GRSTCTL_GET_AHB_IDLE v = BF_EXTRACT v 31 1"
definition USB_GRSTCTL_GET_C_SFT_RST :: "u32 \<Rightarrow> u32" where "USB_GRSTCTL_GET_C_SFT_RST v = BF_EXTRACT v 0 1"
definition USB_GRSTCTL_GET_RXF_FLSH :: "u32 \<Rightarrow> u32" where "USB_GRSTCTL_GET_RXF_FLSH v = BF_EXTRACT v 4 1"
definition USB_GRSTCTL_GET_TXF_FLSH :: "u32 \<Rightarrow> u32" where "USB_GRSTCTL_GET_TXF_FLSH v = BF_EXTRACT v 5 1"
definition USB_GRXSTSP_GET_BYTECNT :: "u32 \<Rightarrow> u32" where "USB_GRXSTSP_GET_BYTECNT v = BF_EXTRACT v 4 11"
definition USB_GRXSTSP_GET_CHNUM :: "u32 \<Rightarrow> u32" where "USB_GRXSTSP_GET_CHNUM v = BF_EXTRACT v 0 4"
definition USB_GRXSTSP_GET_DPID :: "u32 \<Rightarrow> u32" where "USB_GRXSTSP_GET_DPID v = BF_EXTRACT v 15 2"
definition USB_GRXSTSP_GET_PKTSTS :: "u32 \<Rightarrow> u32" where "USB_GRXSTSP_GET_PKTSTS v = BF_EXTRACT v 17 4"
definition USB_HCFG_CLR_SET_LS_PHY_CLK_SEL :: "u32 \<Rightarrow> u32 \<Rightarrow> u32" where "USB_HCFG_CLR_SET_LS_PHY_CLK_SEL x v = BF_CLEAR_AND_SET 0 2 x v"
definition USB_HCFG_CLR_SET_LS_SUPP :: "u32 \<Rightarrow> u32 \<Rightarrow> u32" where "USB_HCFG_CLR_SET_LS_SUPP x v = BF_CLEAR_AND_SET 2 1 x v"
definition USB_HCFG_GET_DMA_DESC_ENA :: "u32 \<Rightarrow> u32" where "USB_HCFG_GET_DMA_DESC_ENA v = BF_EXTRACT v 23 1"
definition USB_HOST_CHAR_CLR_CHAN_DISABLE :: "u32 \<Rightarrow> u32" where "USB_HOST_CHAR_CLR_CHAN_DISABLE v = BF_CLEAR 30 1 v"
definition USB_HOST_CHAR_CLR_CHAN_ENABLE :: "u32 \<Rightarrow> u32" where "USB_HOST_CHAR_CLR_CHAN_ENABLE v = BF_CLEAR 31 1 v"
definition USB_HOST_CHAR_CLR_SET_CHAN_DISABLE :: "u32 \<Rightarrow> u32 \<Rightarrow> u32" where "USB_HOST_CHAR_CLR_SET_CHAN_DISABLE x v = BF_CLEAR_AND_SET 30 1 x v"
definition USB_HOST_CHAR_CLR_SET_CHAN_ENABLE :: "u32 \<Rightarrow> u32 \<Rightarrow> u32" where "USB_HOST_CHAR_CLR_SET_CHAN_ENABLE x v = BF_CLEAR_AND_SET 31 1 x v"
definition USB_HOST_CHAR_CLR_SET_DEV_ADDR :: "u32 \<Rightarrow> u32 \<Rightarrow> u32" where "USB_HOST_CHAR_CLR_SET_DEV_ADDR x v = BF_CLEAR_AND_SET 22 7 x v"
definition USB_HOST_CHAR_CLR_SET_EP :: "u32 \<Rightarrow> u32 \<Rightarrow> u32" where "USB_HOST_CHAR_CLR_SET_EP x v = BF_CLEAR_AND_SET 11 4 x v"
definition USB_HOST_CHAR_CLR_SET_EP_DIR :: "u32 \<Rightarrow> u32 \<Rightarrow> u32" where "USB_HOST_CHAR_CLR_SET_EP_DIR x v = BF_CLEAR_AND_SET 15 1 x v"
definition USB_HOST_CHAR_CLR_SET_EP_TYPE :: "u32 \<Rightarrow> u32 \<Rightarrow> u32" where "USB_HOST_CHAR_CLR_SET_EP_TYPE x v = BF_CLEAR_AND_SET 18 2 x v"
definition USB_HOST_CHAR_CLR_SET_IS_LOW :: "u32 \<Rightarrow> u32 \<Rightarrow> u32" where "USB_HOST_CHAR_CLR_SET_IS_LOW x v = BF_CLEAR_AND_SET 17 1 x v"
definition USB_HOST_CHAR_CLR_SET_MAX_PACK_SZ :: "u32 \<Rightarrow> u32 \<Rightarrow> u32" where "USB_HOST_CHAR_CLR_SET_MAX_PACK_SZ x v = BF_CLEAR_AND_SET 0 11 x v"
definition USB_HOST_CHAR_CLR_SET_PACK_PER_FRM :: "u32 \<Rightarrow> u32 \<Rightarrow> u32" where "USB_HOST_CHAR_CLR_SET_PACK_PER_FRM x v = BF_CLEAR_AND_SET 20 2 x v"
definition USB_HOST_CHAR_GET_CHAN_ENABLE :: "u32 \<Rightarrow> u32" where "USB_HOST_CHAR_GET_CHAN_ENABLE v = BF_EXTRACT v 31 1"
definition USB_HOST_INTR_CLR_ACK :: "u32 \<Rightarrow> u32" where "USB_HOST_INTR_CLR_ACK v = BF_CLEAR 5 1 v"
definition USB_HOST_INTR_CLR_AHB_ERR :: "u32 \<Rightarrow> u32" where "USB_HOST_INTR_CLR_AHB_ERR v = BF_CLEAR 2 1 v"
definition USB_HOST_INTR_CLR_DATTGGLERR :: "u32 \<Rightarrow> u32" where "USB_HOST_INTR_CLR_DATTGGLERR v = BF_CLEAR 10 1 v"
definition USB_HOST_INTR_CLR_HALT :: "u32 \<Rightarrow> u32" where "USB_HOST_INTR_CLR_HALT v = BF_CLEAR 1 1 v"
definition USB_HOST_INTR_CLR_NAK :: "u32 \<Rightarrow> u32" where "USB_HOST_INTR_CLR_NAK v = BF_CLEAR 4 1 v"
definition USB_HOST_INTR_CLR_NYET :: "u32 \<Rightarrow> u32" where "USB_HOST_INTR_CLR_NYET v = BF_CLEAR 6 1 v"
definition USB_HOST_INTR_CLR_SET_ACK :: "u32 \<Rightarrow> u32 \<Rightarrow> u32" where "USB_HOST_INTR_CLR_SET_ACK x v = BF_CLEAR_AND_SET 5 1 x v"
definition USB_HOST_INTR_CLR_SET_AHB_ERR :: "u32 \<Rightarrow> u32 \<Rightarrow> u32" where "USB_HOST_INTR_CLR_SET_AHB_ERR x v = BF_CLEAR_AND_SET 2 1 x v"
definition USB_HOST_INTR_CLR_SET_BABBLERR :: "u32 \<Rightarrow> u32 \<Rightarrow> u32" where "USB_HOST_INTR_CLR_SET_BABBLERR x v = BF_CLEAR_AND_SET 8 1 x v"
definition USB_HOST_INTR_CLR_SET_DATTGGLERR :: "u32 \<Rightarrow> u32 \<Rightarrow> u32" where "USB_HOST_INTR_CLR_SET_DATTGGLERR x v = BF_CLEAR_AND_SET 10 1 x v"
definition USB_HOST_INTR_CLR_SET_FRMOVRN :: "u32 \<Rightarrow> u32 \<Rightarrow> u32" where "USB_HOST_INTR_CLR_SET_FRMOVRN x v = BF_CLEAR_AND_SET 9 1 x v"
definition USB_HOST_INTR_CLR_SET_HALT :: "u32 \<Rightarrow> u32 \<Rightarrow> u32" where "USB_HOST_INTR_CLR_SET_HALT x v = BF_CLEAR_AND_SET 1 1 x v"
definition USB_HOST_INTR_CLR_SET_NAK :: "u32 \<Rightarrow> u32 \<Rightarrow> u32" where "USB_HOST_INTR_CLR_SET_NAK x v = BF_CLEAR_AND_SET 4 1 x v"
definition USB_HOST_INTR_CLR_SET_NYET :: "u32 \<Rightarrow> u32 \<Rightarrow> u32" where "USB_HOST_INTR_CLR_SET_NYET x v = BF_CLEAR_AND_SET 6 1 x v"
definition USB_HOST_INTR_CLR_SET_STALL :: "u32 \<Rightarrow> u32 \<Rightarrow> u32" where "USB_HOST_INTR_CLR_SET_STALL x v = BF_CLEAR_AND_SET 3 1 x v"
definition USB_HOST_INTR_CLR_SET_TRNSERR :: "u32 \<Rightarrow> u32 \<Rightarrow> u32" where "USB_HOST_INTR_CLR_SET_TRNSERR x v = BF_CLEAR_AND_SET 7 1 x v"
definition USB_HOST_INTR_CLR_SET_XFER_COMPLETE :: "u32 \<Rightarrow> u32 \<Rightarrow> u32" where "USB_HOST_INTR_CLR_SET_XFER_COMPLETE x v = BF_CLEAR_AND_SET 0 1 x v"
definition USB_HOST_INTR_CLR_XFER_COMPLETE :: "u32 \<Rightarrow> u32" where "USB_HOST_INTR_CLR_XFER_COMPLETE v = BF_CLEAR 0 1 v"
definition USB_HOST_INTR_GET_ACK :: "u32 \<Rightarrow> u32" where "USB_HOST_INTR_GET_ACK v = BF_EXTRACT v 5 1"
definition USB_HOST_INTR_GET_AHB_ERR :: "u32 \<Rightarrow> u32" where "USB_HOST_INTR_GET_AHB_ERR v = BF_EXTRACT v 2 1"
definition USB_HOST_INTR_GET_BABBLERR :: "u32 \<Rightarrow> u32" where "USB_HOST_INTR_GET_BABBLERR v = BF_EXTRACT v 8 1"
definition USB_HOST_INTR_GET_BUFNOTAVAIL :: "u32 \<Rightarrow> u32" where "USB_HOST_INTR_GET_BUFNOTAVAIL v = BF_EXTRACT v 11 1"
definition USB_HOST_INTR_GET_DATTGGLERR :: "u32 \<Rightarrow> u32" where "USB_HOST_INTR_GET_DATTGGLERR v = BF_EXTRACT v 10 1"
definition USB_HOST_INTR_GET_EXCESSXMIT :: "u32 \<Rightarrow> u32" where "USB_HOST_INTR_GET_EXCESSXMIT v = BF_EXTRACT v 12 1"
definition USB_HOST_INTR_GET_FRMLISTROLL :: "u32 \<Rightarrow> u32" where "USB_HOST_INTR_GET_FRMLISTROLL v = BF_EXTRACT v 13 1"
definition USB_HOST_INTR_GET_FRMOVRN :: "u32 \<Rightarrow> u32" where "USB_HOST_INTR_GET_FRMOVRN v = BF_EXTRACT v 9 1"
definition USB_HOST_INTR_GET_HALT :: "u32 \<Rightarrow> u32" where "USB_HOST_INTR_GET_HALT v = BF_EXTRACT v 1 1"
definition USB_HOST_INTR_GET_NAK :: "u32 \<Rightarrow> u32" where "USB_HOST_INTR_GET_NAK v = BF_EXTRACT v 4 1"
definition USB_HOST_INTR_GET_NYET :: "u32 \<Rightarrow> u32" where "USB_HOST_INTR_GET_NYET v = BF_EXTRACT v 6 1"
definition USB_HOST_INTR_GET_STALL :: "u32 \<Rightarrow> u32" where "USB_HOST_INTR_GET_STALL v = BF_EXTRACT v 3 1"
definition USB_HOST_INTR_GET_TRNSERR :: "u32 \<Rightarrow> u32" where "USB_HOST_INTR_GET_TRNSERR v = BF_EXTRACT v 7 1"
definition USB_HOST_INTR_GET_XFER_COMPLETE :: "u32 \<Rightarrow> u32" where "USB_HOST_INTR_GET_XFER_COMPLETE v = BF_EXTRACT v 0 1"
definition USB_HOST_SIZE_CLR_SET_PACKET_COUNT :: "u32 \<Rightarrow> u32 \<Rightarrow> u32" where "USB_HOST_SIZE_CLR_SET_PACKET_COUNT x v = BF_CLEAR_AND_SET 19 10 x v"
definition USB_HOST_SIZE_CLR_SET_PID :: "u32 \<Rightarrow> u32 \<Rightarrow> u32" where "USB_HOST_SIZE_CLR_SET_PID x v = BF_CLEAR_AND_SET 29 2 x v"
definition USB_HOST_SIZE_CLR_SET_SIZE :: "u32 \<Rightarrow> u32 \<Rightarrow> u32" where "USB_HOST_SIZE_CLR_SET_SIZE x v = BF_CLEAR_AND_SET 0 19 x v"
definition USB_HOST_SIZE_GET_PACKET_COUNT :: "u32 \<Rightarrow> u32" where "USB_HOST_SIZE_GET_PACKET_COUNT v = BF_EXTRACT v 19 10"
definition USB_HOST_SIZE_GET_PID :: "u32 \<Rightarrow> u32" where "USB_HOST_SIZE_GET_PID v = BF_EXTRACT v 29 2"
definition USB_HOST_SIZE_GET_SIZE :: "u32 \<Rightarrow> u32" where "USB_HOST_SIZE_GET_SIZE v = BF_EXTRACT v 0 19"
definition USB_HOST_SPLT_CLR_COMPLETE_SPLIT :: "u32 \<Rightarrow> u32" where "USB_HOST_SPLT_CLR_COMPLETE_SPLIT v = BF_CLEAR 16 1 v"
definition USB_HOST_SPLT_CLR_SET_COMPLETE_SPLIT :: "u32 \<Rightarrow> u32 \<Rightarrow> u32" where "USB_HOST_SPLT_CLR_SET_COMPLETE_SPLIT x v = BF_CLEAR_AND_SET 16 1 x v"
definition USB_HOST_SPLT_CLR_SET_HUB_ADDR :: "u32 \<Rightarrow> u32 \<Rightarrow> u32" where "USB_HOST_SPLT_CLR_SET_HUB_ADDR x v = BF_CLEAR_AND_SET 7 7 x v"
definition USB_HOST_SPLT_CLR_SET_PORT_ADDR :: "u32 \<Rightarrow> u32 \<Rightarrow> u32" where "USB_HOST_SPLT_CLR_SET_PORT_ADDR x v = BF_CLEAR_AND_SET 0 7 x v"
definition USB_HOST_SPLT_CLR_SET_SPLT_ENABLE :: "u32 \<Rightarrow> u32 \<Rightarrow> u32" where "USB_HOST_SPLT_CLR_SET_SPLT_ENABLE x v = BF_CLEAR_AND_SET 31 1 x v"
definition USB_HOST_SPLT_GET_SPLT_ENABLE :: "u32 \<Rightarrow> u32" where "USB_HOST_SPLT_GET_SPLT_ENABLE v = BF_EXTRACT v 31 1"
definition USB_HPRT_CLR_CONN_DET :: "u32 \<Rightarrow> u32" where "USB_HPRT_CLR_CONN_DET v = BF_CLEAR 1 1 v"
definition USB_HPRT_CLR_ENA :: "u32 \<Rightarrow> u32" where "USB_HPRT_CLR_ENA v = BF_CLEAR 2 1 v"
definition USB_HPRT_CLR_EN_CHNG :: "u32 \<Rightarrow> u32" where "USB_HPRT_CLR_EN_CHNG v = BF_CLEAR 3 1 v"
definition USB_HPRT_CLR_OVR_CURR_CHNG :: "u32 \<Rightarrow> u32" where "USB_HPRT_CLR_OVR_CURR_CHNG v = BF_CLEAR 5 1 v"
definition USB_HPRT_CLR_RST :: "u32 \<Rightarrow> u32" where "USB_HPRT_CLR_RST v = BF_CLEAR 8 1 v"
definition USB_HPRT_CLR_SET_CONN_DET :: "u32 \<Rightarrow> u32 \<Rightarrow> u32" where "USB_HPRT_CLR_SET_CONN_DET x v = BF_CLEAR_AND_SET 1 1 x v"
definition USB_HPRT_CLR_SET_EN_CHNG :: "u32 \<Rightarrow> u32 \<Rightarrow> u32" where "USB_HPRT_CLR_SET_EN_CHNG x v = BF_CLEAR_AND_SET 3 1 x v"
definition USB_HPRT_CLR_SET_OVR_CURR_CHNG :: "u32 \<Rightarrow> u32 \<Rightarrow> u32" where "USB_HPRT_CLR_SET_OVR_CURR_CHNG x v = BF_CLEAR_AND_SET 5 1 x v"
definition USB_HPRT_CLR_SET_PWR :: "u32 \<Rightarrow> u32 \<Rightarrow> u32" where "USB_HPRT_CLR_SET_PWR x v = BF_CLEAR_AND_SET 12 1 x v"
definition USB_HPRT_CLR_SET_RST :: "u32 \<Rightarrow> u32 \<Rightarrow> u32" where "USB_HPRT_CLR_SET_RST x v = BF_CLEAR_AND_SET 8 1 x v"
definition USB_HPRT_GET_CONN_DET :: "u32 \<Rightarrow> u32" where "USB_HPRT_GET_CONN_DET v = BF_EXTRACT v 1 1"
definition USB_HPRT_GET_CONN_STS :: "u32 \<Rightarrow> u32" where "USB_HPRT_GET_CONN_STS v = BF_EXTRACT v 0 1"
definition USB_HPRT_GET_ENA :: "u32 \<Rightarrow> u32" where "USB_HPRT_GET_ENA v = BF_EXTRACT v 2 1"
definition USB_HPRT_GET_EN_CHNG :: "u32 \<Rightarrow> u32" where "USB_HPRT_GET_EN_CHNG v = BF_EXTRACT v 3 1"
definition USB_HPRT_GET_OVR_CURR_ACT :: "u32 \<Rightarrow> u32" where "USB_HPRT_GET_OVR_CURR_ACT v = BF_EXTRACT v 4 1"
definition USB_HPRT_GET_OVR_CURR_CHNG :: "u32 \<Rightarrow> u32" where "USB_HPRT_GET_OVR_CURR_CHNG v = BF_EXTRACT v 5 1"
definition USB_HPRT_GET_PWR :: "u32 \<Rightarrow> u32" where "USB_HPRT_GET_PWR v = BF_EXTRACT v 12 1"
definition USB_HPRT_GET_RST :: "u32 \<Rightarrow> u32" where "USB_HPRT_GET_RST v = BF_EXTRACT v 8 1"
definition USB_HPRT_GET_SPD :: "u32 \<Rightarrow> u32" where "USB_HPRT_GET_SPD v = BF_EXTRACT v 17 2"
definition USB_HPRT_GET_SUSP :: "u32 \<Rightarrow> u32" where "USB_HPRT_GET_SUSP v = BF_EXTRACT v 7 1"
definition USB_PCGCR_CLR_EN_SLP_CLK_GATE :: "u32 \<Rightarrow> u32" where "USB_PCGCR_CLR_EN_SLP_CLK_GATE v = BF_CLEAR 5 1 v"
definition USB_PCGCR_CLR_STOP_PCLK :: "u32 \<Rightarrow> u32" where "USB_PCGCR_CLR_STOP_PCLK v = BF_CLEAR 0 1 v"

lemmas usb_fields =
  USB_GAHBCFG_CLR_AHB_SINGLE_def USB_GAHBCFG_CLR_GLBL_INTR_EN_def USB_GAHBCFG_CLR_SET_DMA_EN_def
  USB_GAHBCFG_CLR_SET_GLBL_INTR_EN_def USB_GHWCFG2_GET_FSPHY_INTERFACE_def USB_GHWCFG2_GET_HSPHY_INTERFACE_def
  USB_GHWCFG2_GET_MODE_def USB_GHWCFG2_GET_NUM_HOST_CHAN_def USB_GINTSTS_CLR_SET_HCHINT_def
  USB_GINTSTS_CLR_SET_PRTINT_def USB_GINTSTS_GET_CONIDSTSCHNG_def USB_GINTSTS_GET_EOPF_def
  USB_GINTSTS_GET_ERLYSUSP_def USB_GINTSTS_GET_HCHINT_def USB_GINTSTS_GET_LPMTRANRCVD_def
  USB_GINTSTS_GET_MODEMIS_def USB_GINTSTS_GET_NPTXFEMP_def USB_GINTSTS_GET_OTGINT_def
  USB_GINTSTS_GET_PRTINT_def USB_GINTSTS_GET_PTXFEMP_def USB_GINTSTS_GET_RXFLVL_def
  USB_GINTSTS_GET_SESSREQINT_def USB_GINTSTS_GET_SOF_def USB_GINTSTS_GET_USBSUSP_def
  USB_GOTGINT_GET_DBNCE_DONE_def USB_GRSTCTL_CLR_SET_C_SFT_RST_def USB_GRSTCTL_CLR_SET_RXF_FLSH_def
  USB_GRSTCTL_CLR_SET_TXF_FLSH_def USB_GRSTCTL_CLR_SET_TXF_NUM_def USB_GRSTCTL_GET_AHB_IDLE_def
  USB_GRSTCTL_GET_C_SFT_RST_def USB_GRSTCTL_GET_RXF_FLSH_def USB_GRSTCTL_GET_TXF_FLSH_def
  USB_GRXSTSP_GET_BYTECNT_def USB_GRXSTSP_GET_CHNUM_def USB_GRXSTSP_GET_DPID_def USB_GRXSTSP_GET_PKTSTS_def
  USB_HCFG_CLR_SET_LS_PHY_CLK_SEL_def USB_HCFG_CLR_SET_LS_SUPP_def USB_HCFG_GET_DMA_DESC_ENA_def
  USB_HOST_CHAR_CLR_CHAN_DISABLE_def USB_HOST_CHAR_CLR_CHAN_ENABLE_def USB_HOST_CHAR_CLR_SET_CHAN_DISABLE_def
  USB_HOST_CHAR_CLR_SET_CHAN_ENABLE_def USB_HOST_CHAR_CLR_SET_DEV_ADDR_def USB_HOST_CHAR_CLR_SET_EP_def
  USB_HOST_CHAR_CLR_SET_EP_DIR_def USB_HOST_CHAR_CLR_SET_EP_TYPE_def USB_HOST_CHAR_CLR_SET_IS_LOW_def
  USB_HOST_CHAR_CLR_SET_MAX_PACK_SZ_def USB_HOST_CHAR_CLR_SET_PACK_PER_FRM_def
  USB_HOST_CHAR_GET_CHAN_ENABLE_def USB_HOST_INTR_CLR_ACK_def USB_HOST_INTR_CLR_AHB_ERR_def
  USB_HOST_INTR_CLR_DATTGGLERR_def USB_HOST_INTR_CLR_HALT_def USB_HOST_INTR_CLR_NAK_def
  USB_HOST_INTR_CLR_NYET_def USB_HOST_INTR_CLR_SET_ACK_def USB_HOST_INTR_CLR_SET_AHB_ERR_def
  USB_HOST_INTR_CLR_SET_BABBLERR_def USB_HOST_INTR_CLR_SET_DATTGGLERR_def USB_HOST_INTR_CLR_SET_FRMOVRN_def
  USB_HOST_INTR_CLR_SET_HALT_def USB_HOST_INTR_CLR_SET_NAK_def USB_HOST_INTR_CLR_SET_NYET_def
  USB_HOST_INTR_CLR_SET_STALL_def USB_HOST_INTR_CLR_SET_TRNSERR_def USB_HOST_INTR_CLR_SET_XFER_COMPLETE_def
  USB_HOST_INTR_CLR_XFER_COMPLETE_def USB_HOST_INTR_GET_ACK_def USB_HOST_INTR_GET_AHB_ERR_def
  USB_HOST_INTR_GET_BABBLERR_def USB_HOST_INTR_GET_BUFNOTAVAIL_def USB_HOST_INTR_GET_DATTGGLERR_def
  USB_HOST_INTR_GET_EXCESSXMIT_def USB_HOST_INTR_GET_FRMLISTROLL_def USB_HOST_INTR_GET_FRMOVRN_def
  USB_HOST_INTR_GET_HALT_def USB_HOST_INTR_GET_NAK_def USB_HOST_INTR_GET_NYET_def USB_HOST_INTR_GET_STALL_def
  USB_HOST_INTR_GET_TRNSERR_def USB_HOST_INTR_GET_XFER_COMPLETE_def USB_HOST_SIZE_CLR_SET_PACKET_COUNT_def
  USB_HOST_SIZE_CLR_SET_PID_def USB_HOST_SIZE_CLR_SET_SIZE_def USB_HOST_SIZE_GET_PACKET_COUNT_def
  USB_HOST_SIZE_GET_PID_def USB_HOST_SIZE_GET_SIZE_def USB_HOST_SPLT_CLR_COMPLETE_SPLIT_def
  USB_HOST_SPLT_CLR_SET_COMPLETE_SPLIT_def USB_HOST_SPLT_CLR_SET_HUB_ADDR_def
  USB_HOST_SPLT_CLR_SET_PORT_ADDR_def USB_HOST_SPLT_CLR_SET_SPLT_ENABLE_def USB_HOST_SPLT_GET_SPLT_ENABLE_def
  USB_HPRT_CLR_CONN_DET_def USB_HPRT_CLR_ENA_def USB_HPRT_CLR_EN_CHNG_def USB_HPRT_CLR_OVR_CURR_CHNG_def
  USB_HPRT_CLR_RST_def USB_HPRT_CLR_SET_CONN_DET_def USB_HPRT_CLR_SET_EN_CHNG_def
  USB_HPRT_CLR_SET_OVR_CURR_CHNG_def USB_HPRT_CLR_SET_PWR_def USB_HPRT_CLR_SET_RST_def
  USB_HPRT_GET_CONN_DET_def USB_HPRT_GET_CONN_STS_def USB_HPRT_GET_ENA_def USB_HPRT_GET_EN_CHNG_def
  USB_HPRT_GET_OVR_CURR_ACT_def USB_HPRT_GET_OVR_CURR_CHNG_def USB_HPRT_GET_PWR_def USB_HPRT_GET_RST_def
  USB_HPRT_GET_SPD_def USB_HPRT_GET_SUSP_def USB_PCGCR_CLR_EN_SLP_CLK_GATE_def USB_PCGCR_CLR_STOP_PCLK_def

end
