(* ===== verification/Root_hub.thy ===== *)
theory Root_hub
  imports Usb_std Dwc2_regs Stringlib
begin

text \<open>
  The root hub (\<^verbatim>\<open>src/board/bcm2835/usb/root_hub.c\<close>): control requests to it do not go over the bus, the driver answers
  them from constant descriptors and from the port register \<^verbatim>\<open>USB_HPRT\<close> of the controller. Four bits of this register are
  cleared by writing 1 to them.
\<close>

section \<open>Descriptors\<close>

definition USB_ROOT_HUB_STRING_IDX_PRODUCT :: u8 where "USB_ROOT_HUB_STRING_IDX_PRODUCT = 1"
definition USB_ROOT_HUB_STRING_IDX_MANUFACTURER :: u8 where "USB_ROOT_HUB_STRING_IDX_MANUFACTURER = 2"
definition USB_ROOT_HUB_STRING_IDX_SERIAL :: u8 where "USB_ROOT_HUB_STRING_IDX_SERIAL = 3"

definition usb_root_hub_descriptor :: "u8 list" where
  "usb_root_hub_descriptor = [9, ucast USB_DESCRIPTOR_TYPE_HUB, 1] @ le16 0 @ [100, 0, 2, 0x1b]"

definition usb_root_hub_configuration :: "u8 list" where
  "usb_root_hub_configuration =
     [9, ucast USB_DESCRIPTOR_TYPE_CONFIGURATION] @ le16 25 @ [1, 1, 2, 0x40, 0] @
     [9, ucast USB_DESCRIPTOR_TYPE_INTERFACE, 0, 0, 1, 9, 0, 0, 0] @
     [7, ucast USB_DESCRIPTOR_TYPE_ENDPOINT, 0x81, 3] @ le16 64 @ [0xff]"

definition usb_root_hub_device_descriptor :: "u8 list" where
  "usb_root_hub_device_descriptor =
     [18, ucast USB_DESCRIPTOR_TYPE_DEVICE] @ le16 0x200 @ [9, 0, 0, 64] @ le16 0 @ le16 0 @ le16 0x100 @
     [USB_ROOT_HUB_STRING_IDX_MANUFACTURER, USB_ROOT_HUB_STRING_IDX_PRODUCT, USB_ROOT_HUB_STRING_IDX_SERIAL, 1]"

definition usb_rh_string0 :: "u8 list" where
  "usb_rh_string0 = [4, ucast USB_DESCRIPTOR_TYPE_STRING] @ le16 0x409"

text \<open>The size of a string literal counts its terminating zero.\<close>

definition usb_string_descriptor :: "u16 list \<Rightarrow> u8 list" where
  "usb_string_descriptor s =
     [of_nat (2 * (length s + 1) + 2), ucast USB_DESCRIPTOR_TYPE_STRING] @ concat (map le16 (s @ [0]))"

definition usb_rh_string_product :: "u8 list" where
  "usb_rh_string_product = usb_string_descriptor [0x52, 0x4f, 0x4f, 0x54, 0x5f, 0x48, 0x55, 0x42]"

definition usb_rh_string_manufact :: "u8 list" where
  "usb_rh_string_manufact = usb_string_descriptor [0x42, 0x52, 0x4f, 0x41, 0x44, 0x43, 0x4f, 0x4d]"

definition usb_rh_string_serial :: "u8 list" where
  "usb_rh_string_serial = usb_string_descriptor [0x31, 0x32, 0x33, 0x2d, 0x31, 0x32, 0x33, 0x2d, 0x39, 0x39, 0x39]"

section \<open>State and replies\<close>

record 'd root_hub =
  usb_root_hub_device_number :: int
  rh_mem :: bmem
  rh_dev :: 'd

definition put_bytes :: "ptr \<Rightarrow> u8 list \<Rightarrow> bmem \<Rightarrow> bmem" where
  "put_bytes dst bs m = (\<lambda>a. if dst \<le> a \<and> a < dst + length bs then bs ! (a - dst) else m a)"

text \<open>The number of bytes of the reply. A negative size of the buffer becomes a huge size of the copy.\<close>

definition usb_root_hub_reply :: "ptr \<Rightarrow> int \<Rightarrow> u8 list \<Rightarrow> 'd root_hub \<Rightarrow> (int \<times> 'd root_hub) kres" where
  "usb_root_hub_reply dst dst_sz reply st =
     (let reply_sz = int (length reply)
      in if reply_sz \<noteq> 0
         then let reply_sz = if reply_sz > dst_sz then dst_sz else reply_sz
              in if reply_sz < 0 then Inl ''memcpy of a negative size''
                 else Inr (reply_sz, st\<lparr>rh_mem := put_bytes dst (take (nat reply_sz) reply) (rh_mem st)\<rparr>)
         else Inr (0, st))"

text \<open>A handler returns the error code and the number of bytes.\<close>

definition with_reply :: "int \<Rightarrow> (int \<times> 'd root_hub) kres \<Rightarrow> (int \<times> int \<times> 'd root_hub) kres" where
  "with_reply err r = kbind r (\<lambda>(n, st). Inr (err, n, st))"

section \<open>Requests\<close>

definition rh_descriptor :: "u64 \<Rightarrow> (u8 list) option" where
  "rh_descriptor rq =
     (let rq_value = USB_DEV_RQ_GET_VALUE rq;
          desc_type = drop_bit 8 rq_value AND 0xff;
          desc_idx = rq_value AND 0xff
      in if desc_type = USB_DESCRIPTOR_TYPE_HUB then Some usb_root_hub_descriptor
         else if desc_type = USB_DESCRIPTOR_TYPE_STRING
         then (if desc_idx = 0 then Some usb_rh_string0
               else if desc_idx = ucast USB_ROOT_HUB_STRING_IDX_PRODUCT then Some usb_rh_string_product
               else if desc_idx = ucast USB_ROOT_HUB_STRING_IDX_MANUFACTURER then Some usb_rh_string_manufact
               else if desc_idx = ucast USB_ROOT_HUB_STRING_IDX_SERIAL then Some usb_rh_string_serial
               else None)
         else if desc_type = USB_DESCRIPTOR_TYPE_DEVICE then Some usb_root_hub_device_descriptor
         else if desc_type = USB_DESCRIPTOR_TYPE_CONFIGURATION then Some usb_root_hub_configuration
         else None)"

definition usb_rh_get_descriptor :: "u64 \<Rightarrow> ptr \<Rightarrow> int \<Rightarrow> 'd root_hub \<Rightarrow> (int \<times> int \<times> 'd root_hub) kres" where
  "usb_rh_get_descriptor rq buf buf_sz st =
     (case rh_descriptor rq of
        Some reply \<Rightarrow> with_reply ERR_OK (usb_root_hub_reply buf buf_sz reply st)
      | None \<Rightarrow> with_reply ERR_INVAL_ARG (usb_root_hub_reply buf buf_sz [] st))"

text \<open>The bits of \<^verbatim>\<open>struct usb_hub_port_status\<close>.\<close>

definition bit_field :: "nat \<Rightarrow> bool \<Rightarrow> u16" where "bit_field i b = (if b then push_bit i 1 else 0)"

definition hprt_status :: "u32 \<Rightarrow> u16" where
  "hprt_status r =
     bit_field 0 (USB_HPRT_GET_CONN_STS r \<noteq> 0) OR bit_field 1 (USB_HPRT_GET_ENA r \<noteq> 0) OR
     bit_field 2 (USB_HPRT_GET_SUSP r \<noteq> 0) OR bit_field 3 (USB_HPRT_GET_OVR_CURR_ACT r \<noteq> 0) OR
     bit_field 4 (USB_HPRT_GET_RST r \<noteq> 0) OR bit_field 8 (USB_HPRT_GET_PWR r \<noteq> 0) OR
     bit_field 9 (USB_HPRT_GET_SPD r = 2) OR bit_field 10 (USB_HPRT_GET_SPD r = 0)"

definition hprt_change :: "u32 \<Rightarrow> u16" where
  "hprt_change r =
     bit_field 0 (USB_HPRT_GET_CONN_DET r \<noteq> 0) OR bit_field 1 (USB_HPRT_GET_EN_CHNG r \<noteq> 0) OR
     bit_field 3 (USB_HPRT_GET_OVR_CURR_CHNG r \<noteq> 0)"

definition root_hub_get_port_status :: "'d mmio \<Rightarrow> 'd \<Rightarrow> (u16 \<times> u16) \<times> 'd" where
  "root_hub_get_port_status io d = (let (r, d) = read_reg io USB_HPRT d in ((hprt_status r, hprt_change r), d))"

definition usb_rh_get_status ::
  "'d mmio \<Rightarrow> u64 \<Rightarrow> ptr \<Rightarrow> int \<Rightarrow> 'd root_hub \<Rightarrow> (int \<times> int \<times> 'd root_hub) kres" where
  "usb_rh_get_status io rq buf buf_sz st =
     (let type = USB_DEV_RQ_GET_TYPE rq; index = USB_DEV_RQ_GET_INDEX rq
      in if type = USB_RQ_TYPE_HUB_GET_HUB_STATUS
         then with_reply ERR_OK (usb_root_hub_reply buf buf_sz [1, 0, 0, 0] st)
         else if type = USB_RQ_TYPE_HUB_GET_PORT_STATUS
         then (if index = 1
               then let ((s, c), d) = root_hub_get_port_status io (rh_dev st)
                    in with_reply ERR_OK (usb_root_hub_reply buf buf_sz (le16 s @ le16 c) (st\<lparr>rh_dev := d\<rparr>))
               else with_reply ERR_OK (usb_root_hub_reply buf buf_sz [] st))
         else with_reply ERR_INVAL_ARG (usb_root_hub_reply buf buf_sz [] st))"

definition usb_rh_rq_set_addr :: "u64 \<Rightarrow> 'd root_hub \<Rightarrow> int \<times> 'd root_hub" where
  "usb_rh_rq_set_addr rq st = (ERR_OK, st\<lparr>usb_root_hub_device_number := uint (USB_DEV_RQ_GET_VALUE rq)\<rparr>)"

definition USB_HPRT_WRITE_CLEAR_BITS :: u32 where
  "USB_HPRT_WRITE_CLEAR_BITS = BT USB_HPRT_OVRCURR_CHNG OR BT USB_HPRT_EN_CHNG OR BT USB_HPRT_ENA OR BT USB_HPRT_CONN_DET"

definition USB_HPRT_WRITE_MASK :: u32 where "USB_HPRT_WRITE_MASK = NOT USB_HPRT_WRITE_CLEAR_BITS"

definition dwc2_port_reset :: "'d mmio \<Rightarrow> 'd \<Rightarrow> 'd" where
  "dwc2_port_reset io = modify_reg io USB_HPRT (\<lambda>r. USB_HPRT_CLR_SET_RST 1 (r AND USB_HPRT_WRITE_MASK))"

definition usb_rh_rq_set_feature :: "'d mmio \<Rightarrow> u64 \<Rightarrow> 'd root_hub \<Rightarrow> int \<times> 'd root_hub" where
  "usb_rh_rq_set_feature io rq st =
     (let type = USB_DEV_RQ_GET_TYPE rq; value = USB_DEV_RQ_GET_VALUE rq
      in if type = USB_RQ_TYPE_HUB_SET_PORT_FEATURE
         then if value = USB_HUB_FEATURE_PORT_POWER
              then (ERR_OK, st\<lparr>rh_dev := modify_reg io USB_HPRT (\<lambda>r. BIT_SET_U32 USB_HPRT_PWR (r AND USB_HPRT_WRITE_MASK)) (rh_dev st)\<rparr>)
              else if value = USB_HUB_FEATURE_RESET then (ERR_OK, st\<lparr>rh_dev := dwc2_port_reset io (rh_dev st)\<rparr>)
              else (ERR_OK, st)
         else (ERR_OK, st))"

text \<open>Resuming the port: the clocks on, the resume signal, and its end.\<close>

definition clear_suspend :: "'d mmio \<Rightarrow> 'd \<Rightarrow> 'd" where
  "clear_suspend io d =
     (let d = write_reg io USB_PCGCR 0 d;
          d = modify_reg io USB_HPRT (\<lambda>r. BIT_SET_U32 USB_HPRT_RES (r AND USB_HPRT_WRITE_MASK)) d
      in modify_reg io USB_HPRT (\<lambda>r. BIT_CLEAR_U32 USB_HPRT_RES (BIT_CLEAR_U32 USB_HPRT_SUSP (r AND USB_HPRT_WRITE_MASK))) d)"

definition clear_port_feature :: "'d mmio \<Rightarrow> u64 \<Rightarrow> 'd \<Rightarrow> 'd" where
  "clear_port_feature io value d =
     (if value = USB_HUB_FEATURE_PORT_POWER
      then modify_reg io USB_HPRT (\<lambda>r. BIT_CLEAR_U32 USB_HPRT_PWR (r AND USB_HPRT_WRITE_MASK)) d
      else if value = USB_HUB_FEATURE_ENABLE
      then modify_reg io USB_HPRT (\<lambda>r. BIT_SET_U32 USB_HPRT_ENA (r AND USB_HPRT_WRITE_MASK)) d
      else if value = USB_HUB_FEATURE_ENABLE_CHANGE
      then modify_reg io USB_HPRT (\<lambda>r. BIT_SET_U32 USB_HPRT_EN_CHNG (r AND USB_HPRT_WRITE_MASK)) d
      else if value = USB_HUB_FEATURE_RESET_CHANGE then snd (read_reg io USB_HPRT d)
      else if value = USB_HUB_FEATURE_RESET
      then modify_reg io USB_HPRT (\<lambda>r. USB_HPRT_CLR_RST (r AND USB_HPRT_WRITE_MASK)) d
      else if value = USB_HUB_FEATURE_SUSPEND_CHANGE then clear_suspend io d
      else if value = USB_HUB_FEATURE_OVERCURRENT_CHANGE
      then modify_reg io USB_HPRT (\<lambda>r. BIT_SET_U32 USB_HPRT_OVRCURR_CHNG (r AND USB_HPRT_WRITE_MASK)) d
      else if value = USB_HUB_FEATURE_CONNECTION_CHANGE \<or> value = USB_PORT_STATUS_CH_BIT_CONNECTED_CHANGED
      then modify_reg io USB_HPRT (\<lambda>r. BIT_SET_U32 USB_HPRT_CONN_DET (r AND USB_HPRT_WRITE_MASK)) d
      else d)"

definition usb_rh_rq_clear_feature :: "'d mmio \<Rightarrow> u64 \<Rightarrow> 'd root_hub \<Rightarrow> int \<times> 'd root_hub" where
  "usb_rh_rq_clear_feature io rq st =
     (let type = USB_DEV_RQ_GET_TYPE rq; value = USB_DEV_RQ_GET_VALUE rq
      in if type = USB_RQ_TYPE_HUB_SET_PORT_FEATURE
         then (ERR_OK, st\<lparr>rh_dev := clear_port_feature io value (rh_dev st)\<rparr>)
         else (ERR_OK, st))"

definition usb_root_hub_process_req ::
  "'d mmio \<Rightarrow> u64 \<Rightarrow> ptr \<Rightarrow> int \<Rightarrow> 'd root_hub \<Rightarrow> (int \<times> int \<times> 'd root_hub) kres" where
  "usb_root_hub_process_req io rq buf buf_sz st =
     (let request = USB_DEV_RQ_GET_RQ rq;
          no_reply = (\<lambda>(err, st). Inr (err, 0, st))
      in if request = USB_RQ_GET_STATUS then usb_rh_get_status io rq buf buf_sz st
         else if request = USB_RQ_SET_FEATURE then no_reply (usb_rh_rq_set_feature io rq st)
         else if request = USB_RQ_CLEAR_FEATURE then no_reply (usb_rh_rq_clear_feature io rq st)
         else if request = USB_RQ_SET_ADDRESS then no_reply (usb_rh_rq_set_addr rq st)
         else if request = USB_RQ_GET_DESCRIPTOR then usb_rh_get_descriptor rq buf buf_sz st
         else if request = USB_RQ_SET_CONFIGURATION then no_reply (ERR_OK, st)
         else if request \<in> {USB_RQ_SET_DESCRIPTOR, USB_RQ_GET_CONFIGURATION, USB_RQ_GET_INTERFACE,
             USB_RQ_SET_INTERFACE, USB_RQ_SYNCH_FRAME}
         then no_reply (ERR_NOT_IMPLEMENTED, st)
         else no_reply (ERR_INVAL_ARG, st))"

section \<open>The port register as hardware\<close>

text \<open>The bits 1, 2, 3 and 5 are cleared by writing 1 to them and kept by writing 0.\<close>

definition hprt_hw :: "reg_file mmio" where
  "hprt_hw = plain_regs\<lparr>mm_write := \<lambda>a v d. d\<lparr>rf_val := (rf_val d)(a :=
     if a = USB_HPRT then (v AND USB_HPRT_WRITE_MASK) OR (rf_val d a AND USB_HPRT_WRITE_CLEAR_BITS AND NOT v) else v),
     rf_log := rf_log d @ [(a, v)]\<rparr>\<rparr>"

definition ack_bits :: "nat set" where "ack_bits = {1, 2, 3, 5}"

text \<open>The bit that a request names.\<close>

definition named_bit :: "u64 \<Rightarrow> nat option" where
  "named_bit rq =
     (let value = USB_DEV_RQ_GET_VALUE rq
      in if USB_DEV_RQ_GET_RQ rq = USB_RQ_CLEAR_FEATURE \<and> USB_DEV_RQ_GET_TYPE rq = USB_RQ_TYPE_HUB_SET_PORT_FEATURE
         then if value = USB_HUB_FEATURE_ENABLE then Some 2
              else if value = USB_HUB_FEATURE_ENABLE_CHANGE then Some 3
              else if value = USB_HUB_FEATURE_OVERCURRENT_CHANGE then Some 5
              else if value = USB_HUB_FEATURE_CONNECTION_CHANGE \<or> value = 0 then Some 1 else None
         else None)"

lemma bit_clear_bits: "bit USB_HPRT_WRITE_CLEAR_BITS i \<longleftrightarrow> i \<in> ack_bits"
  unfolding USB_HPRT_WRITE_CLEAR_BITS_def BT_def usb_bits ack_bits_def bit_or_iff bit_push_bit_iff
  by (auto simp: bit_1_iff)

lemma hprt_read: "read_reg hprt_hw a d = (rf_val d a, d)"
  by (simp add: read_reg_def hprt_hw_def plain_regs_def)

lemma hprt_modify:
  assumes "i \<in> ack_bits"
  shows "bit (rf_val (modify_reg hprt_hw USB_HPRT f d) USB_HPRT) i \<longleftrightarrow>
    bit (rf_val d USB_HPRT) i \<and> \<not> bit (f (rf_val d USB_HPRT)) i"
proof -
  have "i < 32" using assms by (auto simp: ack_bits_def)
  moreover have "rf_val (modify_reg hprt_hw USB_HPRT f d) USB_HPRT = (f (rf_val d USB_HPRT) AND USB_HPRT_WRITE_MASK) OR
      (rf_val d USB_HPRT AND USB_HPRT_WRITE_CLEAR_BITS AND NOT (f (rf_val d USB_HPRT)))"
    unfolding modify_reg_def hprt_read prod.case Let_def by (simp add: write_reg_def hprt_hw_def)
  ultimately show ?thesis
    using assms by (simp add: USB_HPRT_WRITE_MASK_def bit_or_iff bit_and_iff bit_not_iff bit_clear_bits)
qed

lemma hprt_write_other: "a \<noteq> USB_HPRT \<Longrightarrow> rf_val (write_reg hprt_hw a v d) USB_HPRT = rf_val d USB_HPRT"
  by (simp add: write_reg_def hprt_hw_def)

text \<open>What the handlers write has a bit of the four set only where they set it.\<close>

lemma masked_bits:
  assumes "i \<in> ack_bits"
  shows "\<not> bit (r AND USB_HPRT_WRITE_MASK) i"
    "bit (BIT_SET_U32 p (r AND USB_HPRT_WRITE_MASK)) i \<longleftrightarrow> i = p"
    "\<not> bit (BIT_CLEAR_U32 p (r AND USB_HPRT_WRITE_MASK)) i"
    "\<not> bit (BIT_CLEAR_U32 q (BIT_CLEAR_U32 p (r AND USB_HPRT_WRITE_MASK))) i"
    "\<not> bit (USB_HPRT_CLR_RST (r AND USB_HPRT_WRITE_MASK)) i"
    "\<not> bit (USB_HPRT_CLR_SET_RST 1 (r AND USB_HPRT_WRITE_MASK)) i"
proof -
  have i: "i < 32" "\<not> (8 \<le> i \<and> i < 9)" using assms by (auto simp: ack_bits_def)
  show "\<not> bit (r AND USB_HPRT_WRITE_MASK) i"
    using assms i by (simp add: bit_and_iff USB_HPRT_WRITE_MASK_def bit_not_iff bit_clear_bits)
  then show "bit (BIT_SET_U32 p (r AND USB_HPRT_WRITE_MASK)) i \<longleftrightarrow> i = p"
    "\<not> bit (BIT_CLEAR_U32 p (r AND USB_HPRT_WRITE_MASK)) i"
    "\<not> bit (BIT_CLEAR_U32 q (BIT_CLEAR_U32 p (r AND USB_HPRT_WRITE_MASK))) i"
    "\<not> bit (USB_HPRT_CLR_RST (r AND USB_HPRT_WRITE_MASK)) i"
    "\<not> bit (USB_HPRT_CLR_SET_RST 1 (r AND USB_HPRT_WRITE_MASK)) i"
    using i by (auto simp: BIT_SET_U32_def BIT_CLEAR_U32_def bit_BT bit_or_iff bit_and_iff bit_not_iff
        USB_HPRT_CLR_RST_def BF_CLEAR_def USB_HPRT_CLR_SET_RST_def bit_BF_CLEAR_AND_SET)
qed

lemma port_status_reads: "snd (root_hub_get_port_status hprt_hw d) = d"
  by (simp add: root_hub_get_port_status_def hprt_read)

lemma clear_suspend_keeps:
  "i \<in> ack_bits \<Longrightarrow> bit (rf_val (clear_suspend hprt_hw d) USB_HPRT) i \<longleftrightarrow> bit (rf_val d USB_HPRT) i"
proof -
  assume i: "i \<in> ack_bits"
  have "i \<noteq> USB_HPRT_RES" using i by (auto simp: ack_bits_def usb_bits)
  moreover have "USB_PCGCR \<noteq> USB_HPRT" by (simp add: usb_addresses)
  ultimately show ?thesis by (simp add: clear_suspend_def Let_def hprt_modify [OF i] masked_bits [OF i] hprt_write_other)
qed

lemma clear_port_feature_acks:
  assumes "i \<in> ack_bits"
  shows "bit (rf_val (clear_port_feature hprt_hw v d) USB_HPRT) i \<longleftrightarrow> bit (rf_val d USB_HPRT) i \<and>
    \<not> (v = USB_HUB_FEATURE_ENABLE \<and> i = 2 \<or> v = USB_HUB_FEATURE_ENABLE_CHANGE \<and> i = 3 \<or>
       v = USB_HUB_FEATURE_OVERCURRENT_CHANGE \<and> i = 5 \<or>
       (v = USB_HUB_FEATURE_CONNECTION_CHANGE \<or> v = 0) \<and> i = 1)"
  using assms
  by (auto simp: clear_port_feature_def hprt_modify masked_bits hprt_read clear_suspend_keeps usb_constants usb_bits)

section \<open>Properties\<close>

lemma process_req_device:
  assumes "usb_root_hub_process_req hprt_hw rq buf sz st = Inr (err, n, st')" "i \<in> ack_bits"
  shows "bit (rf_val (rh_dev st') USB_HPRT) i \<longleftrightarrow> bit (rf_val (rh_dev st) USB_HPRT) i \<and> named_bit rq \<noteq> Some i"
proof -
  have pwr: "i \<noteq> USB_HPRT_PWR" using assms(2) by (auto simp: ack_bits_def usb_bits)
  have reply: "rh_dev st2 = rh_dev st1" if "with_reply e (usb_root_hub_reply b z r st1) = Inr (e', k, st2)" for e b z r st1 e' k st2
    using that by (auto simp: with_reply_def usb_root_hub_reply_def Let_def split: if_splits)
  consider (status) "USB_DEV_RQ_GET_RQ rq = USB_RQ_GET_STATUS" | (setf) "USB_DEV_RQ_GET_RQ rq = USB_RQ_SET_FEATURE"
    | (clearf) "USB_DEV_RQ_GET_RQ rq = USB_RQ_CLEAR_FEATURE" | (desc) "USB_DEV_RQ_GET_RQ rq = USB_RQ_GET_DESCRIPTOR"
    | (other) "USB_DEV_RQ_GET_RQ rq \<notin> {USB_RQ_GET_STATUS, USB_RQ_SET_FEATURE, USB_RQ_CLEAR_FEATURE, USB_RQ_GET_DESCRIPTOR}"
    by blast
  then show ?thesis
  proof cases
    case status
    then have "rh_dev st' = rh_dev st"
      using assms(1) port_status_reads [of "rh_dev st"]
      by (auto simp: usb_root_hub_process_req_def usb_rh_get_status_def Let_def split: if_splits prod.splits dest!: reply)
    with status show ?thesis by (simp add: named_bit_def usb_constants)
  next
    case setf
    then show ?thesis
      using assms pwr by (auto simp: usb_root_hub_process_req_def usb_rh_rq_set_feature_def dwc2_port_reset_def Let_def
          hprt_modify masked_bits named_bit_def usb_constants split: if_splits)
  next
    case clearf
    then show ?thesis
      using assms by (auto simp: usb_root_hub_process_req_def usb_rh_rq_clear_feature_def Let_def
          clear_port_feature_acks named_bit_def usb_constants split: if_splits)
  next
    case desc
    then have "rh_dev st' = rh_dev st"
      using assms(1) by (auto simp: usb_root_hub_process_req_def usb_rh_get_descriptor_def Let_def usb_constants
          split: option.splits dest!: reply)
    with desc show ?thesis by (simp add: named_bit_def usb_constants)
  next
    case other
    then have "rh_dev st' = rh_dev st"
      using assms(1) by (auto simp: usb_root_hub_process_req_def usb_rh_rq_set_addr_def Let_def split: if_splits)
    with other show ?thesis by (simp add: named_bit_def)
  qed
qed

definition sample_hub :: "reg_file root_hub" where
  "sample_hub = \<lparr>usb_root_hub_device_number = 1, rh_mem = (\<lambda>_. 0),
     rh_dev = \<lparr>rf_val = (\<lambda>a. if a = USB_HPRT then 0x102b else 0), rf_log = []\<rparr>\<rparr>"

text \<open>C19 (safety). A request to the root hub acknowledges no change of the port but the one it names: of the bits of the
  port register that a 1 clears (connection detected, port enabled, enable changed, overcurrent changed), a successful
  request clears the named one and keeps the others.\<close>

theorem root_hub_clears_named_change:
  assumes "usb_root_hub_process_req hprt_hw rq buf sz st = Inr (err, n, st')" "i \<in> ack_bits"
  shows "bit (rf_val (rh_dev st') USB_HPRT) i \<longleftrightarrow> bit (rf_val (rh_dev st) USB_HPRT) i \<and> named_bit rq \<noteq> Some i"
  by (rule process_req_device [OF assms])

theorem root_hub_clears_named_change_witness:
  "\<exists>st'. usb_root_hub_process_req hprt_hw (USB_DEV_RQ_MAKE 0x23 1 16 1 0) 0 0 sample_hub = Inr (ERR_OK, 0, st') \<and>
     \<not> bit (rf_val (rh_dev st') USB_HPRT) 1 \<and> bit (rf_val (rh_dev st') USB_HPRT) 3"
proof -
  let ?rq = "USB_DEV_RQ_MAKE 0x23 1 16 1 0"
  have f: "USB_DEV_RQ_GET_TYPE ?rq = 0x23" "USB_DEV_RQ_GET_RQ ?rq = 1" "USB_DEV_RQ_GET_VALUE ?rq = 16"
    by (simp_all add: request_fields)
  then obtain st' where st': "usb_root_hub_process_req hprt_hw ?rq 0 0 sample_hub = Inr (ERR_OK, 0, st')"
    by (simp add: usb_root_hub_process_req_def usb_rh_rq_clear_feature_def usb_constants)
  have "named_bit ?rq = Some 1" by (simp add: named_bit_def f usb_constants)
  then show ?thesis
    using root_hub_clears_named_change [OF st', of 1] root_hub_clears_named_change [OF st', of 3] st'
    by (simp add: ack_bits_def sample_hub_def)
qed

text \<open>C36 (bounds). A reply of the root hub never leaves the buffer of the caller: no more bytes are reported and
  written than the buffer holds, and they are the first bytes of the requested descriptor; an unknown
  descriptor is refused and nothing is written.\<close>

theorem root_hub_descriptor_reply:
  assumes "USB_DEV_RQ_GET_RQ rq = USB_RQ_GET_DESCRIPTOR" "0 \<le> sz"
  shows "\<exists>err n st'. usb_root_hub_process_req io rq buf sz st = Inr (err, n, st') \<and> 0 \<le> n \<and> n \<le> sz \<and>
    (case rh_descriptor rq of
       None \<Rightarrow> err = ERR_INVAL_ARG \<and> n = 0 \<and> st' = st
     | Some r \<Rightarrow> err = ERR_OK \<and> n = min sz (int (length r)) \<and>
         (\<forall>a. rh_mem st' a = (if buf \<le> a \<and> a < buf + nat n then r ! (a - buf) else rh_mem st a)))"
proof (cases "rh_descriptor rq")
  case None
  then show ?thesis
    using assms by (simp add: usb_root_hub_process_req_def usb_rh_get_descriptor_def with_reply_def usb_root_hub_reply_def
        usb_constants)
next
  case (Some r)
  then show ?thesis
    using assms by (auto simp: usb_root_hub_process_req_def usb_rh_get_descriptor_def with_reply_def usb_root_hub_reply_def
        usb_constants put_bytes_def Let_def min_def)
qed

theorem root_hub_descriptor_reply_witness:
  "\<exists>err n st'. usb_root_hub_process_req hprt_hw (USB_DEV_RQ_MAKE 0x80 6 0x100 0 8) 0x1000 8 sample_hub = Inr (err, n, st') \<and>
     n = 8 \<and> rh_mem st' 0x1007 = 64 \<and> rh_mem st' 0x1008 = 0"
proof -
  let ?rq = "USB_DEV_RQ_MAKE 0x80 6 0x100 0 8"
  have f: "USB_DEV_RQ_GET_RQ ?rq = 6" "USB_DEV_RQ_GET_VALUE ?rq = 0x100" by (simp_all add: request_fields)
  then have "rh_descriptor ?rq = Some usb_root_hub_device_descriptor"
    by (simp add: rh_descriptor_def usb_constants)
  then show ?thesis
    using root_hub_descriptor_reply [where rq = ?rq and sz = 8 and io = hprt_hw and buf = "0x1000" and st = sample_hub] f
    by (auto simp: usb_constants usb_root_hub_device_descriptor_def le16_def sample_hub_def)
qed

end
