(* ===== verification/Dwc2_core.thy ===== *)
theory Dwc2_core
  imports Root_hub
begin

text \<open>
  The core of the USB controller driver (\<^verbatim>\<open>src/board/bcm2835/usb/dwc2.c\<close>): start of the controller, its FIFOs and
  interrupts, and the interrupts of the port. The controller is a device with registers; the loops that wait
  for one of its bits do not end on a controller that never sets it, which is \<open>None\<close>. Delays and log messages
  are not modelled.
\<close>

section \<open>Waiting for a register\<close>

partial_function (option) poll_reg :: "'d mmio \<Rightarrow> ptr \<Rightarrow> (u32 \<Rightarrow> bool) \<Rightarrow> 'd \<Rightarrow> (u32 \<times> 'd) option" where
  "poll_reg io a ready d =
     (case read_reg io a d of (v, d) \<Rightarrow> if ready v then Some (v, d) else poll_reg io a ready d)"

section \<open>Operations on the registers\<close>

definition dwc2_start_vbus :: "'d mmio \<Rightarrow> 'd \<Rightarrow> 'd" where
  "dwc2_start_vbus io =
     modify_reg io USB_GUSBCFG (\<lambda>ctl. BIT_CLEAR_U32 USB_GUSBCFG_TERM_SEL_DL_PULSE
                                        (BIT_CLEAR_U32 USB_GUSBCFG_ULPI_EXT_VBUS_DRV ctl))"

definition dwc2_reset :: "'d mmio \<Rightarrow> 'd \<Rightarrow> 'd option" where
  "dwc2_reset io d =
     Option.bind (poll_reg io USB_GRSTCTL (\<lambda>rst. USB_GRSTCTL_GET_AHB_IDLE rst \<noteq> 0) d) (\<lambda>(rst, d).
       map_option snd (poll_reg io USB_GRSTCTL (\<lambda>rst. USB_GRSTCTL_GET_AHB_IDLE rst \<noteq> 0 \<and> USB_GRSTCTL_GET_C_SFT_RST rst = 0)
         (write_reg io USB_GRSTCTL (USB_GRSTCTL_CLR_SET_C_SFT_RST 1 rst) d)))"

definition dwc2_reset_clock_root :: "'d mmio \<Rightarrow> 'd \<Rightarrow> 'd" where
  "dwc2_reset_clock_root io d =
     write_reg io USB_PCGCR 0
       (modify_reg io USB_PCGCR (\<lambda>r. USB_PCGCR_CLR_STOP_PCLK (USB_PCGCR_CLR_EN_SLP_CLK_GATE r)) d)"

definition dwc2_port_reset_clear :: "'d mmio \<Rightarrow> 'd \<Rightarrow> 'd" where
  "dwc2_port_reset_clear io = modify_reg io USB_HPRT (\<lambda>r. USB_HPRT_CLR_RST (r AND USB_HPRT_WRITE_MASK))"

definition dwc2_set_ulpi_no_phy :: "'d mmio \<Rightarrow> 'd \<Rightarrow> 'd" where
  "dwc2_set_ulpi_no_phy io =
     modify_reg io USB_GUSBCFG (\<lambda>ctl. BIT_CLEAR_U32 USB_GUSBCFG_PHY_IF (BIT_CLEAR_U32 USB_GUSBCFG_ULPI_UTMI_SEL ctl))"

definition dwc2_get_vendor_id :: "'d mmio \<Rightarrow> 'd \<Rightarrow> u32 \<times> 'd" where
  "dwc2_get_vendor_id io d = read_reg io USB_GSNPSID d"

definition dwc2_get_user_id :: "'d mmio \<Rightarrow> 'd \<Rightarrow> u32 \<times> 'd" where
  "dwc2_get_user_id io d = read_reg io USB_GUID d"

definition dwc2_get_hs_iface :: "'d mmio \<Rightarrow> 'd \<Rightarrow> u32 \<times> 'd" where
  "dwc2_get_hs_iface io d = (let (r, d) = read_reg io USB_GHWCFG2 d in (USB_GHWCFG2_GET_HSPHY_INTERFACE r, d))"

definition dwc2_get_fs_iface :: "'d mmio \<Rightarrow> 'd \<Rightarrow> u32 \<times> 'd" where
  "dwc2_get_fs_iface io d = (let (r, d) = read_reg io USB_GHWCFG2 d in (USB_GHWCFG2_GET_FSPHY_INTERFACE r, d))"

definition dwc2_get_op_mode :: "'d mmio \<Rightarrow> 'd \<Rightarrow> u32 \<times> 'd" where
  "dwc2_get_op_mode io d = (let (r, d) = read_reg io USB_GHWCFG2 d in (USB_GHWCFG2_GET_MODE r, d))"

definition dwc2_set_fsls_config :: "'d mmio \<Rightarrow> bool \<Rightarrow> 'd \<Rightarrow> 'd" where
  "dwc2_set_fsls_config io enabled =
     modify_reg io USB_GUSBCFG (\<lambda>ctl.
       if enabled then BIT_SET_U32 USB_GUSBCFG_ULPI_CLK_SUS_M (BIT_SET_U32 USB_GUSBCFG_ULPI_FS_LS ctl)
       else BIT_CLEAR_U32 USB_GUSBCFG_ULPI_CLK_SUS_M (BIT_CLEAR_U32 USB_GUSBCFG_ULPI_FS_LS ctl))"

datatype dwc2_otg_cap = DWC2_OTG_CAP_NONE | DWC2_OTG_CAP_SRP | DWC2_OTG_CAP_HNP_SRP

definition dwc2_set_otg_cap :: "'d mmio \<Rightarrow> dwc2_otg_cap \<Rightarrow> 'd \<Rightarrow> 'd" where
  "dwc2_set_otg_cap io cap =
     modify_reg io USB_GUSBCFG (\<lambda>ctl. case cap of
         DWC2_OTG_CAP_NONE \<Rightarrow> BIT_CLEAR_U32 USB_GUSBCFG_SRP_CAP (BIT_CLEAR_U32 USB_GUSBCFG_HNP_CAP ctl)
       | DWC2_OTG_CAP_SRP \<Rightarrow> BIT_SET_U32 USB_GUSBCFG_SRP_CAP (BIT_CLEAR_U32 USB_GUSBCFG_HNP_CAP ctl)
       | DWC2_OTG_CAP_HNP_SRP \<Rightarrow> BIT_SET_U32 USB_GUSBCFG_SRP_CAP (BIT_SET_U32 USB_GUSBCFG_HNP_CAP ctl))"

definition dwc2_power_clock_off :: "'d mmio \<Rightarrow> 'd \<Rightarrow> 'd" where
  "dwc2_power_clock_off io = write_reg io USB_PCGCR 0"

definition dwc2_is_ulpi_fs_ls_only :: "'d mmio \<Rightarrow> 'd \<Rightarrow> bool \<times> 'd" where
  "dwc2_is_ulpi_fs_ls_only io d =
     (let (ctl, d) = read_reg io USB_GUSBCFG d in (BIT_IS_SET ctl USB_GUSBCFG_ULPI_FS_LS, d))"

definition dwc2_set_host_speed :: "'d mmio \<Rightarrow> u32 \<Rightarrow> 'd \<Rightarrow> 'd" where
  "dwc2_set_host_speed io speed = modify_reg io USB_HCFG (USB_HCFG_CLR_SET_LS_PHY_CLK_SEL speed)"

definition dwc2_set_host_ls_support :: "'d mmio \<Rightarrow> 'd \<Rightarrow> 'd" where
  "dwc2_set_host_ls_support io = modify_reg io USB_HCFG (USB_HCFG_CLR_SET_LS_SUPP 1)"

definition dwc2_setup_fifo_sizes :: "'d mmio \<Rightarrow> u32 \<Rightarrow> u32 \<Rightarrow> u32 \<Rightarrow> 'd \<Rightarrow> 'd" where
  "dwc2_setup_fifo_sizes io rx np p d =
     (let d = write_reg io USB_GRXFSIZ rx d;
          d = write_reg io USB_GNPTXFSIZ (push_bit 16 rx OR np) d
      in write_reg io USB_HPTXFSIZ (push_bit 16 p OR (rx + np)) d)"

definition dwc2_clear_otg_hnp :: "'d mmio \<Rightarrow> 'd \<Rightarrow> 'd" where
  "dwc2_clear_otg_hnp io = modify_reg io USB_GOTGCTL (BIT_CLEAR_U32 USB_GOTGCTL_HST_SET_HNP_EN)"

definition dwc2_tx_fifo_flush :: "'d mmio \<Rightarrow> u32 \<Rightarrow> 'd \<Rightarrow> 'd option" where
  "dwc2_tx_fifo_flush io fifonum d =
     map_option snd (poll_reg io USB_GRSTCTL (\<lambda>rst. USB_GRSTCTL_GET_TXF_FLSH rst = 0)
       (modify_reg io USB_GRSTCTL (\<lambda>rst. USB_GRSTCTL_CLR_SET_TXF_NUM fifonum (USB_GRSTCTL_CLR_SET_TXF_FLSH 1 rst)) d))"

definition dwc2_rx_fifo_flush :: "'d mmio \<Rightarrow> 'd \<Rightarrow> 'd option" where
  "dwc2_rx_fifo_flush io d =
     map_option snd (poll_reg io USB_GRSTCTL (\<lambda>rst. USB_GRSTCTL_GET_RXF_FLSH rst = 0)
       (modify_reg io USB_GRSTCTL (USB_GRSTCTL_CLR_SET_RXF_FLSH 1) d))"

definition dwc2_is_dma_enabled :: "'d mmio \<Rightarrow> 'd \<Rightarrow> bool \<times> 'd" where
  "dwc2_is_dma_enabled io d = (let (r, d) = read_reg io USB_HCFG d in (USB_HCFG_GET_DMA_DESC_ENA r \<noteq> 0, d))"

definition dwc2_is_port_pwr_enabled :: "'d mmio \<Rightarrow> 'd \<Rightarrow> bool \<times> 'd" where
  "dwc2_is_port_pwr_enabled io d = (let (r, d) = read_reg io USB_HPRT d in (USB_HPRT_GET_PWR r \<noteq> 0, d))"

definition dwc2_port_set_pwr_enabled :: "'d mmio \<Rightarrow> bool \<Rightarrow> 'd \<Rightarrow> 'd" where
  "dwc2_port_set_pwr_enabled io enabled =
     modify_reg io USB_HPRT (\<lambda>r. USB_HPRT_CLR_SET_PWR (if enabled then 1 else 0) (r AND USB_HPRT_WRITE_MASK))"

definition USB_GAHBCFG_CLR_SET_WAIT_AXI_WRITES :: "u32 \<Rightarrow> u32" where
  "USB_GAHBCFG_CLR_SET_WAIT_AXI_WRITES r = r OR BT 4"

definition dwc2_wait_axi_writes :: "'d mmio \<Rightarrow> 'd \<Rightarrow> 'd" where
  "dwc2_wait_axi_writes io = modify_reg io USB_GAHBCFG USB_GAHBCFG_CLR_SET_WAIT_AXI_WRITES"

definition dwc2_enable_ahb_interrupts :: "'d mmio \<Rightarrow> 'd \<Rightarrow> 'd" where
  "dwc2_enable_ahb_interrupts io = modify_reg io USB_GAHBCFG (USB_GAHBCFG_CLR_SET_GLBL_INTR_EN 1)"

definition dwc2_unmask_all_interrupts :: "'d mmio \<Rightarrow> 'd \<Rightarrow> 'd" where
  "dwc2_unmask_all_interrupts io = write_reg io USB_GINTMSK (USB_GINTSTS_CLR_SET_HCHINT 1 0)"

definition dwc2_enable_channel_interrupts :: "'d mmio \<Rightarrow> 'd \<Rightarrow> 'd" where
  "dwc2_enable_channel_interrupts io d =
     (let d = write_reg io USB_HAINTMSK 0 d; d = write_reg io USB_HAINT 0xffffffff d
      in modify_reg io USB_GINTMSK (USB_GINTSTS_CLR_SET_HCHINT 1) d)"

definition dwc2_unmask_port_interrupts :: "'d mmio \<Rightarrow> 'd \<Rightarrow> 'd" where
  "dwc2_unmask_port_interrupts io = write_reg io USB_GINTMSK (USB_GINTSTS_CLR_SET_PRTINT 1 0)"

definition dwc2_clear_all_interrupts :: "'d mmio \<Rightarrow> 'd \<Rightarrow> 'd" where
  "dwc2_clear_all_interrupts io = write_reg io USB_GINTSTS 0xffffffff"

definition dwc2_disable_ahb_interrupts :: "'d mmio \<Rightarrow> 'd \<Rightarrow> 'd" where
  "dwc2_disable_ahb_interrupts io = modify_reg io USB_GAHBCFG USB_GAHBCFG_CLR_GLBL_INTR_EN"

definition dwc2_init_core :: "'d mmio \<Rightarrow> 'd \<Rightarrow> 'd option" where
  "dwc2_init_core io d =
     Option.bind (dwc2_reset io (modify_reg io USB_GUSBCFG (\<lambda>ctl.
         BIT_CLEAR_U32 USB_GUSBCFG_TERM_SEL_DL_PULSE (BIT_CLEAR_U32 USB_GUSBCFG_ULPI_EXT_VBUS_DRV ctl)) d)) (\<lambda>d.
       let d = modify_reg io USB_GUSBCFG (\<lambda>ctl.
                 BIT_CLEAR_U32 USB_GUSBCFG_PHY_IF (BIT_CLEAR_U32 USB_GUSBCFG_ULPI_UTMI_SEL ctl)) d;
           d = modify_reg io USB_GUSBCFG (\<lambda>ctl.
                 BIT_CLEAR_U32 USB_GUSBCFG_ULPI_CLK_SUS_M (BIT_CLEAR_U32 USB_GUSBCFG_ULPI_FS_LS ctl)) d;
           d = modify_reg io USB_GAHBCFG (\<lambda>ahb.
                 USB_GAHBCFG_CLR_SET_WAIT_AXI_WRITES (USB_GAHBCFG_CLR_AHB_SINGLE (USB_GAHBCFG_CLR_SET_DMA_EN 1 ahb))) d
       in Some (modify_reg io USB_GUSBCFG (\<lambda>ctl.
                 BIT_CLEAR_U32 USB_GUSBCFG_SRP_CAP (BIT_CLEAR_U32 USB_GUSBCFG_HNP_CAP ctl)) d))"

section \<open>Interrupts of the port\<close>

definition dwc2_hprt_to_port_status :: "u32 \<Rightarrow> u16 \<times> u16" where
  "dwc2_hprt_to_port_status hprt = (hprt_status hprt, hprt_change hprt)"

text \<open>The driver keeps a callback for changes of the port; no code of the repository sets it.\<close>

definition dwc2_irq_handle_port_intr :: "'d mmio \<Rightarrow> (u16 \<times> u16 \<Rightarrow> 'd \<Rightarrow> 'd) option \<Rightarrow> 'd \<Rightarrow> 'd" where
  "dwc2_irq_handle_port_intr io cb d =
     (let (hprt, d) = read_reg io USB_HPRT d;
          msk = USB_HPRT_CLR_OVR_CURR_CHNG (USB_HPRT_CLR_EN_CHNG (USB_HPRT_CLR_CONN_DET (USB_HPRT_CLR_ENA hprt)));
          (msk, d) = (if USB_HPRT_GET_CONN_DET hprt \<noteq> 0
                      then let msk = USB_HPRT_CLR_SET_CONN_DET 1 msk in (msk, write_reg io USB_HPRT msk d) else (msk, d));
          (msk, d) = (if USB_HPRT_GET_EN_CHNG hprt \<noteq> 0
                      then let msk = USB_HPRT_CLR_SET_EN_CHNG 1 msk in (msk, write_reg io USB_HPRT msk d) else (msk, d));
          (msk, d) = (if USB_HPRT_GET_OVR_CURR_CHNG hprt \<noteq> 0
                      then let msk = USB_HPRT_CLR_SET_OVR_CURR_CHNG 1 msk in (msk, write_reg io USB_HPRT msk d) else (msk, d))
      in case cb of None \<Rightarrow> d | Some f \<Rightarrow> f (dwc2_hprt_to_port_status hprt) d)"

definition dwc2_irq_handle_otgint :: "'d mmio \<Rightarrow> 'd \<Rightarrow> 'd" where
  "dwc2_irq_handle_otgint io d =
     (let (otgint, d) = read_reg io USB_GOTGINT d;
          (otgctl, d) = read_reg io USB_GOTGCTL d
      in write_reg io USB_GOTGINT otgint d)"

definition dwc2_irq_handle_rx_fifo_lvl_intr :: "'d mmio \<Rightarrow> 'd \<Rightarrow> 'd" where
  "dwc2_irq_handle_rx_fifo_lvl_intr io d = snd (read_reg io USB_GRXSTSP d)"

section \<open>The start of the controller\<close>

text \<open>A controller for the theorems: it stores what is written to its registers, and the reset register stays
  busy for \<open>latency\<close> reads after a write. Then it reports an idle bus and clears the command bits.\<close>

record core_hw = reg_file +
  busy :: nat
  latency :: nat

definition core_done :: "u32 \<Rightarrow> u32" where "core_done v = BIT_SET_U32 31 v AND NOT 0x31"

definition core_regs :: "core_hw mmio" where
  "core_regs = \<lparr>mm_read = (\<lambda>a d.
       if a \<noteq> USB_GRSTCTL then (rf_val d a, d)
       else if busy d > 0 then (BIT_CLEAR_U32 31 (rf_val d a), d\<lparr>busy := busy d - 1\<rparr>)
       else (core_done (rf_val d a), d)),
     mm_write = (\<lambda>a v d. d\<lparr>rf_val := (rf_val d)(a := v), busy := (if a = USB_GRSTCTL then latency d else busy d)\<rparr>)\<rparr>"

lemma core_regs_simps [simp]:
  "a \<noteq> USB_GRSTCTL \<Longrightarrow> read_reg core_regs a d = (rf_val d a, d)"
  "a \<noteq> USB_GRSTCTL \<Longrightarrow> write_reg core_regs a v d = d\<lparr>rf_val := (rf_val d)(a := v)\<rparr>"
  "write_reg core_regs USB_GRSTCTL v d = d\<lparr>rf_val := (rf_val d)(USB_GRSTCTL := v), busy := latency d\<rparr>"
  "a \<noteq> USB_GRSTCTL \<Longrightarrow> modify_reg core_regs a f d = d\<lparr>rf_val := (rf_val d)(a := f (rf_val d a))\<rparr>"
  by (simp_all add: core_regs_def read_reg_def write_reg_def modify_reg_def)

lemma core_idle:
  "USB_GRSTCTL_GET_AHB_IDLE (core_done v) \<noteq> 0"
  "USB_GRSTCTL_GET_C_SFT_RST (core_done v) = 0"
  "USB_GRSTCTL_GET_TXF_FLSH (core_done v) = 0"
  "USB_GRSTCTL_GET_RXF_FLSH (core_done v) = 0"
  "USB_GRSTCTL_GET_AHB_IDLE (BIT_CLEAR_U32 31 v) = 0"
proof -
  have e: "BF_EXTRACT x p 1 = 0 \<longleftrightarrow> \<not> bit x p" for x p using BF_EXTRACT_1_bit by blast
  have n: "bit (0x31 :: u32) 31 = False" "bit (0x31 :: u32) 0" "bit (0x31 :: u32) 4" "bit (0x31 :: u32) 5" by simp_all
  show "USB_GRSTCTL_GET_AHB_IDLE (core_done v) \<noteq> 0"
    "USB_GRSTCTL_GET_C_SFT_RST (core_done v) = 0"
    "USB_GRSTCTL_GET_TXF_FLSH (core_done v) = 0"
    "USB_GRSTCTL_GET_RXF_FLSH (core_done v) = 0"
    "USB_GRSTCTL_GET_AHB_IDLE (BIT_CLEAR_U32 31 v) = 0"
    unfolding core_done_def usb_fields e BIT_SET_U32_def BIT_CLEAR_U32_def bit_and_iff bit_or_iff bit_not_iff
    using n by (simp_all add: bit_BT)
qed

text \<open>A wait for the reset register ends, and changes no register.\<close>

lemma core_poll:
  assumes "\<And>v. ready (core_done v)"
  shows "\<exists>v n. poll_reg core_regs USB_GRSTCTL ready d = Some (v, d\<lparr>busy := n\<rparr>)"
proof (induction "busy d" arbitrary: d)
  case 0
  have "read_reg core_regs USB_GRSTCTL d = (core_done (rf_val d USB_GRSTCTL), d)"
    using 0 by (simp add: core_regs_def read_reg_def)
  then have "poll_reg core_regs USB_GRSTCTL ready d = Some (core_done (rf_val d USB_GRSTCTL), d\<lparr>busy := busy d\<rparr>)"
    by (subst poll_reg.simps) (simp add: assms)
  then show ?case by blast
next
  case (Suc n)
  let ?d = "d\<lparr>busy := n\<rparr>" and ?v = "BIT_CLEAR_U32 31 (rf_val d USB_GRSTCTL)"
  have r: "read_reg core_regs USB_GRSTCTL d = (?v, ?d)"
    using Suc(2) [symmetric] by (simp add: core_regs_def read_reg_def)
  obtain w k where k: "poll_reg core_regs USB_GRSTCTL ready ?d = Some (w, ?d\<lparr>busy := k\<rparr>)" using Suc(1) [of ?d] by auto
  show ?case
    by (subst poll_reg.simps) (use r k in \<open>auto intro: exI [of _ n]\<close>)
qed

lemma core_reset: "\<exists>v b. dwc2_reset core_regs d = Some (d\<lparr>rf_val := (rf_val d)(USB_GRSTCTL := v), busy := b\<rparr>)"
proof -
  obtain r n where 1: "poll_reg core_regs USB_GRSTCTL (\<lambda>rst. USB_GRSTCTL_GET_AHB_IDLE rst \<noteq> 0) d = Some (r, d\<lparr>busy := n\<rparr>)"
    using core_poll [of "\<lambda>rst. USB_GRSTCTL_GET_AHB_IDLE rst \<noteq> 0" d] core_idle(1) by blast
  let ?v = "USB_GRSTCTL_CLR_SET_C_SFT_RST 1 r"
  let ?ready = "\<lambda>rst. USB_GRSTCTL_GET_AHB_IDLE rst \<noteq> 0 \<and> USB_GRSTCTL_GET_C_SFT_RST rst = 0"
    and ?d = "d\<lparr>rf_val := (rf_val d)(USB_GRSTCTL := ?v), busy := latency d\<rparr>"
  have w: "write_reg core_regs USB_GRSTCTL ?v (d\<lparr>busy := n\<rparr>) = ?d" by (simp add: core_regs_def write_reg_def)
  have "?ready (core_done v)" for v using core_idle(1,2) by blast
  then obtain x k where "poll_reg core_regs USB_GRSTCTL ?ready ?d = Some (x, ?d\<lparr>busy := k\<rparr>)"
    using core_poll [of ?ready ?d] by blast
  then have "dwc2_reset core_regs d = Some (?d\<lparr>busy := k\<rparr>)" by (simp add: dwc2_reset_def 1 w)
  then show ?thesis by (intro exI [of _ ?v] exI [of _ k]) simp
qed

text \<open>The bits of \<^verbatim>\<open>GUSBCFG\<close> that the driver turns off: external VBUS and pulse select, the PHY, the
  ULPI modes, and the host negotiation protocols.\<close>

definition GUSBCFG_OFF :: "nat set" where
  "GUSBCFG_OFF = {20, 22, 3, 4, 17, 19, 8, 9}"


section \<open>Port changes are acknowledged\<close>

text \<open>The hardware is the one of \<^verbatim>\<open>Root_hub\<close>: three change bits and the enable bit are cleared by writing one, the other
  bits are stored.\<close>

lemma hprt_hw_simps [simp]:
  "read_reg hprt_hw a d = (rf_val d a, d)"
  "write_reg hprt_hw USB_HPRT v d = d\<lparr>rf_val := (rf_val d)(USB_HPRT :=
     (v AND USB_HPRT_WRITE_MASK) OR (rf_val d USB_HPRT AND USB_HPRT_WRITE_CLEAR_BITS AND NOT v)), rf_log := rf_log d @ [(USB_HPRT, v)]\<rparr>"
  by (simp_all add: hprt_hw_def plain_regs_def read_reg_def write_reg_def)

lemma bit_hprt_hw:
  "i < 32 \<Longrightarrow> bit ((v AND USB_HPRT_WRITE_MASK) OR (old AND USB_HPRT_WRITE_CLEAR_BITS AND NOT v)) i \<longleftrightarrow>
     (if i \<in> ack_bits then bit old i \<and> \<not> bit v i else bit v i)"
  unfolding USB_HPRT_WRITE_MASK_def bit_or_iff bit_and_iff bit_not_iff bit_clear_bits by auto

text \<open>C30 (safety). The port interrupt acknowledges every change that the port reported, does not disable the port, and
  leaves the other bits as they are.\<close>

theorem port_intr_acknowledges_changes:
  "\<forall>i. bit (rf_val (dwc2_irq_handle_port_intr hprt_hw None d) USB_HPRT) i =
       (bit (rf_val d USB_HPRT) i \<and> i \<notin> {1, 3, 5})"
proof
  fix i
  let ?r = "rf_val d USB_HPRT"
  show "bit (rf_val (dwc2_irq_handle_port_intr hprt_hw None d) USB_HPRT) i = (bit ?r i \<and> i \<notin> {1, 3, 5})"
  proof (cases "i < 32")
    case True
    note b = bit_hprt_hw one_bit_fields
    show ?thesis
      using True by (cases "bit ?r 1"; cases "bit ?r 3"; cases "bit ?r 5")
        (simp_all add: dwc2_irq_handle_port_intr_def Let_def usb_fields b ack_bits_def, auto)
  next
    case False
    then show ?thesis by (auto dest: bit_imp_le_length)
  qed
qed

end
