(* ===== verification/Usb_config.thy ===== *)
theory Usb_config
  imports Usb_std Stringlib
begin

text \<open>
  Devices of the USB host driver and the parser of configuration descriptors (\<^verbatim>\<open>src/include/drivers/usb/hcd.h\<close>,
  \<^verbatim>\<open>src/include/usb/usb_descriptor_helpers.h\<close>, \<^verbatim>\<open>usb_hcd_parse_configuration\<close> in
  \<^verbatim>\<open>src/board/bcm2835/usb/hcd.c\<close>). The bytes come from the device: their lengths and types are not trusted.
\<close>

section \<open>Devices\<close>

datatype usb_pid = USB_PID_DATA0 | USB_PID_DATA1 | USB_PID_DATA2 | USB_PID_MDATA | USB_PID_SETUP | USB_PID_UNSET

datatype usb_speed = USB_SPEED_HIGH | USB_SPEED_FULL | USB_SPEED_LOW

record usb_hcd_pipe =
  device_address :: int
  device_speed :: usb_speed
  endpoint_num :: int
  endpoint_type :: int
  endpoint_dir :: int
  max_packet_size :: int
  ls_hub_port :: int
  ls_hub_address :: int
  pi_channel :: int
  next_pid :: usb_pid

record usb_hcd_endpoint =
  ep_desc :: "u8 list"
  ep_pipe :: usb_hcd_pipe

record usb_hcd_interface =
  if_desc :: "u8 list"
  endpoints :: "nat \<Rightarrow> usb_hcd_endpoint"

text \<open>The class of a device: the descriptors of its HID interfaces, or another class number.\<close>

datatype dev_class = Class_hid "u8 list list" | Class_other int

datatype dev_state = STATE_DETACHED | STATE_ATTACHED | STATE_POWERED | STATE_DEFAULT | STATE_ADDRESSED
  | STATE_CONFIGURED | STATE_SUSPENDED

record usb_hcd_device =
  address :: int
  dv_state :: dev_state
  configuration :: int
  configuration_string :: u8
  hub :: "ptr option"
  hub_port :: int
  pipe0 :: usb_hcd_pipe
  dv_desc :: "u8 list"
  num_interfaces :: nat
  interfaces :: "nat \<Rightarrow> usb_hcd_interface"
  dv_class :: "dev_class option"

definition USB_MAX_INTERFACES_PER_DEVICE :: nat where "USB_MAX_INTERFACES_PER_DEVICE = 8"
definition USB_MAX_ENDPOINTS_PER_DEVICE :: nat where "USB_MAX_ENDPOINTS_PER_DEVICE = 16"

text \<open>An index above the limit is outside the array.\<close>

definition hcd_device_get_interface :: "usb_hcd_device \<Rightarrow> nat \<Rightarrow> usb_hcd_interface option kres" where
  "hcd_device_get_interface d index =
     (if num_interfaces d \<le> index then Inr None
      else if USB_MAX_INTERFACES_PER_DEVICE \<le> index then Inl ''interfaces: index out of range''
      else Inr (Some (interfaces d index)))"

definition usb_endpoint_descriptor_get_number :: "u8 list \<Rightarrow> int" where
  "usb_endpoint_descriptor_get_number d = uint (d ! 2 AND 0xf)"

definition usb_endpoint_descriptor_get_direction :: "u8 list \<Rightarrow> int" where
  "usb_endpoint_descriptor_get_direction d = uint (drop_bit 7 (d ! 2) AND 1)"

definition usb_endpoint_descriptor_get_type :: "u8 list \<Rightarrow> int" where
  "usb_endpoint_descriptor_get_type d = uint (d ! 3 AND 3)"

definition usb_endpoint_descriptor_get_max_packet_size :: "u8 list \<Rightarrow> int" where
  "usb_endpoint_descriptor_get_max_packet_size d = uint (d ! 4) + 256 * uint (d ! 5)"

section \<open>Parsing a configuration\<close>

text \<open>The state of the loop: the device, the next endpoint (of which interface, and its index) and
  the flag that ends it. The two numbers are the free slots of HID devices and HID interfaces.\<close>

record parse =
  ps_dev :: usb_hcd_device
  ps_ep :: "(nat \<times> nat) option"
  should_continue :: bool
  ps_err :: int
  hid_slots :: nat
  hid_if_slots :: nat

definition mem_bytes_at :: "bmem \<Rightarrow> ptr \<Rightarrow> nat \<Rightarrow> u8 list" where
  "mem_bytes_at m a n = map m [a..<a + n]"

definition set_interface :: "nat \<Rightarrow> (usb_hcd_interface \<Rightarrow> usb_hcd_interface) \<Rightarrow> usb_hcd_device \<Rightarrow> usb_hcd_device" where
  "set_interface i f d = d\<lparr>interfaces := (interfaces d)(i := f (interfaces d i))\<rparr>"

definition parse_interface :: "bmem \<Rightarrow> ptr \<Rightarrow> parse \<Rightarrow> parse" where
  "parse_interface m hdr s =
     (let d = ps_dev s; i = num_interfaces d; d = d\<lparr>num_interfaces := i + 1\<rparr>
      in if i \<ge> USB_MAX_INTERFACES_PER_DEVICE then s\<lparr>ps_dev := d, should_continue := False\<rparr>
         else s\<lparr>ps_dev := set_interface i (\<lambda>x. x\<lparr>if_desc := mem_bytes_at m hdr 9\<rparr>) d, ps_ep := Some (i, 0)\<rparr>)"

definition endpoint_of :: "usb_hcd_device \<Rightarrow> u8 list \<Rightarrow> usb_hcd_endpoint" where
  "endpoint_of d b = \<lparr>ep_desc = b, ep_pipe = \<lparr>device_address = address d, device_speed = device_speed (pipe0 d),
     endpoint_num = usb_endpoint_descriptor_get_number b, endpoint_type = usb_endpoint_descriptor_get_type b,
     endpoint_dir = usb_endpoint_descriptor_get_direction b,
     max_packet_size = usb_endpoint_descriptor_get_max_packet_size b,
     ls_hub_port = ls_hub_port (pipe0 d), ls_hub_address = ls_hub_address (pipe0 d), pi_channel = -1,
     next_pid = USB_PID_DATA0\<rparr>\<rparr>"

definition parse_endpoint :: "bmem \<Rightarrow> ptr \<Rightarrow> parse \<Rightarrow> parse" where
  "parse_endpoint m hdr s =
     (case ps_ep s of
        None \<Rightarrow> s\<lparr>ps_err := ERR_GENERIC, should_continue := False\<rparr>
      | Some (i, k) \<Rightarrow>
          if k \<ge> USB_MAX_ENDPOINTS_PER_DEVICE then s
          else s\<lparr>ps_dev := set_interface i
                   (\<lambda>x. x\<lparr>endpoints := (endpoints x)(k := endpoint_of (ps_dev s) (mem_bytes_at m hdr 7))\<rparr>) (ps_dev s),
                 ps_ep := Some (i, k + 1)\<rparr>)"

text \<open>An error of \<^verbatim>\<open>usb_hcd_parse_handle_hid\<close> is dropped by its caller. With no HID device slot left, its allocation
  writes through \<^verbatim>\<open>NULL\<close> before the test.\<close>

definition usb_hcd_parse_handle_hid :: "u8 list \<Rightarrow> parse \<Rightarrow> (int \<times> parse) kres" where
  "usb_hcd_parse_handle_hid b s =
     (let with_class =
        (case dv_class (ps_dev s) of
           None \<Rightarrow> if hid_slots s = 0 then Inl ''usb_hcd_allocate_hid: NULL''
                   else Inr (s\<lparr>hid_slots := hid_slots s - 1, ps_dev := (ps_dev s)\<lparr>dv_class := Some (Class_hid [])\<rparr>\<rparr>)
         | Some c \<Rightarrow> Inr s)
      in kbind with_class (\<lambda>s.
           case dv_class (ps_dev s) of
             Some (Class_hid hs) \<Rightarrow>
               if hid_if_slots s = 0 then Inr (ERR_BUSY, s)
               else Inr (ERR_OK, s\<lparr>hid_if_slots := hid_if_slots s - 1,
                      ps_dev := (ps_dev s)\<lparr>dv_class := Some (Class_hid (hs @ [b]))\<rparr>\<rparr>)
           | _ \<Rightarrow> Inr (ERR_BUSY, s)))"

definition USB_DESCRIPTOR_TYPE_HID :: u64 where "USB_DESCRIPTOR_TYPE_HID = 33"

definition known_type :: "u8 \<Rightarrow> bool" where
  "known_type t \<longleftrightarrow> ucast t \<in> {USB_DESCRIPTOR_TYPE_INTERFACE, USB_DESCRIPTOR_TYPE_ENDPOINT, USB_DESCRIPTOR_TYPE_HID,
     USB_DESCRIPTOR_TYPE_CONFIGURATION}"

definition parse_descriptor :: "bmem \<Rightarrow> ptr \<Rightarrow> parse \<Rightarrow> parse kres" where
  "parse_descriptor m hdr s =
     (let type = ucast (m (hdr + 1))
      in if type = USB_DESCRIPTOR_TYPE_INTERFACE then Inr (parse_interface m hdr s)
         else if type = USB_DESCRIPTOR_TYPE_ENDPOINT then Inr (parse_endpoint m hdr s)
         else if type = USB_DESCRIPTOR_TYPE_HID
         then kbind (usb_hcd_parse_handle_hid (mem_bytes_at m hdr 9) s) (\<lambda>(err, s). Inr (s\<lparr>ps_err := ERR_OK\<rparr>))
         else Inr s)"

text \<open>The code loops at a descriptor of an unknown type, and moves on by the length that the descriptor states.\<close>

partial_function (option) parse_loop :: "bmem \<Rightarrow> ptr \<Rightarrow> ptr \<Rightarrow> parse \<Rightarrow> parse kres option" where
  "parse_loop m hdr cfgbuf_end s =
     (if hdr < cfgbuf_end \<and> should_continue s
      then if known_type (m (hdr + 1))
           then (case parse_descriptor m hdr s of
                   Inl e \<Rightarrow> Some (Inl e)
                 | Inr s \<Rightarrow> parse_loop m (hdr + unat (m hdr)) cfgbuf_end s)
           else parse_loop m hdr cfgbuf_end s
      else Some (Inr s))"

definition usb_hcd_parse_configuration ::
  "nat \<times> nat \<Rightarrow> bmem \<Rightarrow> ptr \<Rightarrow> nat \<Rightarrow> usb_hcd_device \<Rightarrow> (int \<times> usb_hcd_device \<times> nat \<times> nat) kres option" where
  "usb_hcd_parse_configuration slots m cfgbuf cfgbuf_sz d =
     map_option (\<lambda>r. kbind r (\<lambda>s. Inr (ps_err s, ps_dev s, hid_slots s, hid_if_slots s)))
       (parse_loop m cfgbuf (cfgbuf + cfgbuf_sz)
         \<lparr>ps_dev = d, ps_ep = None, should_continue = True, ps_err = ERR_OK,
          hid_slots = fst slots, hid_if_slots = snd slots\<rparr>)"

section \<open>Configurations as values\<close>

text \<open>What a configuration descriptor encodes: interfaces with their endpoints.\<close>

record ep_spec =
  es_addr :: u8
  es_attr :: u8
  es_mps :: u16
  es_interval :: u8

record if_spec =
  is_fields :: "u8 list"
  is_eps :: "ep_spec list"

definition ep_bytes :: "ep_spec \<Rightarrow> u8 list" where
  "ep_bytes e = [7, 5, es_addr e, es_attr e] @ le16 (es_mps e) @ [es_interval e]"

definition if_head :: "if_spec \<Rightarrow> u8 list" where "if_head i = [9, 4] @ is_fields i"

definition if_bytes :: "if_spec \<Rightarrow> u8 list" where "if_bytes i = if_head i @ concat (map ep_bytes (is_eps i))"

definition cfg_bytes :: "u8 list \<Rightarrow> if_spec list \<Rightarrow> u8 list" where
  "cfg_bytes h ifs = [9, 2] @ h @ concat (map if_bytes ifs)"

definition spec_ok :: "if_spec \<Rightarrow> bool" where
  "spec_ok i \<longleftrightarrow> length (is_fields i) = 7 \<and> length (is_eps i) \<le> USB_MAX_ENDPOINTS_PER_DEVICE"

lemma mem_bytes_at_split: "mem_bytes_at m a (k + n) = mem_bytes_at m a k @ mem_bytes_at m (a + k) n"
proof -
  have "[a..<a + k + n] = [a..<a + k] @ [a + k..<a + k + n]" by (rule upt_add_eq_append) simp
  then show ?thesis by (simp add: mem_bytes_at_def add.assoc)
qed

lemma length_mem_bytes_at [simp]: "length (mem_bytes_at m a n) = n"
  by (simp add: mem_bytes_at_def)

lemma mem_bytes_at_append:
  "mem_bytes_at m a (length xs + length ys) = xs @ ys \<longleftrightarrow>
     mem_bytes_at m a (length xs) = xs \<and> mem_bytes_at m (a + length xs) (length ys) = ys"
  by (simp add: mem_bytes_at_split)

lemma length_ep_bytes [simp]: "length (ep_bytes e) = 7"
  by (simp add: ep_bytes_def)

lemma length_eps [simp]: "length (concat (map ep_bytes es)) = 7 * length es"
  by (induction es) simp_all

lemma mem_bytes_head: "mem_bytes_at m a n = x # y # xs \<Longrightarrow> m a = x \<and> m (a + 1) = y"
proof -
  assume eq: "mem_bytes_at m a n = x # y # xs"
  then have "length (mem_bytes_at m a n) = length (x # y # xs)" by (rule arg_cong)
  then have "2 \<le> n" by (simp add: mem_bytes_at_def)
  moreover have "mem_bytes_at m a n ! 0 = x" "mem_bytes_at m a n ! 1 = y" by (simp_all add: eq)
  ultimately show ?thesis by (simp add: mem_bytes_at_def)
qed

lemma endpoint_of_set_interface [simp]:
  "endpoint_of (set_interface i f d) b = endpoint_of d b" "endpoint_of (d\<lparr>num_interfaces := n\<rparr>) b = endpoint_of d b"
  by (simp_all add: endpoint_of_def set_interface_def)

lemma set_interface_simps [simp]:
  "num_interfaces (set_interface i f d) = num_interfaces d"
  "interfaces (set_interface i f d) j = (if j = i then f (interfaces d i) else interfaces d j)"
  by (simp_all add: set_interface_def)

text \<open>The endpoints of one interface.\<close>

fun add_eps :: "nat \<Rightarrow> nat \<Rightarrow> ep_spec list \<Rightarrow> parse \<Rightarrow> parse" where
  "add_eps i k [] s = s"
| "add_eps i k (e # es) s = add_eps i (k + 1) es
     (s\<lparr>ps_dev := set_interface i (\<lambda>x. x\<lparr>endpoints := (endpoints x)(k := endpoint_of (ps_dev s) (ep_bytes e))\<rparr>) (ps_dev s),
        ps_ep := Some (i, k + 1)\<rparr>)"

lemma loop_eps:
  assumes "mem_bytes_at m a (7 * length es) = concat (map ep_bytes es)" "ps_ep s = Some (i, k)"
    "k + length es \<le> USB_MAX_ENDPOINTS_PER_DEVICE" "should_continue s" "a + 7 * length es \<le> e"
  shows "parse_loop m a e s = parse_loop m (a + 7 * length es) e (add_eps i k es s)"
  using assms
proof (induction es arbitrary: a k s)
  case Nil
  then show ?case by simp
next
  case (Cons x es)
  have b: "mem_bytes_at m a 7 = ep_bytes x" "mem_bytes_at m (a + 7) (7 * length es) = concat (map ep_bytes es)"
    using Cons.prems(1) mem_bytes_at_append [of m a "ep_bytes x" "concat (map ep_bytes es)"] by simp_all
  then have h: "m a = 7" "m (a + 1) = 5" using mem_bytes_head [of m a 7 7 5] by (auto simp: ep_bytes_def)
  let ?s = "s\<lparr>ps_dev := set_interface i (\<lambda>y. y\<lparr>endpoints := (endpoints y)(k := endpoint_of (ps_dev s) (ep_bytes x))\<rparr>) (ps_dev s),
      ps_ep := Some (i, k + 1)\<rparr>"
  have "parse_loop m a e s = parse_loop m (a + 7) e ?s"
    using Cons.prems h b(1)
    by (subst parse_loop.simps)
      (simp add: known_type_def parse_descriptor_def parse_endpoint_def usb_constants USB_DESCRIPTOR_TYPE_HID_def)
  also have "\<dots> = parse_loop m (a + 7 + 7 * length es) e (add_eps i (k + 1) es ?s)"
    using Cons.prems b(2) by (intro Cons.IH) simp_all
  finally show ?case by (simp add: algebra_simps)
qed

lemma add_eps_result:
  "ps_err (add_eps i k es s) = ps_err s \<and> should_continue (add_eps i k es s) = should_continue s \<and>
   num_interfaces (ps_dev (add_eps i k es s)) = num_interfaces (ps_dev s) \<and>
   endpoint_of (ps_dev (add_eps i k es s)) = endpoint_of (ps_dev s) \<and>
   (\<forall>j. j \<noteq> i \<longrightarrow> interfaces (ps_dev (add_eps i k es s)) j = interfaces (ps_dev s) j) \<and>
   if_desc (interfaces (ps_dev (add_eps i k es s)) i) = if_desc (interfaces (ps_dev s) i) \<and>
   (\<forall>x. endpoints (interfaces (ps_dev (add_eps i k es s)) i) x =
      (if k \<le> x \<and> x < k + length es then endpoint_of (ps_dev s) (ep_bytes (es ! (x - k)))
       else endpoints (interfaces (ps_dev s) i) x))"
proof (induction es arbitrary: k s)
  case Nil
  then show ?case by auto
next
  case (Cons e es)
  have "endpoint_of (set_interface i f d) = endpoint_of d" for f d by (rule ext) simp
  with Cons [of "k + 1"] show ?case by (auto simp: nth_Cons' fun_eq_iff)
qed

text \<open>An interface of the device is the one that was encoded.\<close>

definition decoded :: "usb_hcd_device \<Rightarrow> if_spec \<Rightarrow> usb_hcd_interface \<Rightarrow> bool" where
  "decoded d i x \<longleftrightarrow> if_desc x = if_head i \<and>
     (\<forall>j < length (is_eps i). endpoints x j = endpoint_of d (ep_bytes (is_eps i ! j)))"

lemma length_if_bytes: "spec_ok i \<Longrightarrow> length (if_bytes i) = 9 + 7 * length (is_eps i)"
  by (simp add: if_bytes_def if_head_def spec_ok_def)

lemma loop_if:
  assumes "mem_bytes_at m a (length (if_bytes i)) = if_bytes i" "spec_ok i" "num_interfaces (ps_dev s) < 8"
    "should_continue s" "a + length (if_bytes i) \<le> e"
  shows "\<exists>s'. parse_loop m a e s = parse_loop m (a + length (if_bytes i)) e s' \<and> should_continue s' \<and> ps_err s' = ps_err s \<and>
    num_interfaces (ps_dev s') = num_interfaces (ps_dev s) + 1 \<and> endpoint_of (ps_dev s') = endpoint_of (ps_dev s) \<and>
    (\<forall>j < num_interfaces (ps_dev s). interfaces (ps_dev s') j = interfaces (ps_dev s) j) \<and>
    decoded (ps_dev s) i (interfaces (ps_dev s') (num_interfaces (ps_dev s)))"
proof -
  let ?q = "num_interfaces (ps_dev s)" and ?n = "length (is_eps i)"
  let ?d = "set_interface ?q (\<lambda>x. x\<lparr>if_desc := if_head i\<rparr>) ((ps_dev s)\<lparr>num_interfaces := ?q + 1\<rparr>)"
  let ?s = "s\<lparr>ps_dev := ?d, ps_ep := Some (?q, 0)\<rparr>"
  have l: "length (if_head i) = 9" "?n \<le> USB_MAX_ENDPOINTS_PER_DEVICE" using assms(2) by (simp_all add: if_head_def spec_ok_def)
  have b: "mem_bytes_at m a 9 = if_head i" "mem_bytes_at m (a + 9) (7 * ?n) = concat (map ep_bytes (is_eps i))"
    using assms(1) mem_bytes_at_append [of m a "if_head i" "concat (map ep_bytes (is_eps i))"] l by (simp_all add: if_bytes_def)
  then have h: "m a = 9" "m (a + 1) = 4" using mem_bytes_head [of m a 9 9 4] by (auto simp: if_head_def)
  have len: "length (if_bytes i) = 9 + 7 * ?n" by (rule length_if_bytes [OF assms(2)])
  have "parse_loop m a e s = parse_loop m (a + 9) e ?s"
    using assms(3-5) len h b(1)
    by (subst parse_loop.simps) (simp add: known_type_def parse_descriptor_def parse_interface_def usb_constants
      USB_DESCRIPTOR_TYPE_HID_def USB_MAX_INTERFACES_PER_DEVICE_def Let_def)
  also have "\<dots> = parse_loop m (a + 9 + 7 * ?n) e (add_eps ?q 0 (is_eps i) ?s)"
    using b(2) l(2) assms(4,5) len by (intro loop_eps) simp_all
  finally have run: "parse_loop m a e s = parse_loop m (a + length (if_bytes i)) e (add_eps ?q 0 (is_eps i) ?s)"
    by (simp add: len add.assoc)
  have same: "endpoint_of ?d = endpoint_of (ps_dev s)" by (rule ext) simp
  then show ?thesis
    using run add_eps_result [of ?q 0 "is_eps i" ?s] assms(4)
    by (intro exI [of _ "add_eps ?q 0 (is_eps i) ?s"]) (simp add: decoded_def)
qed

lemma loop_ifs:
  assumes "mem_bytes_at m a (length (concat (map if_bytes ifs))) = concat (map if_bytes ifs)" "\<forall>i \<in> set ifs. spec_ok i"
    "num_interfaces (ps_dev s) + length ifs \<le> 8" "should_continue s" "a + length (concat (map if_bytes ifs)) \<le> e"
  shows "\<exists>s'. parse_loop m a e s = parse_loop m (a + length (concat (map if_bytes ifs))) e s' \<and> ps_err s' = ps_err s \<and>
    num_interfaces (ps_dev s') = num_interfaces (ps_dev s) + length ifs \<and>
    (\<forall>j < num_interfaces (ps_dev s). interfaces (ps_dev s') j = interfaces (ps_dev s) j) \<and>
    (\<forall>k < length ifs. decoded (ps_dev s) (ifs ! k) (interfaces (ps_dev s') (num_interfaces (ps_dev s) + k)))"
  using assms
proof (induction ifs arbitrary: a s)
  case Nil
  then show ?case by auto
next
  case (Cons i ifs)
  let ?r = "concat (map if_bytes ifs)" and ?q = "num_interfaces (ps_dev s)"
  have b: "mem_bytes_at m a (length (if_bytes i)) = if_bytes i"
      "mem_bytes_at m (a + length (if_bytes i)) (length ?r) = ?r"
    using Cons.prems(1) mem_bytes_at_append [of m a "if_bytes i" ?r] by simp_all
  obtain s1 where s1: "parse_loop m a e s = parse_loop m (a + length (if_bytes i)) e s1" "should_continue s1"
      "ps_err s1 = ps_err s" "num_interfaces (ps_dev s1) = ?q + 1" "endpoint_of (ps_dev s1) = endpoint_of (ps_dev s)"
      "\<forall>j < ?q. interfaces (ps_dev s1) j = interfaces (ps_dev s) j"
      "decoded (ps_dev s) i (interfaces (ps_dev s1) ?q)"
    using loop_if [OF b(1), of s e] Cons.prems by auto
  have dec: "decoded (ps_dev s1) = decoded (ps_dev s)" using s1(5) by (intro ext) (simp add: decoded_def)
  obtain s2 where s2: "parse_loop m (a + length (if_bytes i)) e s1 = parse_loop m (a + length (if_bytes i) + length ?r) e s2"
      "ps_err s2 = ps_err s1" "num_interfaces (ps_dev s2) = num_interfaces (ps_dev s1) + length ifs"
      "\<forall>j < num_interfaces (ps_dev s1). interfaces (ps_dev s2) j = interfaces (ps_dev s1) j"
      "\<forall>k < length ifs. decoded (ps_dev s1) (ifs ! k) (interfaces (ps_dev s2) (num_interfaces (ps_dev s1) + k))"
    using Cons.IH [OF b(2), of s1] Cons.prems s1(2,4) by auto
  have "decoded (ps_dev s) ((i # ifs) ! k) (interfaces (ps_dev s2) (?q + k))" if "k < length (i # ifs)" for k
  proof (cases k)
    case 0
    then show ?thesis using s1(4,7) s2(4) by simp
  next
    case (Suc k')
    then show ?thesis using s2(5) s1(4) that dec by simp
  qed
  then show ?case using s1 s2 by (intro exI [of _ s2]) (simp add: add.assoc)
qed

section \<open>Properties\<close>


definition sample_config :: bmem where
  "sample_config = (\<lambda>a. if a < 25
     then [9, 2, 25, 0, 1, 1, 2, 0x40, 0, 9, 4, 0, 0, 1, 9, 0, 0, 0, 7, 5, 0x81, 3, 64, 0, 0xff] ! a else 0)"

definition sample_device :: usb_hcd_device where
  "sample_device = \<lparr>address = 1, dv_state = STATE_ADDRESSED, configuration = 0, configuration_string = 0, hub = None, hub_port = 0,
     pipe0 = \<lparr>device_address = 1, device_speed = USB_SPEED_HIGH, endpoint_num = 0, endpoint_type = 0, endpoint_dir = 0,
       max_packet_size = 64, ls_hub_port = 0, ls_hub_address = 0, pi_channel = 0, next_pid = USB_PID_DATA0\<rparr>,
     dv_desc = [], num_interfaces = 0,
     interfaces = (\<lambda>_. \<lparr>if_desc = [], endpoints = (\<lambda>_. \<lparr>ep_desc = [], ep_pipe = \<lparr>device_address = 0, device_speed = USB_SPEED_LOW,
       endpoint_num = 0, endpoint_type = 0, endpoint_dir = 0, max_packet_size = 0, ls_hub_port = 0, ls_hub_address = 0,
       pi_channel = 0, next_pid = USB_PID_UNSET\<rparr>\<rparr>)\<rparr>),
     dv_class = None\<rparr>"

lemma sample_device_empty: "num_interfaces sample_device = 0"
  by (simp add: sample_device_def)


text \<open>The lengths lead from descriptor to descriptor of a known type until the end of the buffer.\<close>

inductive good_walk :: "bmem \<Rightarrow> ptr \<Rightarrow> ptr \<Rightarrow> bool" for m e where
  stop: "e \<le> hdr \<Longrightarrow> good_walk m e hdr"
| step: "known_type (m (hdr + 1)) \<Longrightarrow> m hdr \<noteq> 0 \<Longrightarrow> good_walk m e (hdr + unat (m hdr)) \<Longrightarrow> good_walk m e hdr"

lemma good_walk_returns: "good_walk m e hdr \<Longrightarrow> \<exists>r. parse_loop m hdr e s = Some r"
proof (induction arbitrary: s rule: good_walk.induct)
  case (stop hdr)
  then show ?case by (subst parse_loop.simps) simp
next
  case (step hdr)
  then show ?case by (subst parse_loop.simps) (auto split: sum.split)
qed

definition stuck :: "bmem \<Rightarrow> ptr \<Rightarrow> ptr \<Rightarrow> parse \<Rightarrow> bool" where
  "stuck m hdr e s \<longleftrightarrow> hdr < e \<and> should_continue s \<and> m hdr = 0 \<and>
     (ucast (m (hdr + 1)) = USB_DESCRIPTOR_TYPE_CONFIGURATION \<or> \<not> known_type (m (hdr + 1)))"

lemma zero_length_loops:
  assumes "parse_loop m hdr e s = Some r"
  shows "\<not> stuck m hdr e s"
proof (rule parse_loop.raw_induct [where P = "\<lambda>m hdr e s r. \<not> stuck m hdr e s", OF _ assms])
  fix loop m hdr e s r
  assume IH: "\<And>m hdr e s r. loop m hdr e s = Some r \<Longrightarrow> \<not> stuck m hdr e s"
    and body: "(if hdr < e \<and> should_continue s
        then if known_type (m (hdr + 1))
             then case parse_descriptor m hdr s of Inl e \<Rightarrow> Some (Inl e) | Inr s \<Rightarrow> loop m (hdr + unat (m hdr)) e s
             else loop m hdr e s
        else Some (Inr s)) = Some r"
  show "\<not> stuck m hdr e s"
  proof
    assume st: "stuck m hdr e s"
    then have "loop m hdr e s = Some r"
      using body by (auto simp: stuck_def parse_descriptor_def usb_constants USB_DESCRIPTOR_TYPE_HID_def split: if_splits)
    then show False using IH st by blast
  qed
qed



end
