(* ===== verification/Static_slot.thy ===== *)
theory Static_slot
  imports Linked_List
begin

text \<open>
  Pools of statically allocated objects (\<^verbatim>\<open>src/include/memory/static_slot.h\<close>), from which the USB drivers, the
  PWM driver and others take their objects: an array whose elements are on a list of free objects or on a list of
  active ones.
\<close>

section \<open>The macros\<close>

record slot_pool =
  slot_free :: ptr
  slot_active :: ptr

definition slot_alloc :: "slot_pool \<Rightarrow> list_heap \<Rightarrow> ptr \<times> list_heap" where
  "slot_alloc p h =
     (let obj = list_next_entry_or_null (slot_free p) h
      in (obj, if obj \<noteq> NULL then list_move obj (slot_active p) h else h))"

definition slot_release :: "slot_pool \<Rightarrow> ptr \<Rightarrow> list_heap \<Rightarrow> list_heap" where
  "slot_release p obj h = list_move obj (slot_free p) h"

definition STATIC_SLOT_INIT_FREE :: "slot_pool \<Rightarrow> ptr list \<Rightarrow> list_heap \<Rightarrow> list_heap" where
  "STATIC_SLOT_INIT_FREE p objs h = fold (\<lambda>o1. list_add o1 (slot_free p)) objs h"

section \<open>The pool as two lists\<close>

text \<open>A pool in a heap of rings: the heads of its lists are distinct from 0, and no object has address 0.\<close>

definition pool_in :: "slot_pool \<Rightarrow> list_heap \<Rightarrow> ptr set \<Rightarrow> (ptr \<Rightarrow> ptr list) \<Rightarrow> bool" where
  "pool_in p h H Q \<longleftrightarrow> rings h H Q \<and> slot_free p \<in> H \<and> slot_active p \<in> H \<and> slot_free p \<noteq> slot_active p \<and>
     NULL \<notin> nodes H Q"

lemma slot_alloc_empty:
  assumes "pool_in p h H Q" "Q (slot_free p) = []"
  shows "slot_alloc p h = (NULL, h)"
  using assms ll.wf_is_empty [of h H Q "slot_free p"]
  by (simp add: slot_alloc_def pool_in_def list_next_entry_or_null_def list_empty_def)

lemma slot_alloc_cons:
  assumes "pool_in p h H Q" "Q (slot_free p) = x # xs"
  obtains h' where "slot_alloc p h = (x, h')" "x \<noteq> NULL"
    "pool_in p h' H (Q(slot_free p := xs, slot_active p := x # Q (slot_active p)))"
proof -
  let ?Q = "Q(slot_free p := xs, slot_active p := x # Q (slot_active p))" and ?h = "list_move x (slot_active p) h"
  have r: "rings h H Q" "slot_free p \<in> H" "slot_active p \<in> H" "slot_free p \<noteq> slot_active p" "NULL \<notin> nodes H Q"
    using assms(1) by (simp_all add: pool_in_def)
  have x: "x \<noteq> NULL" "x \<noteq> slot_free p"
    using r(2,5) assms(2) ll.wf_distinct [OF r(1,2)] by (auto simp: nodes_def)
  have "nxt h (slot_free p) = x" using ll.wf_first [OF r(1,2)] assms(2) by (simp add: list_first_entry_def)
  then have "slot_alloc p h = (x, ?h)" using x by (simp add: slot_alloc_def list_next_entry_or_null_def)
  moreover have "rings ?h H ?Q"
    using ll.move_head [OF r(1-4), of x] assms(2) by (simp add: list_move_def)
  moreover have "NULL \<notin> nodes H ?Q" using r(2,5) x assms(2) by (auto simp: nodes_def)
  ultimately show thesis using that x r by (simp add: pool_in_def)
qed

lemma slot_release_active:
  assumes "pool_in p h H Q" "x \<in> set (Q (slot_active p))"
  shows "pool_in p (slot_release p x h) H
    (Q(slot_active p := remove1 x (Q (slot_active p)), slot_free p := x # Q (slot_free p)))"
proof -
  have r: "rings h H Q" "slot_free p \<in> H" "slot_active p \<in> H" "slot_free p \<noteq> slot_active p" "NULL \<notin> nodes H Q"
    using assms(1) by (simp_all add: pool_in_def)
  let ?Q = "Q(slot_active p := remove1 x (Q (slot_active p)), slot_free p := x # Q (slot_free p))"
  have "rings (slot_release p x h) H ?Q"
    using ll.move_head [OF r(1,3,2) r(4) [symmetric] assms(2)] by (simp add: slot_release_def list_move_def)
  moreover have "set (?Q a) \<subseteq> set (Q a) \<union> set (Q (slot_active p))" for a
    using assms(2) set_remove1_subset [of x "Q (slot_active p)"] by auto
  then have "nodes H ?Q \<subseteq> nodes H Q" using r(3) unfolding nodes_def by fastforce
  then have "NULL \<notin> nodes H ?Q" using r(5) by blast
  ultimately show ?thesis using r by (simp add: pool_in_def)
qed

lemma slot_init_rings:
  assumes "rings h H Q" "slot_free p \<in> H" "distinct objs" "set objs \<inter> nodes H Q = {}"
  shows "rings (STATIC_SLOT_INIT_FREE p objs h) H (Q(slot_free p := rev objs @ Q (slot_free p)))"
  using assms
proof (induction objs arbitrary: h Q)
  case Nil
  then show ?case by (simp add: STATIC_SLOT_INIT_FREE_def)
next
  case (Cons x xs)
  let ?Q = "Q(slot_free p := x # Q (slot_free p))"
  have r: "rings (list_add x (slot_free p) h) H ?Q" using Cons.prems by (intro ll.wf_link_head) auto
  have "nodes H ?Q \<subseteq> insert x (nodes H Q)" by (auto simp: nodes_def split: if_splits)
  then have fresh: "set xs \<inter> nodes H ?Q = {}" using Cons.prems by auto
  have "rings (STATIC_SLOT_INIT_FREE p xs (list_add x (slot_free p) h)) H (?Q(slot_free p := rev xs @ ?Q (slot_free p)))"
    by (rule Cons.IH [OF r _ _ fresh]) (use Cons.prems in auto)
  moreover have "?Q(slot_free p := rev xs @ ?Q (slot_free p)) = Q(slot_free p := rev (x # xs) @ Q (slot_free p))" by simp
  ultimately show ?case by (simp add: STATIC_SLOT_INIT_FREE_def del: fun_upd_apply rev.simps)
qed

section \<open>Histories\<close>

text \<open>The users of a pool allocate, and release what they hold. \<open>held\<close> are the objects that they hold.\<close>

inductive pool_run :: "slot_pool \<Rightarrow> ptr list \<Rightarrow> list_heap \<Rightarrow> ptr list \<Rightarrow> bool" for p objs where
  init: "pool_run p objs (STATIC_SLOT_INIT_FREE p objs (INIT_LIST_HEAD (slot_active p) (INIT_LIST_HEAD (slot_free p) h))) []"
| alloc: "pool_run p objs h held \<Longrightarrow> slot_alloc p h = (x, h') \<Longrightarrow>
    pool_run p objs h' (if x = NULL then held else x # held)"
| release: "pool_run p objs h held \<Longrightarrow> x \<in> set held \<Longrightarrow> pool_run p objs (slot_release p x h) (remove1 x held)"

definition pool_ok :: "slot_pool \<Rightarrow> ptr list \<Rightarrow> bool" where
  "pool_ok p objs \<longleftrightarrow> distinct (NULL # slot_free p # slot_active p # objs)"

lemma pool_run_invariant:
  assumes "pool_run p objs h held" and ok: "pool_ok p objs"
  shows "\<exists>fs. pool_in p h {slot_free p, slot_active p} ((\<lambda>_. [])(slot_free p := fs, slot_active p := held)) \<and>
    distinct (held @ fs) \<and> set held \<union> set fs = set objs"
  using assms(1)
proof induction
  case (init h)
  let ?f = "slot_free p" and ?a = "slot_active p" and ?Q = "\<lambda>_ :: ptr. [] :: ptr list"
  have d: "?f \<noteq> ?a" "?f \<noteq> NULL" "?a \<noteq> NULL" "distinct objs" "NULL \<notin> set objs" "?f \<notin> set objs" "?a \<notin> set objs"
    using ok by (auto simp: pool_ok_def)
  have "rings h {} ?Q" by (simp add: rings_def)
  then have "rings (INIT_LIST_HEAD ?f h) {?f} (?Q(?f := []))" by (rule ll.wf_init) (simp add: nodes_def)
  then have "rings (INIT_LIST_HEAD ?a (INIT_LIST_HEAD ?f h)) {?a, ?f} (?Q(?f := [], ?a := []))"
    by (rule ll.wf_init) (use d in \<open>auto simp: nodes_def\<close>)
  then have "rings (INIT_LIST_HEAD ?a (INIT_LIST_HEAD ?f h)) {?f, ?a} (?Q(?f := [], ?a := []))"
    by (simp add: insert_commute)
  then have "rings (STATIC_SLOT_INIT_FREE p objs (INIT_LIST_HEAD ?a (INIT_LIST_HEAD ?f h))) {?f, ?a}
      ((?Q(?f := [], ?a := []))(?f := rev objs @ (?Q(?f := [], ?a := [])) ?f))"
    by (rule slot_init_rings) (use d in \<open>auto simp: nodes_def\<close>)
  moreover have "(?Q(?f := [], ?a := []))(?f := rev objs @ (?Q(?f := [], ?a := [])) ?f) = ?Q(?f := rev objs, ?a := [])"
    using d(1) by auto
  ultimately have "pool_in p (STATIC_SLOT_INIT_FREE p objs (INIT_LIST_HEAD ?a (INIT_LIST_HEAD ?f h))) {?f, ?a}
      (?Q(?f := rev objs, ?a := []))"
    using d by (simp add: pool_in_def nodes_def)
  moreover have "distinct ([] @ rev objs) \<and> set [] \<union> set (rev objs) = set objs" using d by simp
  ultimately show ?case by blast
next
  case (alloc h held x h')
  let ?f = "slot_free p" and ?a = "slot_active p"
  obtain fs where fs: "pool_in p h {?f, ?a} ((\<lambda>_. [])(?f := fs, ?a := held))" "distinct (held @ fs)"
    "set held \<union> set fs = set objs"
    using alloc.IH by blast
  have ne: "?f \<noteq> ?a" using ok by (simp add: pool_ok_def)
  show ?case
  proof (cases fs)
    case Nil
    then have "slot_alloc p h = (NULL, h)" using slot_alloc_empty [OF fs(1)] ne by simp
    then have "h' = h" "x = NULL" using alloc.hyps(2) by simp_all
    then have eq: "(if x = NULL then held else x # held) = held" "h' = h" by simp_all
    show ?thesis unfolding eq by (rule exI [of _ fs]) (use fs in blast)
  next
    case (Cons y ys)
    obtain h2 where h2: "slot_alloc p h = (y, h2)" "y \<noteq> NULL" "pool_in p h2 {?f, ?a}
        (((\<lambda>_. [])(?f := fs, ?a := held))(?f := ys, ?a := y # ((\<lambda>_. [])(?f := fs, ?a := held)) ?a))"
      using slot_alloc_cons [OF fs(1), of y ys] Cons ne by auto
    moreover have "((\<lambda>_. [])(?f := fs, ?a := held))(?f := ys, ?a := y # ((\<lambda>_. [])(?f := fs, ?a := held)) ?a)
        = (\<lambda>_. [])(?f := ys, ?a := y # held)" by auto
    moreover have "x = y" "h' = h2" using h2(1) alloc.hyps(2) by simp_all
    ultimately have "pool_in p h' {?f, ?a} ((\<lambda>_. [])(?f := ys, ?a := (if x = NULL then held else x # held)))"
      "distinct ((if x = NULL then held else x # held) @ ys) \<and>
       set (if x = NULL then held else x # held) \<union> set ys = set objs"
      using fs(2,3) Cons by auto
    then show ?thesis by blast
  qed
next
  case (release h held x)
  let ?f = "slot_free p" and ?a = "slot_active p"
  obtain fs where fs: "pool_in p h {?f, ?a} ((\<lambda>_. [])(?f := fs, ?a := held))" "distinct (held @ fs)"
    "set held \<union> set fs = set objs"
    using release.IH by blast
  have ne: "?f \<noteq> ?a" using ok by (simp add: pool_ok_def)
  have "pool_in p (slot_release p x h) {?f, ?a} (((\<lambda>_. [])(?f := fs, ?a := held))
      (?a := remove1 x (((\<lambda>_. [])(?f := fs, ?a := held)) ?a), ?f := x # ((\<lambda>_. [])(?f := fs, ?a := held)) ?f))"
    by (rule slot_release_active [OF fs(1)]) (use release.hyps(2) in simp)
  moreover have "(((\<lambda>_. [])(?f := fs, ?a := held))
      (?a := remove1 x (((\<lambda>_. [])(?f := fs, ?a := held)) ?a), ?f := x # ((\<lambda>_. [])(?f := fs, ?a := held)) ?f))
      = (\<lambda>_. [])(?f := x # fs, ?a := remove1 x held)" using ne by auto
  moreover have "distinct (remove1 x held @ x # fs) \<and> set (remove1 x held) \<union> set (x # fs) = set objs"
    using fs(2,3) release.hyps(2) by auto
  ultimately have "pool_in p (slot_release p x h) {?f, ?a} ((\<lambda>_. [])(?f := x # fs, ?a := remove1 x held)) \<and>
      distinct (remove1 x held @ x # fs) \<and> set (remove1 x held) \<union> set (x # fs) = set objs" by simp
  then show ?case by blast
qed

text \<open>C25 (invariant). Whatever the users of a pool do, the objects that they hold are distinct objects of the array. The next
  allocation hands out an object that nobody holds, and fails exactly when all objects are held.\<close>

theorem static_slots_exclusive:
  assumes "pool_run p objs h held" "pool_ok p objs" "slot_alloc p h = (x, h')"
  shows "distinct held \<and> set held \<subseteq> set objs \<and> (x = NULL \<longleftrightarrow> set held = set objs) \<and>
    (x \<noteq> NULL \<longrightarrow> x \<in> set objs \<and> x \<notin> set held)"
proof -
  let ?f = "slot_free p" and ?a = "slot_active p"
  obtain fs where fs: "pool_in p h {?f, ?a} ((\<lambda>_. [])(?f := fs, ?a := held))" "distinct (held @ fs)"
    "set held \<union> set fs = set objs"
    using pool_run_invariant [OF assms(1,2)] by blast
  have ne: "?f \<noteq> ?a" using assms(2) by (simp add: pool_ok_def)
  show ?thesis
  proof (cases fs)
    case Nil
    then have "slot_alloc p h = (NULL, h)" using slot_alloc_empty [OF fs(1)] ne by simp
    then show ?thesis using fs(2,3) assms(3) Nil by auto
  next
    case (Cons y ys)
    obtain h2 where "slot_alloc p h = (y, h2)" "y \<noteq> NULL"
      using slot_alloc_cons [OF fs(1), of y ys] Cons ne by auto
    then show ?thesis using fs(2,3) assms(3) Cons by auto
  qed
qed

lemma static_slots_exclusive_witness:
  "\<exists>h h' x. pool_run \<lparr>slot_free = 8, slot_active = 24\<rparr> [100, 200] h [200] \<and>
     slot_alloc \<lparr>slot_free = 8, slot_active = 24\<rparr> h = (x, h') \<and> x \<noteq> 200 \<and> x \<in> {100, 200}"
proof -
  let ?p = "\<lparr>slot_free = 8, slot_active = 24\<rparr>"
  let ?h0 = "STATIC_SLOT_INIT_FREE ?p [100, 200] (INIT_LIST_HEAD 24 (INIT_LIST_HEAD 8 \<lparr>nxt = \<lambda>_. 0, prv = \<lambda>_. 0\<rparr>))"
  have r0: "pool_run ?p [100, 200] ?h0 []" using pool_run.init [of ?p "[100, 200]"] by simp
  obtain x1 h1 where a1: "slot_alloc ?p ?h0 = (x1, h1)" by fastforce
  have "list_next_entry_or_null 8 ?h0 = 200"
    by (simp add: STATIC_SLOT_INIT_FREE_def list_heap_defs Let_def)
  then have x1: "x1 = 200" using a1 by (simp add: slot_alloc_def Let_def)
  have r1: "pool_run ?p [100, 200] h1 [200]" using pool_run.alloc [OF r0 a1] x1 by simp
  obtain x h' where a2: "slot_alloc ?p h1 = (x, h')" by fastforce
  have ok: "pool_ok ?p [100, 200]" by (simp add: pool_ok_def)
  have n: "x \<noteq> NULL"
  proof
    assume "x = NULL"
    then have "set [200 :: ptr] = set [100, 200]" using static_slots_exclusive [OF r1 ok a2] by simp
    then show False by simp
  qed
  have "x \<in> {100, 200} \<and> x \<noteq> 200" using static_slots_exclusive [OF r1 ok a2] n by auto
  then show ?thesis using r1 a2 by blast
qed

end
