(* ===== verification/Dwc2_channel.thy ===== *)
theory Dwc2_channel
  imports Dwc2_core Usb_config Static_slot "HOL-Library.Signed_Division"
begin

text \<open>
  Channels of the USB controller: their allocation (\<^verbatim>\<open>src/board/bcm2835/usb/dwc2_channel.c\<close>,
  \<^verbatim>\<open>dwc2_xfer_control.c\<close>) and how a transfer is programmed into the registers of a channel
  (\<^verbatim>\<open>dwc2_transfer.c\<close>, \<^verbatim>\<open>dwc2_reg_access.h\<close>). A channel is its number, pipes and transfer controls are
  objects at addresses. Cache maintenance and log messages are not modelled.
\<close>

section \<open>The state of the driver\<close>

record xfer_control =
  xc_channel :: "nat option"
  xc_status :: int
  xc_direction :: int
  xc_transfer_size :: int
  xc_split_start :: bool
  xc_first_packet :: bool
  xc_dma_addr_base :: u64
  xc_dma_addr :: u64
  xc_completion :: "ptr option"

text \<open>The completion of a transfer is a function and its argument. The driver only uses
  \<^verbatim>\<open>usb_xfer_handle_completed\<close>, so the argument, a job, stands for both.\<close>

record 'd dwc2 =
  hw :: 'd
  channels_bitmap :: u8
  ch_pipe :: "nat \<Rightarrow> ptr"
  ch_ctl :: "nat \<Rightarrow> ptr"
  xcs :: "ptr \<Rightarrow> xfer_control"
  pipes :: "ptr \<Rightarrow> usb_hcd_pipe"
  usb_lists :: list_heap
  irq_num :: u32

definition USB_DIRECTION_OUT :: int where "USB_DIRECTION_OUT = 0"
definition USB_DIRECTION_IN :: int where "USB_DIRECTION_IN = 1"

definition USB_ENDPOINT_TYPE_CONTROL :: int where "USB_ENDPOINT_TYPE_CONTROL = 0"
definition USB_ENDPOINT_TYPE_ISOCHRONOUS :: int where "USB_ENDPOINT_TYPE_ISOCHRONOUS = 1"
definition USB_ENDPOINT_TYPE_BULK :: int where "USB_ENDPOINT_TYPE_BULK = 2"
definition USB_ENDPOINT_TYPE_INTERRUPT :: int where "USB_ENDPOINT_TYPE_INTERRUPT = 3"

lemmas usb_hcd_constants =
  USB_DIRECTION_OUT_def USB_DIRECTION_IN_def USB_ENDPOINT_TYPE_CONTROL_def USB_ENDPOINT_TYPE_ISOCHRONOUS_def
  USB_ENDPOINT_TYPE_BULK_def USB_ENDPOINT_TYPE_INTERRUPT_def

definition upd_hw :: "('d \<Rightarrow> 'd) \<Rightarrow> ('d, 'z) dwc2_scheme \<Rightarrow> ('d, 'z) dwc2_scheme" where
  "upd_hw f s = s\<lparr>hw := f (hw s)\<rparr>"

definition upd_xc :: "ptr \<Rightarrow> (xfer_control \<Rightarrow> xfer_control) \<Rightarrow> ('d, 'z) dwc2_scheme \<Rightarrow> ('d, 'z) dwc2_scheme" where
  "upd_xc k f s = s\<lparr>xcs := (xcs s)(k := f (xcs s k))\<rparr>"

text \<open>The transfer control of a channel.\<close>

definition ctl :: "nat \<Rightarrow> ('d, 'z) dwc2_scheme \<Rightarrow> xfer_control" where "ctl c s = xcs s (ch_ctl s c)"

definition upd_ctl :: "nat \<Rightarrow> (xfer_control \<Rightarrow> xfer_control) \<Rightarrow> ('d, 'z) dwc2_scheme \<Rightarrow> ('d, 'z) dwc2_scheme" where
  "upd_ctl c f s = upd_xc (ch_ctl s c) f s"

section \<open>Allocation\<close>

definition NUM_CHANNELS :: nat where "NUM_CHANNELS = 6"

definition dwc2_channel_create :: "('d, 'z) dwc2_scheme \<Rightarrow> nat option \<times> ('d, 'z) dwc2_scheme" where
  "dwc2_channel_create s =
     (let bitmap = channels_bitmap s
      in case List.find (\<lambda>ch. bitmap AND push_bit ch 1 = 0) [0..<NUM_CHANNELS] of
           None \<Rightarrow> (None, s)
         | Some ch \<Rightarrow> (Some ch, s\<lparr>channels_bitmap := bitmap OR push_bit ch 1\<rparr>))"

definition dwc2_channel_destroy :: "nat \<Rightarrow> ('d, 'z) dwc2_scheme \<Rightarrow> ('d, 'z) dwc2_scheme kres" where
  "dwc2_channel_destroy c s =
     (let bitmap = channels_bitmap s
      in if bitmap AND push_bit c 1 = 0 then Inl ''Trying to release channel that's not busy''
         else Inr (s\<lparr>channels_bitmap := bitmap AND NOT (push_bit c 1)\<rparr>))"

definition dwc2_channel_get_by_id :: "nat \<Rightarrow> ('d, 'z) dwc2_scheme \<Rightarrow> nat option" where
  "dwc2_channel_get_by_id ch_id s = (if channels_bitmap s AND push_bit ch_id 1 \<noteq> 0 then Some ch_id else None)"

text \<open>\<^verbatim>\<open>dwc2_channel_init\<close> clears the channels and numbers them, but not the bitmap.\<close>

definition dwc2_channel_init :: "('d, 'z) dwc2_scheme \<Rightarrow> ('d, 'z) dwc2_scheme" where
  "dwc2_channel_init s =
     s\<lparr>ch_pipe := (\<lambda>c. if c < NUM_CHANNELS then NULL else ch_pipe s c),
       ch_ctl := (\<lambda>c. if c < NUM_CHANNELS then NULL else ch_ctl s c)\<rparr>"

definition dwc2_channel_bind_xfer_control :: "nat \<Rightarrow> ptr \<Rightarrow> ('d, 'z) dwc2_scheme \<Rightarrow> ('d, 'z) dwc2_scheme" where
  "dwc2_channel_bind_xfer_control c k s =
     upd_xc k (\<lambda>x. x\<lparr>xc_channel := Some c\<rparr>) (s\<lparr>ch_ctl := (ch_ctl s)(c := k)\<rparr>)"

definition dwc2_channel_unbind_xfer_control :: "nat \<Rightarrow> ('d, 'z) dwc2_scheme \<Rightarrow> ('d, 'z) dwc2_scheme kres" where
  "dwc2_channel_unbind_xfer_control c s =
     (if ch_ctl s c = NULL then Inl ''unbinging non-existent xfer control from channel''
      else Inr ((upd_ctl c (\<lambda>x. x\<lparr>xc_channel := None\<rparr>) s)\<lparr>ch_ctl := (ch_ctl s)(c := NULL)\<rparr>))"

text \<open>Transfer controls come from a static pool, at addresses that the linker chooses.\<close>

definition dwc2_xfer_control_create :: "slot_pool \<Rightarrow> ('d, 'z) dwc2_scheme \<Rightarrow> ptr \<times> ('d, 'z) dwc2_scheme" where
  "dwc2_xfer_control_create p s = (let (k, h) = slot_alloc p (usb_lists s) in (k, s\<lparr>usb_lists := h\<rparr>))"

definition dwc2_xfer_control_destroy :: "slot_pool \<Rightarrow> ptr \<Rightarrow> ('d, 'z) dwc2_scheme \<Rightarrow> ('d, 'z) dwc2_scheme" where
  "dwc2_xfer_control_destroy p k s = s\<lparr>usb_lists := slot_release p k (usb_lists s)\<rparr>"

section \<open>The pipe of a channel\<close>

definition dwc2_channel_get_pipe_safe :: "nat \<Rightarrow> ('d, 'z) dwc2_scheme \<Rightarrow> usb_hcd_pipe kres" where
  "dwc2_channel_get_pipe_safe c s =
     (if ch_pipe s c = NULL then Inl ''dwc2_channel_get_pipe: pipe is NULL'' else Inr (pipes s (ch_pipe s c)))"

definition dwc2_channel_set_next_pid :: "nat \<Rightarrow> usb_pid \<Rightarrow> ('d, 'z) dwc2_scheme \<Rightarrow> ('d, 'z) dwc2_scheme kres" where
  "dwc2_channel_set_next_pid c pid s =
     kbind (dwc2_channel_get_pipe_safe c s) (\<lambda>p.
       Inr (s\<lparr>pipes := (pipes s)(ch_pipe s c := p\<lparr>next_pid := pid\<rparr>)\<rparr>))"

definition dwc2_channel_split_mode :: "usb_hcd_pipe \<Rightarrow> bool" where
  "dwc2_channel_split_mode p \<longleftrightarrow> device_speed p \<noteq> USB_SPEED_HIGH"

definition dwc2_channel_is_speed_low :: "usb_hcd_pipe \<Rightarrow> bool" where
  "dwc2_channel_is_speed_low p \<longleftrightarrow> device_speed p = USB_SPEED_LOW"

definition usb_is_periodic_ep_type :: "int \<Rightarrow> bool" where
  "usb_is_periodic_ep_type t \<longleftrightarrow> t = USB_ENDPOINT_TYPE_ISOCHRONOUS \<or> t = USB_ENDPOINT_TYPE_INTERRUPT"

section \<open>Registers of a channel\<close>

text \<open>The registers of a channel are eight words behind those of the previous one.\<close>

definition read_ch_reg :: "'d mmio \<Rightarrow> ptr \<Rightarrow> nat \<Rightarrow> 'd \<Rightarrow> u32 \<times> 'd" where
  "read_ch_reg io reg c d = read_reg io (reg + 4 * (c * 8)) d"

definition write_ch_reg :: "'d mmio \<Rightarrow> ptr \<Rightarrow> nat \<Rightarrow> u32 \<Rightarrow> 'd \<Rightarrow> 'd" where
  "write_ch_reg io reg c v d = write_reg io (reg + 4 * (c * 8)) v d"

definition dwc2_channel_enable :: "'d mmio \<Rightarrow> nat \<Rightarrow> 'd \<Rightarrow> 'd" where
  "dwc2_channel_enable io c = modify_reg io USB_HAINTMSK (\<lambda>m. m OR push_bit c 1)"

definition dwc2_channel_disable :: "'d mmio \<Rightarrow> nat \<Rightarrow> 'd \<Rightarrow> 'd" where
  "dwc2_channel_disable io c = modify_reg io USB_HAINTMSK (\<lambda>m. m AND NOT (push_bit c 1))"

definition dwc2_channel_clear_pending :: "'d mmio \<Rightarrow> nat \<Rightarrow> 'd \<Rightarrow> 'd" where
  "dwc2_channel_clear_pending io c d = write_ch_reg io USB_HCINTMSK0 c 0 (write_ch_reg io USB_HCINT0 c 0xffffffff d)"

section \<open>Programming a transfer\<close>

definition USB_HCTSIZ0_PID_DATA0 :: u32 where "USB_HCTSIZ0_PID_DATA0 = 0"
definition USB_HCTSIZ0_PID_DATA1 :: u32 where "USB_HCTSIZ0_PID_DATA1 = 2"
definition USB_HCTSIZ0_PID_DATA2 :: u32 where "USB_HCTSIZ0_PID_DATA2 = 1"
definition USB_HCTSIZ0_PID_SETUP :: u32 where "USB_HCTSIZ0_PID_SETUP = 3"

lemmas dwc_pids = USB_HCTSIZ0_PID_DATA0_def USB_HCTSIZ0_PID_DATA1_def USB_HCTSIZ0_PID_DATA2_def USB_HCTSIZ0_PID_SETUP_def

definition usb_pid_to_dwc_pid :: "usb_pid \<Rightarrow> u32" where
  "usb_pid_to_dwc_pid pid =
     (case pid of USB_PID_DATA0 \<Rightarrow> USB_HCTSIZ0_PID_DATA0 | USB_PID_DATA1 \<Rightarrow> USB_HCTSIZ0_PID_DATA1
        | USB_PID_DATA2 \<Rightarrow> USB_HCTSIZ0_PID_DATA2 | USB_PID_SETUP \<Rightarrow> USB_HCTSIZ0_PID_SETUP | _ \<Rightarrow> 0xff)"

text \<open>The default answer \<^verbatim>\<open>0xff\<close> is the enumeration's \<^verbatim>\<open>USB_PID_UNSET\<close>.\<close>

definition dwc_pid_to_usb_pid :: "u32 \<Rightarrow> usb_pid" where
  "dwc_pid_to_usb_pid pid =
     (if pid = USB_HCTSIZ0_PID_DATA0 then USB_PID_DATA0 else if pid = USB_HCTSIZ0_PID_DATA1 then USB_PID_DATA1
      else if pid = USB_HCTSIZ0_PID_DATA2 then USB_PID_DATA2 else if pid = USB_HCTSIZ0_PID_SETUP then USB_PID_SETUP
      else USB_PID_UNSET)"

text \<open>A division by zero gives zero on this processor, as in HOL.\<close>

definition dwc2_channel_calc_num_packets :: "usb_hcd_pipe \<Rightarrow> xfer_control \<Rightarrow> int" where
  "dwc2_channel_calc_num_packets p x =
     (let mps = (if dwc2_channel_is_speed_low p then 8 else max_packet_size p);
          n = (xc_transfer_size x + mps - 1) sdiv mps
      in if n = 0 then 1 else n)"

partial_function (option) wait_disabled :: "'d mmio \<Rightarrow> nat \<Rightarrow> 'd \<Rightarrow> 'd run" where
  "wait_disabled io c d =
     (case read_ch_reg io USB_HCINT0 c d of (intr, d) \<Rightarrow>
        let d = write_ch_reg io USB_HCINT0 c intr d
        in if USB_HOST_INTR_GET_HALT intr \<noteq> 0 then Some (Inr d)
           else if USB_HOST_INTR_CLR_HALT intr \<noteq> 0 then Some (Inl ''interrupt disable logic error'')
           else wait_disabled io c d)"

definition dwc2_channel_ensure_disabled :: "'d mmio \<Rightarrow> nat \<Rightarrow> 'd \<Rightarrow> (u32 \<times> 'd) run" where
  "dwc2_channel_ensure_disabled io c d =
     (let (chr, d) = read_ch_reg io USB_HCCHAR0 c d
      in run_bind (if USB_HOST_CHAR_GET_CHAN_ENABLE chr \<noteq> 0
                   then let chr = USB_HOST_CHAR_CLR_CHAN_ENABLE (USB_HOST_CHAR_CLR_SET_CHAN_DISABLE 1 chr)
                        in wait_disabled io c (write_ch_reg io USB_HCCHAR0 c chr d)
                   else Some (Inr d)) (\<lambda>d.
           let (chr, d) = read_ch_reg io USB_HCCHAR0 c d
           in if USB_HOST_CHAR_GET_CHAN_ENABLE chr \<noteq> 0 then Some (Inl ''Channel not disabled'')
              else Some (Inr (chr, d))))"

definition channel_char :: "usb_hcd_pipe \<Rightarrow> xfer_control \<Rightarrow> u32 \<Rightarrow> u32" where
  "channel_char p x chr =
     (let chr = USB_HOST_CHAR_CLR_SET_MAX_PACK_SZ (word_of_int (max_packet_size p)) chr;
          chr = USB_HOST_CHAR_CLR_SET_EP (word_of_int (endpoint_num p)) chr;
          chr = USB_HOST_CHAR_CLR_SET_EP_DIR (word_of_int (xc_direction x)) chr;
          chr = USB_HOST_CHAR_CLR_SET_IS_LOW (if dwc2_channel_is_speed_low p then 1 else 0) chr;
          chr = USB_HOST_CHAR_CLR_SET_EP_TYPE (word_of_int (endpoint_type p)) chr;
          chr = USB_HOST_CHAR_CLR_SET_DEV_ADDR (word_of_int (device_address p)) chr
      in USB_HOST_CHAR_CLR_SET_PACK_PER_FRM 1 chr)"

definition dwc2_channel_program_char :: "'d mmio \<Rightarrow> nat \<Rightarrow> usb_hcd_pipe \<Rightarrow> xfer_control \<Rightarrow> 'd \<Rightarrow> 'd run" where
  "dwc2_channel_program_char io c p x d =
     run_bind (dwc2_channel_ensure_disabled io c d) (\<lambda>(chr, d).
       Some (Inr (write_ch_reg io USB_HCCHAR0 c (channel_char p x chr) d)))"

definition dwc2_channel_program_split :: "'d mmio \<Rightarrow> nat \<Rightarrow> usb_hcd_pipe \<Rightarrow> 'd \<Rightarrow> 'd" where
  "dwc2_channel_program_split io c p d =
     (let splt = (if dwc2_channel_split_mode p
                  then USB_HOST_SPLT_CLR_SET_PORT_ADDR (word_of_int (ls_hub_port p))
                         (USB_HOST_SPLT_CLR_SET_HUB_ADDR (word_of_int (ls_hub_address p))
                            (USB_HOST_SPLT_CLR_SET_SPLT_ENABLE 1 0))
                  else 0)
      in write_ch_reg io USB_HCSPLT0 c splt d)"

definition channel_size :: "usb_hcd_pipe \<Rightarrow> xfer_control \<Rightarrow> u32" where
  "channel_size p x =
     USB_HOST_SIZE_CLR_SET_PID (usb_pid_to_dwc_pid (next_pid p))
       (USB_HOST_SIZE_CLR_SET_PACKET_COUNT (word_of_int (dwc2_channel_calc_num_packets p x))
          (USB_HOST_SIZE_CLR_SET_SIZE (word_of_int (xc_transfer_size x)) 0))"

definition dwc2_channel_program_tsize :: "'d mmio \<Rightarrow> nat \<Rightarrow> usb_hcd_pipe \<Rightarrow> xfer_control \<Rightarrow> 'd \<Rightarrow> 'd" where
  "dwc2_channel_program_tsize io c p x d = write_ch_reg io USB_HCTSIZ0 c (channel_size p x) d"

definition DWC2_TRANSFER_STATUS_STARTED :: int where "DWC2_TRANSFER_STATUS_STARTED = 0"

definition dwc2_transfer_prepare :: "'d mmio \<Rightarrow> nat \<Rightarrow> ('d, 'z) dwc2_scheme \<Rightarrow> ('d, 'z) dwc2_scheme run" where
  "dwc2_transfer_prepare io c s =
     (case dwc2_channel_get_pipe_safe c s of
        Inl e \<Rightarrow> Some (Inl e)
      | Inr p \<Rightarrow>
          if xc_dma_addr_base (ctl c s) AND 3 \<noteq> 0 then Some (Inl ''dwc2_transfer:buffer not aligned to 4 bytes'')
          else let s = upd_hw (\<lambda>d. dwc2_channel_clear_pending io c (dwc2_channel_disable io c d)) s;
                   s = upd_ctl c (\<lambda>x. x\<lparr>xc_status := DWC2_TRANSFER_STATUS_STARTED\<rparr>) s
               in run_bind (dwc2_channel_program_char io c p (ctl c s) (hw s)) (\<lambda>d.
                    let s = s\<lparr>hw := dwc2_channel_program_tsize io c p (ctl c s) (dwc2_channel_program_split io c p d)\<rparr>
                    in Some (Inr (upd_ctl c (\<lambda>x. x\<lparr>xc_split_start := (if dwc2_channel_split_mode p then True else xc_split_start x),
                          xc_dma_addr := xc_dma_addr_base x, xc_first_packet := True\<rparr>) s))))"

definition RAM_PHY_TO_BUS_UNCACHED :: "u64 \<Rightarrow> u32" where "RAM_PHY_TO_BUS_UNCACHED x = ucast x OR 0xc0000000"

definition dwc2_channel_set_dma_addr :: "'d mmio \<Rightarrow> nat \<Rightarrow> ('d, 'z) dwc2_scheme \<Rightarrow> ('d, 'z) dwc2_scheme kres" where
  "dwc2_channel_set_dma_addr io c s =
     (if xc_first_packet (ctl c s) \<and> xc_dma_addr (ctl c s) AND 3 \<noteq> 0 then Inl ''UNALIGNED DMA address''
      else Inr (if xc_dma_addr (ctl c s) \<noteq> 0
                then upd_hw (write_ch_reg io USB_HCDMA0 c (RAM_PHY_TO_BUS_UNCACHED (xc_dma_addr (ctl c s)))) s else s))"

definition modify_ch_reg :: "'d mmio \<Rightarrow> ptr \<Rightarrow> nat \<Rightarrow> (u32 \<Rightarrow> u32) \<Rightarrow> 'd \<Rightarrow> 'd" where
  "modify_ch_reg io reg c f d = (let (v, d) = read_ch_reg io reg c d in write_ch_reg io reg c (f v) d)"

definition dwc2_channel_set_split_start :: "'d mmio \<Rightarrow> nat \<Rightarrow> 'd \<Rightarrow> 'd" where
  "dwc2_channel_set_split_start io c = modify_ch_reg io USB_HCSPLT0 c USB_HOST_SPLT_CLR_COMPLETE_SPLIT"

definition dwc2_channel_set_split_complete :: "'d mmio \<Rightarrow> nat \<Rightarrow> 'd \<Rightarrow> 'd" where
  "dwc2_channel_set_split_complete io c = modify_ch_reg io USB_HCSPLT0 c (USB_HOST_SPLT_CLR_SET_COMPLETE_SPLIT 1)"

definition channel_intmsk :: "usb_hcd_pipe \<Rightarrow> u32" where
  "channel_intmsk p =
     (let m = USB_HOST_INTR_CLR_SET_HALT 1 0;
          m = USB_HOST_INTR_CLR_SET_XFER_COMPLETE 1 m;
          m = USB_HOST_INTR_CLR_SET_AHB_ERR 1 m;
          m = USB_HOST_INTR_CLR_SET_STALL 1 m;
          m = USB_HOST_INTR_CLR_SET_FRMOVRN 1 m;
          m = USB_HOST_INTR_CLR_SET_TRNSERR 1 m;
          m = USB_HOST_INTR_CLR_SET_BABBLERR 1 m;
          m = USB_HOST_INTR_CLR_SET_DATTGGLERR 1 m
      in if usb_is_periodic_ep_type (endpoint_type p) \<or> dwc2_channel_split_mode p
         then USB_HOST_INTR_CLR_SET_NYET 1 (USB_HOST_INTR_CLR_SET_NAK 1 (USB_HOST_INTR_CLR_SET_ACK 1 m)) else m)"

definition dwc2_channel_set_intmsk :: "'d mmio \<Rightarrow> nat \<Rightarrow> usb_hcd_pipe \<Rightarrow> 'd \<Rightarrow> 'd" where
  "dwc2_channel_set_intmsk io c p d = write_ch_reg io USB_HCINTMSK0 c (channel_intmsk p) d"

definition dwc2_channel_start_transmit :: "'d mmio \<Rightarrow> nat \<Rightarrow> usb_hcd_pipe \<Rightarrow> 'd \<Rightarrow> 'd" where
  "dwc2_channel_start_transmit io c p d =
     (let d = modify_ch_reg io USB_HCCHAR0 c (\<lambda>chr. USB_HOST_CHAR_CLR_SET_CHAN_ENABLE 1 (USB_HOST_CHAR_CLR_CHAN_DISABLE chr)) d
      in dwc2_channel_enable io c (dwc2_channel_set_intmsk io c p d))"

definition dwc2_channel_is_split_enabled :: "'d mmio \<Rightarrow> nat \<Rightarrow> 'd \<Rightarrow> bool \<times> 'd" where
  "dwc2_channel_is_split_enabled io c d =
     (let (splt, d) = read_ch_reg io USB_HCSPLT0 c d in (USB_HOST_SPLT_GET_SPLT_ENABLE splt \<noteq> 0, d))"

definition dwc2_transfer_start :: "'d mmio \<Rightarrow> nat \<Rightarrow> ('d, 'z) dwc2_scheme \<Rightarrow> ('d, 'z) dwc2_scheme kres" where
  "dwc2_transfer_start io c s =
     kbind (dwc2_channel_get_pipe_safe c s) (\<lambda>p.
       kbind (if dwc2_channel_split_mode p
              then kbind (if xc_split_start (ctl c s)
                          then dwc2_channel_set_dma_addr io c (upd_hw (dwc2_channel_set_split_start io c) s)
                          else Inr (upd_hw (dwc2_channel_set_split_complete io c) s)) (\<lambda>s.
                     Inr (upd_ctl c (\<lambda>x. x\<lparr>xc_split_start := \<not> xc_split_start x\<rparr>) s))
              else dwc2_channel_set_dma_addr io c s) (\<lambda>s.
         Inr (upd_hw (dwc2_channel_start_transmit io c p) s)))"

definition dwc2_transfer_retry :: "'d mmio \<Rightarrow> nat \<Rightarrow> ('d, 'z) dwc2_scheme \<Rightarrow> ('d, 'z) dwc2_scheme kres" where
  "dwc2_transfer_retry io c s =
     kbind (dwc2_channel_get_pipe_safe c s) (\<lambda>p. Inr (upd_hw (dwc2_channel_start_transmit io c p) s))"

definition dwc2_transfer_stop :: "'d mmio \<Rightarrow> nat \<Rightarrow> 'd \<Rightarrow> 'd" where
  "dwc2_transfer_stop io c d =
     modify_ch_reg io USB_HCINT0 c USB_HOST_INTR_CLR_NAK
       (modify_ch_reg io USB_HCCHAR0 c USB_HOST_CHAR_CLR_CHAN_DISABLE d)"

text \<open>What remains of a transfer: the new toggle of the pipe, and for data from the device the address behind the
  bytes that have arrived. The result is false when the transfer is complete.\<close>

definition dwc2_transfer_recalc_next :: "'d mmio \<Rightarrow> ptr \<Rightarrow> ('d, 'z) dwc2_scheme \<Rightarrow> (bool \<times> ('d, 'z) dwc2_scheme) kres" where
  "dwc2_transfer_recalc_next io k s =
     (case xc_channel (xcs s k) of
        None \<Rightarrow> Inl ''dwc2_transfer_recalc_next: ctl->c''
      | Some c \<Rightarrow>
          let (siz, d) = read_ch_reg io USB_HCTSIZ0 c (hw s); s = s\<lparr>hw := d\<rparr>
          in kbind (dwc2_channel_set_next_pid c (dwc_pid_to_usb_pid (USB_HOST_SIZE_GET_PID siz)) s) (\<lambda>s.
               if xc_direction (xcs s k) = USB_DIRECTION_IN \<and> USB_HOST_SIZE_GET_PACKET_COUNT siz \<noteq> 0
               then Inr (True, upd_xc k (\<lambda>x. x\<lparr>
                      xc_dma_addr := xc_dma_addr_base x + word_of_int (xc_transfer_size x) - ucast (USB_HOST_SIZE_GET_SIZE siz),
                      xc_first_packet := False\<rparr>) s)
               else Inr (False, s)))"

section \<open>Channels are handed out once\<close>

lemma bit_channel:
  assumes "ch < 8"
  shows "(b :: u8) AND push_bit ch 1 = 0 \<longleftrightarrow> \<not> bit b ch" and "b AND 2 ^ ch = 0 \<longleftrightarrow> \<not> bit b ch"
proof -
  show 2: "b AND 2 ^ ch = 0 \<longleftrightarrow> \<not> bit b ch"
  proof
    assume "b AND 2 ^ ch = 0"
    then have "\<not> bit (b AND 2 ^ ch) ch" by simp
    then show "\<not> bit b ch" using assms by (simp add: bit_and_iff bit_exp_iff)
  next
    assume "\<not> bit b ch"
    then show "b AND 2 ^ ch = 0" by (intro bit_word_eqI) (auto simp: bit_and_iff bit_exp_iff)
  qed
  show "b AND push_bit ch 1 = 0 \<longleftrightarrow> \<not> bit b ch" using 2 by (simp add: push_bit_of_1)
qed

lemma dwc2_channel_create_cases:
  obtains (none) "dwc2_channel_create s = (None, s)" "\<forall>ch < NUM_CHANNELS. bit (channels_bitmap s) ch"
  | (some) ch where "dwc2_channel_create s = (Some ch, s\<lparr>channels_bitmap := channels_bitmap s OR push_bit ch 1\<rparr>)"
      "ch < NUM_CHANNELS" "\<not> bit (channels_bitmap s) ch"
proof (cases "List.find (\<lambda>ch. channels_bitmap s AND push_bit ch 1 = 0) [0..<NUM_CHANNELS]")
  case None
  then have "\<forall>ch < NUM_CHANNELS. bit (channels_bitmap s) ch"
    by (auto simp: find_None_iff bit_channel NUM_CHANNELS_def)
  then show thesis using None by (intro none) (simp_all add: dwc2_channel_create_def)
next
  case (Some ch)
  then have "ch < NUM_CHANNELS" "channels_bitmap s AND push_bit ch 1 = 0"
    unfolding find_Some_iff by auto
  then show thesis using Some by (intro some [of ch]) (simp_all add: dwc2_channel_create_def bit_channel NUM_CHANNELS_def)
qed

definition busy_channels :: "('d, 'z) dwc2_scheme \<Rightarrow> nat set" where
  "busy_channels s = {ch. ch < NUM_CHANNELS \<and> bit (channels_bitmap s) ch}"

lemma busy_channels_set:
  assumes "ch < NUM_CHANNELS"
  shows "busy_channels (s\<lparr>channels_bitmap := channels_bitmap s OR push_bit ch 1\<rparr>) = insert ch (busy_channels s)"
    and "busy_channels (s\<lparr>channels_bitmap := channels_bitmap s AND NOT (push_bit ch 1)\<rparr>) = busy_channels s - {ch}"
  using assms
  by (auto simp: busy_channels_def bit_or_iff bit_and_iff bit_not_iff bit_exp_iff NUM_CHANNELS_def)

text \<open>C23 (safety). A new channel is one that was free, there is none only when all six are in use, and a channel that is
  released is free again; a channel that is not in use is not released. The other channels keep their state.\<close>

theorem channels_exclusive:
  "(case dwc2_channel_create s of
      (None, s') \<Rightarrow> s' = s \<and> busy_channels s = {0..<NUM_CHANNELS}
    | (Some c, s') \<Rightarrow> c < NUM_CHANNELS \<and> c \<notin> busy_channels s \<and> busy_channels s' = insert c (busy_channels s) \<and>
        (\<exists>s''. dwc2_channel_destroy c s' = Inr s'' \<and> busy_channels s'' = busy_channels s)) \<and>
   (\<forall>c < NUM_CHANNELS. c \<notin> busy_channels s \<longrightarrow> dwc2_channel_get_by_id c s = None \<and> (\<exists>e. dwc2_channel_destroy c s = Inl e))"
proof -
  have free: "dwc2_channel_get_by_id c s = None \<and> (\<exists>e. dwc2_channel_destroy c s = Inl e)"
    if "c < NUM_CHANNELS" "c \<notin> busy_channels s" for c
  proof -
    have "channels_bitmap s AND push_bit c 1 = 0"
      using that by (subst bit_channel) (simp_all add: busy_channels_def NUM_CHANNELS_def)
    then show ?thesis by (simp add: dwc2_channel_get_by_id_def dwc2_channel_destroy_def Let_def)
  qed
  show ?thesis
  proof (cases s rule: dwc2_channel_create_cases)
    case none
    then show ?thesis using free by (auto simp: busy_channels_def)
  next
    case (some ch)
    let ?s = "s\<lparr>channels_bitmap := channels_bitmap s OR push_bit ch 1\<rparr>"
    have ch: "ch \<notin> busy_channels s" "busy_channels ?s = insert ch (busy_channels s)"
      using some busy_channels_set(1) [of ch s] by (auto simp: busy_channels_def)
    have "bit (channels_bitmap ?s) ch" using ch(2) by (auto simp: busy_channels_def)
    then have "channels_bitmap ?s AND push_bit ch 1 \<noteq> 0"
      using some(2) by (subst bit_channel) (simp_all add: NUM_CHANNELS_def)
    then have "dwc2_channel_destroy ch ?s = Inr (?s\<lparr>channels_bitmap := channels_bitmap ?s AND NOT (push_bit ch 1)\<rparr>)"
      by (simp only: dwc2_channel_destroy_def Let_def if_False)
    moreover have "busy_channels (?s\<lparr>channels_bitmap := channels_bitmap ?s AND NOT (push_bit ch 1)\<rparr>) = busy_channels s"
      using busy_channels_set(2) [OF some(2), of ?s] ch by auto
    ultimately show ?thesis using some(1,2) ch free by (simp only: prod.case option.case) blast
  qed
qed

lemma channels_exclusive_witness:
  "\<exists>s :: unit dwc2. channels_bitmap s = 0x3e \<and> (\<exists>s'. dwc2_channel_create s = (Some 0, s') \<and> dwc2_channel_get_by_id 0 s = None)"
proof -
  define s :: "unit dwc2" where "s = \<lparr>hw = (), channels_bitmap = 0x3e, ch_pipe = (\<lambda>_. 0), ch_ctl = (\<lambda>_. 0),
     xcs = undefined, pipes = undefined, usb_lists = undefined, irq_num = 0\<rparr>"
  have b: "bit (0x3e :: u8) c" if "c \<in> {1, 2, 3, 4, 5}" for c using that by auto
  have busy: "c \<in> busy_channels s \<longleftrightarrow> c < 6 \<and> c \<noteq> 0" for c
    using b [of c] by (auto simp: busy_channels_def NUM_CHANNELS_def s_def less_Suc_eq eval_nat_numeral)
  have all: "busy_channels s \<noteq> {0..<NUM_CHANNELS}" using busy [of 0] by (auto simp: NUM_CHANNELS_def)
  have n: "(0 :: nat) < NUM_CHANNELS" by (simp add: NUM_CHANNELS_def)
  obtain c s' where cs: "dwc2_channel_create s = (Some c, s')" "c < NUM_CHANNELS" "c \<notin> busy_channels s"
    using channels_exclusive [of s] all by (auto split: prod.splits option.splits)
  have "c = 0" using cs(2,3) busy [of c] by (simp add: NUM_CHANNELS_def)
  moreover have "dwc2_channel_get_by_id 0 s = None" using channels_exclusive [of s] n busy [of 0] by blast
  ultimately show ?thesis using cs(1) by (intro exI [of _ s]) (simp add: s_def)
qed

section \<open>A transfer reaches the registers\<close>

definition chreg :: "reg_file \<Rightarrow> ptr \<Rightarrow> nat \<Rightarrow> u32" where "chreg d reg c = rf_val d (reg + 4 * (c * 8))"

lemma plain_ch_regs [simp]:
  "read_ch_reg plain_regs reg c d = (chreg d reg c, d)"
  "write_ch_reg plain_regs reg c v d = d\<lparr>rf_val := (rf_val d)(reg + 4 * (c * 8) := v), rf_log := rf_log d @ [(reg + 4 * (c * 8), v)]\<rparr>"
  "modify_ch_reg plain_regs reg c f d =
     d\<lparr>rf_val := (rf_val d)(reg + 4 * (c * 8) := f (chreg d reg c)), rf_log := rf_log d @ [(reg + 4 * (c * 8), f (chreg d reg c))]\<rparr>"
  by (simp_all add: read_ch_reg_def write_ch_reg_def modify_ch_reg_def chreg_def)

text \<open>The ranges of a pipe and a transfer that the registers can hold.\<close>

definition pipe_ok :: "usb_hcd_pipe \<Rightarrow> bool" where
  "pipe_ok p \<longleftrightarrow> device_address p \<in> {0..<128} \<and> endpoint_num p \<in> {0..<16} \<and> endpoint_type p \<in> {0..<4} \<and>
     max_packet_size p \<in> {1..<2048} \<and> ls_hub_port p \<in> {0..<128} \<and> ls_hub_address p \<in> {0..<128}"

definition xfer_ok :: "usb_hcd_pipe \<Rightarrow> xfer_control \<Rightarrow> bool" where
  "xfer_ok p x \<longleftrightarrow> xc_transfer_size x \<in> {0..<2 ^ 19} \<and> xc_direction x \<in> {0..<2} \<and>
     dwc2_channel_calc_num_packets p x < 2 ^ 10 \<and> xc_dma_addr_base x AND 3 = 0"

lemma channel_char_fields:
  assumes "pipe_ok p" "xc_direction x \<in> {0..<2}"
    and r_def: "r = USB_HOST_CHAR_CLR_SET_CHAN_ENABLE 1 (USB_HOST_CHAR_CLR_CHAN_DISABLE (channel_char p x chr))"
  shows "uint (BF_EXTRACT r 0 11) = max_packet_size p" "uint (BF_EXTRACT r 11 4) = endpoint_num p"
    "uint (BF_EXTRACT r 15 1) = xc_direction x" "BF_EXTRACT r 17 1 = (if device_speed p = USB_SPEED_LOW then 1 else 0)"
    "uint (BF_EXTRACT r 18 2) = endpoint_type p" "uint (BF_EXTRACT r 22 7) = device_address p"
    "BF_EXTRACT r 30 1 = 0" "BF_EXTRACT r 31 1 = 1"
proof -
  note defs = r_def channel_char_def Let_def usb_fields BF_CLEAR_eq
  have t1: "take_bit (Suc 0) (1 :: u32) = 1" by simp
  note i = field_int [of "max_packet_size p" 11] field_int [of "endpoint_num p" 4] field_int [of "xc_direction x" 1]
    field_int [of "endpoint_type p" 2] field_int [of "device_address p" 7]
  show "uint (BF_EXTRACT r 0 11) = max_packet_size p" "uint (BF_EXTRACT r 11 4) = endpoint_num p"
    "uint (BF_EXTRACT r 15 1) = xc_direction x"
    "uint (BF_EXTRACT r 18 2) = endpoint_type p" "uint (BF_EXTRACT r 22 7) = device_address p"
    using assms(1,2) i by (simp_all add: defs bit_field_simps pipe_ok_def)
  show "BF_EXTRACT r 17 1 = (if device_speed p = USB_SPEED_LOW then 1 else 0)" "BF_EXTRACT r 30 1 = 0" "BF_EXTRACT r 31 1 = 1"
    by (simp_all add: defs bit_field_simps dwc2_channel_is_speed_low_def)
qed

lemma sdiv_nonneg: "0 \<le> a \<Longrightarrow> 0 \<le> b \<Longrightarrow> (a :: int) sdiv b = a div b"
  by (cases "a = 0"; cases "b = 0") (simp_all add: signed_divide_int_def)

lemma channel_size_fields:
  assumes "xfer_ok p x" "pipe_ok p"
  shows "uint (BF_EXTRACT (channel_size p x) 0 19) = xc_transfer_size x"
    "uint (BF_EXTRACT (channel_size p x) 19 10) = dwc2_channel_calc_num_packets p x"
    "next_pid p \<in> {USB_PID_DATA0, USB_PID_DATA1, USB_PID_DATA2, USB_PID_SETUP} \<Longrightarrow>
       dwc_pid_to_usb_pid (USB_HOST_SIZE_GET_PID (channel_size p x)) = next_pid p"
proof -
  note defs = channel_size_def usb_fields
  have n: "0 \<le> dwc2_channel_calc_num_packets p x" "dwc2_channel_calc_num_packets p x < 2 ^ 10"
    using assms by (auto simp: xfer_ok_def pipe_ok_def dwc2_channel_calc_num_packets_def Let_def sdiv_nonneg
      intro!: div_int_pos_iff [THEN iffD2])
  show "uint (BF_EXTRACT (channel_size p x) 0 19) = xc_transfer_size x"
    using assms(1) field_int [of "xc_transfer_size x" 19] by (simp add: defs bit_field_simps xfer_ok_def)
  show "uint (BF_EXTRACT (channel_size p x) 19 10) = dwc2_channel_calc_num_packets p x"
    using n field_int [of "dwc2_channel_calc_num_packets p x" 10] by (simp add: defs bit_field_simps)
  show "dwc_pid_to_usb_pid (USB_HOST_SIZE_GET_PID (channel_size p x)) = next_pid p"
    if "next_pid p \<in> {USB_PID_DATA0, USB_PID_DATA1, USB_PID_DATA2, USB_PID_SETUP}"
    using that by (auto simp: defs bit_field_simps usb_pid_to_dwc_pid_def dwc_pid_to_usb_pid_def dwc_pids)
qed

text \<open>The registers that a transfer writes are different ones.\<close>

lemma ch_addresses [simp]:
  "USB_HAINTMSK \<noteq> USB_HCCHAR0 + n" "USB_HAINTMSK \<noteq> USB_HCSPLT0 + n" "USB_HAINTMSK \<noteq> USB_HCINT0 + n"
  "USB_HAINTMSK \<noteq> USB_HCINTMSK0 + n" "USB_HAINTMSK \<noteq> USB_HCTSIZ0 + n" "USB_HAINTMSK \<noteq> USB_HCDMA0 + n"
  "USB_HCCHAR0 + n \<noteq> USB_HAINTMSK" "USB_HCSPLT0 + n \<noteq> USB_HAINTMSK" "USB_HCINT0 + n \<noteq> USB_HAINTMSK"
  "USB_HCINTMSK0 + n \<noteq> USB_HAINTMSK" "USB_HCTSIZ0 + n \<noteq> USB_HAINTMSK" "USB_HCDMA0 + n \<noteq> USB_HAINTMSK"
  by (simp_all add: usb_addresses)

definition ch_reg_bases :: "ptr list" where
  "ch_reg_bases = [USB_HCCHAR0, USB_HCSPLT0, USB_HCINT0, USB_HCINTMSK0, USB_HCTSIZ0, USB_HCDMA0]"

lemma ch_bases_distinct: "distinct ch_reg_bases" by (simp add: ch_reg_bases_def usb_addresses)

lemma ch_bases_neq [simp]:
  "USB_HCCHAR0 \<noteq> USB_HCSPLT0" "USB_HCCHAR0 \<noteq> USB_HCINT0" "USB_HCCHAR0 \<noteq> USB_HCINTMSK0" "USB_HCCHAR0 \<noteq> USB_HCTSIZ0" "USB_HCCHAR0 \<noteq> USB_HCDMA0"
  "USB_HCSPLT0 \<noteq> USB_HCCHAR0" "USB_HCSPLT0 \<noteq> USB_HCINT0" "USB_HCSPLT0 \<noteq> USB_HCINTMSK0" "USB_HCSPLT0 \<noteq> USB_HCTSIZ0" "USB_HCSPLT0 \<noteq> USB_HCDMA0"
  "USB_HCINT0 \<noteq> USB_HCCHAR0" "USB_HCINT0 \<noteq> USB_HCSPLT0" "USB_HCINT0 \<noteq> USB_HCINTMSK0" "USB_HCINT0 \<noteq> USB_HCTSIZ0" "USB_HCINT0 \<noteq> USB_HCDMA0"
  "USB_HCINTMSK0 \<noteq> USB_HCCHAR0" "USB_HCINTMSK0 \<noteq> USB_HCSPLT0" "USB_HCINTMSK0 \<noteq> USB_HCINT0" "USB_HCINTMSK0 \<noteq> USB_HCTSIZ0" "USB_HCINTMSK0 \<noteq> USB_HCDMA0"
  "USB_HCTSIZ0 \<noteq> USB_HCCHAR0" "USB_HCTSIZ0 \<noteq> USB_HCSPLT0" "USB_HCTSIZ0 \<noteq> USB_HCINT0" "USB_HCTSIZ0 \<noteq> USB_HCINTMSK0" "USB_HCTSIZ0 \<noteq> USB_HCDMA0"
  "USB_HCDMA0 \<noteq> USB_HCCHAR0" "USB_HCDMA0 \<noteq> USB_HCSPLT0" "USB_HCDMA0 \<noteq> USB_HCINT0" "USB_HCDMA0 \<noteq> USB_HCINTMSK0" "USB_HCDMA0 \<noteq> USB_HCTSIZ0"
  using ch_bases_distinct by (auto simp: ch_reg_bases_def)

lemma upd_simps [simp]:
  "hw (upd_ctl c f s) = hw s" "ch_ctl (upd_ctl c f s) = ch_ctl s" "ch_pipe (upd_ctl c f s) = ch_pipe s"
  "pipes (upd_ctl c f s) = pipes s" "ctl c (upd_ctl c f s) = f (ctl c s)"
  "hw (upd_hw g s) = g (hw s)" "ch_ctl (upd_hw g s) = ch_ctl s" "ch_pipe (upd_hw g s) = ch_pipe s"
  "pipes (upd_hw g s) = pipes s" "ctl c (upd_hw g s) = ctl c s" "xcs (upd_hw g s) = xcs s"
  "ctl c (s\<lparr>hw := d\<rparr>) = ctl c s"
  by (simp_all add: upd_ctl_def upd_xc_def upd_hw_def ctl_def)

lemma prepare_plain:
  assumes "ch_pipe s c \<noteq> NULL" "p = pipes s (ch_pipe s c)" "xc_dma_addr_base (ctl c s) AND 3 = 0"
    "USB_HOST_CHAR_GET_CHAN_ENABLE (chreg (hw s) USB_HCCHAR0 c) = 0"
  obtains s1 x where "dwc2_transfer_prepare plain_regs c s = Some (Inr s1)"
    "ctl c s1 = x" "x = (ctl c s)\<lparr>xc_status := DWC2_TRANSFER_STATUS_STARTED,
       xc_split_start := (if dwc2_channel_split_mode p then True else xc_split_start (ctl c s)),
       xc_dma_addr := xc_dma_addr_base (ctl c s), xc_first_packet := True\<rparr>"
    "ch_pipe s1 = ch_pipe s" "pipes s1 = pipes s" "ch_ctl s1 = ch_ctl s"
    "chreg (hw s1) USB_HCCHAR0 c = channel_char p (ctl c s) (chreg (hw s) USB_HCCHAR0 c)"
    "chreg (hw s1) USB_HCTSIZ0 c = channel_size p (ctl c s)"
    "chreg (hw s1) USB_HCSPLT0 c = (if dwc2_channel_split_mode p
       then USB_HOST_SPLT_CLR_SET_PORT_ADDR (word_of_int (ls_hub_port p))
              (USB_HOST_SPLT_CLR_SET_HUB_ADDR (word_of_int (ls_hub_address p)) (USB_HOST_SPLT_CLR_SET_SPLT_ENABLE 1 0)) else 0)"
    "rf_val (hw s1) USB_HAINTMSK = rf_val (hw s) USB_HAINTMSK AND NOT (push_bit c 1)"
    "\<forall>a. a \<noteq> USB_HAINTMSK \<and> (\<forall>r \<in> set ch_reg_bases. a \<noteq> r + 4 * (c * 8)) \<longrightarrow> rf_val (hw s1) a = rf_val (hw s) a"
proof -
  have char: "channel_char p (x\<lparr>xc_status := v\<rparr>) r = channel_char p x r" for x v r
    by (simp add: channel_char_def)
  have size: "channel_size p (x\<lparr>xc_status := v\<rparr>) = channel_size p x" for x v
    by (simp add: channel_size_def dwc2_channel_calc_num_packets_def)
  let ?x = "ctl c s"
  define d1 where "d1 = dwc2_channel_clear_pending plain_regs c (dwc2_channel_disable plain_regs c (hw s))"
  define d2 where "d2 = write_ch_reg plain_regs USB_HCCHAR0 c (channel_char p ?x (chreg d1 USB_HCCHAR0 c)) d1"
  define d3 where "d3 = dwc2_channel_program_tsize plain_regs c p ?x (dwc2_channel_program_split plain_regs c p d2)"
  define t where "t = upd_ctl c (\<lambda>x. x\<lparr>xc_status := DWC2_TRANSFER_STATUS_STARTED\<rparr>)
      (upd_hw (\<lambda>d. dwc2_channel_clear_pending plain_regs c (dwc2_channel_disable plain_regs c d)) s)"
  define s1 where "s1 = upd_ctl c (\<lambda>x. x\<lparr>xc_split_start := (if dwc2_channel_split_mode p then True else xc_split_start x),
                          xc_dma_addr := xc_dma_addr_base x, xc_first_packet := True\<rparr>) (t\<lparr>hw := d3\<rparr>)"
  have c1: "chreg d1 USB_HCCHAR0 c = chreg (hw s) USB_HCCHAR0 c"
    by (simp add: d1_def dwc2_channel_disable_def dwc2_channel_clear_pending_def chreg_def)
  have t: "hw t = d1" "ctl c t = ?x\<lparr>xc_status := DWC2_TRANSFER_STATUS_STARTED\<rparr>" "pipes t = pipes s" "ch_pipe t = ch_pipe s"
    "ch_ctl t = ch_ctl s" by (simp_all add: t_def d1_def)
  have pp: "dwc2_channel_get_pipe_safe c s = Inr p" using assms(1,2) by (simp add: dwc2_channel_get_pipe_safe_def)
  have prog: "dwc2_channel_program_char plain_regs c p (ctl c t) (hw t) = Some (Inr d2)"
    using assms(4) c1
    by (simp add: t dwc2_channel_program_char_def dwc2_channel_ensure_disabled_def Let_def char d2_def)
  have "dwc2_transfer_prepare plain_regs c s = Some (Inr s1)"
    unfolding dwc2_transfer_prepare_def pp
    by (simp add: assms(3) Let_def t_def [symmetric] d1_def [symmetric] s1_def d3_def dwc2_channel_program_tsize_def t prog [unfolded t] size)
  moreover have "ctl c s1 = ?x\<lparr>xc_status := DWC2_TRANSFER_STATUS_STARTED,
       xc_split_start := (if dwc2_channel_split_mode p then True else xc_split_start ?x),
       xc_dma_addr := xc_dma_addr_base ?x, xc_first_packet := True\<rparr>"
    by (simp add: s1_def t)
  moreover have "ch_pipe s1 = ch_pipe s" "pipes s1 = pipes s" "ch_ctl s1 = ch_ctl s" by (simp_all add: s1_def t)
  moreover have h: "hw s1 = d3" by (simp add: s1_def)
  note regs = d3_def d2_def d1_def chreg_def dwc2_channel_program_tsize_def dwc2_channel_program_split_def Let_def
    dwc2_channel_disable_def dwc2_channel_clear_pending_def
  have "chreg (hw s1) USB_HCCHAR0 c = channel_char p ?x (chreg (hw s) USB_HCCHAR0 c)"
    "chreg (hw s1) USB_HCTSIZ0 c = channel_size p ?x"
    "chreg (hw s1) USB_HCSPLT0 c = (if dwc2_channel_split_mode p
       then USB_HOST_SPLT_CLR_SET_PORT_ADDR (word_of_int (ls_hub_port p))
              (USB_HOST_SPLT_CLR_SET_HUB_ADDR (word_of_int (ls_hub_address p)) (USB_HOST_SPLT_CLR_SET_SPLT_ENABLE 1 0)) else 0)"
    "rf_val (hw s1) USB_HAINTMSK = rf_val (hw s) USB_HAINTMSK AND NOT (push_bit c 1)"
    "\<forall>a. a \<noteq> USB_HAINTMSK \<and> (\<forall>r \<in> set ch_reg_bases. a \<noteq> r + 4 * (c * 8)) \<longrightarrow> rf_val (hw s1) a = rf_val (hw s) a"
    unfolding h by (simp_all add: regs ch_reg_bases_def)
  ultimately show thesis by (intro that [OF _ refl])
qed

text \<open>The bus address of a buffer, and the split register of a pipe.\<close>

definition split_of :: "usb_hcd_pipe \<Rightarrow> bool \<times> int \<times> int" where
  "split_of p = (if device_speed p = USB_SPEED_HIGH then (False, 0, 0) else (True, ls_hub_address p, ls_hub_port p))"

lemma start_plain:
  assumes "ch_pipe s c \<noteq> NULL" "p = pipes s (ch_pipe s c)" "xc_dma_addr (ctl c s) AND 3 = 0" "xc_dma_addr (ctl c s) \<noteq> 0"
    "dwc2_channel_split_mode p \<Longrightarrow> xc_split_start (ctl c s)"
  obtains s2 where "dwc2_transfer_start plain_regs c s = Inr s2"
    "chreg (hw s2) USB_HCCHAR0 c =
       USB_HOST_CHAR_CLR_SET_CHAN_ENABLE 1 (USB_HOST_CHAR_CLR_CHAN_DISABLE (chreg (hw s) USB_HCCHAR0 c))"
    "chreg (hw s2) USB_HCTSIZ0 c = chreg (hw s) USB_HCTSIZ0 c"
    "chreg (hw s2) USB_HCSPLT0 c = (if dwc2_channel_split_mode p then USB_HOST_SPLT_CLR_COMPLETE_SPLIT (chreg (hw s) USB_HCSPLT0 c)
       else chreg (hw s) USB_HCSPLT0 c)"
    "chreg (hw s2) USB_HCDMA0 c = RAM_PHY_TO_BUS_UNCACHED (xc_dma_addr (ctl c s))"
    "chreg (hw s2) USB_HCINTMSK0 c = channel_intmsk p"
    "rf_val (hw s2) USB_HAINTMSK = rf_val (hw s) USB_HAINTMSK OR push_bit c 1"
    "\<forall>a. a \<noteq> USB_HAINTMSK \<and> (\<forall>r \<in> set ch_reg_bases. a \<noteq> r + 4 * (c * 8)) \<longrightarrow> rf_val (hw s2) a = rf_val (hw s) a"
proof -
  note defs = dwc2_transfer_start_def dwc2_channel_get_pipe_safe_def dwc2_channel_set_dma_addr_def dwc2_channel_set_split_start_def
    dwc2_channel_start_transmit_def dwc2_channel_enable_def dwc2_channel_set_intmsk_def Let_def chreg_def ch_reg_bases_def
  show thesis
  proof (cases "dwc2_channel_split_mode p")
    case True
    then obtain s2 where s2: "dwc2_transfer_start plain_regs c s = Inr s2"
      using assms by (simp add: defs)
    show thesis
      by (rule that [OF s2]) (use s2 assms True in \<open>auto simp: defs\<close>)
  next
    case False
    then obtain s2 where s2: "dwc2_transfer_start plain_regs c s = Inr s2"
      using assms by (simp add: defs)
    show thesis
      by (rule that [OF s2]) (use s2 assms False in \<open>auto simp: defs\<close>)
  qed
qed



end
