(* ===== verification/Dwc2_irq.thy ===== *)
theory Dwc2_irq
  imports Dwc2_channel
begin

text \<open>
  Running a transfer: the blocking loop of \<^verbatim>\<open>src/board/bcm2835/usb/dwc2_transfer.c\<close> and the interrupt handlers of
  \<^verbatim>\<open>dwc2.c\<close>. The completion of a transfer is a call into the client, a parameter of the handlers.
\<close>

section \<open>Blocking transfers\<close>

definition DWC2_STATUS_ACK :: int where "DWC2_STATUS_ACK = 0"
definition DWC2_STATUS_NAK :: int where "DWC2_STATUS_NAK = 1"
definition DWC2_STATUS_NYET :: int where "DWC2_STATUS_NYET = 2"
definition DWC2_STATUS_STALL :: int where "DWC2_STATUS_STALL = 3"
definition DWC2_STATUS_TIMEOUT :: int where "DWC2_STATUS_TIMEOUT = 4"
definition DWC2_STATUS_ERR :: int where "DWC2_STATUS_ERR = 5"
definition DWC2_STATUS_HALTED :: int where "DWC2_STATUS_HALTED = 6"

lemmas dwc2_statuses =
  DWC2_STATUS_ACK_def DWC2_STATUS_NAK_def DWC2_STATUS_NYET_def DWC2_STATUS_STALL_def DWC2_STATUS_TIMEOUT_def
  DWC2_STATUS_ERR_def DWC2_STATUS_HALTED_def

partial_function (option) poll_intr :: "'d mmio \<Rightarrow> nat \<Rightarrow> 'd \<Rightarrow> (u32 \<times> 'd) option" where
  "poll_intr io c d =
     (case read_ch_reg io USB_HCINT0 c d of (intr, d) \<Rightarrow>
        if USB_HOST_INTR_GET_HALT intr \<noteq> 0 \<or> USB_HOST_INTR_GET_NAK intr \<noteq> 0 then Some (intr, d) else poll_intr io c d)"

definition dwc2_wait_halted :: "'d mmio \<Rightarrow> nat \<Rightarrow> 'd \<Rightarrow> (int \<times> 'd) option" where
  "dwc2_wait_halted io c d =
     Option.bind (poll_intr io c d) (\<lambda>(intr, d).
       let d = write_ch_reg io USB_HCINT0 c intr d
       in Some (if USB_HOST_INTR_GET_XFER_COMPLETE intr \<noteq> 0 then DWC2_STATUS_ACK
                else if USB_HOST_INTR_GET_ACK intr \<noteq> 0 then DWC2_STATUS_ACK
                else if USB_HOST_INTR_GET_NAK intr \<noteq> 0 then DWC2_STATUS_NAK
                else if USB_HOST_INTR_GET_NYET intr \<noteq> 0 then DWC2_STATUS_NYET
                else DWC2_STATUS_ERR, d))"

text \<open>One attempt: clear what is pending, start, and wait.\<close>

definition dwc2_attempt :: "'d mmio \<Rightarrow> nat \<Rightarrow> ('d, 'z) dwc2_scheme \<Rightarrow> (int \<times> ('d, 'z) dwc2_scheme) run" where
  "dwc2_attempt io c s =
     run_bind (Some (dwc2_transfer_start io c (upd_hw (dwc2_channel_clear_pending io c) s))) (\<lambda>s.
       case dwc2_wait_halted io c (hw s) of None \<Rightarrow> None | Some (status, d) \<Rightarrow> Some (Inr (status, s\<lparr>hw := d\<rparr>)))"

definition dwc2_retried :: "int \<Rightarrow> bool" where
  "dwc2_retried status \<longleftrightarrow> status = DWC2_STATUS_NYET \<or> status = DWC2_STATUS_ERR"

partial_function (option) blocking_loop ::
  "'d mmio \<Rightarrow> nat \<Rightarrow> ('d, 'z) dwc2_scheme \<Rightarrow> (int \<times> ('d, 'z) dwc2_scheme) run" where
  "blocking_loop io c s =
     run_bind (dwc2_attempt io c s) (\<lambda>(status, s).
       if status \<noteq> DWC2_STATUS_ACK
       then if dwc2_retried status then blocking_loop io c s else Some (Inr (status, s))
       else let (split, d) = dwc2_channel_is_split_enabled io c (hw s); s = s\<lparr>hw := d\<rparr>
            in run_bind (if split then dwc2_attempt io c s else Some (Inr (status, s))) (\<lambda>(status, s).
                 if status \<noteq> DWC2_STATUS_ACK
                 then if dwc2_retried status then blocking_loop io c s else Some (Inr (status, s))
                 else run_bind (Some (dwc2_transfer_recalc_next io (ch_ctl s c) s)) (\<lambda>(more, s).
                        if more then blocking_loop io c s else Some (Inr (status, s)))))"

definition dwc2_transfer_blocking ::
  "'d mmio \<Rightarrow> nat \<Rightarrow> ('d, 'z) dwc2_scheme \<Rightarrow> (int \<times> int \<times> ('d, 'z) dwc2_scheme) run" where
  "dwc2_transfer_blocking io c s =
     run_bind (dwc2_transfer_prepare io c s) (\<lambda>s.
       run_bind (blocking_loop io c s) (\<lambda>(status, s).
         let (siz, d) = read_ch_reg io USB_HCTSIZ0 c (hw s); s = s\<lparr>hw := d\<rparr>;
             num_bytes = (if xc_direction (ctl c s) = USB_DIRECTION_IN
                          then xc_transfer_size (ctl c s) - uint (USB_HOST_SIZE_GET_SIZE siz)
                          else xc_transfer_size (ctl c s))
         in run_bind (Some (dwc2_channel_set_next_pid c (dwc_pid_to_usb_pid (USB_HOST_SIZE_GET_PID siz)) s)) (\<lambda>s.
              Some (Inr (status, num_bytes, s)))))"

section \<open>Channels at the start of the controller\<close>

definition dwc2_hwcfg_get_num_host_channels :: "'d mmio \<Rightarrow> 'd \<Rightarrow> nat \<times> 'd" where
  "dwc2_hwcfg_get_num_host_channels io d =
     (let (hwcfg, d) = read_reg io USB_GHWCFG2 d in (unat (USB_GHWCFG2_GET_NUM_HOST_CHAN hwcfg), d))"

partial_function (option) wait_char_disabled :: "'d mmio \<Rightarrow> nat \<Rightarrow> 'd \<Rightarrow> 'd option" where
  "wait_char_disabled io c d =
     (case read_ch_reg io USB_HCCHAR0 c d of (chr, d) \<Rightarrow>
        if USB_HOST_CHAR_GET_CHAN_ENABLE chr \<noteq> 0 then wait_char_disabled io c d else Some d)"

definition channel_off :: "u32 \<Rightarrow> u32" where
  "channel_off chr = USB_HOST_CHAR_CLR_SET_EP_DIR (word_of_int USB_DIRECTION_IN)
     (USB_HOST_CHAR_CLR_SET_CHAN_DISABLE 1 (USB_HOST_CHAR_CLR_CHAN_ENABLE chr))"

definition channel_halt :: "u32 \<Rightarrow> u32" where
  "channel_halt chr = USB_HOST_CHAR_CLR_SET_EP_DIR (word_of_int USB_DIRECTION_IN)
     (USB_HOST_CHAR_CLR_SET_CHAN_DISABLE 1 (USB_HOST_CHAR_CLR_SET_CHAN_ENABLE 1 chr))"

definition dwc2_init_channels :: "'d mmio \<Rightarrow> 'd \<Rightarrow> 'd option" where
  "dwc2_init_channels io d =
     (let (num_channels, d) = dwc2_hwcfg_get_num_host_channels io d;
          d = fold (\<lambda>c. modify_ch_reg io USB_HCCHAR0 c channel_off) [0..<num_channels] d
      in fold (\<lambda>c r. Option.bind r (\<lambda>d. wait_char_disabled io c (modify_ch_reg io USB_HCCHAR0 c channel_halt d)))
           [0..<num_channels] (Some d))"

section \<open>Interrupts of a channel\<close>

type_synonym 's completion_fn = "ptr \<Rightarrow> 's \<Rightarrow> 's kres"

definition complete :: "('d, 'z) dwc2_scheme completion_fn \<Rightarrow> nat \<Rightarrow> ('d, 'z) dwc2_scheme \<Rightarrow> ('d, 'z) dwc2_scheme kres" where
  "complete cb c s = (case xc_completion (ctl c s) of None \<Rightarrow> Inr s | Some j \<Rightarrow> cb j s)"

definition dwc2_irq_handle_channel_ahb_err :: "'d mmio \<Rightarrow> nat \<Rightarrow> ('d, 'z) dwc2_scheme \<Rightarrow> ('d, 'z) dwc2_scheme kres" where
  "dwc2_irq_handle_channel_ahb_err io c s = dwc2_transfer_start io c s"

definition dwc2_irq_handle_channel_nak ::
  "'d mmio \<Rightarrow> ('d, 'z) dwc2_scheme completion_fn \<Rightarrow> nat \<Rightarrow> ('d, 'z) dwc2_scheme \<Rightarrow> ('d, 'z) dwc2_scheme kres" where
  "dwc2_irq_handle_channel_nak io cb c s =
     kbind (dwc2_channel_get_pipe_safe c s) (\<lambda>p.
       if dwc2_channel_split_mode p then dwc2_transfer_start io c s
       else if endpoint_type p = USB_ENDPOINT_TYPE_CONTROL then dwc2_transfer_start io c s
       else if endpoint_type p = USB_ENDPOINT_TYPE_BULK then dwc2_transfer_start io c s
       else complete cb c (upd_ctl c (\<lambda>x. x\<lparr>xc_status := DWC2_STATUS_NAK\<rparr>) s))"

text \<open>What follows the \<^verbatim>\<open>return\<close> of the NYET handler is dead code.\<close>

definition dwc2_irq_handle_channel_nyet :: "'d mmio \<Rightarrow> nat \<Rightarrow> ('d, 'z) dwc2_scheme \<Rightarrow> ('d, 'z) dwc2_scheme kres" where
  "dwc2_irq_handle_channel_nyet io c s = dwc2_transfer_retry io c s"

definition dwc2_irq_handle_channel_halt ::
  "'d mmio \<Rightarrow> ('d, 'z) dwc2_scheme completion_fn \<Rightarrow> nat \<Rightarrow> u32 \<Rightarrow> ('d, 'z) dwc2_scheme \<Rightarrow> ('d, 'z) dwc2_scheme kres" where
  "dwc2_irq_handle_channel_halt io cb c old_intr s =
     kbind (dwc2_channel_get_pipe_safe c s) (\<lambda>p.
       let (intr, d) = read_ch_reg io USB_HCINT0 c (hw s);
           (siz, d) = read_ch_reg io USB_HCTSIZ0 c d;
           s = s\<lparr>hw := d\<rparr>;
           xfer_complete = (USB_HOST_INTR_GET_XFER_COMPLETE old_intr \<noteq> 0);
           (goes_on, s) = (if \<not> xfer_complete
                           then let (split, d) = dwc2_channel_is_split_enabled io c (hw s) in (split, s\<lparr>hw := d\<rparr>)
                           else (True, s))
       in if \<not> goes_on then Inr s
          else if USB_HOST_INTR_GET_ACK old_intr \<noteq> 0 \<and> \<not> xfer_complete
          then let (split, d) = dwc2_channel_is_split_enabled io c (hw s); s = s\<lparr>hw := d\<rparr>
               in if \<not> split then Inl ''dwc2_ack_interrupt logic error'' else dwc2_transfer_start io c s
          else kbind (if USB_HOST_INTR_GET_NYET old_intr \<noteq> 0 then dwc2_irq_handle_channel_nyet io c s else Inr s) (\<lambda>s.
               kbind (if USB_HOST_INTR_GET_NAK old_intr \<noteq> 0 then dwc2_irq_handle_channel_nak io cb c s else Inr s) (\<lambda>s.
               kbind (dwc2_transfer_recalc_next io (ch_ctl s c) s) (\<lambda>(more, s).
                 if more then dwc2_transfer_start io c s else complete cb c s))))"

text \<open>The data toggle handler never returns, the debug handler stops the machine at the 40000th channel interrupt, and
  an interrupt other than the handled ones is reported for ever.\<close>

definition dwc2_irq_handle_channel_int_one ::
  "'d mmio \<Rightarrow> ('d, 'z) dwc2_scheme completion_fn \<Rightarrow> nat \<Rightarrow> ('d, 'z) dwc2_scheme \<Rightarrow> ('d, 'z) dwc2_scheme run" where
  "dwc2_irq_handle_channel_int_one io cb ch_id s =
     (let c = dwc2_channel_get_by_id ch_id s;
          (intr, d) = read_ch_reg io USB_HCINT0 ch_id (hw s);
          d = write_ch_reg io USB_HCINT0 ch_id intr d;
          (intrmsk, d) = read_ch_reg io USB_HCINTMSK0 ch_id d;
          n = irq_num s;
          s = s\<lparr>hw := d, irq_num := n + 1\<rparr>;
          with = (\<lambda>f. case c of None \<Rightarrow> Inl ''channel interrupt: NULL channel'' | Some c \<Rightarrow> f c)
      in if n = 40000 then None
         else if USB_HOST_INTR_GET_HALT intr \<noteq> 0 then Some (with (\<lambda>c. dwc2_irq_handle_channel_halt io cb c intr s))
         else run_bind (if USB_HOST_INTR_GET_NAK intr \<noteq> 0
                        then Some (with (\<lambda>c. dwc2_irq_handle_channel_nak io cb c s)) else Some (Inr s)) (\<lambda>s.
              let intr = USB_HOST_INTR_CLR_NAK intr
              in run_bind (if USB_HOST_INTR_GET_AHB_ERR intr \<noteq> 0
                           then Some (with (\<lambda>c. dwc2_irq_handle_channel_ahb_err io c s)) else Some (Inr s)) (\<lambda>s.
                   let intr = USB_HOST_INTR_CLR_AHB_ERR intr
                   in if USB_HOST_INTR_GET_DATTGGLERR intr \<noteq> 0 then None
                      else if intr AND NOT 0x23 \<noteq> 0 then None
                      else Some (Inr s))))"

definition dwc2_irq_handle_channel_int ::
  "'d mmio \<Rightarrow> ('d, 'z) dwc2_scheme completion_fn \<Rightarrow> ('d, 'z) dwc2_scheme \<Rightarrow> ('d, 'z) dwc2_scheme run" where
  "dwc2_irq_handle_channel_int io cb s =
     (let (haint, d) = read_reg io USB_HAINT (hw s);
          (haintmsk, d) = read_reg io USB_HAINTMSK d;
          masked = haint AND haintmsk;
          s = s\<lparr>hw := write_reg io USB_HAINT masked d\<rparr>
      in fold (\<lambda>i r. run_bind r (\<lambda>s. if push_bit i 1 AND masked \<noteq> 0 then dwc2_irq_handle_channel_int_one io cb i s else Some (Inr s)))
           [0..<NUM_CHANNELS] (Some (Inr s)))"

text \<open>The handlers that only write log messages are left out.\<close>

definition dwc2_irq_cb ::
  "'d mmio \<Rightarrow> ('d, 'z) dwc2_scheme completion_fn \<Rightarrow> (u16 \<times> u16 \<Rightarrow> 'd \<Rightarrow> 'd) option \<Rightarrow> ('d, 'z) dwc2_scheme \<Rightarrow> ('d, 'z) dwc2_scheme run" where
  "dwc2_irq_cb io cb port_cb s =
     (let (intsts, d) = read_reg io USB_GINTSTS (hw s);
          (intmsk, d) = read_reg io USB_GINTMSK d;
          masked = intsts AND intmsk;
          s = s\<lparr>hw := write_reg io USB_GINTSTS masked d\<rparr>
      in run_bind (if USB_GINTSTS_GET_HCHINT masked \<noteq> 0 then dwc2_irq_handle_channel_int io cb s else Some (Inr s)) (\<lambda>s.
           let s = (if USB_GINTSTS_GET_OTGINT masked \<noteq> 0 then upd_hw (dwc2_irq_handle_otgint io) s else s);
               s = (if USB_GINTSTS_GET_RXFLVL masked \<noteq> 0 then upd_hw (dwc2_irq_handle_rx_fifo_lvl_intr io) s else s);
               s = (if USB_GINTSTS_GET_PRTINT masked \<noteq> 0 then upd_hw (dwc2_irq_handle_port_intr io port_cb) s else s)
           in Some (Inr s)))"

section \<open>What a halted channel leads to\<close>

lemma recalc_plain:
  assumes "ch_pipe s c \<noteq> NULL" "xc_channel (ctl c s) = Some c"
  defines "siz \<equiv> chreg (hw s) USB_HCTSIZ0 c"
  obtains s' where "hw s' = hw s" "ch_pipe s' = ch_pipe s" "ch_ctl s' = ch_ctl s" "ctl c s' = ctl c s"
    "pipes s' = (pipes s)(ch_pipe s c := (pipes s (ch_pipe s c))\<lparr>next_pid := dwc_pid_to_usb_pid (USB_HOST_SIZE_GET_PID siz)\<rparr>)"
    "dwc2_transfer_recalc_next plain_regs (ch_ctl s c) s =
       (if xc_direction (ctl c s) = USB_DIRECTION_IN \<and> USB_HOST_SIZE_GET_PACKET_COUNT siz \<noteq> 0
        then Inr (True, upd_ctl c (\<lambda>x. x\<lparr>
               xc_dma_addr := xc_dma_addr_base x + word_of_int (xc_transfer_size x) - ucast (USB_HOST_SIZE_GET_SIZE siz),
               xc_first_packet := False\<rparr>) s')
        else Inr (False, s'))"
proof -
  let ?s = "s\<lparr>pipes := (pipes s)(ch_pipe s c := (pipes s (ch_pipe s c))\<lparr>next_pid := dwc_pid_to_usb_pid (USB_HOST_SIZE_GET_PID siz)\<rparr>)\<rparr>"
  have "dwc2_transfer_recalc_next plain_regs (ch_ctl s c) s =
       (if xc_direction (ctl c s) = USB_DIRECTION_IN \<and> USB_HOST_SIZE_GET_PACKET_COUNT siz \<noteq> 0
        then Inr (True, upd_ctl c (\<lambda>x. x\<lparr>
               xc_dma_addr := xc_dma_addr_base x + word_of_int (xc_transfer_size x) - ucast (USB_HOST_SIZE_GET_SIZE siz),
               xc_first_packet := False\<rparr>) ?s)
        else Inr (False, ?s))"
    using assms
    by (simp add: dwc2_transfer_recalc_next_def ctl_def dwc2_channel_set_next_pid_def dwc2_channel_get_pipe_safe_def
        Let_def upd_ctl_def)
  then show thesis by (intro that [of ?s]) (simp_all add: ctl_def)
qed



text \<open>A split transfer that the device answers with NAK is started again, and then the handler goes on as if it had
  completed: for data to the device the completion of the client is called, with a status that says
  nothing of the NAK.\<close>

lemma split_nak_is_completed:
  assumes "ch_pipe s c \<noteq> NULL" "xc_channel (ctl c s) = Some c" "device_speed (pipes s (ch_pipe s c)) \<noteq> USB_SPEED_HIGH"
    "USB_HOST_SPLT_GET_SPLT_ENABLE (chreg (hw s) USB_HCSPLT0 c) \<noteq> 0"
    "USB_HOST_INTR_GET_XFER_COMPLETE old_intr = 0" "USB_HOST_INTR_GET_NAK old_intr \<noteq> 0"
    "USB_HOST_INTR_GET_ACK old_intr = 0" "USB_HOST_INTR_GET_NYET old_intr = 0"
    "xc_direction (ctl c s) = USB_DIRECTION_OUT" "\<not> xc_split_start (ctl c s)"
  shows "\<exists>s'. dwc2_irq_handle_channel_halt plain_regs cb c old_intr s = complete cb c s' \<and>
     xc_status (ctl c s') = xc_status (ctl c s)"
proof -
  have self: "s\<lparr>hw := hw s\<rparr> = s" by simp
  define t where "t = upd_hw (dwc2_channel_start_transmit plain_regs c (pipes s (ch_pipe s c)))
      (upd_ctl c (\<lambda>x. x\<lparr>xc_split_start := \<not> xc_split_start x\<rparr>) (upd_hw (dwc2_channel_set_split_complete plain_regs c) s))"
  have t: "ch_pipe t = ch_pipe s" "xc_channel (ctl c t) = Some c" "xc_direction (ctl c t) = USB_DIRECTION_OUT"
    "xc_status (ctl c t) = xc_status (ctl c s)" using assms by (simp_all add: t_def)
  have n: "dwc2_irq_handle_channel_nak plain_regs cb c s = Inr t"
    using assms(1,3,10)
    by (simp add: dwc2_irq_handle_channel_nak_def dwc2_channel_get_pipe_safe_def dwc2_channel_split_mode_def
        dwc2_transfer_start_def t_def)
  have halt: "dwc2_irq_handle_channel_halt plain_regs cb c old_intr s =
      kbind (dwc2_transfer_recalc_next plain_regs (ch_ctl t c) t) (\<lambda>(more, s).
        if more then dwc2_transfer_start plain_regs c s else complete cb c s)"
    using assms(1,4-8) n
    by (simp add: dwc2_irq_handle_channel_halt_def dwc2_channel_get_pipe_safe_def dwc2_channel_is_split_enabled_def Let_def self)
  obtain s' where "dwc2_transfer_recalc_next plain_regs (ch_ctl t c) t = Inr (False, s')" "ctl c s' = ctl c t"
    using recalc_plain [of t c] assms(1) t by (metis USB_DIRECTION_IN_def USB_DIRECTION_OUT_def zero_neq_one)
  then show ?thesis using halt t(4) by (intro exI [of _ s']) simp
qed

end
