(* ===== verification/Usb_xfer_queue.thy ===== *)
theory Usb_xfer_queue
  imports Dwc2_irq
begin

text \<open>
  The queue of USB transfers (\<^verbatim>\<open>src/board/bcm2835/usb/usb_xfer_queue.c\<close>, \<^verbatim>\<open>src/include/drivers/usb/usb_xfer_queue.h\<close>). A jobchain is a sequence of
  transfers on one pipe, such as the three stages of a control transfer. A worker task takes pending chains,
  gives each a channel, and runs its jobs one after the other; interrupts mark a job as completed.
\<close>

section \<open>Jobs and jobchains\<close>

record usb_xfer_job =
  xj_direction :: int
  xj_addr :: ptr
  xj_transfer_size :: int
  xj_next_pid :: usb_pid
  xj_err :: int
  xj_completed :: bool
  xj_jc :: ptr

text \<open>The callback of a chain is always \<^verbatim>\<open>control_chain_signal_completed\<close>; its argument is the address of a flag.\<close>

record usb_xfer_jobchain =
  jc_nak_retries :: int
  jc_wait_interval_ms :: int
  jc_err :: int
  jc_hcd_pipe :: ptr
  jc_completed_arg :: ptr
  jc_channel :: "nat option"

text \<open>List nodes inside the objects, at their offsets. The slot node of the pools is the first field.\<close>

definition job_node :: "ptr \<Rightarrow> ptr" where "job_node j = j + 80"
definition job_of_node :: "ptr \<Rightarrow> ptr" where "job_of_node n = n - 80"
definition jc_node :: "ptr \<Rightarrow> ptr" where "jc_node jc = jc + 16"
definition jc_of_node :: "ptr \<Rightarrow> ptr" where "jc_of_node n = n - 16"
definition jc_jobs :: "ptr \<Rightarrow> ptr" where "jc_jobs jc = jc + 56"
definition jc_completed_jobs :: "ptr \<Rightarrow> ptr" where "jc_completed_jobs jc = jc + 72"

text \<open>Static objects, at addresses that the linker chooses: the pools and the heads of the two queues.\<close>

record queue_layout =
  ctl_pool :: slot_pool
  job_pool :: slot_pool
  jc_pool :: slot_pool
  jobchains_pending :: ptr
  jobs_running :: ptr

record 'd usbq = "'d dwc2" +
  q_jobs :: "ptr \<Rightarrow> usb_xfer_job"
  q_jcs :: "ptr \<Rightarrow> usb_xfer_jobchain"
  has_work :: bool
  flags :: "ptr \<Rightarrow> bool"

definition upd_job :: "ptr \<Rightarrow> (usb_xfer_job \<Rightarrow> usb_xfer_job) \<Rightarrow> ('d, 'z) usbq_scheme \<Rightarrow> ('d, 'z) usbq_scheme" where
  "upd_job j f s = s\<lparr>q_jobs := (q_jobs s)(j := f (q_jobs s j))\<rparr>"

definition upd_jc :: "ptr \<Rightarrow> (usb_xfer_jobchain \<Rightarrow> usb_xfer_jobchain) \<Rightarrow> ('d, 'z) usbq_scheme \<Rightarrow> ('d, 'z) usbq_scheme" where
  "upd_jc jc f s = s\<lparr>q_jcs := (q_jcs s)(jc := f (q_jcs s jc))\<rparr>"

definition on_lists :: "(list_heap \<Rightarrow> list_heap) \<Rightarrow> ('d, 'z) usbq_scheme \<Rightarrow> ('d, 'z) usbq_scheme" where
  "on_lists f s = s\<lparr>usb_lists := f (usb_lists s)\<rparr>"

section \<open>Creation and destruction\<close>

text \<open>The pools answer \<^verbatim>\<open>NULL\<close> when they are empty, and \<^verbatim>\<open>IS_ERR\<close> does not hold for it: the list nodes of the object at
  address 0 are initialised then.\<close>

definition usb_xfer_job_create :: "queue_layout \<Rightarrow> ('d, 'z) usbq_scheme \<Rightarrow> ptr \<times> ('d, 'z) usbq_scheme" where
  "usb_xfer_job_create L s =
     (let (j, h) = slot_alloc (job_pool L) (usb_lists s) in (j, s\<lparr>usb_lists := INIT_LIST_HEAD (job_node j) h\<rparr>))"

definition usb_xfer_job_destroy :: "queue_layout \<Rightarrow> ptr \<Rightarrow> ('d, 'z) usbq_scheme \<Rightarrow> ('d, 'z) usbq_scheme" where
  "usb_xfer_job_destroy L j = on_lists (slot_release (job_pool L) j)"

definition usb_xfer_jobchain_create :: "queue_layout \<Rightarrow> ('d, 'z) usbq_scheme \<Rightarrow> ptr \<times> ('d, 'z) usbq_scheme" where
  "usb_xfer_jobchain_create L s =
     (let (jc, h) = slot_alloc (jc_pool L) (usb_lists s);
          h = INIT_LIST_HEAD (jc_completed_jobs jc) (INIT_LIST_HEAD (jc_jobs jc) (INIT_LIST_HEAD (jc_node jc) h))
      in (jc, s\<lparr>usb_lists := h\<rparr>))"

definition destroy_job :: "queue_layout \<Rightarrow> ptr \<Rightarrow> ('d, 'z) usbq_scheme \<Rightarrow> ('d, 'z) usbq_scheme kres" where
  "destroy_job L n s = Inr (usb_xfer_job_destroy L (job_of_node n) (on_lists (list_del_init n) s))"

definition usb_xfer_jobchain_destroy :: "queue_layout \<Rightarrow> ptr \<Rightarrow> ('d, 'z) usbq_scheme \<Rightarrow> ('d, 'z) usbq_scheme run" where
  "usb_xfer_jobchain_destroy L jc s =
     run_bind (list_for_each_entry_safe usb_lists (destroy_job L) (jc_jobs jc) s) (\<lambda>s.
       run_bind (list_for_each_entry_safe usb_lists (destroy_job L) (jc_completed_jobs jc) s) (\<lambda>s.
         Some (Inr (on_lists (slot_release (jc_pool L) jc) s))))"

section \<open>The two queues\<close>

definition usb_xfer_jobchain_enqueue :: "queue_layout \<Rightarrow> ptr \<Rightarrow> ('d, 'z) usbq_scheme \<Rightarrow> ('d, 'z) usbq_scheme" where
  "usb_xfer_jobchain_enqueue L jc s = (on_lists (list_add_tail (jc_node jc) (jobchains_pending L)) s)\<lparr>has_work := True\<rparr>"

definition usb_xfer_jobchain_dequeue :: "queue_layout \<Rightarrow> ('d, 'z) usbq_scheme \<Rightarrow> ptr \<times> ('d, 'z) usbq_scheme" where
  "usb_xfer_jobchain_dequeue L s =
     (if list_empty (jobchains_pending L) (usb_lists s) then (NULL, s)
      else let n = list_first_entry (jobchains_pending L) (usb_lists s)
           in (jc_of_node n, on_lists (list_del_init n) s))"

text \<open>The completion callback, called by the interrupt handlers.\<close>

definition usb_xfer_handle_completed :: "('d, 'z) usbq_scheme completion_fn" where
  "usb_xfer_handle_completed j s =
     (let jc = xj_jc (q_jobs s j)
      in case jc_channel (q_jcs s jc) of
           None \<Rightarrow> Inl ''usb_xfer_handle_completed: NULL channel''
         | Some c \<Rightarrow>
             let st = xc_status (ctl c s);
                 s = (if st = DWC2_STATUS_NAK
                      then upd_job j (\<lambda>x. x\<lparr>xj_err := ERR_RETRY\<rparr>)
                             (upd_jc jc (\<lambda>x. x\<lparr>jc_nak_retries := if jc_nak_retries x > 0 then jc_nak_retries x - 1 else jc_nak_retries x\<rparr>) s)
                      else if st = DWC2_STATUS_HALTED then upd_job j (\<lambda>x. x\<lparr>xj_err := ERR_FATAL\<rparr>) s
                      else upd_job j (\<lambda>x. x\<lparr>xj_err := ERR_OK\<rparr>) s)
             in Inr ((upd_job j (\<lambda>x. x\<lparr>xj_completed := True\<rparr>) s)\<lparr>has_work := True\<rparr>))"

definition dwc2_xfer_one_job :: "'d mmio \<Rightarrow> ptr \<Rightarrow> ('d, 'z) usbq_scheme \<Rightarrow> ('d, 'z) usbq_scheme run" where
  "dwc2_xfer_one_job io j s =
     (let x = q_jobs s j
      in case jc_channel (q_jcs s (xj_jc x)) of
           None \<Rightarrow> Some (Inl ''dwc2_xfer_one_job: NULL channel'')
         | Some c \<Rightarrow>
             let s = upd_ctl c (\<lambda>k. k\<lparr>xc_dma_addr_base := of_nat (xj_addr x), xc_direction := xj_direction x,
                       xc_transfer_size := xj_transfer_size x\<rparr>) s
             in run_bind (Some (if xj_next_pid x \<noteq> USB_PID_UNSET then dwc2_channel_set_next_pid c (xj_next_pid x) s else Inr s)) (\<lambda>s.
                  run_bind (dwc2_transfer_prepare io c (upd_ctl c (\<lambda>k. k\<lparr>xc_completion := Some j\<rparr>) s)) (\<lambda>s.
                    Some (dwc2_transfer_start io c s))))"

definition usb_xfer_job_set_running ::
  "queue_layout \<Rightarrow> 'd mmio \<Rightarrow> ptr \<Rightarrow> ('d, 'z) usbq_scheme \<Rightarrow> ('d, 'z) usbq_scheme run" where
  "usb_xfer_job_set_running L io j s =
     run_bind (dwc2_xfer_one_job io j (upd_job j (\<lambda>x. x\<lparr>xj_completed := False, xj_err := ERR_OK\<rparr>) s)) (\<lambda>s.
       Some (Inr (on_lists (list_move_tail (job_node j) (jobs_running L)) s)))"

definition usb_xfer_jobchain_start ::
  "queue_layout \<Rightarrow> 'd mmio \<Rightarrow> ptr \<Rightarrow> ('d, 'z) usbq_scheme \<Rightarrow> ('d, 'z) usbq_scheme run" where
  "usb_xfer_jobchain_start L io jc s =
     (case dwc2_channel_create s of
        (None, s) \<Rightarrow> Some (Inl ''Failed to create dwc2_channel'')
      | (Some c, s) \<Rightarrow>
          let (k, s) = dwc2_xfer_control_create (ctl_pool L) s
          in if k = NULL then Some (Inl ''Failed to create dwc2_xfer_control'')
             else let s = dwc2_channel_bind_xfer_control c k s;
                      s = s\<lparr>ch_pipe := (ch_pipe s)(c := jc_hcd_pipe (q_jcs s jc))\<rparr>
                  in if ch_pipe s c = NULL then Some (Inl ''dwc pipe is NULL'')
                     else let s = upd_jc jc (\<lambda>x. x\<lparr>jc_channel := Some c, jc_err := ERR_OK\<rparr>) s
                          in if list_empty (jc_jobs jc) (usb_lists s)
                             then Some (Inl ''Trying to process jobchain with 0 jobs'')
                             else usb_xfer_job_set_running L io (job_of_node (list_first_entry (jc_jobs jc) (usb_lists s))) s)"

definition usb_xfer_process_pending :: "queue_layout \<Rightarrow> 'd mmio \<Rightarrow> ('d, 'z) usbq_scheme \<Rightarrow> ('d, 'z) usbq_scheme run" where
  "usb_xfer_process_pending L io s =
     (let (jc, s) = usb_xfer_jobchain_dequeue L s
      in if jc \<noteq> NULL then usb_xfer_jobchain_start L io jc s else Some (Inr s))"

text \<open>A chain that has come to its end: its callback is called, and channel, control, jobs and chain are given back.\<close>

definition finish_chain ::
  "queue_layout \<Rightarrow> ptr \<Rightarrow> nat \<Rightarrow> ('d, 'z) usbq_scheme \<Rightarrow> ('d, 'z) usbq_scheme run" where
  "finish_chain L jc c s =
     (let s = upd_jc jc (\<lambda>x. x\<lparr>jc_channel := None\<rparr>) s;
          s = s\<lparr>flags := (flags s)(jc_completed_arg (q_jcs s jc) := True)\<rparr>;
          s = dwc2_xfer_control_destroy (ctl_pool L) (ch_ctl s c) s;
          s = s\<lparr>ch_ctl := (ch_ctl s)(c := NULL)\<rparr>
      in run_bind (Some (dwc2_channel_destroy c s)) (usb_xfer_jobchain_destroy L jc))"

definition process_job :: "queue_layout \<Rightarrow> 'd mmio \<Rightarrow> ptr \<Rightarrow> ('d, 'z) usbq_scheme \<Rightarrow> ('d, 'z) usbq_scheme run" where
  "process_job L io n s =
     (let j = job_of_node n; jc = xj_jc (q_jobs s j)
      in if \<not> xj_completed (q_jobs s j) then Some (Inr s)
         else case jc_channel (q_jcs s jc) of
                None \<Rightarrow> Some (Inl ''usb_xfer_process_running: NULL channel'')
              | Some c \<Rightarrow>
                  if xc_status (ctl c s) = DWC2_STATUS_NYET then usb_xfer_job_set_running L io j s
                  else let s = on_lists (list_move_tail n (jc_completed_jobs jc)) s;
                           e = xj_err (q_jobs s j);
                           s = (if e = ERR_RETRY then upd_hw (dwc2_transfer_stop io c) s else s);
                           s = (if e \<noteq> ERR_OK then upd_jc jc (\<lambda>x. x\<lparr>jc_err := e\<rparr>) s else s)
                       in if e \<noteq> ERR_OK \<or> list_empty (jc_jobs jc) (usb_lists s) then finish_chain L jc c s
                          else usb_xfer_job_set_running L io (job_of_node (list_first_entry (jc_jobs jc) (usb_lists s))) s)"

text \<open>The loop over the running jobs reads the successor of a node before it handles the node.\<close>

partial_function (option) process_running_loop ::
  "queue_layout \<Rightarrow> 'd mmio \<Rightarrow> ptr \<Rightarrow> ptr \<Rightarrow> ('d, 'z) usbq_scheme \<Rightarrow> ('d, 'z) usbq_scheme run" where
  "process_running_loop L io pos tmp s =
     (if pos = jobs_running L then Some (Inr s)
      else run_bind (process_job L io pos s) (\<lambda>s. process_running_loop L io tmp (list_next_entry tmp (usb_lists s)) s))"

definition usb_xfer_process_running :: "queue_layout \<Rightarrow> 'd mmio \<Rightarrow> ('d, 'z) usbq_scheme \<Rightarrow> ('d, 'z) usbq_scheme run" where
  "usb_xfer_process_running L io s =
     (let pos = list_first_entry (jobs_running L) (usb_lists s)
      in process_running_loop L io pos (list_next_entry pos (usb_lists s)) s)"

text \<open>One round of the worker, after \<^verbatim>\<open>wait_on_waitflag\<close> has consumed the flag.\<close>

definition usb_xfer_queue_round :: "queue_layout \<Rightarrow> 'd mmio \<Rightarrow> ('d, 'z) usbq_scheme \<Rightarrow> ('d, 'z) usbq_scheme run" where
  "usb_xfer_queue_round L io s =
     run_bind (usb_xfer_process_pending L io (s\<lparr>has_work := False\<rparr>)) (usb_xfer_process_running L io)"

definition usb_xfer_queue_init :: "queue_layout \<Rightarrow> ptr list \<Rightarrow> ptr list \<Rightarrow> ('d, 'z) usbq_scheme \<Rightarrow> ('d, 'z) usbq_scheme" where
  "usb_xfer_queue_init L job_slots jc_slots =
     on_lists (INIT_LIST_HEAD (jobs_running L) \<circ> INIT_LIST_HEAD (jobchains_pending L) \<circ>
               STATIC_SLOT_INIT_FREE (jc_pool L) jc_slots \<circ> STATIC_SLOT_INIT_FREE (job_pool L) job_slots)"

end
