(* ===== verification/Hcd_transfer.thy ===== *)
theory Hcd_transfer
  imports Usb_xfer_queue
begin

text \<open>
  Transfers as the rest of the USB driver sees them (\<^verbatim>\<open>src/board/bcm2835/usb/hcd_transfer.c\<close>): a control transfer is a chain of
  a SETUP, an optional DATA and a STATUS job, a bulk transfer is a chain of one job; requests to the root
  hub are answered by the driver. The caller waits for a flag that the completion sets. What happens
  meanwhile (the worker task, interrupts, the controller and the device) is a parameter of the functions that wait.
\<close>

section \<open>State\<close>

record 'd hcd = "'d usbq" +
  rh_number :: int
  hmem :: bmem

definition le64 :: "u64 \<Rightarrow> u8 list" where "le64 w = map (\<lambda>i. ucast (drop_bit (8 * i) w)) [0..<8]"

section \<open>Building the chains\<close>

definition usb_xfer_job_prep ::
  "queue_layout \<Rightarrow> ptr \<Rightarrow> int \<Rightarrow> ptr \<Rightarrow> int \<Rightarrow> usb_pid \<Rightarrow> ('d, 'z) usbq_scheme \<Rightarrow> (ptr \<times> ('d, 'z) usbq_scheme) kres" where
  "usb_xfer_job_prep L jc dir addr transfer_size pid s =
     (let (j, s) = usb_xfer_job_create L s
      in if j = NULL then Inl ''Failed to alloc job''
         else Inr (j, upd_job j (\<lambda>x. x\<lparr>xj_addr := addr, xj_transfer_size := transfer_size, xj_direction := dir,
                        xj_jc := jc, xj_next_pid := pid\<rparr>) s))"

definition add_job ::
  "queue_layout \<Rightarrow> ptr \<Rightarrow> int \<Rightarrow> ptr \<Rightarrow> int \<Rightarrow> usb_pid \<Rightarrow> ('d, 'z) usbq_scheme \<Rightarrow> ('d, 'z) usbq_scheme kres" where
  "add_job L jc dir addr transfer_size pid s =
     kbind (usb_xfer_job_prep L jc dir addr transfer_size pid s) (\<lambda>(j, s).
       Inr (on_lists (list_add_tail (job_node j) (jc_jobs jc)) s))"

text \<open>With no chain left the fields of an object at address 0 are used.\<close>

definition usb_xfer_jobchain_prep_control ::
  "queue_layout \<Rightarrow> ptr \<Rightarrow> int \<Rightarrow> ptr \<Rightarrow> int \<Rightarrow> ('d, 'z) usbq_scheme \<Rightarrow> (ptr \<times> ('d, 'z) usbq_scheme) kres" where
  "usb_xfer_jobchain_prep_control L request direction addr transfer_size s =
     (let (jc, s) = usb_xfer_jobchain_create L s;
          s = upd_jc jc (\<lambda>x. x\<lparr>jc_nak_retries := 100, jc_wait_interval_ms := 0\<rparr>) s;
          ack_direction = (if addr \<noteq> NULL \<and> direction = USB_DIRECTION_IN then USB_DIRECTION_OUT else USB_DIRECTION_IN)
      in kbind (add_job L jc USB_DIRECTION_OUT request 8 USB_PID_SETUP s) (\<lambda>s.
         kbind (if addr \<noteq> NULL then add_job L jc direction addr transfer_size USB_PID_DATA1 s else Inr s) (\<lambda>s.
         kbind (add_job L jc ack_direction NULL 0 USB_PID_DATA1 s) (\<lambda>s. Inr (jc, s)))))"

section \<open>Control transfers\<close>

definition root_hub_request ::
  "'d mmio \<Rightarrow> u64 \<Rightarrow> ptr \<Rightarrow> int \<Rightarrow> ('d, 'z) hcd_scheme \<Rightarrow> (int \<times> int \<times> ('d, 'z) hcd_scheme) kres" where
  "root_hub_request io rq addr transfer_size s =
     kbind (usb_root_hub_process_req io rq addr transfer_size
              \<lparr>usb_root_hub_device_number = rh_number s, rh_mem = hmem s, rh_dev = hw s\<rparr>) (\<lambda>(err, n, r).
       Inr (err, n, s\<lparr>rh_number := usb_root_hub_device_number r, hmem := rh_mem r, hw := rh_dev r\<rparr>))"

text \<open>The addresses of the request and of the flag are those of variables on the stack of the caller.\<close>

definition hcd_transfer_control_submit ::
  "queue_layout \<Rightarrow> ptr \<Rightarrow> int \<Rightarrow> ptr \<Rightarrow> int \<Rightarrow> u64 \<Rightarrow> ptr \<Rightarrow> ptr \<Rightarrow> ('d, 'z) hcd_scheme \<Rightarrow> (ptr \<times> ('d, 'z) hcd_scheme) kres" where
  "hcd_transfer_control_submit L pipe direction addr transfer_size rq rqbuf completed s =
     kbind (usb_xfer_jobchain_prep_control L rqbuf direction addr transfer_size
              (s\<lparr>hmem := put_bytes rqbuf (le64 rq) (hmem s), flags := (flags s)(completed := False)\<rparr>)) (\<lambda>(jc, s).
       let s = upd_jc jc (\<lambda>x. x\<lparr>jc_wait_interval_ms := 0, jc_completed_arg := completed, jc_hcd_pipe := pipe\<rparr>) s
       in Inr (jc, usb_xfer_jobchain_enqueue L jc s))"

text \<open>The result is the error, the number of bytes reported to the caller, and the state. The chain has been given back to its
  pool when its error is read.\<close>

definition hcd_transfer_control ::
  "queue_layout \<Rightarrow> 'd mmio \<Rightarrow> (ptr \<Rightarrow> ('d, 'z) hcd_scheme \<Rightarrow> ('d, 'z) hcd_scheme run) \<Rightarrow> ptr \<Rightarrow> ptr \<Rightarrow>
     ptr \<Rightarrow> int \<Rightarrow> ptr \<Rightarrow> int \<Rightarrow> u64 \<Rightarrow> ('d, 'z) hcd_scheme \<Rightarrow> (int \<times> int \<times> ('d, 'z) hcd_scheme) run" where
  "hcd_transfer_control L io wait rqbuf completed pipe direction addr transfer_size rq s =
     (if device_address (pipes s pipe) = rh_number s then Some (root_hub_request io rq addr transfer_size s)
      else run_bind (Some (hcd_transfer_control_submit L pipe direction addr transfer_size rq rqbuf completed s)) (\<lambda>(jc, s).
             run_bind (wait completed s) (\<lambda>s. Some (Inr (jc_err (q_jcs s jc), transfer_size, s)))))"

section \<open>Bulk transfers\<close>

text \<open>A bulk transfer waits for at most about twenty seconds. After that it sets the error of the chain to \<^verbatim>\<open>ERR_OK\<close> and reports all
  bytes as transferred; the chain stays in the queue, with a callback that writes to the flag on the stack.\<close>

definition hcd_transfer_bulk ::
  "queue_layout \<Rightarrow> (ptr \<Rightarrow> ('d, 'z) hcd_scheme \<Rightarrow> ('d, 'z) hcd_scheme run) \<Rightarrow> ptr \<Rightarrow>
     ptr \<Rightarrow> int \<Rightarrow> ptr \<Rightarrow> int \<Rightarrow> ('d, 'z) hcd_scheme \<Rightarrow> (int \<times> int option \<times> ('d, 'z) hcd_scheme) run" where
  "hcd_transfer_bulk L wait completed pipe direction addr transfer_size s =
     (let (jc, s) = usb_xfer_jobchain_create L (s\<lparr>flags := (flags s)(completed := False)\<rparr>);
          s = upd_jc jc (\<lambda>x. x\<lparr>jc_nak_retries := 0\<rparr>) s
      in run_bind (Some (add_job L jc direction addr transfer_size USB_PID_UNSET s)) (\<lambda>s.
           let s = upd_jc jc (\<lambda>x. x\<lparr>jc_completed_arg := completed, jc_hcd_pipe := pipe\<rparr>) s
           in run_bind (wait completed (usb_xfer_jobchain_enqueue L jc s)) (\<lambda>s.
                let s = (if \<not> flags s completed then upd_jc jc (\<lambda>x. x\<lparr>jc_err := ERR_OK\<rparr>) s else s);
                    err = jc_err (q_jcs s jc)
                in if err \<noteq> ERR_OK
                   then run_bind (usb_xfer_jobchain_destroy L jc s) (\<lambda>s. Some (Inr (err, None, s)))
                   else Some (Inr (ERR_OK, Some transfer_size, s)))))"

section \<open>Blocking transfers\<close>

partial_function (option) hcd_transfer_packet_blocking ::
  "'d mmio \<Rightarrow> nat \<Rightarrow> ('d, 'z) dwc2_scheme \<Rightarrow> (int \<times> int \<times> ('d, 'z) dwc2_scheme) run" where
  "hcd_transfer_packet_blocking io c s =
     run_bind (dwc2_transfer_blocking io c s) (\<lambda>(status, num_bytes, s).
       if status = DWC2_STATUS_ACK then Some (Inr (ERR_OK, num_bytes, s))
       else if status = DWC2_STATUS_NAK \<or> status = DWC2_STATUS_NYET then hcd_transfer_packet_blocking io c s
       else Some (Inr (ERR_GENERIC, num_bytes, s)))"

definition set_packet ::
  "nat \<Rightarrow> usb_pid \<Rightarrow> ptr \<Rightarrow> int \<Rightarrow> int \<Rightarrow> ('d, 'z) dwc2_scheme \<Rightarrow> ('d, 'z) dwc2_scheme kres" where
  "set_packet c pid addr transfer_size direction s =
     kbind (dwc2_channel_set_next_pid c pid s) (\<lambda>s.
       Inr (upd_ctl c (\<lambda>x. x\<lparr>xc_dma_addr_base := of_nat addr, xc_transfer_size := transfer_size, xc_direction := direction\<rparr>) s))"

definition packet_blocking ::
  "'d mmio \<Rightarrow> nat \<Rightarrow> usb_pid \<Rightarrow> ptr \<Rightarrow> int \<Rightarrow> int \<Rightarrow> ('d, 'z) dwc2_scheme \<Rightarrow> (int \<times> int \<times> ('d, 'z) dwc2_scheme) run" where
  "packet_blocking io c pid addr transfer_size direction s =
     run_bind (Some (set_packet c pid addr transfer_size direction s)) (hcd_transfer_packet_blocking io c)"

text \<open>A channel and a transfer control for a blocking transfer. The transfer control does not learn its channel here.\<close>

definition blocking_channel ::
  "queue_layout \<Rightarrow> ptr \<Rightarrow> ('d, 'z) usbq_scheme \<Rightarrow> (int + nat) \<times> nat option \<times> ('d, 'z) usbq_scheme" where
  "blocking_channel L pipe s =
     (case dwc2_channel_create s of
        (None, s) \<Rightarrow> (Inl ERR_RETRY, None, s)
      | (Some c, s) \<Rightarrow>
          let (k, s) = dwc2_xfer_control_create (ctl_pool L) s; s = s\<lparr>ch_ctl := (ch_ctl s)(c := k)\<rparr>
          in if k = NULL then (Inl ERR_MEMALLOC, Some c, s)
             else (Inr c, Some c, s\<lparr>ch_pipe := (ch_pipe s)(c := pipe)\<rparr>))"

definition blocking_release :: "queue_layout \<Rightarrow> 'd mmio \<Rightarrow> nat option \<Rightarrow> ('d, 'z) usbq_scheme \<Rightarrow> ('d, 'z) usbq_scheme kres" where
  "blocking_release L io ch s =
     (case ch of
        None \<Rightarrow> Inr s
      | Some c \<Rightarrow>
          let s = upd_hw (dwc2_channel_disable io c) s;
              s = (if ch_ctl s c \<noteq> NULL then dwc2_xfer_control_destroy (ctl_pool L) (ch_ctl s c) s else s)
          in dwc2_channel_destroy c s)"

definition hcd_transfer_control_blocking ::
  "queue_layout \<Rightarrow> 'd mmio \<Rightarrow> ptr \<Rightarrow> ptr \<Rightarrow> int \<Rightarrow> ptr \<Rightarrow> int \<Rightarrow> u64 \<Rightarrow> ('d, 'z) hcd_scheme \<Rightarrow> (int \<times> int \<times> ('d, 'z) hcd_scheme) run" where
  "hcd_transfer_control_blocking L io rqbuf pipe direction addr transfer_size rq s =
     (let s = s\<lparr>hmem := put_bytes rqbuf (le64 rq) (hmem s)\<rparr>
      in if device_address (pipes s pipe) = rh_number s then Some (root_hub_request io rq addr transfer_size s)
         else let (r, ch, s) = blocking_channel L pipe s;
                  release = (\<lambda>err n s. Some (kbind (blocking_release L io ch s) (\<lambda>s. Inr (err, n, s))))
              in case r of
                   Inl err \<Rightarrow> release err 0 s
                 | Inr c \<Rightarrow>
                     run_bind (packet_blocking io c USB_PID_SETUP rqbuf 8 USB_DIRECTION_OUT s) (\<lambda>(err, n, s).
                       if err \<noteq> ERR_OK then release err 0 s
                       else run_bind (if addr \<noteq> NULL then packet_blocking io c USB_PID_DATA1 addr transfer_size direction s
                                      else Some (Inr (ERR_OK, 0, s))) (\<lambda>(err, n, s).
                         if err \<noteq> ERR_OK then release err n s
                         else run_bind (packet_blocking io c USB_PID_DATA1 NULL 0
                                (if addr = NULL \<or> direction = USB_DIRECTION_OUT then USB_DIRECTION_IN else USB_DIRECTION_OUT) s)
                              (\<lambda>(err, m, s). release err n s))))"

definition hcd_transfer_interrupt ::
  "queue_layout \<Rightarrow> 'd mmio \<Rightarrow> ptr \<Rightarrow> ptr \<Rightarrow> int \<Rightarrow> ('d, 'z) usbq_scheme \<Rightarrow> (int \<times> ('d, 'z) usbq_scheme) run" where
  "hcd_transfer_interrupt L io pipe addr transfer_size s =
     (let (r, ch, s) = blocking_channel L pipe s;
          release = (\<lambda>err s. Some (kbind (blocking_release L io ch s) (\<lambda>s. Inr (err, s))))
      in case r of
           Inl err \<Rightarrow> release err s
         | Inr c \<Rightarrow>
             run_bind (Some (set_packet c USB_PID_DATA0 addr transfer_size USB_DIRECTION_OUT s)) (\<lambda>s.
               run_bind (dwc2_transfer_blocking io c s) (\<lambda>(status, n, s).
                 release (if status = DWC2_STATUS_ACK then ERR_OK else if status = DWC2_STATUS_NAK then ERR_RETRY
                          else ERR_GENERIC) s)))"

text \<open>The blocking bulk transfer gives back neither its channel nor its transfer control.\<close>

definition hcd_transfer_bulk_blocking ::
  "queue_layout \<Rightarrow> 'd mmio \<Rightarrow> ptr \<Rightarrow> int \<Rightarrow> ptr \<Rightarrow> int \<Rightarrow> ('d, 'z) usbq_scheme \<Rightarrow> (int \<times> ('d, 'z) usbq_scheme) run" where
  "hcd_transfer_bulk_blocking L io pipe direction addr transfer_size s =
     (let (r, ch, s) = blocking_channel L pipe s
      in case r of
           Inl err \<Rightarrow> Some (Inr (err, s))
         | Inr c \<Rightarrow>
             let s = upd_ctl c (\<lambda>x. x\<lparr>xc_dma_addr_base := of_nat addr, xc_transfer_size := transfer_size, xc_direction := direction\<rparr>) s
             in run_bind (dwc2_transfer_blocking io c s) (\<lambda>(status, n, s).
                  Some (Inr (if status = DWC2_STATUS_ACK then ERR_OK else if status = DWC2_STATUS_NAK then ERR_RETRY
                             else ERR_GENERIC, s))))"

end
