(* ===== verification/Usb_queue_props.thy ===== *)
theory Usb_queue_props
  imports Hcd_transfer
begin

text \<open>
  What the transfer queue promises: a chain whose transfers all complete runs its jobs in order on one channel, then signals
  its caller, and everything it has taken is given back.
\<close>

section \<open>Starting a job\<close>

text \<open>A controller that stops a channel when it is asked to. The driver loops or panics otherwise.\<close>

definition channel_stops :: "'d mmio \<Rightarrow> nat \<Rightarrow> bool" where
  "channel_stops io c \<longleftrightarrow> (\<forall>d. \<exists>chr d'. dwc2_channel_ensure_disabled io c d = Some (Inr (chr, d')))"

lemma prepare_ok:
  assumes "channel_stops io c" "ch_pipe s c \<noteq> NULL" "xc_dma_addr_base (ctl c s) AND 3 = 0"
  obtains d x where "dwc2_transfer_prepare io c s = Some (Inr (upd_ctl c (\<lambda>_. x) (s\<lparr>hw := d\<rparr>)))"
    "x = (ctl c s)\<lparr>xc_status := DWC2_TRANSFER_STATUS_STARTED,
       xc_split_start := (if dwc2_channel_split_mode (pipes s (ch_pipe s c)) then True else xc_split_start (ctl c s)),
       xc_dma_addr := xc_dma_addr_base (ctl c s), xc_first_packet := True\<rparr>"
proof -
  let ?p = "pipes s (ch_pipe s c)"
  let ?d = "dwc2_channel_clear_pending io c (dwc2_channel_disable io c (hw s))"
  obtain chr d' where d': "dwc2_channel_ensure_disabled io c ?d = Some (Inr (chr, d'))"
    using assms(1) unfolding channel_stops_def by blast
  let ?y = "(ctl c s)\<lparr>xc_status := DWC2_TRANSFER_STATUS_STARTED\<rparr>"
  define e where "e = dwc2_channel_program_tsize io c ?p ?y (dwc2_channel_program_split io c ?p
      (write_ch_reg io USB_HCCHAR0 c (channel_char ?p ?y chr) d'))"
  show thesis
  proof (rule that [OF _ refl])
    show "dwc2_transfer_prepare io c s = Some (Inr (upd_ctl c (\<lambda>_. (ctl c s)\<lparr>xc_status := DWC2_TRANSFER_STATUS_STARTED,
       xc_split_start := (if dwc2_channel_split_mode ?p then True else xc_split_start (ctl c s)),
       xc_dma_addr := xc_dma_addr_base (ctl c s), xc_first_packet := True\<rparr>) (s\<lparr>hw := e\<rparr>)))"
      using assms(2,3) d'
      by (simp add: dwc2_transfer_prepare_def dwc2_channel_get_pipe_safe_def dwc2_channel_program_char_def Let_def e_def)
        (simp add: upd_ctl_def upd_xc_def upd_hw_def ctl_def)
  qed
qed

lemma start_ok:
  assumes "ch_pipe s c \<noteq> NULL" "xc_dma_addr (ctl c s) AND 3 = 0"
  obtains d b where "dwc2_transfer_start io c s = Inr (upd_ctl c (xc_split_start_update (\<lambda>_. b)) (s\<lparr>hw := d\<rparr>))"
proof -
  let ?p = "pipes s (ch_pipe s c)"
  have id: "s\<lparr>hw := d\<rparr> = upd_ctl c (xc_split_start_update (\<lambda>_. xc_split_start (ctl c s))) (s\<lparr>hw := d\<rparr>)" for d
    by (simp add: upd_ctl_def upd_xc_def ctl_def)
  have "\<exists>d b. dwc2_transfer_start io c s = Inr (upd_ctl c (xc_split_start_update (\<lambda>_. b)) (s\<lparr>hw := d\<rparr>))"
  proof (cases "dwc2_channel_split_mode ?p")
    case True
    define f where "f = (if xc_split_start (ctl c s)
        then (\<lambda>d. if xc_dma_addr (ctl c s) \<noteq> 0
                  then write_ch_reg io USB_HCDMA0 c (RAM_PHY_TO_BUS_UNCACHED (xc_dma_addr (ctl c s))) (dwc2_channel_set_split_start io c d)
                  else dwc2_channel_set_split_start io c d)
        else dwc2_channel_set_split_complete io c)"
    have "dwc2_transfer_start io c s = Inr (upd_ctl c (xc_split_start_update (\<lambda>_. \<not> xc_split_start (ctl c s)))
        (s\<lparr>hw := dwc2_channel_start_transmit io c ?p (f (hw s))\<rparr>))"
      using True assms
      by (simp add: dwc2_transfer_start_def dwc2_channel_get_pipe_safe_def dwc2_channel_set_dma_addr_def f_def)
        (simp add: upd_hw_def upd_ctl_def upd_xc_def ctl_def)
    then show ?thesis by blast
  next
    case False
    define f where "f = (\<lambda>d. if xc_dma_addr (ctl c s) \<noteq> 0
        then write_ch_reg io USB_HCDMA0 c (RAM_PHY_TO_BUS_UNCACHED (xc_dma_addr (ctl c s))) d else d)"
    have "dwc2_transfer_start io c s = Inr (s\<lparr>hw := dwc2_channel_start_transmit io c ?p (f (hw s))\<rparr>)"
      using False assms
      by (simp add: dwc2_transfer_start_def dwc2_channel_get_pipe_safe_def dwc2_channel_set_dma_addr_def upd_hw_def f_def)
    then show ?thesis using id by metis
  qed
  then show thesis using that by blast
qed

text \<open>What a job asks of a channel is in its transfer control.\<close>

definition carries :: "xfer_control \<Rightarrow> ptr \<Rightarrow> usb_xfer_job \<Rightarrow> bool" where
  "carries x j job \<longleftrightarrow> xc_dma_addr_base x = of_nat (xj_addr job) \<and> xc_direction x = xj_direction job \<and>
     xc_transfer_size x = xj_transfer_size job \<and> xc_completion x = Some j \<and> xc_status x = DWC2_TRANSFER_STATUS_STARTED"

lemma one_job_ok:
  assumes "channel_stops io c" "jc_channel (q_jcs s (xj_jc (q_jobs s j))) = Some c" "ch_pipe s c \<noteq> NULL"
    "(of_nat (xj_addr (q_jobs s j)) :: u64) AND 3 = 0"
  obtains d x p where "dwc2_xfer_one_job io j s = Some (Inr (s\<lparr>hw := d, xcs := (xcs s)(ch_ctl s c := x), pipes := p\<rparr>))"
    "carries x j (q_jobs s j)" "xc_channel x = xc_channel (ctl c s)"
proof -
  let ?x = "q_jobs s j"
  define s1 where "s1 = upd_ctl c (\<lambda>k. k\<lparr>xc_dma_addr_base := of_nat (xj_addr ?x), xc_direction := xj_direction ?x,
      xc_transfer_size := xj_transfer_size ?x\<rparr>) s"
  define p where "p = (if xj_next_pid ?x \<noteq> USB_PID_UNSET
      then (pipes s)(ch_pipe s c := (pipes s (ch_pipe s c))\<lparr>next_pid := xj_next_pid ?x\<rparr>) else pipes s)"
  define s2 where "s2 = upd_ctl c (\<lambda>k. k\<lparr>xc_completion := Some j\<rparr>) (s1\<lparr>pipes := p\<rparr>)"
  have pid: "(if xj_next_pid ?x \<noteq> USB_PID_UNSET then dwc2_channel_set_next_pid c (xj_next_pid ?x) s1 else Inr s1) = Inr (s1\<lparr>pipes := p\<rparr>)"
    using assms(3) by (simp add: s1_def p_def dwc2_channel_set_next_pid_def dwc2_channel_get_pipe_safe_def upd_ctl_def upd_xc_def)
  have c2: "ctl c s2 = (ctl c s)\<lparr>xc_dma_addr_base := of_nat (xj_addr ?x), xc_direction := xj_direction ?x,
      xc_transfer_size := xj_transfer_size ?x, xc_completion := Some j\<rparr>"
    by (simp add: s2_def s1_def ctl_def upd_ctl_def upd_xc_def)
  have "ch_pipe s2 c \<noteq> NULL" "xc_dma_addr_base (ctl c s2) AND 3 = 0"
    using assms(3,4) c2 by (simp_all add: s2_def s1_def)
  from prepare_ok [OF assms(1) this] obtain d x where dx:
    "dwc2_transfer_prepare io c s2 = Some (Inr (upd_ctl c (\<lambda>_. x) (s2\<lparr>hw := d\<rparr>)))"
    "x = (ctl c s2)\<lparr>xc_status := DWC2_TRANSFER_STATUS_STARTED,
       xc_split_start := (if dwc2_channel_split_mode (pipes s2 (ch_pipe s2 c)) then True else xc_split_start (ctl c s2)),
       xc_dma_addr := xc_dma_addr_base (ctl c s2), xc_first_packet := True\<rparr>" by metis
  let ?s3 = "upd_ctl c (\<lambda>_. x) (s2\<lparr>hw := d\<rparr>)"
  have "ch_pipe ?s3 c \<noteq> NULL" using assms(3) by (simp add: s2_def s1_def)
  moreover have "xc_dma_addr (ctl c ?s3) AND 3 = 0" using assms(4) by (simp add: dx(2) c2)
  ultimately obtain d' b where st:
    "dwc2_transfer_start io c ?s3 = Inr (upd_ctl c (xc_split_start_update (\<lambda>_. b)) (?s3\<lparr>hw := d'\<rparr>))"
    by (rule start_ok)
  have "upd_ctl c (xc_split_start_update (\<lambda>_. b)) (?s3\<lparr>hw := d'\<rparr>) =
      s\<lparr>hw := d', xcs := (xcs s)(ch_ctl s c := x\<lparr>xc_split_start := b\<rparr>), pipes := p\<rparr>"
    by (simp add: s2_def s1_def upd_ctl_def upd_xc_def)
  then have "dwc2_xfer_one_job io j s = Some (Inr (s\<lparr>hw := d', xcs := (xcs s)(ch_ctl s c := x\<lparr>xc_split_start := b\<rparr>), pipes := p\<rparr>))"
    using assms(2) pid dx(1) st by (simp add: dwc2_xfer_one_job_def Let_def s1_def [symmetric] s2_def [symmetric])
  moreover have "carries (x\<lparr>xc_split_start := b\<rparr>) j ?x" "xc_channel (x\<lparr>xc_split_start := b\<rparr>) = xc_channel (ctl c s)"
    using dx(2) c2 by (simp_all add: carries_def)
  ultimately show thesis by (rule that)
qed

section \<open>List operations of the queue\<close>

lemma nodes_inverse [simp]: "job_of_node (job_node j) = j" "jc_of_node (jc_node jc) = jc"
  by (simp_all add: job_of_node_def job_node_def jc_of_node_def jc_node_def)

lemma job_node_eq [simp]: "job_node i = job_node j \<longleftrightarrow> i = j" by (simp add: job_node_def)

lemma set_running_ok:
  assumes r: "rings (usb_lists s) H Q" "a \<in> H" "jobs_running L \<in> H" "a \<noteq> jobs_running L" "job_node j \<in> set (Q a)"
    and c: "channel_stops io c" "jc_channel (q_jcs s (xj_jc (q_jobs s j))) = Some c" "ch_pipe s c \<noteq> NULL"
      "(of_nat (xj_addr (q_jobs s j)) :: u64) AND 3 = 0"
  obtains d x p h where "usb_xfer_job_set_running L io j s = Some (Inr ((upd_job j (\<lambda>x. x\<lparr>xj_completed := False, xj_err := ERR_OK\<rparr>) s)
      \<lparr>hw := d, xcs := (xcs s)(ch_ctl s c := x), pipes := p, usb_lists := h\<rparr>))"
    "carries x j (q_jobs s j)"
    "rings h H (Q(a := remove1 (job_node j) (Q a), jobs_running L := Q (jobs_running L) @ [job_node j]))"
proof -
  let ?s = "upd_job j (\<lambda>x. x\<lparr>xj_completed := False, xj_err := ERR_OK\<rparr>) s"
  have "jc_channel (q_jcs ?s (xj_jc (q_jobs ?s j))) = Some c" "ch_pipe ?s c \<noteq> NULL" "(of_nat (xj_addr (q_jobs ?s j)) :: u64) AND 3 = 0"
    using c(2-4) by (simp_all add: upd_job_def)
  from one_job_ok [OF c(1) this] obtain d x p where o:
    "dwc2_xfer_one_job io j ?s = Some (Inr (?s\<lparr>hw := d, xcs := (xcs ?s)(ch_ctl ?s c := x), pipes := p\<rparr>))"
    "carries x j (q_jobs ?s j)" by metis
  let ?h = "list_move_tail (job_node j) (jobs_running L) (usb_lists s)"
  have "usb_xfer_job_set_running L io j s = Some (Inr (?s\<lparr>hw := d, xcs := (xcs s)(ch_ctl s c := x), pipes := p, usb_lists := ?h\<rparr>))"
    using o(1) by (simp add: usb_xfer_job_set_running_def on_lists_def upd_job_def)
  moreover have "carries x j (q_jobs s j)" using o(2) by (simp add: carries_def upd_job_def)
  moreover have "rings ?h H (Q(a := remove1 (job_node j) (Q a), jobs_running L := Q (jobs_running L) @ [job_node j]))"
    using ll.move_tail [OF r] by (simp add: list_move_tail_def)
  ultimately show thesis by (rule that)
qed

text \<open>Giving back the jobs of a chain.\<close>

definition destroy_job_f :: "queue_layout \<Rightarrow> ptr \<Rightarrow> ('d, 'z) usbq_scheme \<Rightarrow> ('d, 'z) usbq_scheme" where
  "destroy_job_f L n s = usb_xfer_job_destroy L (job_of_node n) (on_lists (list_del_init n) s)"

text \<open>The state in the middle of the loop: \<open>js\<close> are the jobs that remain on the list at \<open>hd0\<close>, the others of \<open>all\<close> are free.\<close>

definition releasing ::
  "queue_layout \<Rightarrow> ptr \<Rightarrow> ptr list \<Rightarrow> ('d, 'z) usbq_scheme \<Rightarrow> ptr set \<Rightarrow> (ptr \<Rightarrow> ptr list) \<Rightarrow> ptr list \<Rightarrow> ('d, 'z) usbq_scheme \<Rightarrow> bool" where
  "releasing L hd0 all s0 H0 Q0 ns s \<longleftrightarrow>
     (\<exists>h gone js H Q. s = s0\<lparr>usb_lists := h\<rparr> \<and> all = gone @ js \<and> ns = map job_node js \<and> rings h H Q \<and> H0 \<subseteq> H \<and>
        Q hd0 = map job_node js \<and> distinct js \<and> set js \<subseteq> set (Q (slot_active (job_pool L))) \<and>
        Q (slot_free (job_pool L)) = rev gone @ Q0 (slot_free (job_pool L)) \<and>
        (\<forall>a \<in> H0 - {hd0, slot_active (job_pool L), slot_free (job_pool L)}. Q a = Q0 a))"

lemma releasing_step:
  assumes "releasing L hd0 all s0 H0 Q0 (n # ns) s"
    and H0: "hd0 \<in> H0" "slot_active (job_pool L) \<in> H0" "slot_free (job_pool L) \<in> H0"
      "distinct [hd0, slot_active (job_pool L), slot_free (job_pool L)]"
  shows "releasing L hd0 all s0 H0 Q0 ns (destroy_job_f L n s)"
proof -
  let ?a = "slot_active (job_pool L)" and ?f = "slot_free (job_pool L)"
  obtain h gone js H Q where R: "s = s0\<lparr>usb_lists := h\<rparr>" "all = gone @ js" "n # ns = map job_node js" "rings h H Q" "H0 \<subseteq> H"
    "Q hd0 = map job_node js" "distinct js" "set js \<subseteq> set (Q ?a)" "Q ?f = rev gone @ Q0 ?f"
    "\<forall>a \<in> H0 - {hd0, ?a, ?f}. Q a = Q0 a"
    using assms(1) unfolding releasing_def by (elim exE conjE) (rule that)
  obtain j ks where js: "js = j # ks" "n = job_node j" "ns = map job_node ks" using R(3) by (cases js) auto
  have hH: "hd0 \<in> H" "?a \<in> H" "?f \<in> H" using R(5) H0(1-3) by auto
  have n: "n \<in> set (Q hd0)" using R(6) js by simp
  have nH: "n \<notin> H" using ll.head_not_member [OF R(4) _ hH(1), of n] n by blast
  let ?Q1 = "Q(hd0 := remove1 n (Q hd0), n := [])"
  have r1: "rings (list_del_init n h) (insert n H) ?Q1"
    using ll.detach [OF R(4) hH(1) n] by (simp add: list_del_init_eq)
  have ne: "n \<noteq> ?a" "n \<noteq> ?f" "n \<noteq> hd0" using nH hH by auto
  have j: "j \<in> set (?Q1 ?a)" using R(8) js ne H0(4) by auto
  let ?h = "slot_release (job_pool L) j (list_del_init n h)"
  let ?Q2 = "?Q1(?a := remove1 j (?Q1 ?a), ?f := j # ?Q1 ?f)"
  have r2: "rings ?h (insert n H) ?Q2"
    using ll.move_head [OF r1, of ?a ?f j] hH H0(4) j by (simp add: slot_release_def list_move_def)
  have Q2: "?Q2 hd0 = map job_node ks" "?Q2 ?a = remove1 j (Q ?a)" "?Q2 ?f = j # Q ?f"
    using R(6) js ne H0(4) by auto
  have oth: "?Q2 a = Q0 a" if "a \<in> H0 - {hd0, ?a, ?f}" for a
    using that R(5,10) nH by auto
  have act: "set ks \<subseteq> set (remove1 j (Q ?a))"
  proof
    fix x
    assume "x \<in> set ks"
    then have "x \<noteq> j" "x \<in> set (Q ?a)" using R(7,8) js(1) by auto
    then show "x \<in> set (remove1 j (Q ?a))" by (simp add: in_set_remove1)
  qed
  have "destroy_job_f L n s = s0\<lparr>usb_lists := ?h\<rparr>"
    by (simp add: destroy_job_f_def usb_xfer_job_destroy_def on_lists_def R(1) js(2))
  moreover have "all = (gone @ [j]) @ ks" using R(2) js(1) by simp
  moreover have "H0 \<subseteq> insert n H" using R(5) by auto
  moreover have "distinct ks" using R(7) js(1) by simp
  moreover have "?Q2 ?f = rev (gone @ [j]) @ Q0 ?f" using Q2(3) R(9) by simp
  ultimately show ?thesis
    unfolding releasing_def
    by (intro exI [of _ ?h] exI [of _ "gone @ [j]"] exI [of _ ks] exI [of _ "insert n H"] exI [of _ ?Q2] conjI ballI)
      (simp_all only: js(3) r2 Q2(1,2) act oth)
qed

lemma releasing_link:
  assumes "releasing L hd0 all s0 H0 Q0 (n # ns) s" "hd0 \<in> H0"
  shows "n \<noteq> hd0 \<and> nxt (usb_lists s) n = (case ns of [] \<Rightarrow> hd0 | y # _ \<Rightarrow> y)"
proof -
  obtain h js H Q where R: "s = s0\<lparr>usb_lists := h\<rparr>" "n # ns = map job_node js" "rings h H Q" "H0 \<subseteq> H" "Q hd0 = map job_node js"
    using assms(1) unfolding releasing_def by (elim exE conjE) (rule that)
  have hd: "hd0 \<in> H" using assms(2) R(4) by auto
  have "Q hd0 = [] @ n # ns" using R(2,5) by simp
  then have "list_next_entry n h = (case ns of [] \<Rightarrow> hd0 | y # _ \<Rightarrow> y)" by (rule rings_next [OF R(3) hd])
  moreover have "n \<noteq> hd0" using ll.wf_distinct [OF R(3) hd] R(2,5) by auto
  ultimately show ?thesis by (simp add: R(1) list_next_entry_def)
qed

lemma release_jobs:
  assumes r: "rings (usb_lists s) H Q" and H: "hd0 \<in> H" "slot_active (job_pool L) \<in> H" "slot_free (job_pool L) \<in> H"
      "distinct [hd0, slot_active (job_pool L), slot_free (job_pool L)]"
    and js: "Q hd0 = map job_node js" "distinct js" "set js \<subseteq> set (Q (slot_active (job_pool L)))"
  obtains h H' Q' where "list_for_each_entry_safe usb_lists (destroy_job L) hd0 s = Some (Inr (s\<lparr>usb_lists := h\<rparr>))"
    "rings h H' Q'" "H \<subseteq> H'" "Q' hd0 = []" "Q' (slot_free (job_pool L)) = rev js @ Q (slot_free (job_pool L))"
    "\<forall>a \<in> H - {hd0, slot_active (job_pool L), slot_free (job_pool L)}. Q' a = Q a"
proof -
  let ?R = "releasing L hd0 js s H Q"
  have R0: "?R (map job_node js) s"
    unfolding releasing_def using r js by (intro exI [of _ "usb_lists s"] exI [of _ "[]"] exI [of _ js] exI [of _ H] exI [of _ Q]) simp
  have step: "destroy_job L x t = Inr (destroy_job_f L x t) \<and> ?R ys (destroy_job_f L x t)" if "?R (x # ys) t" for x ys t
    using releasing_step [OF that H] by (simp add: destroy_job_def destroy_job_f_def)
  have link: "x \<noteq> hd0 \<and> nxt (usb_lists t) x = (case ys of [] \<Rightarrow> hd0 | y # _ \<Rightarrow> y)" if "?R (x # ys) t" for x ys t
    by (rule releasing_link [OF that H(1)])
  let ?t = "fold (destroy_job_f L) (map job_node js) s"
  have ring: "ring (usb_lists s) hd0 (map job_node js)" using rings_ring [OF r H(1)] js(1) by simp
  have loop: "list_for_each_entry_safe usb_lists (destroy_job L) hd0 s = Some (Inr ?t)"
    by (rule list_for_each_entry_safe_fold(1) [where R = ?R and xs = "map job_node js"]) (erule step, erule link, rule R0, rule ring)
  have end_: "?R [] ?t"
    by (rule list_for_each_entry_safe_fold(2) [where R = ?R and lh = usb_lists and body = "destroy_job L"])
      (erule step, erule link, rule R0, rule ring)
  obtain h gone ks H' Q' where f: "?t = s\<lparr>usb_lists := h\<rparr>" "js = gone @ ks" "[] = map job_node ks" "rings h H' Q'" "H \<subseteq> H'"
    "Q' hd0 = map job_node ks" "Q' (slot_free (job_pool L)) = rev gone @ Q (slot_free (job_pool L))"
    "\<forall>a \<in> H - {hd0, slot_active (job_pool L), slot_free (job_pool L)}. Q' a = Q a"
    using end_ unfolding releasing_def by (elim exE conjE) (rule that)
  have ks: "ks = []" using f(3) by simp
  show thesis
    by (rule that [OF _ f(4,5) _ _ f(8)]) (simp_all add: loop [unfolded f(1)] f(6,7) ks f(2))
qed

lemma release_no_jobs:
  assumes "rings (usb_lists s) H Q" "hd0 \<in> H" "Q hd0 = []"
  shows "list_for_each_entry_safe usb_lists (destroy_job L) hd0 s = Some (Inr s)"
proof -
  have "list_first_entry hd0 (usb_lists s) = hd0"
    using ll.wf_is_empty [OF assms(1,2)] assms(3) by (simp add: list_empty_def list_first_entry_def)
  then show ?thesis by (simp add: list_for_each_entry_safe_def for_each_safe_loop.simps)
qed

section \<open>A chain on its channel\<close>

definition chain_heads :: "queue_layout \<Rightarrow> ptr \<Rightarrow> ptr list" where
  "chain_heads L jc = [jobs_running L, jc_jobs jc, jc_completed_jobs jc, slot_free (job_pool L), slot_active (job_pool L),
     slot_free (jc_pool L), slot_active (jc_pool L), slot_free (ctl_pool L), slot_active (ctl_pool L)]"

text \<open>\<open>chain_at \<dots> gone cur todo\<close>: chain \<open>jc\<close> has channel \<open>c\<close>, the jobs \<open>gone\<close> have completed, the controller works on
  \<open>cur\<close>, and \<open>todo\<close> follows.\<close>

definition chain_at ::
  "queue_layout \<Rightarrow> ('d, 'z) usbq_scheme \<Rightarrow> ptr set \<Rightarrow> (ptr \<Rightarrow> ptr list) \<Rightarrow> ptr \<Rightarrow> nat \<Rightarrow> ptr list \<Rightarrow> ptr \<Rightarrow> ptr list \<Rightarrow> bool" where
  "chain_at L s H Q jc c gone cur todo \<longleftrightarrow>
     rings (usb_lists s) H Q \<and> distinct (chain_heads L jc) \<and> set (chain_heads L jc) \<subseteq> H \<and>
     Q (jobs_running L) = [job_node cur] \<and> Q (jc_completed_jobs jc) = map job_node gone \<and> Q (jc_jobs jc) = map job_node todo \<and>
     distinct (gone @ cur # todo) \<and> set (gone @ cur # todo) \<subseteq> set (Q (slot_active (job_pool L))) \<and>
     (\<forall>j \<in> set (cur # todo). xj_jc (q_jobs s j) = jc \<and> (of_nat (xj_addr (q_jobs s j)) :: u64) AND 3 = 0) \<and>
     jc \<in> set (Q (slot_active (jc_pool L))) \<and> ch_ctl s c \<in> set (Q (slot_active (ctl_pool L))) \<and>
     jc_channel (q_jcs s jc) = Some c \<and> jc_err (q_jcs s jc) = ERR_OK \<and> ch_pipe s c \<noteq> NULL \<and> c \<in> busy_channels s \<and>
     carries (ctl c s) cur (q_jobs s cur)"

lemma chain_atD:
  assumes "chain_at L s H Q jc c gone cur todo"
  shows "rings (usb_lists s) H Q" "distinct (chain_heads L jc)" "set (chain_heads L jc) \<subseteq> H"
    "Q (jobs_running L) = [job_node cur]" "Q (jc_completed_jobs jc) = map job_node gone" "Q (jc_jobs jc) = map job_node todo"
    "distinct (gone @ cur # todo)" "set (gone @ cur # todo) \<subseteq> set (Q (slot_active (job_pool L)))"
    "j \<in> set (cur # todo) \<Longrightarrow> xj_jc (q_jobs s j) = jc" "j \<in> set (cur # todo) \<Longrightarrow> (of_nat (xj_addr (q_jobs s j)) :: u64) AND 3 = 0"
    "jc \<in> set (Q (slot_active (jc_pool L)))" "ch_ctl s c \<in> set (Q (slot_active (ctl_pool L)))"
    "jc_channel (q_jcs s jc) = Some c" "jc_err (q_jcs s jc) = ERR_OK" "ch_pipe s c \<noteq> NULL" "c \<in> busy_channels s"
    "carries (ctl c s) cur (q_jobs s cur)"
  using assms unfolding chain_at_def by blast+

lemma chain_headsD:
  assumes "distinct (chain_heads L jc)"
  shows "jobs_running L \<noteq> jc_jobs jc" "jobs_running L \<noteq> jc_completed_jobs jc" "jc_jobs jc \<noteq> jc_completed_jobs jc"
    "{jobs_running L, jc_jobs jc, jc_completed_jobs jc} \<inter> {slot_free (job_pool L), slot_active (job_pool L),
       slot_free (jc_pool L), slot_active (jc_pool L), slot_free (ctl_pool L), slot_active (ctl_pool L)} = {}"
    "distinct [slot_free (job_pool L), slot_active (job_pool L),
       slot_free (jc_pool L), slot_active (jc_pool L), slot_free (ctl_pool L), slot_active (ctl_pool L)]"
  using assms unfolding chain_heads_def by auto

text \<open>The controller completes the current job: the device may have done anything to the hardware, and the interrupt handler calls the
  completion. Then the worker runs.\<close>

definition serve_job ::
  "queue_layout \<Rightarrow> 'd mmio \<Rightarrow> ('d \<Rightarrow> 'd) \<Rightarrow> ptr \<Rightarrow> ('d, 'z) usbq_scheme \<Rightarrow> ('d, 'z) usbq_scheme run" where
  "serve_job L io e j s = run_bind (Some (usb_xfer_handle_completed j (upd_hw e s))) (usb_xfer_process_running L io)"

lemma run_bind_return [simp]: "run_bind m (\<lambda>s. Some (Inr s)) = m"
  by (cases m) (auto simp: run_bind_def split: sum.splits)

lemma process_running_single:
  assumes "rings (usb_lists s) H Q" "jobs_running L \<in> H" "Q (jobs_running L) = [n]"
  shows "usb_xfer_process_running L io s = process_job L io n s"
proof -
  have first: "list_first_entry (jobs_running L) (usb_lists s) = n" using ll.wf_first [OF assms(1,2)] assms(3) by simp
  have nx: "list_next_entry n (usb_lists s) = jobs_running L" using rings_next [OF assms(1,2), of "[]" n "[]"] assms(3) by simp
  have ne: "n \<noteq> jobs_running L" using ll.wf_distinct [OF assms(1,2)] assms(3) by auto
  have stop: "process_running_loop L io (jobs_running L) t s = Some (Inr s)" for t s
    by (subst process_running_loop.simps) simp
  show ?thesis
    unfolding usb_xfer_process_running_def Let_def first nx
    by (subst process_running_loop.simps) (simp add: ne stop)
qed

text \<open>The state when the completion has been called, and the current job is on the list of completed ones.\<close>

definition completed_state :: "('d \<Rightarrow> 'd) \<Rightarrow> ptr \<Rightarrow> list_heap \<Rightarrow> ('d, 'z) usbq_scheme \<Rightarrow> ('d, 'z) usbq_scheme" where
  "completed_state e j h s = (upd_job j (\<lambda>x. x\<lparr>xj_err := ERR_OK, xj_completed := True\<rparr>) (upd_hw e s))\<lparr>has_work := True, usb_lists := h\<rparr>"

lemma serve_job_cases:
  assumes C: "chain_at L s H Q jc c gone cur todo"
  defines "h \<equiv> list_move_tail (job_node cur) (jc_completed_jobs jc) (usb_lists s)"
  shows "serve_job L io e cur s =
      (if todo = [] then finish_chain L jc c (completed_state e cur h s)
       else usb_xfer_job_set_running L io (hd todo) (completed_state e cur h s))"
    and "rings h H (Q(jobs_running L := [], jc_completed_jobs jc := map job_node (gone @ [cur])))"
proof -
  note D = chain_atD [OF C]
  note r = D(1)
  have H: "jobs_running L \<in> H" "jc_jobs jc \<in> H" "jc_completed_jobs jc \<in> H" using D(3) by (simp_all add: chain_heads_def)
  note d = chain_headsD(1-3) [OF D(2)]
  note Q = D(4,5,6)
  have cur: "xj_jc (q_jobs s cur) = jc" "jc_channel (q_jcs s jc) = Some c" "carries (ctl c s) cur (q_jobs s cur)"
    using D(9) [of cur] D(13,17) by simp_all
  have st: "xc_status (ctl c s) = 0" using cur(3) by (simp add: carries_def DWC2_TRANSFER_STATUS_STARTED_def)
  define t where "t = (upd_job cur (\<lambda>x. x\<lparr>xj_err := ERR_OK, xj_completed := True\<rparr>) (upd_hw e s))\<lparr>has_work := True\<rparr>"
  have neq: "ERR_OK \<noteq> ERR_RETRY" by (simp add: err_defs)
  have hc: "usb_xfer_handle_completed cur (upd_hw e s) = Inr t"
    using cur(1,2) st by (simp add: t_def usb_xfer_handle_completed_def Let_def dwc2_statuses upd_job_def upd_hw_def ctl_def)
  have lists: "usb_lists t = usb_lists s" by (simp add: t_def upd_job_def upd_hw_def)
  have pr: "usb_xfer_process_running L io t = process_job L io (job_node cur) t"
    by (rule process_running_single [where H = H and Q = Q]) (simp_all only: lists r H(1) Q(1))
  show rh: "rings h H (Q(jobs_running L := [], jc_completed_jobs jc := map job_node (gone @ [cur])))"
    using ll.move_tail [OF r H(1,3) d(2), of "job_node cur"] Q(1,2) by (simp add: h_def list_move_tail_def)
  have emp: "list_empty (jc_jobs jc) h \<longleftrightarrow> todo = []"
    using ll.wf_is_empty [OF rh H(2)] d Q(3) by simp
  have first: "list_first_entry (jc_jobs jc) h = job_node (hd todo)" if "todo \<noteq> []"
    using ll.wf_first [OF rh H(2)] d Q(3) that by (simp add: hd_map)
  have cs: "on_lists (list_move_tail (job_node cur) (jc_completed_jobs jc)) t = completed_state e cur h s"
    by (simp add: t_def on_lists_def completed_state_def h_def upd_job_def upd_hw_def)
  have ju: "xj_completed (q_jobs t cur)" "xj_jc (q_jobs t cur) = jc" "jc_channel (q_jcs t jc) = Some c" "xc_status (ctl c t) = 0"
    "xj_err (q_jobs (completed_state e cur h s) cur) = ERR_OK" "usb_lists (completed_state e cur h s) = h"
    using cur st by (simp_all add: t_def upd_job_def upd_hw_def ctl_def completed_state_def)
  have "process_job L io (job_node cur) t =
      (if todo = [] then finish_chain L jc c (completed_state e cur h s)
       else usb_xfer_job_set_running L io (hd todo) (completed_state e cur h s))"
    unfolding process_job_def Let_def nodes_inverse
    using ju emp first neq by (simp add: cs dwc2_statuses)
  then show "serve_job L io e cur s =
      (if todo = [] then finish_chain L jc c (completed_state e cur h s)
       else usb_xfer_job_set_running L io (hd todo) (completed_state e cur h s))"
    by (simp add: serve_job_def hc pr)
qed

text \<open>From a job to the next one of its chain.\<close>

lemma chain_step:
  assumes C: "chain_at L s H Q jc c gone cur (j # todo)" and io: "channel_stops io c"
  obtains s' Q' where "serve_job L io e cur s = Some (Inr s')" "chain_at L s' H Q' jc c (gone @ [cur]) j todo"
    "flags s' = flags s" "channels_bitmap s' = channels_bitmap s" "ch_ctl s' = ch_ctl s" "q_jcs s' = q_jcs s"
    "\<forall>x y. carries y x (q_jobs s' x) = carries y x (q_jobs s x)"
    "\<forall>a. a \<notin> {jobs_running L, jc_jobs jc, jc_completed_jobs jc} \<longrightarrow> Q' a = Q a"
proof -
  define h where "h = list_move_tail (job_node cur) (jc_completed_jobs jc) (usb_lists s)"
  define u where "u = completed_state e cur h s"
  let ?Q1 = "Q(jobs_running L := [], jc_completed_jobs jc := map job_node (gone @ [cur]))"
  note D = chain_atD [OF C]
  have H: "jobs_running L \<in> H" "jc_jobs jc \<in> H" using D(3) by (simp_all add: chain_heads_def)
  note d = chain_headsD(1) [OF D(2), symmetric] chain_headsD(3,2) [OF D(2)]
  note Q = D(6)
  have j: "xj_jc (q_jobs s j) = jc" "(of_nat (xj_addr (q_jobs s j)) :: u64) AND 3 = 0" "jc_channel (q_jcs s jc) = Some c" "ch_pipe s c \<noteq> NULL"
    using D(9) [of j] D(10) [of j] D(13,15) by simp_all
  have run: "serve_job L io e cur s = usb_xfer_job_set_running L io j u" and r: "rings (usb_lists u) H ?Q1"
    using serve_job_cases(1) [OF C, of io e] serve_job_cases(2) [OF C] by (simp_all add: h_def u_def completed_state_def)
  have uj: "xj_jc (q_jobs u i) = xj_jc (q_jobs s i)" "xj_addr (q_jobs u i) = xj_addr (q_jobs s i)"
    "carries y i (q_jobs u i) = carries y i (q_jobs s i)" for i y
    by (simp_all add: u_def completed_state_def upd_job_def upd_hw_def carries_def)
  have us: "q_jcs u = q_jcs s" "ch_pipe u = ch_pipe s" "ch_ctl u = ch_ctl s" "flags u = flags s" "channels_bitmap u = channels_bitmap s"
    by (simp_all add: u_def completed_state_def upd_job_def upd_hw_def)
  have a1: "job_node j \<in> set (?Q1 (jc_jobs jc))" using Q d by simp
  have a2: "jc_channel (q_jcs u (xj_jc (q_jobs u j))) = Some c" "ch_pipe u c \<noteq> NULL" "(of_nat (xj_addr (q_jobs u j)) :: u64) AND 3 = 0"
    using j uj us by simp_all
  from set_running_ok [where L = L, OF r H(2,1) d(1) a1 io a2] obtain dd x p h' where sr:
    "usb_xfer_job_set_running L io j u = Some (Inr ((upd_job j (\<lambda>x. x\<lparr>xj_completed := False, xj_err := ERR_OK\<rparr>) u)
      \<lparr>hw := dd, xcs := (xcs u)(ch_ctl u c := x), pipes := p, usb_lists := h'\<rparr>))" "carries x j (q_jobs u j)"
    "rings h' H (?Q1(jc_jobs jc := remove1 (job_node j) (?Q1 (jc_jobs jc)), jobs_running L := ?Q1 (jobs_running L) @ [job_node j]))"
    by metis
  define s' where "s' = (upd_job j (\<lambda>x. x\<lparr>xj_completed := False, xj_err := ERR_OK\<rparr>) u)
      \<lparr>hw := dd, xcs := (xcs u)(ch_ctl u c := x), pipes := p, usb_lists := h'\<rparr>"
  define Q' where "Q' = ?Q1(jc_jobs jc := map job_node todo, jobs_running L := [job_node j])"
  have rq: "rings (usb_lists s') H Q'" using sr(3) Q d by (simp add: Q'_def s'_def)
  have Q'v: "Q' (jobs_running L) = [job_node j]" "Q' (jc_jobs jc) = map job_node todo"
    "Q' (jc_completed_jobs jc) = map job_node (gone @ [cur])"
    "\<forall>a. a \<notin> {jobs_running L, jc_jobs jc, jc_completed_jobs jc} \<longrightarrow> Q' a = Q a"
    using d by (simp_all add: Q'_def)
  have s's: "q_jcs s' = q_jcs s" "ch_pipe s' = ch_pipe s" "ch_ctl s' = ch_ctl s" "flags s' = flags s"
    "channels_bitmap s' = channels_bitmap s" "ctl c s' = x"
    using us by (simp_all add: s'_def upd_job_def ctl_def)
  have s'j: "xj_jc (q_jobs s' i) = xj_jc (q_jobs s i)" "xj_addr (q_jobs s' i) = xj_addr (q_jobs s i)"
    "carries y i (q_jobs s' i) = carries y i (q_jobs s i)" for i y
    using uj by (simp_all add: s'_def upd_job_def carries_def)
  have pools: "Q' (slot_active (job_pool L)) = Q (slot_active (job_pool L))" "Q' (slot_active (jc_pool L)) = Q (slot_active (jc_pool L))"
    "Q' (slot_active (ctl_pool L)) = Q (slot_active (ctl_pool L))"
    using chain_headsD(4) [OF D(2)] Q'v(4) by auto
  have "chain_at L s' H Q' jc c (gone @ [cur]) j todo"
    unfolding chain_at_def
  proof (intro conjI ballI)
    fix i
    assume "i \<in> set (j # todo)"
    then show "xj_jc (q_jobs s' i) = jc" "(of_nat (xj_addr (q_jobs s' i)) :: u64) AND 3 = 0"
      using D(9) [of i] D(10) [of i] s'j(1,2) by simp_all
  qed (use rq D(2,3,7,8,11-16) Q'v(1-3) s's s'j(3) sr(2) uj(3) pools in \<open>simp_all add: busy_channels_def\<close>)
  then show thesis
    using that [of s' Q'] run sr(1) s's s'j(3) Q'v(4) by (simp add: s'_def [symmetric])
qed

text \<open>What is left behind by a chain that has run to its end: the flag of the caller is set without an error, the channel is free, and the
  jobs, the chain and the transfer control are on the lists of free objects.\<close>

definition chain_returned ::
  "queue_layout \<Rightarrow> ('d, 'z) usbq_scheme \<Rightarrow> (ptr \<Rightarrow> ptr list) \<Rightarrow> ptr \<Rightarrow> nat \<Rightarrow> ptr list \<Rightarrow> ('d, 'z) usbq_scheme \<Rightarrow> bool" where
  "chain_returned L s Q jc c all s' \<longleftrightarrow>
     flags s' = (flags s)(jc_completed_arg (q_jcs s jc) := True) \<and> jc_err (q_jcs s' jc) = ERR_OK \<and>
     busy_channels s' = busy_channels s - {c} \<and>
     (\<exists>H' Q'. rings (usb_lists s') H' Q' \<and> Q' (jobs_running L) = [] \<and>
        Q' (slot_free (job_pool L)) = rev all @ Q (slot_free (job_pool L)) \<and>
        Q' (slot_free (jc_pool L)) = jc # Q (slot_free (jc_pool L)) \<and>
        Q' (slot_free (ctl_pool L)) = ch_ctl s c # Q (slot_free (ctl_pool L)))"

lemma busy_channel_destroy:
  assumes "c \<in> busy_channels s"
  shows "dwc2_channel_destroy c s = Inr (s\<lparr>channels_bitmap := channels_bitmap s AND NOT (push_bit c 1)\<rparr>)"
    and "busy_channels (s\<lparr>channels_bitmap := channels_bitmap s AND NOT (push_bit c 1)\<rparr>) = busy_channels s - {c}"
proof -
  have c: "c < NUM_CHANNELS" "bit (channels_bitmap s) c" using assms by (simp_all add: busy_channels_def)
  have "channels_bitmap s AND push_bit c 1 \<noteq> 0"
    using c by (subst bit_channel(1)) (simp_all add: NUM_CHANNELS_def)
  then show "dwc2_channel_destroy c s = Inr (s\<lparr>channels_bitmap := channels_bitmap s AND NOT (push_bit c 1)\<rparr>)"
    by (simp only: dwc2_channel_destroy_def Let_def if_False)
  show "busy_channels (s\<lparr>channels_bitmap := channels_bitmap s AND NOT (push_bit c 1)\<rparr>) = busy_channels s - {c}"
    by (rule busy_channels_set(2) [OF c(1)])
qed

lemma chain_finish:
  assumes C: "chain_at L s H Q jc c gone cur []"
  obtains s' where "serve_job L io e cur s = Some (Inr s')" "chain_returned L s Q jc c (gone @ [cur]) s'"
proof -
  note D = chain_atD [OF C]
  note hd = chain_headsD [OF D(2)]
  define h where "h = list_move_tail (job_node cur) (jc_completed_jobs jc) (usb_lists s)"
  define u where "u = completed_state e cur h s"
  define Q1 where "Q1 = Q(jobs_running L := [], jc_completed_jobs jc := map job_node (gone @ [cur]))"
  have H: "jobs_running L \<in> H" "jc_jobs jc \<in> H" "jc_completed_jobs jc \<in> H" "slot_free (job_pool L) \<in> H" "slot_active (job_pool L) \<in> H"
    "slot_free (jc_pool L) \<in> H" "slot_active (jc_pool L) \<in> H" "slot_free (ctl_pool L) \<in> H" "slot_active (ctl_pool L) \<in> H"
    using D(3) by (simp_all add: chain_heads_def)
  have run: "serve_job L io e cur s = finish_chain L jc c u" and r: "rings h H Q1"
    using serve_job_cases(1) [OF C, of io e] serve_job_cases(2) [OF C] by (simp_all add: h_def u_def Q1_def)
  have us: "q_jcs u = q_jcs s" "ch_ctl u = ch_ctl s" "flags u = flags s" "channels_bitmap u = channels_bitmap s" "usb_lists u = h"
    by (simp_all add: u_def completed_state_def upd_job_def upd_hw_def)
  have Q1: "Q1 (jobs_running L) = []" "Q1 (jc_jobs jc) = []" "Q1 (jc_completed_jobs jc) = map job_node (gone @ [cur])"
    "Q1 (slot_free (job_pool L)) = Q (slot_free (job_pool L))" "Q1 (slot_active (job_pool L)) = Q (slot_active (job_pool L))"
    "Q1 (slot_free (jc_pool L)) = Q (slot_free (jc_pool L))" "Q1 (slot_active (jc_pool L)) = Q (slot_active (jc_pool L))"
    "Q1 (slot_free (ctl_pool L)) = Q (slot_free (ctl_pool L))" "Q1 (slot_active (ctl_pool L)) = Q (slot_active (ctl_pool L))"
    using hd D(6) by (auto simp: Q1_def)
  \<comment> \<open>the transfer control\<close>
  let ?k = "ch_ctl s c" and ?cf = "slot_free (ctl_pool L)" and ?ca = "slot_active (ctl_pool L)"
  define h2 where "h2 = slot_release (ctl_pool L) ?k h"
  define Q2 where "Q2 = Q1(?ca := remove1 ?k (Q1 ?ca), ?cf := ?k # Q1 ?cf)"
  have ca: "?ca \<noteq> ?cf" using hd(5) by auto
  have r2: "rings h2 H Q2"
    using ll.move_head [OF r H(9,8) ca, of ?k] D(12) Q1(9) by (simp add: h2_def Q2_def slot_release_def list_move_def)
  have Q2: "Q2 a = Q1 a" if "a \<notin> {?ca, ?cf}" for a using that by (simp add: Q2_def)
  \<comment> \<open>the jobs\<close>
  define t where "t = u\<lparr>q_jcs := (q_jcs u)(jc := (q_jcs u jc)\<lparr>jc_channel := None\<rparr>), flags := (flags u)(jc_completed_arg (q_jcs u jc) := True),
     usb_lists := h2, ch_ctl := (ch_ctl u)(c := NULL), channels_bitmap := channels_bitmap u AND NOT (push_bit c 1)\<rparr>"
  have tl: "usb_lists t = h2" by (simp add: t_def)
  have e1: "list_for_each_entry_safe usb_lists (destroy_job L) (jc_jobs jc) t = Some (Inr t)"
    by (rule release_no_jobs [where H = H and Q = Q2]) (use r2 tl H(2) Q2 [of "jc_jobs jc"] Q1(2) hd(4) in auto)
  have jd: "distinct [jc_completed_jobs jc, slot_active (job_pool L), slot_free (job_pool L)]" using hd(4,5) by auto
  have jq: "Q2 (jc_completed_jobs jc) = map job_node (gone @ [cur])" "distinct (gone @ [cur])"
    "set (gone @ [cur]) \<subseteq> set (Q2 (slot_active (job_pool L)))"
    using D(7,8) Q1(3,5) Q2 [of "jc_completed_jobs jc"] Q2 [of "slot_active (job_pool L)"] hd(4,5) by auto
  obtain h3 H3 Q3 where e2: "list_for_each_entry_safe usb_lists (destroy_job L) (jc_completed_jobs jc) t = Some (Inr (t\<lparr>usb_lists := h3\<rparr>))"
    and r3: "rings h3 H3 Q3" "H \<subseteq> H3" "Q3 (slot_free (job_pool L)) = rev (gone @ [cur]) @ Q2 (slot_free (job_pool L))"
      "\<forall>a \<in> H - {jc_completed_jobs jc, slot_active (job_pool L), slot_free (job_pool L)}. Q3 a = Q2 a"
    using release_jobs [of t H Q2 "jc_completed_jobs jc" L "gone @ [cur]"] r2 tl H(3-5) jd jq by metis
  \<comment> \<open>the chain\<close>
  let ?jf = "slot_free (jc_pool L)" and ?ja = "slot_active (jc_pool L)"
  have Q3: "Q3 ?jf = Q ?jf" "Q3 ?ja = Q ?ja" "Q3 (jobs_running L) = []" "Q3 ?cf = ?k # Q ?cf"
    using r3(4) H hd Q1 by (auto simp: Q2_def)
  define h4 where "h4 = slot_release (jc_pool L) jc h3"
  define Q4 where "Q4 = Q3(?ja := remove1 jc (Q3 ?ja), ?jf := jc # Q3 ?jf)"
  have ja: "?ja \<noteq> ?jf" "?ja \<in> H3" "?jf \<in> H3" using hd(5) H r3(2) by auto
  have r4: "rings h4 H3 Q4"
    using ll.move_head [OF r3(1) ja(2,3,1), of jc] D(11) Q3(2)
    by (simp add: h4_def Q4_def slot_release_def list_move_def)
  let ?s' = "t\<lparr>usb_lists := h4\<rparr>"
  have busy: "c \<in> busy_channels u" using D(16) us(4) by (simp add: busy_channels_def)
  define v where "v = u\<lparr>q_jcs := (q_jcs u)(jc := (q_jcs u jc)\<lparr>jc_channel := None\<rparr>), flags := (flags u)(jc_completed_arg (q_jcs u jc) := True),
     usb_lists := h2, ch_ctl := (ch_ctl u)(c := NULL)\<rparr>"
  have "c \<in> busy_channels v" using busy by (simp add: v_def busy_channels_def)
  from busy_channel_destroy(1) [OF this] have dv: "dwc2_channel_destroy c v = Inr t" by (simp add: v_def t_def)
  have "finish_chain L jc c u = run_bind (Some (dwc2_channel_destroy c v)) (usb_xfer_jobchain_destroy L jc)"
    by (simp add: finish_chain_def Let_def v_def upd_jc_def dwc2_xfer_control_destroy_def us h2_def)
  then have fin: "finish_chain L jc c u = Some (Inr ?s')"
    by (simp add: dv usb_xfer_jobchain_destroy_def e1 e2 on_lists_def h4_def)
  have "chain_returned L s Q jc c (gone @ [cur]) ?s'"
  proof -
    have "busy_channels ?s' = busy_channels s - {c}"
      using busy_channel_destroy(2) [OF D(16)] us(4) by (simp add: t_def busy_channels_def)
    moreover have "Q4 (jobs_running L) = []" "Q4 ?jf = jc # Q ?jf" "Q4 ?cf = ?k # Q ?cf"
      "Q4 (slot_free (job_pool L)) = rev (gone @ [cur]) @ Q (slot_free (job_pool L))"
      using Q3 r3(3) hd Q1(4) by (auto simp: Q4_def Q2_def)
    ultimately show ?thesis
      unfolding chain_returned_def using r4 D(14) us by (auto simp: t_def)
  qed
  then show thesis using that run fin by simp
qed

section \<open>Whole chains\<close>

text \<open>Jobs that are served one after the other; collected is what the channel was programmed with for each of them.\<close>

fun serve_jobs ::
  "queue_layout \<Rightarrow> 'd mmio \<Rightarrow> nat \<Rightarrow> (('d \<Rightarrow> 'd) \<times> ptr) list \<Rightarrow> ('d, 'z) usbq_scheme \<Rightarrow> (xfer_control list \<times> ('d, 'z) usbq_scheme) run" where
  "serve_jobs L io c [] s = Some (Inr ([], s))"
| "serve_jobs L io c ((e, j) # ejs) s =
     run_bind (serve_job L io e j s) (\<lambda>t. run_bind (serve_jobs L io c ejs t) (\<lambda>(xs, t). Some (Inr (ctl c s # xs, t))))"

lemma chain_runs:
  assumes "chain_at L s H Q jc c gone cur todo" "channel_stops io c" "length es = length todo + 1"
  shows "\<exists>xs s'. serve_jobs L io c (zip es (cur # todo)) s = Some (Inr (xs, s')) \<and>
    list_all2 (\<lambda>j x. carries x j (q_jobs s j)) (cur # todo) xs \<and> chain_returned L s Q jc c (gone @ cur # todo) s'"
  using assms
proof (induction todo arbitrary: s Q gone cur es)
  case Nil
  obtain e where es: "es = [e]" using Nil.prems(3) by (cases es) auto
  obtain s' where s': "serve_job L io e cur s = Some (Inr s')" "chain_returned L s Q jc c (gone @ [cur]) s'"
    by (rule chain_finish [OF Nil.prems(1)])
  show ?case using s' chain_atD(17) [OF Nil.prems(1)] by (auto simp: es)
next
  case (Cons j todo)
  obtain e es' where es: "es = e # es'" "length es' = length todo + 1" using Cons.prems(3) by (cases es) auto
  obtain t Q' where t: "serve_job L io e cur s = Some (Inr t)" "chain_at L t H Q' jc c (gone @ [cur]) j todo"
    "flags t = flags s" "channels_bitmap t = channels_bitmap s" "ch_ctl t = ch_ctl s" "q_jcs t = q_jcs s"
    "\<forall>x y. carries y x (q_jobs t x) = carries y x (q_jobs s x)"
    "\<forall>a. a \<notin> {jobs_running L, jc_jobs jc, jc_completed_jobs jc} \<longrightarrow> Q' a = Q a"
    by (rule chain_step [OF Cons.prems(1,2)])
  obtain xs s' where s': "serve_jobs L io c (zip es' (j # todo)) t = Some (Inr (xs, s'))"
    "list_all2 (\<lambda>j x. carries x j (q_jobs t j)) (j # todo) xs" "chain_returned L t Q' jc c ((gone @ [cur]) @ j # todo) s'"
    using Cons.IH [OF t(2) Cons.prems(2) es(2)] by blast
  have "Q' a = Q a" if "a \<in> {slot_free (job_pool L), slot_free (jc_pool L), slot_free (ctl_pool L)}" for a
    using that t(8) chain_headsD(4) [OF chain_atD(2) [OF Cons.prems(1)]] by auto
  then have "chain_returned L s Q jc c (gone @ cur # j # todo) s'"
    using s'(3) t(3-6) by (simp add: chain_returned_def busy_channels_def)
  moreover have "list_all2 (\<lambda>j x. carries x j (q_jobs s j)) (cur # j # todo) (ctl c s # xs)"
    using s'(2) t(7) chain_atD(17) [OF Cons.prems(1)] by simp
  ultimately show ?case using t(1) s'(1) by (auto simp: es)
qed

section \<open>From the submission to the first job\<close>

text \<open>A node inside an object that is free: on no list, or linked to itself.\<close>

definition loose :: "ptr \<Rightarrow> ptr set \<Rightarrow> (ptr \<Rightarrow> ptr list) \<Rightarrow> bool" where
  "loose x H Q \<longleftrightarrow> x \<in> nodes H Q \<longrightarrow> x \<in> H \<and> Q x = []"

lemma init_loose:
  assumes "rings h H Q" "loose x H Q"
  shows "rings (INIT_LIST_HEAD x h) (insert x H) (Q(x := []))"
proof (cases "x \<in> nodes H Q")
  case True
  then have x: "x \<in> H" "Q x = []" using assms(2) by (simp_all add: loose_def)
  have "rings (INIT_LIST_HEAD x h) (insert x (H - {x})) (Q(x := []))"
    by (rule ll.wf_init [OF ll.wf_drop [OF assms(1)] ll.self_fresh [OF assms(1) x]])
  then show ?thesis by simp
next
  case False
  then show ?thesis by (rule ll.wf_init [OF assms(1)])
qed

lemma alloc_rings:
  assumes "rings h H Q" "slot_free p \<in> H" "slot_active p \<in> H" "slot_free p \<noteq> slot_active p" "Q (slot_free p) = x # xs" "x \<noteq> NULL"
  obtains h' where "slot_alloc p h = (x, h')" "rings h' H (Q(slot_free p := xs, slot_active p := x # Q (slot_active p)))"
proof -
  have "nxt h (slot_free p) = x" using ll.wf_first [OF assms(1,2)] assms(5) by (simp add: list_first_entry_def)
  moreover have "x \<noteq> slot_free p" using ll.wf_distinct [OF assms(1,2)] assms(5) by auto
  ultimately have "slot_alloc p h = (x, list_move x (slot_active p) h)"
    using assms(6) by (simp add: slot_alloc_def list_next_entry_or_null_def)
  moreover have "rings (list_move x (slot_active p) h) H (Q(slot_free p := xs, slot_active p := x # Q (slot_active p)))"
    using ll.move_head [OF assms(1-4), of x] assms(5) by (simp add: list_move_def)
  ultimately show thesis by (rule that)
qed

end
