(* ===== verification/Usb_mass.thy ===== *)
theory Usb_mass
  imports Dwc2_channel Fat32 "HOL-Library.Signed_Division"
begin

text \<open>
  Mass storage devices on the USB (\<^verbatim>\<open>src/board/bcm2835/usb/hcd_mass_storage.c\<close>, \<^verbatim>\<open>usb_mass_cbw.h\<close>,
  \<^verbatim>\<open>src/include/scsi/scsi_opcode.h\<close>, the endpoint requests of \<^verbatim>\<open>hcd.c\<close>): SCSI commands wrapped for the bulk-only transport, with
  repetition of what the device refuses for now. A transfer works on a buffer, which is a list of bytes: before the
  transfer and after it. Log messages are left out.
\<close>

section \<open>Transfers\<close>

text \<open>What the device drivers need of the transfers: bulk transfers on an endpoint, in the direction of the endpoint, and
  control transfers on the default pipe of a device, with direction and request. The result is the error, the buffer afterwards, for control transfers
  the number of bytes, and the state of the bus. A transfer may not come back.\<close>

record 'd usb_link =
  ul_bulk :: "usb_hcd_endpoint \<Rightarrow> u8 list \<Rightarrow> 'd \<Rightarrow> (int \<times> u8 list \<times> 'd) run"
  ul_control :: "usb_hcd_pipe \<Rightarrow> int \<Rightarrow> u8 list \<Rightarrow> u64 \<Rightarrow> 'd \<Rightarrow> (int \<times> u8 list \<times> int \<times> 'd) run"

definition le32 :: "u32 \<Rightarrow> u8 list" where "le32 w = map (\<lambda>i. ucast (drop_bit (8 * i) w)) [0, 1, 2, 3]"

text \<open>The functions named \<^verbatim>\<open>set_unaligned_16_le\<close> and \<^verbatim>\<open>set_unaligned_32_le\<close> store the most significant byte first.\<close>

text \<open>These are the bytes they store.\<close>

definition unaligned_16_bytes :: "u16 \<Rightarrow> u8 list" where
  "unaligned_16_bytes v = [BYTE_EXTRACT v 1, BYTE_EXTRACT v 0]"

definition unaligned_32_bytes :: "u32 \<Rightarrow> u8 list" where
  "unaligned_32_bytes v = [BYTE_EXTRACT v 3, BYTE_EXTRACT v 2, BYTE_EXTRACT v 1, BYTE_EXTRACT v 0]"

lemma set_unaligned_bytes:
  "set_unaligned_16_le a v m = store_bytes a (unaligned_16_bytes v) m"
  "set_unaligned_32_le a w m = store_bytes a (unaligned_32_bytes w) m"
  by (auto simp: set_unaligned_16_le_def set_unaligned_32_le_def unaligned_16_bytes_def unaligned_32_bytes_def store_bytes_def
      nth_Cons' fun_eq_iff)

definition from_le32 :: "u8 list \<Rightarrow> nat \<Rightarrow> u32" where
  "from_le32 b i = ucast (b ! i) OR push_bit 8 (ucast (b ! (i + 1))) OR push_bit 16 (ucast (b ! (i + 2))) OR push_bit 24 (ucast (b ! (i + 3)))"

section \<open>Requests to an endpoint\<close>

definition USB_RQ_TYPE_ENDPOINT_GET_STATUS :: u64 where "USB_RQ_TYPE_ENDPOINT_GET_STATUS = 0x82"
definition USB_RQ_TYPE_ENDPOINT_CLEAR_FEATURE :: u64 where "USB_RQ_TYPE_ENDPOINT_CLEAR_FEATURE = 2"
definition USB_RQ_TYPE_ENDPOINT_SET_FEATURE :: u64 where "USB_RQ_TYPE_ENDPOINT_SET_FEATURE = 2"
definition USB_RQ_TYPE_CLASS_SET_INTERFACE :: u64 where "USB_RQ_TYPE_CLASS_SET_INTERFACE = 0x21"
definition USB_ENDPOINT_FEATURE_HALT :: u64 where "USB_ENDPOINT_FEATURE_HALT = 0"

text \<open>The index is the number of the endpoint without its direction.\<close>

definition endpoint_request :: "u64 \<Rightarrow> u64 \<Rightarrow> u64 \<Rightarrow> usb_hcd_endpoint \<Rightarrow> u64 \<Rightarrow> u64" where
  "endpoint_request typ rq value ep len =
     USB_DEV_RQ_MAKE typ rq value (word_of_int (usb_endpoint_descriptor_get_number (ep_desc ep))) len"

text \<open>The device that an endpoint belongs to is an argument.\<close>

definition hcd_endpoint_get_status ::
  "'d usb_link \<Rightarrow> usb_hcd_device \<Rightarrow> usb_hcd_endpoint \<Rightarrow> u8 list \<Rightarrow> 'd \<Rightarrow> (int \<times> u8 list \<times> 'd) run" where
  "hcd_endpoint_get_status io dev ep status d =
     run_bind (ul_control io (pipe0 dev) USB_DIRECTION_IN status
                 (endpoint_request USB_RQ_TYPE_ENDPOINT_GET_STATUS USB_RQ_GET_STATUS 0 ep 2) d) (\<lambda>(err, status, _, d).
       Some (Inr (err, status, d)))"

definition hcd_endpoint_clear_feature ::
  "'d usb_link \<Rightarrow> usb_hcd_device \<Rightarrow> usb_hcd_endpoint \<Rightarrow> u64 \<Rightarrow> 'd \<Rightarrow> (int \<times> 'd) run" where
  "hcd_endpoint_clear_feature io dev ep feature d =
     run_bind (ul_control io (pipe0 dev) USB_DIRECTION_OUT []
                 (endpoint_request USB_RQ_TYPE_ENDPOINT_CLEAR_FEATURE USB_RQ_CLEAR_FEATURE feature ep 0) d) (\<lambda>(err, _, _, d).
       Some (Inr (err, d)))"

definition hcd_endpoint_set_feature ::
  "'d usb_link \<Rightarrow> usb_hcd_device \<Rightarrow> usb_hcd_endpoint \<Rightarrow> u64 \<Rightarrow> 'd \<Rightarrow> (int \<times> 'd) run" where
  "hcd_endpoint_set_feature io dev ep feature d =
     run_bind (ul_control io (pipe0 dev) USB_DIRECTION_OUT []
                 (endpoint_request USB_RQ_TYPE_ENDPOINT_SET_FEATURE USB_RQ_SET_FEATURE feature ep 0) d) (\<lambda>(err, _, _, d).
       Some (Inr (err, d)))"

section \<open>Wrappers of commands and of their status\<close>

definition CBW_SIGNATURE :: u32 where "CBW_SIGNATURE = 0x43425355"
definition CSW_SIGNATURE :: u32 where "CSW_SIGNATURE = 0x53425355"
definition CSW_STATUS_GOOD :: u8 where "CSW_STATUS_GOOD = 0"
definition CSW_STATUS_FAILED :: u8 where "CSW_STATUS_FAILED = 1"
definition CSW_STATUS_PHASE_ERR :: u8 where "CSW_STATUS_PHASE_ERR = 2"
definition CSW_STATUS_CHECK_CONDITION :: u8 where "CSW_STATUS_CHECK_CONDITION = 1"

definition cbw_make_flags :: "int \<Rightarrow> u8" where "cbw_make_flags direction = push_bit 7 (word_of_int direction AND 1)"

text \<open>The 31 bytes of a command block wrapper.\<close>

definition cbw :: "u32 \<Rightarrow> u32 \<Rightarrow> u8 \<Rightarrow> int \<Rightarrow> u8 list \<Rightarrow> u8 list" where
  "cbw tag data_length cbw_flags lun cmd =
     le32 CBW_SIGNATURE @ le32 tag @ le32 data_length @ [cbw_flags, word_of_int lun AND 0xf, of_nat (length cmd) AND 0x1f] @
     cmd @ replicate (16 - length cmd) 0"

definition sizeof_csw :: nat where "sizeof_csw = 13"

definition csw_signature :: "u8 list \<Rightarrow> u32" where "csw_signature c = from_le32 c 0"
definition csw_tag :: "u8 list \<Rightarrow> u32" where "csw_tag c = from_le32 c 4"
definition csw_data_residue :: "u8 list \<Rightarrow> u32" where "csw_data_residue c = from_le32 c 8"
definition csw_status :: "u8 list \<Rightarrow> u8" where "csw_status c = c ! 12"

definition is_csw_valid :: "u8 list \<Rightarrow> int \<Rightarrow> u32 \<Rightarrow> bool" where
  "is_csw_valid c sz tag_in_cbw \<longleftrightarrow> sz = int sizeof_csw \<and> csw_signature c = CSW_SIGNATURE \<and> csw_tag c = tag_in_cbw"

definition is_csw_meaningful :: "u8 list \<Rightarrow> int \<Rightarrow> bool" where
  "is_csw_meaningful c transfer_length \<longleftrightarrow>
     (csw_status c = CSW_STATUS_GOOD \<or> csw_status c = CSW_STATUS_FAILED) \<and> csw_data_residue c \<le> word_of_int transfer_length \<or>
     csw_status c = CSW_STATUS_PHASE_ERR"

section \<open>Transfers of commands\<close>

text \<open>A mass storage device: its device and its two endpoints. \<open>ms_tag\<close> is the static counter of the wrappers.\<close>

record hcd_mass =
  m_d :: usb_hcd_device
  ep_out :: usb_hcd_endpoint
  ep_in :: usb_hcd_endpoint

record 'd mass_state =
  ms_tag :: u32
  ms_mem :: bmem
  ms_dev :: 'd

definition usb_mass_reset_recovery :: "'d usb_link \<Rightarrow> hcd_mass \<Rightarrow> 'd \<Rightarrow> (int \<times> 'd) run" where
  "usb_mass_reset_recovery io m d =
     run_bind (hcd_endpoint_clear_feature io (m_d m) (ep_in m) USB_ENDPOINT_FEATURE_HALT d) (\<lambda>(err, d).
       if err \<noteq> ERR_OK then Some (Inr (err, d))
       else hcd_endpoint_clear_feature io (m_d m) (ep_out m) USB_ENDPOINT_FEATURE_HALT d)"

definition MASS_REQUEST_RESET :: u64 where "MASS_REQUEST_RESET = 0xff"
definition MASS_REQUEST_GET_MAX_LUN :: u64 where "MASS_REQUEST_GET_MAX_LUN = 0xfe"

definition usb_mass_reset :: "'d usb_link \<Rightarrow> hcd_mass \<Rightarrow> 'd \<Rightarrow> (int \<times> 'd) run" where
  "usb_mass_reset io m d =
     run_bind (ul_control io (pipe0 (m_d m)) USB_DIRECTION_OUT []
                 (USB_DEV_RQ_MAKE USB_RQ_TYPE_CLASS_SET_INTERFACE MASS_REQUEST_RESET 0 0 0) d) (\<lambda>(err, _, _, d).
       Some (Inr (err, d)))"

text \<open>A transfer on the buffer at an address. A successful bulk transfer reports the size it was asked for as the number
  of bytes.\<close>

definition bulk_at ::
  "'d usb_link \<Rightarrow> usb_hcd_endpoint \<Rightarrow> ptr \<Rightarrow> int \<Rightarrow> 'd mass_state \<Rightarrow> (int \<times> 'd mass_state) run" where
  "bulk_at io ep p sz s =
     run_bind (ul_bulk io ep (mem_bytes_at (ms_mem s) p (nat sz)) (ms_dev s)) (\<lambda>(err, buf, d).
       Some (Inr (err, s\<lparr>ms_mem := store_bytes p buf (ms_mem s), ms_dev := d\<rparr>)))"

text \<open>The status that came back is checked. A status that is refused leads to the recovery, whose success is the error \<^verbatim>\<open>ERR_RETRY\<close>.
  The status of the command is an output only when there is no error.\<close>

definition check_csw ::
  "'d usb_link \<Rightarrow> hcd_mass \<Rightarrow> u32 \<Rightarrow> int \<Rightarrow> u8 list \<Rightarrow> 'd mass_state \<Rightarrow> (int \<times> u8 option \<times> 'd mass_state) run" where
  "check_csw io m last_tag datasz status s =
     (if \<not> is_csw_valid status (int sizeof_csw) last_tag \<or> \<not> is_csw_meaningful status datasz \<or>
         csw_status status = CSW_STATUS_PHASE_ERR
      then run_bind (usb_mass_reset_recovery io m (ms_dev s)) (\<lambda>(err, d).
             Some (Inr (if err \<noteq> ERR_OK then err else ERR_RETRY, None, s\<lparr>ms_dev := d\<rparr>)))
      else Some (Inr (ERR_OK, Some (csw_status status), s)))"

text \<open>One try: the wrapper, the data and the status. \<open>Inl\<close> is the error of a transfer, which can be repeated.\<close>

definition cbw_try ::
  "'d usb_link \<Rightarrow> hcd_mass \<Rightarrow> u32 \<Rightarrow> u8 list \<Rightarrow> int \<Rightarrow> ptr \<Rightarrow> int \<Rightarrow> 'd mass_state \<Rightarrow>
     ((int + int \<times> u8 option) \<times> 'd mass_state) run" where
  "cbw_try io m last_tag wrapper data_direction data datasz s =
     run_bind (ul_bulk io (ep_out m) wrapper (ms_dev s)) (\<lambda>(err, _, d).
       let s = s\<lparr>ms_dev := d\<rparr>
       in if err \<noteq> ERR_OK then Some (Inr (Inl err, s))
          else run_bind (if data \<noteq> NULL \<and> datasz \<noteq> 0
                         then bulk_at io (if data_direction = USB_DIRECTION_OUT then ep_out m else ep_in m) data datasz s
                         else Some (Inr (ERR_OK, s))) (\<lambda>(err, s).
            if err \<noteq> ERR_OK then Some (Inr (Inl err, s))
            else run_bind (ul_bulk io (ep_in m) (replicate sizeof_csw 0) (ms_dev s)) (\<lambda>(err, status, d).
              let s = s\<lparr>ms_dev := d\<rparr>
              in if err \<noteq> ERR_OK then Some (Inr (Inl err, s))
                 else run_bind (check_csw io m last_tag datasz status s) (\<lambda>(err, st, s). Some (Inr (Inr (err, st), s))))))"

fun cbw_loop ::
  "'d usb_link \<Rightarrow> hcd_mass \<Rightarrow> u32 \<Rightarrow> u8 list \<Rightarrow> int \<Rightarrow> ptr \<Rightarrow> int \<Rightarrow> nat \<Rightarrow> 'd mass_state \<Rightarrow> (int \<times> u8 option \<times> 'd mass_state) run" where
  "cbw_loop io m last_tag wrapper dir data datasz retries s =
     run_bind (cbw_try io m last_tag wrapper dir data datasz s) (\<lambda>(r, s).
       case r of
         Inl err \<Rightarrow> (case retries of
                       Suc n \<Rightarrow> if err = ERR_RETRY then cbw_loop io m last_tag wrapper dir data datasz n s
                                else Some (Inr (err, None, s))
                     | 0 \<Rightarrow> Some (Inr (err, None, s)))
       | Inr (err, st) \<Rightarrow> Some (Inr (err, st, s)))"

declare cbw_loop.simps [simp del]

definition CBW_RETRIES :: nat where "CBW_RETRIES = 5"

definition usb_cbw_transfer ::
  "'d usb_link \<Rightarrow> hcd_mass \<Rightarrow> int \<Rightarrow> u8 list \<Rightarrow> int \<Rightarrow> ptr \<Rightarrow> int \<Rightarrow> 'd mass_state \<Rightarrow> (int \<times> u8 option \<times> 'd mass_state) run" where
  "usb_cbw_transfer io m lun cmd data_direction data datasz s =
     (let last_tag = ms_tag s; s = s\<lparr>ms_tag := last_tag + 1\<rparr>
      in if length cmd > 16 then Some (Inl ''command block size more than 16 bytes'')
         else cbw_loop io m last_tag (cbw last_tag (word_of_int datasz) (cbw_make_flags data_direction) lun cmd)
                data_direction data datasz CBW_RETRIES s)"

section \<open>SCSI commands\<close>

definition SCSI_OPCODE_TEST_UNIT_READY :: u8 where "SCSI_OPCODE_TEST_UNIT_READY = 0"
definition SCSI_OPCODE_REQUEST_SENSE :: u8 where "SCSI_OPCODE_REQUEST_SENSE = 3"
definition SCSI_OPCODE_INQUIRY :: u8 where "SCSI_OPCODE_INQUIRY = 0x12"
definition SCSI_OPCODE_READ_10 :: u8 where "SCSI_OPCODE_READ_10 = 0x28"
definition SCSI_OPCODE_WRITE_10 :: u8 where "SCSI_OPCODE_WRITE_10 = 0x2a"
definition SCSI_OPCODE_READ_CAPACITY_10 :: u8 where "SCSI_OPCODE_READ_CAPACITY_10 = 0x25"

text \<open>The ten bytes of the commands that name blocks.\<close>

definition scsi_op_10 :: "u8 \<Rightarrow> u32 \<Rightarrow> u16 \<Rightarrow> u8 list" where
  "scsi_op_10 opcode lba transfer_len = [opcode, 0] @ unaligned_32_bytes lba @ [0] @ unaligned_16_bytes transfer_len @ [0]"

definition scsi_fill_cmd_inquiry :: "u8 \<Rightarrow> u8 \<Rightarrow> u16 \<Rightarrow> u8 list" where
  "scsi_fill_cmd_inquiry evpd page_code allocation_length =
     [SCSI_OPCODE_INQUIRY, evpd AND 1, page_code] @ unaligned_16_bytes allocation_length @ [0]"

text \<open>The data of \<^verbatim>\<open>READ CAPACITY\<close> go to a variable of the function at the address \<open>param\<close>.\<close>

definition usb_mass_read_capacity10 :: "'d usb_link \<Rightarrow> hcd_mass \<Rightarrow> int \<Rightarrow> ptr \<Rightarrow> 'd mass_state \<Rightarrow> (int \<times> 'd mass_state) run" where
  "usb_mass_read_capacity10 io m lun param s =
     run_bind (usb_cbw_transfer io m lun (scsi_op_10 SCSI_OPCODE_READ_CAPACITY_10 0 0) USB_DIRECTION_IN param 8 s) (\<lambda>(err, _, s).
       Some (Inr (err, s)))"

text \<open>Reading takes the offset in bytes, writing takes it in blocks. Both forget the status of the command.\<close>

definition usb_mass_read10 :: "'d usb_link \<Rightarrow> hcd_mass \<Rightarrow> int \<Rightarrow> ptr \<Rightarrow> u32 \<Rightarrow> int \<Rightarrow> 'd mass_state \<Rightarrow> (int \<times> 'd mass_state) run" where
  "usb_mass_read10 io m lun dst offset sz s =
     run_bind (usb_cbw_transfer io m lun (scsi_op_10 SCSI_OPCODE_READ_10 (offset div 512) (word_of_int (sz sdiv 512)))
                 USB_DIRECTION_IN dst sz s) (\<lambda>(err, _, s). Some (Inr (err, s)))"

definition usb_mass_write10 :: "'d usb_link \<Rightarrow> hcd_mass \<Rightarrow> int \<Rightarrow> u32 \<Rightarrow> ptr \<Rightarrow> int \<Rightarrow> 'd mass_state \<Rightarrow> (int \<times> 'd mass_state) run" where
  "usb_mass_write10 io m lun offset data_dst data_sz s =
     run_bind (usb_cbw_transfer io m lun (scsi_op_10 SCSI_OPCODE_WRITE_10 offset (word_of_int (data_sz sdiv 512)))
                 USB_DIRECTION_OUT data_dst data_sz s) (\<lambda>(err, _, s). Some (Inr (err, s)))"

definition usb_mass_test_unit_ready ::
  "'d usb_link \<Rightarrow> hcd_mass \<Rightarrow> int \<Rightarrow> u8 \<Rightarrow> 'd mass_state \<Rightarrow> (int \<times> u8 \<times> 'd mass_state) run" where
  "usb_mass_test_unit_ready io m lun status s =
     run_bind (usb_cbw_transfer io m lun [SCSI_OPCODE_TEST_UNIT_READY, 0, 0, 0, 0, 0] USB_DIRECTION_IN NULL 0 s) (\<lambda>(err, st, s).
       Some (Inr (err, case st of Some x \<Rightarrow> x | None \<Rightarrow> status, s)))"

definition usb_mass_request_sense ::
  "'d usb_link \<Rightarrow> hcd_mass \<Rightarrow> int \<Rightarrow> ptr \<Rightarrow> u8 \<Rightarrow> 'd mass_state \<Rightarrow> (int \<times> u8 \<times> 'd mass_state) run" where
  "usb_mass_request_sense io m lun buf status s =
     run_bind (usb_cbw_transfer io m lun [SCSI_OPCODE_REQUEST_SENSE, 0, 0, 0, 18, 0] USB_DIRECTION_IN buf 18 s) (\<lambda>(err, st, s).
       Some (Inr (err, case st of Some x \<Rightarrow> x | None \<Rightarrow> status, s)))"

definition usb_mass_inquiry :: "'d usb_link \<Rightarrow> hcd_mass \<Rightarrow> int \<Rightarrow> ptr \<Rightarrow> 'd mass_state \<Rightarrow> (int \<times> 'd mass_state) run" where
  "usb_mass_inquiry io m lun buf s =
     run_bind (usb_cbw_transfer io m lun (scsi_fill_cmd_inquiry 0 0 36) USB_DIRECTION_IN buf 36
                 (s\<lparr>ms_mem := store_bytes buf (replicate 128 0) (ms_mem s)\<rparr>)) (\<lambda>(err, _, s). Some (Inr (err, s)))"

definition usb_mass_read :: "'d usb_link \<Rightarrow> hcd_mass \<Rightarrow> ptr \<Rightarrow> u32 \<Rightarrow> int \<Rightarrow> 'd mass_state \<Rightarrow> (int \<times> 'd mass_state) run" where
  "usb_mass_read io m dst offset sz s = usb_mass_read10 io m 0 dst offset sz s"

section \<open>Starting a device\<close>

text \<open>The answer is undefined when the request fails: \<open>junk\<close>.\<close>

definition usb_mass_get_max_lun :: "'d usb_link \<Rightarrow> usb_hcd_device \<Rightarrow> u8 \<Rightarrow> 'd \<Rightarrow> (int \<times> int \<times> 'd) run" where
  "usb_mass_get_max_lun io dev junk d =
     run_bind (ul_control io (pipe0 dev) USB_DIRECTION_IN [junk] (USB_DEV_RQ_MAKE 0xa1 MASS_REQUEST_GET_MAX_LUN 0 0 1) d)
       (\<lambda>(err, buf, _, d). Some (Inr (err, uint (buf ! 0), d)))"

definition hcd_interface_get_endpoint :: "usb_hcd_interface \<Rightarrow> nat \<Rightarrow> usb_hcd_endpoint option" where
  "hcd_interface_get_endpoint i index = (if unat (if_desc i ! 4) \<le> index then None else Some (endpoints i index))"

definition hcd_endpoint_get_direction :: "usb_hcd_endpoint \<Rightarrow> int" where
  "hcd_endpoint_get_direction ep = usb_endpoint_descriptor_get_direction (ep_desc ep)"

definition set_endpoint :: "usb_hcd_endpoint \<Rightarrow> hcd_mass \<Rightarrow> hcd_mass" where
  "set_endpoint ep m = (if hcd_endpoint_get_direction ep = USB_DIRECTION_OUT then m\<lparr>ep_out := ep\<rparr> else m\<lparr>ep_in := ep\<rparr>)"

text \<open>The argument is the object that the pool of mass storage devices hands out, with what it held before. With an empty pool, and
  with a device that has no interface, an object at address 0 is used.\<close>

definition usb_mass_init_class :: "hcd_mass option \<Rightarrow> usb_hcd_device \<Rightarrow> (int + hcd_mass) kres" where
  "usb_mass_init_class slot d =
     (case slot of
        None \<Rightarrow> Inl ''usb_hcd_allocate_mass: NULL''
      | Some m \<Rightarrow>
          kbind (hcd_device_get_interface d 0) (\<lambda>i.
            case i of
              None \<Rightarrow> Inl ''usb_mass_init_class: interface NULL''
            | Some i \<Rightarrow>
                (case hcd_interface_get_endpoint i 0 of
                   None \<Rightarrow> Inr (Inl ERR_GENERIC)
                 | Some ep \<Rightarrow>
                     let m = set_endpoint ep m
                     in (case hcd_interface_get_endpoint i 1 of
                           None \<Rightarrow> Inr (Inl ERR_GENERIC)
                         | Some ep \<Rightarrow> Inr (Inr ((set_endpoint ep m)\<lparr>m_d := d\<rparr>))))))"

text \<open>The addresses of the buffers on the stack.\<close>

record mass_buffers =
  mb_inquiry :: ptr
  mb_sense :: ptr
  mb_capacity :: ptr
  mb_lun :: u8

text \<open>The commands after the reset. A failure ends in an endless loop that prints; a device that cannot be set up ends there too, because
  the error pointer is not 0.\<close>

definition usb_mass_probe :: "'d usb_link \<Rightarrow> mass_buffers \<Rightarrow> hcd_mass \<Rightarrow> 'd mass_state \<Rightarrow> (int \<times> 'd mass_state) run" where
  "usb_mass_probe io bufs m s =
     run_bind (usb_mass_reset io m (ms_dev s)) (\<lambda>(_, d).
     run_bind (usb_mass_get_max_lun io (m_d m) (mb_lun bufs) d) (\<lambda>(err, _, d).
       let s = s\<lparr>ms_dev := d\<rparr>
       in if err \<noteq> ERR_OK then Some (Inr (err, s))
          else run_bind (usb_mass_inquiry io m 0 (mb_inquiry bufs) s) (\<lambda>(err, s).
            if err \<noteq> ERR_OK then Some (Inr (err, s))
            else run_bind (usb_mass_test_unit_ready io m 0 0 s) (\<lambda>(err, status, s).
              if err \<noteq> ERR_OK then Some (Inr (err, s))
              else run_bind (if status = CSW_STATUS_CHECK_CONDITION then usb_mass_request_sense io m 0 (mb_sense bufs) status s
                             else Some (Inr (err, status, s))) (\<lambda>(_, _, s).
                usb_mass_read_capacity10 io m 0 (mb_capacity bufs) s)))))"

definition usb_mass_init ::
  "'d usb_link \<Rightarrow> mass_buffers \<Rightarrow> hcd_mass option \<Rightarrow> usb_hcd_device \<Rightarrow> 'd mass_state \<Rightarrow> (int \<times> hcd_mass \<times> 'd mass_state) run" where
  "usb_mass_init io bufs slot d s =
     run_bind (Some (usb_mass_init_class slot d)) (\<lambda>r.
       case r of
         Inl _ \<Rightarrow> None
       | Inr m \<Rightarrow> run_bind (usb_mass_probe io bufs m s) (\<lambda>(err, s). if err \<noteq> ERR_OK then None else Some (Inr (err, m, s))))"

section \<open>What a success means\<close>

lemma run_bind_ok: "run_bind m f = Some (Inr y) \<longleftrightarrow> (\<exists>x. m = Some (Inr x) \<and> f x = Some (Inr y))"
  by (auto simp: run_bind_def split: bind_splits sum.splits)

text \<open>A status block that answers the wrapper with tag \<open>t\<close>.\<close>

definition answers :: "u32 \<Rightarrow> int \<Rightarrow> u8 list \<Rightarrow> bool" where
  "answers t datasz c \<longleftrightarrow> csw_signature c = CSW_SIGNATURE \<and> csw_tag c = t \<and> csw_status c \<in> {CSW_STATUS_GOOD, CSW_STATUS_FAILED} \<and>
     csw_data_residue c \<le> word_of_int datasz"

lemma check_csw_ok:
  "check_csw io m t datasz c s = Some (Inr (ERR_OK, st, s')) \<longleftrightarrow> answers t datasz c \<and> st = Some (csw_status c) \<and> s' = s"
proof -
  have "(if err \<noteq> ERR_OK then err else ERR_RETRY) \<noteq> ERR_OK" for err by (simp add: ERR_OK_def ERR_RETRY_def)
  then show ?thesis
    by (auto simp: check_csw_def run_bind_ok answers_def is_csw_valid_def is_csw_meaningful_def split: prod.splits)
      (auto simp: CSW_STATUS_GOOD_def CSW_STATUS_FAILED_def CSW_STATUS_PHASE_ERR_def)
qed

lemma check_csw_good: "answers t datasz c \<Longrightarrow> check_csw io m t datasz c s = Some (Inr (ERR_OK, Some (csw_status c), s))"
  by (simp add: check_csw_ok)

lemma cbw_try_ok:
  assumes "cbw_try io m t w dir data datasz s = Some (Inr (Inr (ERR_OK, st), s'))"
  shows "\<exists>d c. ul_bulk io (ep_in m) (replicate sizeof_csw 0) d = Some (Inr (ERR_OK, c, ms_dev s')) \<and>
    answers t datasz c \<and> st = Some (csw_status c)"
  using assms
  by (fastforce simp: cbw_try_def run_bind_ok Let_def check_csw_ok split: if_splits prod.splits)

lemma cbw_try_repeat: "cbw_try io m t w dir data datasz s = Some (Inr (Inl err, s')) \<Longrightarrow> err \<noteq> ERR_OK"
  by (auto simp: cbw_try_def run_bind_ok Let_def split: if_splits prod.splits)

lemma cbw_loop_step:
  "cbw_loop io m t w dir data datasz n s = Some (Inr (ERR_OK, st, s')) \<longleftrightarrow>
     cbw_try io m t w dir data datasz s = Some (Inr (Inr (ERR_OK, st), s')) \<or>
     (\<exists>k u. n = Suc k \<and> cbw_try io m t w dir data datasz s = Some (Inr (Inl ERR_RETRY, u)) \<and>
        cbw_loop io m t w dir data datasz k u = Some (Inr (ERR_OK, st, s')))"
proof (cases "cbw_try io m t w dir data datasz s")
  case None
  then show ?thesis by (simp add: cbw_loop.simps)
next
  case (Some r)
  show ?thesis
  proof (cases "\<exists>err u. r = Inr (Inl err, u)")
    case True
    then obtain err u where r: "r = Inr (Inl err, u)" by blast
    then have "err \<noteq> ERR_OK" using Some cbw_try_repeat by blast
    then show ?thesis using Some r by (cases n) (simp_all add: cbw_loop.simps)
  next
    case False
    then show ?thesis using Some by (subst cbw_loop.simps) (cases r; auto split: sum.splits)
  qed
qed

lemma cbw_loop_ok:
  assumes "cbw_loop io m t w dir data datasz n s = Some (Inr (ERR_OK, st, s'))"
  shows "\<exists>u. cbw_try io m t w dir data datasz u = Some (Inr (Inr (ERR_OK, st), s'))"
  using assms
proof (induction n arbitrary: s)
  case 0
  then show ?case using cbw_loop_step by blast
next
  case (Suc n)
  from Suc.prems show ?case unfolding cbw_loop_step [of io m t w dir data datasz "Suc n"] using Suc.IH by blast
qed

text \<open>C14 (safety). A command succeeds only with an answer to it: whenever \<^verbatim>\<open>usb_cbw_transfer\<close> returns without an error, whatever
  the device sends, the last transfer delivered a status block with the signature, the tag of this command's wrapper, a known status
  and no more residue than data were asked for; that status is what the caller gets.\<close>

theorem cbw_transfer_answered:
  assumes "usb_cbw_transfer io m lun cmd dir data datasz s = Some (Inr (ERR_OK, st, s'))"
  shows "\<exists>d c. ul_bulk io (ep_in m) (replicate sizeof_csw 0) d = Some (Inr (ERR_OK, c, ms_dev s')) \<and>
    answers (ms_tag s) datasz c \<and> st = Some (csw_status c)"
  using assms by (auto simp: usb_cbw_transfer_def Let_def split: if_splits dest!: cbw_loop_ok cbw_try_ok)

section \<open>How often a command is repeated\<close>

text \<open>A link that counts the bulk transfers.\<close>

definition counting :: "'d usb_link \<Rightarrow> ('d \<times> nat) usb_link" where
  "counting io = \<lparr>
     ul_bulk = (\<lambda>ep buf (d, k). run_bind (ul_bulk io ep buf d) (\<lambda>(err, buf, d). Some (Inr (err, buf, d, k + 1)))),
     ul_control = (\<lambda>p dir buf rq (d, k). run_bind (ul_control io p dir buf rq d) (\<lambda>(err, buf, n, d). Some (Inr (err, buf, n, d, k))))\<rparr>"

lemma counting_bulk: "ul_bulk (counting io) ep buf d = Some (Inr (err, b, d')) \<Longrightarrow> snd d' = snd d + 1"
  by (auto simp: counting_def run_bind_ok split: prod.splits)

lemma counting_control: "ul_control (counting io) p dir buf rq d = Some (Inr (err, b, n, d')) \<Longrightarrow> snd d' = snd d"
  by (auto simp: counting_def run_bind_ok split: prod.splits)

lemma counting_feature: "hcd_endpoint_clear_feature (counting io) dev ep f d = Some (Inr (err, d')) \<Longrightarrow> snd d' = snd d"
  by (auto simp: hcd_endpoint_clear_feature_def run_bind_ok dest!: counting_control)

lemma counting_csw:
  "check_csw (counting io) m t datasz c s = Some (Inr (err, st, s')) \<Longrightarrow> snd (ms_dev s') = snd (ms_dev s)"
  by (auto simp: check_csw_def usb_mass_reset_recovery_def run_bind_ok split: if_splits dest!: counting_feature)

lemma counting_try:
  assumes "cbw_try (counting io) m t w dir data datasz s = Some (Inr (r, s'))"
  shows "snd (ms_dev s') \<le> snd (ms_dev s) + 3"
  using assms unfolding cbw_try_def bulk_at_def run_bind_ok Let_def
  by (auto simp: run_bind_ok split: if_splits dest!: counting_bulk counting_csw)

lemma counting_loop:
  assumes "cbw_loop (counting io) m t w dir data datasz n s = Some (Inr (err, st, s'))"
  shows "snd (ms_dev s') \<le> snd (ms_dev s) + 3 * (n + 1)"
  using assms
proof (induction n arbitrary: s)
  case 0
  then obtain r u where t: "cbw_try (counting io) m t w dir data datasz s = Some (Inr (r, u))"
    by (subst (asm) cbw_loop.simps) (auto simp: run_bind_ok)
  then have "u = s'" using 0 by (subst (asm) cbw_loop.simps) (auto split: sum.splits)
  then show ?case using counting_try [OF t] by simp
next
  case (Suc n)
  then obtain r u where t: "cbw_try (counting io) m t w dir data datasz s = Some (Inr (r, u))"
    by (subst (asm) cbw_loop.simps) (auto simp: run_bind_ok)
  have u: "snd (ms_dev u) \<le> snd (ms_dev s) + 3" using t by (rule counting_try)
  have "u = s' \<or> cbw_loop (counting io) m t w dir data datasz n u = Some (Inr (err, st, s'))"
    using Suc.prems t by (subst (asm) cbw_loop.simps) (auto split: sum.splits if_splits)
  then show ?case using u Suc.IH [of u] by auto
qed

text \<open>C32 (bounds). A command takes at most 18 bulk transfers: a wrapper, data and a status block, with at most five
  repetitions, whatever the device answers and however it mixes errors.\<close>

theorem cbw_transfer_bounded:
  assumes "usb_cbw_transfer (counting io) m lun cmd dir data datasz s = Some (Inr (err, st, s'))"
  shows "snd (ms_dev s') \<le> snd (ms_dev s) + 18"
  using assms
  by (auto simp: usb_cbw_transfer_def Let_def CBW_RETRIES_def split: if_splits dest!: counting_loop)

section \<open>A disk\<close>

text \<open>A device that keeps blocks and refuses the first \<open>bo_naks\<close> wrappers.\<close>

datatype bot_phase = Bot_ready | Bot_read u32 "u8 list" | Bot_write u32 u32 nat | Bot_status u32

record bot =
  bo_phase :: bot_phase
  bo_disk :: "u32 \<Rightarrow> u8 list"
  bo_naks :: nat

definition from_be32 :: "u8 list \<Rightarrow> nat \<Rightarrow> u32" where
  "from_be32 b i = push_bit 24 (ucast (b ! i)) OR push_bit 16 (ucast (b ! (i + 1))) OR push_bit 8 (ucast (b ! (i + 2))) OR ucast (b ! (i + 3))"

definition from_be16 :: "u8 list \<Rightarrow> nat \<Rightarrow> u16" where
  "from_be16 b i = push_bit 8 (ucast (b ! i)) OR ucast (b ! (i + 1))"

definition blocks_at :: "bot \<Rightarrow> u32 \<Rightarrow> nat \<Rightarrow> u8 list" where
  "blocks_at d lba n = concat (map (\<lambda>i. bo_disk d (lba + of_nat i)) [0..<n])"

definition bot_command :: "u8 list \<Rightarrow> bot \<Rightarrow> bot" where
  "bot_command w d =
     (let tag = from_le32 w 4; lba = from_be32 w 17; n = unat (from_be16 w 22)
      in d\<lparr>bo_phase := if w ! 15 = 0x28 then Bot_read tag (blocks_at d lba n) else if w ! 15 = 0x2a then Bot_write tag lba n else Bot_status tag\<rparr>)"

definition put_blocks :: "u32 \<Rightarrow> nat \<Rightarrow> u8 list \<Rightarrow> (u32 \<Rightarrow> u8 list) \<Rightarrow> u32 \<Rightarrow> u8 list" where
  "put_blocks lba n buf disk b = (if unat (b - lba) < n then take 512 (drop (512 * unat (b - lba)) buf) else disk b)"

definition bot_out :: "u8 list \<Rightarrow> bot \<Rightarrow> int \<times> bot" where
  "bot_out buf d =
     (case bo_phase d of
        Bot_ready \<Rightarrow> if bo_naks d > 0 then (ERR_RETRY, d\<lparr>bo_naks := bo_naks d - 1\<rparr>) else (ERR_OK, bot_command buf d)
      | Bot_write tag lba n \<Rightarrow> (ERR_OK, d\<lparr>bo_disk := put_blocks lba n buf (bo_disk d), bo_phase := Bot_status tag\<rparr>)
      | _ \<Rightarrow> (ERR_GENERIC, d))"

definition bot_in :: "u8 list \<Rightarrow> bot \<Rightarrow> int \<times> u8 list \<times> bot" where
  "bot_in buf d =
     (case bo_phase d of
        Bot_read tag bs \<Rightarrow> (ERR_OK, take (length buf) bs @ drop (length bs) buf, d\<lparr>bo_phase := Bot_status tag\<rparr>)
      | Bot_status tag \<Rightarrow> (ERR_OK, le32 CSW_SIGNATURE @ le32 tag @ le32 0 @ [CSW_STATUS_GOOD], d\<lparr>bo_phase := Bot_ready\<rparr>)
      | _ \<Rightarrow> (ERR_GENERIC, buf, d))"

definition bot_link :: "bot usb_link" where
  "bot_link = \<lparr>
     ul_bulk = (\<lambda>ep buf d. Some (Inr (if hcd_endpoint_get_direction ep = USB_DIRECTION_OUT
        then let (err, d) = bot_out buf d in (err, buf, d) else bot_in buf d))),
     ul_control = (\<lambda>p dir buf rq d. Some (Inr (ERR_OK, buf, 0, d)))\<rparr>"

section \<open>Bytes of the wrappers\<close>

definition byte_of :: "nat \<Rightarrow> u32 \<Rightarrow> u8" where "byte_of k w = ucast (drop_bit k w)"

lemma join_bytes:
  "ucast (byte_of 0 w) OR push_bit 8 (ucast (byte_of 8 w)) OR push_bit 16 (ucast (byte_of 16 w)) OR push_bit 24 (ucast (byte_of 24 w)) = (w :: u32)"
proof (rule bit_word_eqI)
  fix n assume "n < LENGTH(32)"
  then consider "n < 8" | "8 \<le> n" "n < 16" | "16 \<le> n" "n < 24" | "24 \<le> n" "n < 32" by fastforce
  then show "bit (ucast (byte_of 0 w) OR push_bit 8 (ucast (byte_of 8 w)) OR push_bit 16 (ucast (byte_of 16 w)) OR
      push_bit 24 (ucast (byte_of 24 w)) :: u32) n = bit w n"
    by cases (auto simp: byte_of_def bit_or_iff bit_push_bit_iff bit_ucast_iff bit_drop_bit_eq)
qed

lemma BYTE_EXTRACT_ucast: "BYTE_EXTRACT v i = ucast (drop_bit (i * 8) v)"
proof (rule bit_word_eqI)
  fix n assume "n < LENGTH(8)"
  then have n: "n < 8" by simp
  have "(0xff :: 'a word) = mask 8" by (simp add: mask_eq_exp_minus_1)
  then show "bit (BYTE_EXTRACT v i) n = bit (ucast (drop_bit (i * 8) v) :: u8) n"
    using n by (simp only: BYTE_EXTRACT_def bit_ucast_iff bit_and_iff bit_mask_iff) (auto dest: bit_imp_le_length)
qed

lemma from_le32_le32: "from_le32 (le32 w @ xs) 0 = w"
  using join_bytes [of w] by (simp add: byte_of_def from_le32_def le32_def numeral_3_eq_3 numeral_2_eq_2)

lemma from_be32_set: "from_be32 (unaligned_32_bytes v @ xs) 0 = v"
  using join_bytes [of v] by (simp add: byte_of_def from_be32_def unaligned_32_bytes_def BYTE_EXTRACT_ucast numeral_3_eq_3 numeral_2_eq_2 or.commute or.left_commute)

lemma from_be16_set: "from_be16 (unaligned_16_bytes v @ xs) 0 = v"
proof (rule bit_word_eqI)
  fix n assume "n < LENGTH(16)"
  then have n: "n < 16" by simp
  show "bit (from_be16 (unaligned_16_bytes v @ xs) 0) n = bit v n"
    using n by (auto simp: from_be16_def unaligned_16_bytes_def BYTE_EXTRACT_ucast bit_or_iff bit_push_bit_iff bit_ucast_iff bit_drop_bit_eq)
qed

lemma from_shift:
  "length xs = k \<Longrightarrow> from_le32 (xs @ ys) k = from_le32 ys 0"
  "length xs = k \<Longrightarrow> from_be32 (xs @ ys) k = from_be32 ys 0"
  "length xs = k \<Longrightarrow> from_be16 (xs @ ys) k = from_be16 ys 0"
  by (auto simp: from_le32_def from_be32_def from_be16_def nth_append numeral_3_eq_3 numeral_2_eq_2)

lemma length_le32 [simp]: "length (le32 w) = 4" by (simp add: le32_def)

lemma wrapper_fields:
  assumes "w = cbw tag dlen fl lun (scsi_op_10 op lba n)"
  shows "from_le32 w 4 = tag" "w ! 15 = op" "from_be32 w 17 = lba" "from_be16 w 22 = n"
proof -
  let ?h = "le32 CBW_SIGNATURE @ le32 tag @ le32 dlen @ [fl, word_of_int lun AND 0xf, of_nat 10 AND 0x1f]"
  have len: "length (unaligned_32_bytes lba) = 4" "length (unaligned_16_bytes n) = 2" "length (scsi_op_10 op lba n) = 10"
    by (simp_all add: scsi_op_10_def unaligned_32_bytes_def unaligned_16_bytes_def)
  have w: "w = ?h @ [op, 0] @ unaligned_32_bytes lba @ [0] @ unaligned_16_bytes n @ [0] @ replicate 6 0"
    using assms unfolding cbw_def len(3) by (simp add: scsi_op_10_def)
  have "w = le32 CBW_SIGNATURE @ (le32 tag @ drop 8 w)" unfolding w by simp
  then show "from_le32 w 4 = tag" using from_shift(1) [of "le32 CBW_SIGNATURE" 4 "le32 tag @ drop 8 w"] by (simp add: from_le32_le32)
  show "w ! 15 = op" unfolding w by (simp add: nth_append)
  have "w = (?h @ [op, 0]) @ (unaligned_32_bytes lba @ [0] @ unaligned_16_bytes n @ [0] @ replicate 6 0)" unfolding w by simp
  then show "from_be32 w 17 = lba"
    using from_shift(2) [of "?h @ [op, 0]" 17] by (simp add: from_be32_set del: append_assoc)
  have "w = (?h @ [op, 0] @ unaligned_32_bytes lba @ [0]) @ (unaligned_16_bytes n @ [0] @ replicate 6 0)" unfolding w by simp
  then show "from_be16 w 22 = n"
    using from_shift(3) [of "?h @ [op, 0] @ unaligned_32_bytes lba @ [0]" 22]
    by (simp add: from_be16_set unaligned_32_bytes_def del: append_assoc)
qed

section \<open>Commands on the disk\<close>

definition mass_ok :: "hcd_mass \<Rightarrow> bool" where
  "mass_ok m \<longleftrightarrow> hcd_endpoint_get_direction (ep_out m) = USB_DIRECTION_OUT \<and> hcd_endpoint_get_direction (ep_in m) \<noteq> USB_DIRECTION_OUT"

lemma bot_ends:
  assumes "mass_ok m"
  shows "ul_bulk bot_link (ep_out m) buf d = Some (Inr (let (err, d) = bot_out buf d in (err, buf, d)))"
    "ul_bulk bot_link (ep_in m) buf d = Some (Inr (bot_in buf d))"
  using assms by (simp_all add: bot_link_def mass_ok_def)

lemma good_status: "answers t datasz (le32 CSW_SIGNATURE @ le32 t @ le32 0 @ [CSW_STATUS_GOOD])"
proof -
  let ?c = "le32 CSW_SIGNATURE @ le32 t @ le32 0 @ [CSW_STATUS_GOOD]"
  have "csw_signature ?c = CSW_SIGNATURE" by (simp add: csw_signature_def from_le32_le32)
  moreover have "csw_tag ?c = t" using from_shift(1) [of "le32 CSW_SIGNATURE" 4] by (simp add: csw_tag_def from_le32_le32)
  moreover have "csw_data_residue ?c = 0"
    using from_shift(1) [of "le32 CSW_SIGNATURE @ le32 t" 8] by (simp add: csw_data_residue_def from_le32_le32)
  moreover have "csw_status ?c = CSW_STATUS_GOOD" by (simp add: csw_status_def nth_append)
  ultimately show ?thesis by (simp add: answers_def)
qed

text \<open>The status phase of the disk.\<close>

lemma status_phase:
  assumes "mass_ok m" "bo_phase d = Bot_status t"
  shows "\<exists>c. ul_bulk bot_link (ep_in m) buf d = Some (Inr (ERR_OK, c, d\<lparr>bo_phase := Bot_ready\<rparr>)) \<and> answers t datasz c \<and>
    csw_status c = CSW_STATUS_GOOD"
  using good_status [of t datasz] assms by (auto simp: bot_ends bot_in_def csw_status_def nth_append)

text \<open>A refused wrapper is sent again.\<close>

lemma refused:
  assumes "mass_ok m" "bo_phase (ms_dev s) = Bot_ready" "bo_naks (ms_dev s) = Suc k"
  shows "cbw_loop bot_link m t w dir data datasz (Suc n) s =
    cbw_loop bot_link m t w dir data datasz n (s\<lparr>ms_dev := (ms_dev s)\<lparr>bo_naks := k\<rparr>\<rparr>)"
  using assms by (subst cbw_loop.simps) (simp add: cbw_try_def bot_ends bot_out_def ERR_RETRY_def ERR_OK_def)

lemma refusals:
  assumes "mass_ok m" "bo_phase (ms_dev s) = Bot_ready" "bo_naks (ms_dev s) \<le> n"
  shows "cbw_loop bot_link m t w dir data datasz n s =
    cbw_loop bot_link m t w dir data datasz (n - bo_naks (ms_dev s)) (s\<lparr>ms_dev := (ms_dev s)\<lparr>bo_naks := 0\<rparr>\<rparr>)"
  using assms
proof (induction "bo_naks (ms_dev s)" arbitrary: n s)
  case 0
  then have "s\<lparr>ms_dev := (ms_dev s)\<lparr>bo_naks := 0\<rparr>\<rparr> = s" by simp
  then show ?case using 0(1) by (metis diff_zero)
next
  case (Suc k)
  then obtain n' where n: "n = Suc n'" by (cases n) auto
  let ?s = "s\<lparr>ms_dev := (ms_dev s)\<lparr>bo_naks := k\<rparr>\<rparr>"
  have "cbw_loop bot_link m t w dir data datasz n s = cbw_loop bot_link m t w dir data datasz n' ?s"
    unfolding n by (rule refused) (use Suc in simp_all)
  also have "\<dots> = cbw_loop bot_link m t w dir data datasz (n' - bo_naks (ms_dev ?s)) (?s\<lparr>ms_dev := (ms_dev ?s)\<lparr>bo_naks := 0\<rparr>\<rparr>)"
    by (rule Suc(1)) (use Suc n in simp_all)
  finally show ?case using n by (simp flip: Suc(2))
qed

text \<open>A command on the disk: after the refusals, one try.\<close>

lemma transfer_on_disk:
  assumes "mass_ok m" "bo_phase (ms_dev s) = Bot_ready" "bo_naks (ms_dev s) \<le> 5" "length cmd \<le> 16"
    "cbw_try bot_link m (ms_tag s) (cbw (ms_tag s) (word_of_int datasz) (cbw_make_flags dir) lun cmd) dir data datasz
       (s\<lparr>ms_tag := ms_tag s + 1, ms_dev := (ms_dev s)\<lparr>bo_naks := 0\<rparr>\<rparr>) = Some (Inr (Inr (ERR_OK, st), s'))"
  shows "usb_cbw_transfer bot_link m lun cmd dir data datasz s = Some (Inr (ERR_OK, st, s'))"
proof -
  let ?w = "cbw (ms_tag s) (word_of_int datasz) (cbw_make_flags dir) lun cmd" and ?s = "s\<lparr>ms_tag := ms_tag s + 1\<rparr>"
  have "usb_cbw_transfer bot_link m lun cmd dir data datasz s = cbw_loop bot_link m (ms_tag s) ?w dir data datasz 5 ?s"
    using assms(4) by (simp add: usb_cbw_transfer_def CBW_RETRIES_def Let_def)
  also have "\<dots> = cbw_loop bot_link m (ms_tag s) ?w dir data datasz (5 - bo_naks (ms_dev ?s)) (?s\<lparr>ms_dev := (ms_dev ?s)\<lparr>bo_naks := 0\<rparr>\<rparr>)"
    by (rule refusals) (use assms in simp_all)
  also have "\<dots> = Some (Inr (ERR_OK, st, s'))" using assms(5) by (simp add: cbw_loop.simps)
  finally show ?thesis .
qed

lemma scsi_op_length [simp]: "length (scsi_op_10 op lba n) = 10"
  by (simp add: scsi_op_10_def unaligned_32_bytes_def unaligned_16_bytes_def)

text \<open>Block counts that fit the command.\<close>

lemma block_count: "n < 2 ^ 16 \<Longrightarrow> unat (word_of_int (512 * int n sdiv 512) :: u16) = n"
  by (simp add: signed_divide_int_def sgn_mult unat_of_nat take_bit_nat_eq_self)

lemma concat_chunks: "length bs = k * n \<Longrightarrow> concat (map (\<lambda>i. take k (drop (k * i) bs)) [0..<n]) = bs"
proof (induction n arbitrary: bs)
  case (Suc n)
  have ih: "concat (map (\<lambda>i. take k (drop (k * i) (take (k * n) bs))) [0..<n]) = take (k * n) bs"
    by (rule Suc.IH) (simp add: Suc.prems)
  have "take k (drop (k * i) bs) = take k (drop (k * i) (take (k * n) bs))" if "i < n" for i
  proof -
    have "k * i + k \<le> k * n" using that by (metis Suc_leI mult_Suc_right mult_le_mono2 add.commute)
    then show ?thesis by (simp add: take_drop min_absorb1)
  qed
  then have "map (\<lambda>i. take k (drop (k * i) bs)) [0..<n] = map (\<lambda>i. take k (drop (k * i) (take (k * n) bs))) [0..<n]"
    by (intro map_cong) auto
  then have "concat (map (\<lambda>i. take k (drop (k * i) bs)) [0..<n]) = take (k * n) bs" using ih by (simp only:)
  then show ?case using Suc.prems by (simp add: append_take_drop_id)
qed simp

text \<open>A disk of blocks of 512 bytes.\<close>

definition disk_ok :: "bot \<Rightarrow> bool" where
  "disk_ok d \<longleftrightarrow> bo_phase d = Bot_ready \<and> bo_naks d \<le> 5 \<and> (\<forall>b. length (bo_disk d b) = 512)"

lemma length_blocks_at: "disk_ok d \<Longrightarrow> length (blocks_at d lba n) = 512 * n"
  by (simp add: blocks_at_def length_concat comp_def disk_ok_def sum_list_triv)

lemma read_on_disk:
  assumes "mass_ok m" "disk_ok (ms_dev s)" "dst \<noteq> NULL" "0 < n" "n < 2 ^ 16"
  shows "usb_mass_read bot_link m dst offset (512 * int n) s =
    Some (Inr (ERR_OK, s\<lparr>ms_tag := ms_tag s + 1,
      ms_mem := store_bytes dst (blocks_at (ms_dev s) (offset div 512) n) (ms_mem s), ms_dev := (ms_dev s)\<lparr>bo_naks := 0\<rparr>\<rparr>))"
proof -
  let ?cmd = "scsi_op_10 SCSI_OPCODE_READ_10 (offset div 512) (word_of_int (512 * int n sdiv 512))"
    and ?d = "(ms_dev s)\<lparr>bo_naks := 0\<rparr>" and ?bs = "blocks_at (ms_dev s) (offset div 512) n"
  let ?w = "cbw (ms_tag s) (word_of_int (512 * int n)) (cbw_make_flags USB_DIRECTION_IN) 0 ?cmd"
    and ?s = "s\<lparr>ms_tag := ms_tag s + 1, ms_dev := ?d\<rparr>"
  note f = wrapper_fields [OF refl, of "ms_tag s" "word_of_int (512 * int n)" "cbw_make_flags USB_DIRECTION_IN" 0 SCSI_OPCODE_READ_10
      "offset div 512" "word_of_int (512 * int n sdiv 512)"]
  have bs: "blocks_at ?d (offset div 512) n = ?bs" "length ?bs = 512 * n"
    using length_blocks_at [OF assms(2)] by (simp_all add: blocks_at_def)
  have cmd: "bot_out ?w ?d = (ERR_OK, ?d\<lparr>bo_phase := Bot_read (ms_tag s) ?bs\<rparr>)"
    using assms(2) f bs block_count [OF assms(5)]
    by (simp add: bot_out_def disk_ok_def bot_command_def Let_def SCSI_OPCODE_READ_10_def)
  obtain c where c: "ul_bulk bot_link (ep_in m) (replicate sizeof_csw 0) (?d\<lparr>bo_phase := Bot_status (ms_tag s)\<rparr>) =
      Some (Inr (ERR_OK, c, ?d\<lparr>bo_phase := Bot_ready\<rparr>))" "answers (ms_tag s) (512 * int n) c"
    using status_phase [OF assms(1), of "?d\<lparr>bo_phase := Bot_status (ms_tag s)\<rparr>" "ms_tag s" "replicate sizeof_csw 0" "512 * int n"] by auto
  have buf: "length (mem_bytes_at (ms_mem s) dst (512 * n)) = 512 * n" by (simp add: mem_bytes_at_def)
  have "cbw_try bot_link m (ms_tag s) ?w USB_DIRECTION_IN dst (512 * int n) ?s =
    Some (Inr (Inr (ERR_OK, Some (csw_status c)), ?s\<lparr>ms_mem := store_bytes dst ?bs (ms_mem s), ms_dev := ?d\<lparr>bo_phase := Bot_ready\<rparr>\<rparr>))"
    using c(1) buf bs cmd assms(3,4)
    by (simp add: cbw_try_def check_csw_good [OF c(2)] bot_ends [OF assms(1)] bulk_at_def bot_in_def USB_DIRECTION_OUT_def USB_DIRECTION_IN_def Let_def)
  moreover have "?d\<lparr>bo_phase := Bot_ready\<rparr> = ?d" using assms(2) by (simp add: disk_ok_def)
  ultimately show ?thesis
    using transfer_on_disk [OF assms(1), of s ?cmd "512 * int n" USB_DIRECTION_IN 0 dst] assms(2)
    by (simp add: usb_mass_read_def usb_mass_read10_def disk_ok_def)
qed

lemma write_on_disk:
  assumes "mass_ok m" "disk_ok (ms_dev s)" "src \<noteq> NULL" "0 < n" "n < 2 ^ 16"
  shows "usb_mass_write10 bot_link m 0 lba src (512 * int n) s =
    Some (Inr (ERR_OK, s\<lparr>ms_tag := ms_tag s + 1,
      ms_dev := (ms_dev s)\<lparr>bo_naks := 0, bo_disk := put_blocks lba n (mem_bytes_at (ms_mem s) src (512 * n)) (bo_disk (ms_dev s))\<rparr>\<rparr>))"
proof -
  let ?cmd = "scsi_op_10 SCSI_OPCODE_WRITE_10 lba (word_of_int (512 * int n sdiv 512))"
    and ?d = "(ms_dev s)\<lparr>bo_naks := 0\<rparr>" and ?bs = "mem_bytes_at (ms_mem s) src (512 * n)"
  let ?w = "cbw (ms_tag s) (word_of_int (512 * int n)) (cbw_make_flags USB_DIRECTION_OUT) 0 ?cmd"
    and ?s = "s\<lparr>ms_tag := ms_tag s + 1, ms_dev := ?d\<rparr>"
    and ?d' = "?d\<lparr>bo_disk := put_blocks lba n ?bs (bo_disk ?d)\<rparr>"
  note f = wrapper_fields [OF refl, of "ms_tag s" "word_of_int (512 * int n)" "cbw_make_flags USB_DIRECTION_OUT" 0 SCSI_OPCODE_WRITE_10
      lba "word_of_int (512 * int n sdiv 512)"]
  have cmd: "bot_out ?w ?d = (ERR_OK, ?d\<lparr>bo_phase := Bot_write (ms_tag s) lba n\<rparr>)"
    using assms(2) f block_count [OF assms(5)]
    by (simp add: bot_out_def disk_ok_def bot_command_def Let_def SCSI_OPCODE_WRITE_10_def)
  obtain c where c: "ul_bulk bot_link (ep_in m) (replicate sizeof_csw 0) (?d'\<lparr>bo_phase := Bot_status (ms_tag s)\<rparr>) =
      Some (Inr (ERR_OK, c, ?d'\<lparr>bo_phase := Bot_ready\<rparr>))" "answers (ms_tag s) (512 * int n) c"
    using status_phase [OF assms(1), of "?d'\<lparr>bo_phase := Bot_status (ms_tag s)\<rparr>" "ms_tag s" "replicate sizeof_csw 0" "512 * int n"] by auto
  have sz: "nat (512 * int n) = 512 * n" by (simp add: nat_mult_distrib)
  have mem: "store_bytes src ?bs (ms_mem s) = ms_mem s" by (auto simp: store_bytes_def mem_bytes_at_def fun_eq_iff)
  have "cbw_try bot_link m (ms_tag s) ?w USB_DIRECTION_OUT src (512 * int n) ?s =
    Some (Inr (Inr (ERR_OK, Some (csw_status c)), ?s\<lparr>ms_dev := ?d'\<lparr>bo_phase := Bot_ready\<rparr>\<rparr>))"
    using c(1) cmd assms(3,4) mem
    by (simp add: cbw_try_def check_csw_good [OF c(2)] bot_ends [OF assms(1)] bulk_at_def bot_out_def Let_def sz)
  moreover have "?d'\<lparr>bo_phase := Bot_ready\<rparr> = ?d'" using assms(2) by (simp add: disk_ok_def)
  ultimately show ?thesis
    using transfer_on_disk [OF assms(1), of s ?cmd "512 * int n" USB_DIRECTION_OUT 0 src] assms(2)
    by (simp add: usb_mass_write10_def disk_ok_def)
qed

text \<open>C8 (roundtrip). Blocks written to a mass storage device are read back: after \<^verbatim>\<open>usb_mass_write10\<close> at a block number, \<^verbatim>\<open>usb_mass_read\<close> at
  that block's offset in bytes puts the same bytes into memory and changes nothing else there, and all other blocks keep
  their contents. Both calls succeed although the device refuses up to five wrappers before it takes one. Writing counts in
  blocks and reading in bytes.\<close>

theorem mass_write_read_roundtrip:
  assumes "mass_ok m" "disk_ok (ms_dev s)" "src \<noteq> NULL" "dst \<noteq> NULL" "0 < n" "n < 2 ^ 16" "unat lba + n \<le> 2 ^ 23"
  shows "\<exists>s1 s2. usb_mass_write10 bot_link m 0 lba src (512 * int n) s = Some (Inr (ERR_OK, s1)) \<and>
      usb_mass_read bot_link m dst (512 * lba) (512 * int n) s1 = Some (Inr (ERR_OK, s2)) \<and>
      ms_mem s2 = (\<lambda>a. if dst \<le> a \<and> a < dst + 512 * n then ms_mem s (src + (a - dst)) else ms_mem s a) \<and>
      (\<forall>b. unat (b - lba) \<ge> n \<longrightarrow> bo_disk (ms_dev s2) b = bo_disk (ms_dev s) b)"
proof -
  let ?bs = "mem_bytes_at (ms_mem s) src (512 * n)"
  let ?d = "(ms_dev s)\<lparr>bo_naks := 0, bo_disk := put_blocks lba n ?bs (bo_disk (ms_dev s))\<rparr>"
  have len: "length ?bs = 512 * n" by (simp add: mem_bytes_at_def)
  have ok: "disk_ok ?d"
  proof -
    have "length (take 512 (drop (512 * k) ?bs)) = 512" if "k < n" for k using that len by simp
    then show ?thesis using assms(2) by (simp add: disk_ok_def put_blocks_def)
  qed
  have block: "bo_disk ?d (lba + of_nat i) = take 512 (drop (512 * i) ?bs)" if "i < n" for i
  proof -
    have "unat (of_nat i :: u32) = i" using that assms(6) by (simp add: unat_of_nat take_bit_nat_eq_self)
    then show ?thesis using that by (simp add: put_blocks_def)
  qed
  have "blocks_at ?d lba n = concat (map (\<lambda>i. take 512 (drop (512 * i) ?bs)) [0..<n])"
    unfolding blocks_at_def using block by (intro arg_cong [of _ _ concat] map_cong) auto
  also have "\<dots> = ?bs" by (rule concat_chunks) (rule len)
  finally have bs: "blocks_at ?d lba n = ?bs" .
  have "unat (512 * lba) = 512 * unat lba" using assms(5,7) unat_mult_lem [of "512 :: u32" lba] by simp
  then have "512 * lba div 512 = lba" by (simp add: word_unat_eq_iff unat_div)
  then have r: "usb_mass_read bot_link m dst (512 * lba) (512 * int n) (s\<lparr>ms_tag := ms_tag s + 1, ms_dev := ?d\<rparr>) =
    Some (Inr (ERR_OK, s\<lparr>ms_tag := ms_tag s + 1 + 1, ms_mem := store_bytes dst ?bs (ms_mem s), ms_dev := ?d\<rparr>))"
    using read_on_disk [OF assms(1) _ assms(4-6), of "s\<lparr>ms_tag := ms_tag s + 1, ms_dev := ?d\<rparr>" "512 * lba"] ok bs by simp
  have "store_bytes dst ?bs (ms_mem s) = (\<lambda>a. if dst \<le> a \<and> a < dst + 512 * n then ms_mem s (src + (a - dst)) else ms_mem s a)"
    using len by (auto simp: store_bytes_def mem_bytes_at_def fun_eq_iff)
  then show ?thesis using write_on_disk [OF assms(1-3,5,6), of lba] r by (simp add: put_blocks_def)
qed

section \<open>An example\<close>

definition sample_endpoint :: "u8 \<Rightarrow> usb_hcd_endpoint" where
  "sample_endpoint a = endpoint_of sample_device [7, 5, a, 2, 64, 0, 0]"

definition sample_mass :: hcd_mass where
  "sample_mass = \<lparr>m_d = sample_device, ep_out = sample_endpoint 2, ep_in = sample_endpoint 0x81\<rparr>"

definition sample_disk :: "bot mass_state" where
  "sample_disk = \<lparr>ms_tag = 7, ms_mem = (\<lambda>a. of_nat a),
     ms_dev = \<lparr>bo_phase = Bot_ready, bo_disk = (\<lambda>_. replicate 512 0), bo_naks = 2\<rparr>\<rparr>"

lemma sample_mass_ok: "mass_ok sample_mass" "disk_ok (ms_dev sample_disk)"
  by (simp_all add: mass_ok_def sample_mass_def sample_endpoint_def endpoint_of_def hcd_endpoint_get_direction_def
      usb_endpoint_descriptor_get_direction_def USB_DIRECTION_OUT_def disk_ok_def sample_disk_def)

theorem mass_write_read_roundtrip_witness:
  "\<exists>s1 s2. usb_mass_write10 bot_link sample_mass 0 9 1000 1024 sample_disk = Some (Inr (ERR_OK, s1)) \<and>
     usb_mass_read bot_link sample_mass 5000 (512 * 9) 1024 s1 = Some (Inr (ERR_OK, s2)) \<and>
     ms_mem s2 5700 = of_nat 1700 \<and> bo_disk (ms_dev s2) 3 = replicate 512 0"
proof -
  have "512 * int 2 = 1024" by simp
  then obtain s1 s2 where s: "usb_mass_write10 bot_link sample_mass 0 9 1000 1024 sample_disk = Some (Inr (ERR_OK, s1))"
    "usb_mass_read bot_link sample_mass 5000 (512 * 9) 1024 s1 = Some (Inr (ERR_OK, s2))"
    and mem: "ms_mem s2 = (\<lambda>a. if 5000 \<le> a \<and> a < 5000 + 512 * 2 then ms_mem sample_disk (1000 + (a - 5000)) else ms_mem sample_disk a)"
    and rest: "\<forall>b. unat (b - 9) \<ge> 2 \<longrightarrow> bo_disk (ms_dev s2) b = bo_disk (ms_dev sample_disk) b"
    using mass_write_read_roundtrip [OF sample_mass_ok, of 1000 5000 2 9] by auto
  have "bo_disk (ms_dev s2) 3 = bo_disk (ms_dev sample_disk) 3" using rest by (simp add: unat_sub_if')
  then show ?thesis using s mem by (simp add: sample_disk_def)
qed

definition sample_refusing :: "unit usb_link" where
  "sample_refusing = \<lparr>ul_bulk = (\<lambda>_ buf d. Some (Inr (ERR_RETRY, buf, d))), ul_control = (\<lambda>_ _ buf _ d. Some (Inr (ERR_OK, buf, 0, d)))\<rparr>"

theorem cbw_transfer_bounded_witness:
  "\<exists>s'. usb_cbw_transfer (counting sample_refusing) sample_mass 0 [0, 0, 0, 0, 0, 0] USB_DIRECTION_IN NULL 0
      \<lparr>ms_tag = 0, ms_mem = (\<lambda>_. 0), ms_dev = ((), 0)\<rparr> = Some (Inr (ERR_RETRY, None, s')) \<and> snd (ms_dev s') \<le> 18"
proof -
  have "\<exists>s'. usb_cbw_transfer (counting sample_refusing) sample_mass 0 [0, 0, 0, 0, 0, 0] USB_DIRECTION_IN NULL 0
      \<lparr>ms_tag = 0, ms_mem = (\<lambda>_. 0), ms_dev = ((), 0)\<rparr> = Some (Inr (ERR_RETRY, None, s'))"
    by (simp add: usb_cbw_transfer_def CBW_RETRIES_def cbw_loop.simps cbw_try_def counting_def sample_refusing_def ERR_RETRY_def
        ERR_OK_def eval_nat_numeral Let_def)
  then show ?thesis using cbw_transfer_bounded by fastforce
qed

theorem cbw_transfer_answered_witness:
  "\<exists>s' d c. usb_cbw_transfer bot_link sample_mass 0 (scsi_op_10 SCSI_OPCODE_READ_CAPACITY_10 0 0) USB_DIRECTION_IN NULL 0 sample_disk =
      Some (Inr (ERR_OK, Some CSW_STATUS_GOOD, s')) \<and>
    ul_bulk bot_link (ep_in sample_mass) (replicate sizeof_csw 0) d = Some (Inr (ERR_OK, c, ms_dev s')) \<and> answers 7 0 c"
proof -
  let ?cmd = "scsi_op_10 SCSI_OPCODE_READ_CAPACITY_10 0 0" and ?d = "(ms_dev sample_disk)\<lparr>bo_naks := 0\<rparr>"
  let ?w = "cbw 7 (word_of_int 0) (cbw_make_flags USB_DIRECTION_IN) 0 ?cmd" and ?s = "sample_disk\<lparr>ms_tag := 8, ms_dev := ?d\<rparr>"
  note f = wrapper_fields [OF refl, of 7 "word_of_int 0" "cbw_make_flags USB_DIRECTION_IN" 0 SCSI_OPCODE_READ_CAPACITY_10 0 0]
  have cmd: "bot_out ?w ?d = (ERR_OK, ?d\<lparr>bo_phase := Bot_status 7\<rparr>)"
    using f by (simp add: bot_out_def bot_command_def Let_def SCSI_OPCODE_READ_CAPACITY_10_def sample_disk_def)
  obtain c where c: "ul_bulk bot_link (ep_in sample_mass) (replicate sizeof_csw 0) (?d\<lparr>bo_phase := Bot_status 7\<rparr>) =
      Some (Inr (ERR_OK, c, ?d\<lparr>bo_phase := Bot_ready\<rparr>))" "answers 7 0 c" "csw_status c = CSW_STATUS_GOOD"
    using status_phase [OF sample_mass_ok(1), of "?d\<lparr>bo_phase := Bot_status 7\<rparr>" 7 "replicate sizeof_csw 0" 0] by auto
  have "cbw_try bot_link sample_mass 7 ?w USB_DIRECTION_IN NULL 0 ?s =
    Some (Inr (Inr (ERR_OK, Some CSW_STATUS_GOOD), ?s\<lparr>ms_dev := ?d\<lparr>bo_phase := Bot_ready\<rparr>\<rparr>))"
    using c(1) cmd c(3) by (simp add: cbw_try_def check_csw_good [OF c(2)] bot_ends [OF sample_mass_ok(1)] Let_def)
  then have "usb_cbw_transfer bot_link sample_mass 0 ?cmd USB_DIRECTION_IN NULL 0 sample_disk =
    Some (Inr (ERR_OK, Some CSW_STATUS_GOOD, ?s\<lparr>ms_dev := ?d\<lparr>bo_phase := Bot_ready\<rparr>\<rparr>))"
    by (intro transfer_on_disk) (use sample_mass_ok in \<open>simp_all add: sample_disk_def disk_ok_def\<close>)
  from this cbw_transfer_answered [OF this] show ?thesis by (auto simp: sample_disk_def)
qed

end
