(* ===== verification/Spec2Isabelle.thy ===== *)
theory Spec2Isabelle
  imports Sched_Props Kmalloc Mmu Sprintf Emmc_card Pipe Shiftreg Console Dma_memory Usb_queue_props Usb_mass
begin

text \<open>
  A verification development of \<^verbatim>\<open>arm64_os\<close>, an operating system kernel for the Raspberry Pi 3 (Broadcom 2835,
  ARMv8). The kernel boots on the bare machine (\<^verbatim>\<open>src/kernel8.c\<close>), builds its translation tables, starts a
  scheduler that timer interrupts preempt, and talks to devices through memory-mapped registers: pins, serial
  buses, the video processor behind a mailbox, an SD card with a FAT32 file system, USB.

  \<^bold>\<open>Theories and source files\<close>

  \<^item> \<open>Prelude\<close>: C integer types as words (\<^verbatim>\<open>include/types.h\<close>), error codes (\<^verbatim>\<open>include/error.h\<close>), \<^verbatim>\<open>BUG\<close> as the left
    side of a sum (\<^verbatim>\<open>include/bug.h\<close>), shared lemmas on lists and words.
  \<^item> \<open>Linked_List\<close>: the intrusive lists of \<^verbatim>\<open>include/list.h\<close> over a heap of next and previous pointers. The locale
    \<open>ring_store\<close> states what a store of disjoint rings promises; its interpretation \<open>ll\<close> proves it for the list
    operations. The scheduler and the DMA allocator rest on \<open>ll\<close>.
  \<^item> \<open>Sched\<close>, \<open>Sched_Spec\<close>, \<open>Sched_Props\<close>: \<^verbatim>\<open>sched.c\<close> and \<^verbatim>\<open>include/sched.h\<close>. \<open>Sched\<close> translates the pointer-level code;
    \<open>Sched_Spec\<close> has the abstract scheduler on lists of tasks and the simulation; \<open>Sched_Props\<close> the step relation of
    interrupts, waits and wakeups, its invariant, and the properties of the reachable states.
  \<^item> \<open>Kmalloc\<close>: \<^verbatim>\<open>kmalloc.c\<close> and \<^verbatim>\<open>include/math.h\<close>. \<open>Dma_memory\<close>: \<^verbatim>\<open>dma_memory.c\<close>, \<^verbatim>\<open>include/memory/chunk.h\<close>; where the
    linker puts the arrays is a parameter (\<open>linkage\<close>).
  \<^item> \<open>Mmu\<close>: \<^verbatim>\<open>arch/armv8/mmu.c\<close> with a walk of the tables by the hardware.
  \<^item> \<open>Stringlib\<close>, \<open>Strtol\<close>, \<open>Sprintf\<close>: \<^verbatim>\<open>lib/stringlib/*.c\<close> over a byte memory. \<open>vsnprintf\<close> takes the variadic
    arguments as a list of words.
  \<^item> \<open>Fat32\<close>, \<open>Fs\<close>: \<^verbatim>\<open>fs/fat32/fat32.c\<close>, \<^verbatim>\<open>fs/fs.c\<close>, the block devices and partitions; reading a sector is a parameter
    of the block device.
  \<^item> \<open>Ringbuf\<close>, \<open>Pipe\<close>: \<^verbatim>\<open>ringbuf.c\<close>, \<^verbatim>\<open>pipe.c\<close>. The locale \<open>char_queue\<close> is what the pipe needs of the ring buffer.
  \<^item> \<open>Gpio\<close>, \<open>Gpio_Set\<close>: the pin driver, and the ownership of pins (\<^verbatim>\<open>gpio_set.c\<close>, locale \<open>pin_owners\<close>).
    \<open>Spi_Emulated\<close>: \<^verbatim>\<open>spi/spi_emulated.c\<close>, a serial bus on pins, with master and slave. \<open>Shiftreg\<close>: the 74HC595 driver.
  \<^item> \<open>Mbox\<close>: \<^verbatim>\<open>mbox/mbox_props.c\<close>, the messages to the video processor, which is a parameter.
  \<^item> \<open>Rectangle\<close>, \<open>Vcanvas\<close>, \<open>Viewport_console\<close>, \<open>Console\<close>: \<^verbatim>\<open>rectangle.c\<close>, \<^verbatim>\<open>vcanvas.c\<close>, \<^verbatim>\<open>viewport_console.c\<close>,
    \<^verbatim>\<open>console.c\<close>, \<^verbatim>\<open>video_console.c\<close>: from the intersection of rectangles to pixels in the frame buffer, text in a
    scrolling viewport and the console devices the kernel writes to.
  \<^item> \<open>Emmc_regs\<close>, \<open>Emmc\<close>: \<^verbatim>\<open>board/bcm2835/emmc\<close>, the SD card driver: its registers, waits, commands and data, initialisation. \<open>Emmc_card\<close>:
    a controller with a card, on which the driver keeps the contract that \<open>Fs\<close> asks of it; with it the image writer is followed from
    the file system down to the sectors of the card. The initialisation of the driver is shown to fail.
  \<^item> \<open>Mmio\<close>: device registers (\<^verbatim>\<open>include/reg_access.h\<close>) over a device that is a parameter, bits and fields of registers
    (\<^verbatim>\<open>include/bits_api.h\<close>). \<open>Dwc2_regs\<close>: addresses and fields of the USB controller. \<open>Usb_std\<close>: constants and requests
    of the USB standard.
  \<^item> \<open>Root_hub\<close>: \<^verbatim>\<open>board/bcm2835/usb/root_hub.c\<close>, the hub that the driver itself plays. \<open>Usb_config\<close>: the parser of configuration
    descriptors (\<^verbatim>\<open>usb_hcd_parse_configuration\<close> in \<^verbatim>\<open>hcd.c\<close>).
  \<^item> \<open>Dwc2_core\<close>, \<open>Dwc2_channel\<close>, \<open>Dwc2_irq\<close>: \<^verbatim>\<open>board/bcm2835/usb/dwc2*.c\<close>, the USB controller: its start, its channels and
    how transfers are programmed into them, its interrupts. A channel is its number.
  \<^item> \<open>Static_slot\<close>: the object pools of \<^verbatim>\<open>include/memory/static_slot.h\<close>.
  \<^item> \<open>Usb_xfer_queue\<close>, \<open>Hcd_transfer\<close>, \<open>Usb_queue_props\<close>: \<^verbatim>\<open>usb_xfer_queue.c\<close> and \<^verbatim>\<open>hcd_transfer.c\<close>. Transfers are chains of jobs;
    \<open>chain_at\<close> is the state of the queue while the controller works on a job, and the lemmas lead from each job to the
    next and to the end of the chain, where every object is back in its pool.
  \<^item> \<open>Usb_mass\<close>: \<^verbatim>\<open>hcd_mass.c\<close>, \<^verbatim>\<open>usb_mass.h\<close>: mass storage over bulk transfers, from the control messages to reading and writing
    blocks. The transfers are a parameter (\<open>usb_link\<close>); a drive on the other end is a model of its own.

  \<^bold>\<open>Conventions\<close>

  An error code is an \<^typ>\<open>int\<close> result. A panic, and an access that C leaves undefined, is \<open>Inl\<close> of a message.
  A loop that may not end is \<open>partial_function (option)\<close>, and \<open>None\<close> is not returning; the properties that need it state
  that the loop returns. Device registers are parameters or logs of the writes. Locks and masks of interrupts leave no
  trace in the sequential operations; the interleaving of interrupts with the kernel is in the step relation of
  \<open>Sched_Props\<close>. Messages that the code prints for debugging are left out.

  \<^bold>\<open>Bounds\<close>

  \<open>base10_loop\<close> in \<open>Sprintf\<close> has 64 steps of fuel, and the divisor starts at \<open>10 ^ 19\<close> and loses a digit each step.
  The cluster chains of \<open>Fat32\<close> and the rings of \<open>Linked_List\<close> need none.
  The waits for bits of USB registers are \<open>partial_function (option)\<close>. The properties assume controllers that set the bits:
  \<open>core_regs\<close> does so after any number of reads.

  \<^bold>\<open>Not modelled\<close>

  \<^verbatim>\<open>board/bcm2835/vchiq\<close> and \<^verbatim>\<open>board/bcm2835/bcm2835-camera\<close> are drivers taken from Linux. Boot code in assembly, exception
  vectors and context switches are hardware-bound. The list of components in the manifest names every other part
  that is left out, with the reason.
\<close>


end
